(* ===== verification/Prelude.thy ===== *)
theory Prelude
  imports Main "HOL-Library.Word"
begin

text \<open>
  What every component of the development shares: the exceptions of the program, the two result
  types (a reading function that consumes an input and may throw, an operation on the server's
  state that may throw, block on the semaphore or run into undefined behaviour), the sequencing
  of both, and the collections of rewrite rules the component theories fill.
\<close>

section \<open>Automation\<close>

named_theorems path_simps \<open>splitting path strings into components\<close>
named_theorems read_simps \<open>running the reading functions on a stream\<close>
named_theorems fs_simps \<open>look-ups in an updated file system\<close>
named_theorems prog_simps \<open>running operations on the server's state\<close>

section \<open>Types\<close>

type_synonym uint32 = "32 word"

text \<open>
  The exception classes of the program (shared/protocol.hpp, shared/utils.hpp,
  server/database.hpp, server/server.hpp, client/client.hpp), and the three exceptions of the standard library that the code can raise
  and does not name: what stol and stoi throw, and what std::filesystem throws.
\<close>

datatype exn =
    UnexpectedMessageException
  | ERRCodeMessageException
  | InvalidMessageException
  | MessageBuildingException
  | MessageSendException
  | MessageReceiveException
  | ConnectionTimeoutException
  | FileException
  | SemException
  | AuctionNotFound
  | UserNotLoggedIn
  | UserDoesNotExist
  | IncorrectPassword
  | AuctionNotOwnedByUser
  | AuctionAlreadyClosed
  | AssetDoesNotExist
  | LargerBidAlreadyExists
  | BidOnSelf
  | SocketException
  | ResolveHostnameException
  | UnrecoverableException
  | Std_invalid_argument
  | Std_out_of_range
  | Std_filesystem_error

section \<open>Functions that may throw\<close>

definition bindE :: "exn + 'a \<Rightarrow> ('a \<Rightarrow> exn + 'b) \<Rightarrow> exn + 'b" where
  "bindE m f = (case m of Inl e \<Rightarrow> Inl e | Inr x \<Rightarrow> f x)"

lemma bindE_simps [simp]:
  "bindE (Inl e) f = Inl e"
  "bindE (Inr x) f = f x"
  by (simp_all add: bindE_def)

lemma bindE_eq_Inr_iff: "bindE m f = Inr y \<longleftrightarrow> (\<exists>x. m = Inr x \<and> f x = Inr y)"
  by (cases m) auto

section \<open>Reading functions\<close>

text \<open>
  A reading function takes a state \<open>'b\<close> of a message adapter and returns the value read and the
  state after it, or the exception thrown. No caller looks at the adapter after an exception, so
  the exception carries no state.
\<close>

type_synonym ('a, 'b) read_result = "exn + ('a \<times> 'b)"

definition bindR :: "('a, 'b) read_result \<Rightarrow> ('a \<Rightarrow> 'b \<Rightarrow> ('c, 'b) read_result) \<Rightarrow> ('c, 'b) read_result" where
  "bindR m f = (case m of Inl e \<Rightarrow> Inl e | Inr (x, b) \<Rightarrow> f x b)"

text \<open>A conversion that may throw, applied to a value already read.\<close>

definition liftR :: "exn + 'a \<Rightarrow> 'b \<Rightarrow> ('a, 'b) read_result" where
  "liftR m b = (case m of Inl e \<Rightarrow> Inl e | Inr x \<Rightarrow> Inr (x, b))"

lemma bindR_simps [simp]:
  "bindR (Inl e) f = Inl e"
  "bindR (Inr (x, b)) f = f x b"
  by (simp_all add: bindR_def)

lemma liftR_simps [simp]:
  "liftR (Inl e) b = Inl e"
  "liftR (Inr x) b = Inr (x, b)"
  by (simp_all add: liftR_def)

lemma bindR_eq_Inr_iff: "bindR m f = Inr r \<longleftrightarrow> (\<exists>x b. m = Inr (x, b) \<and> f x b = Inr r)"
  by (cases m) (auto simp: bindR_def)

section \<open>Operations on a state\<close>

text \<open>
  An operation on the state \<open>'s\<close> returns a value, throws, never returns because it waits on a
  semaphore nobody posts (\<open>Block\<close>), or does something the C++ standard leaves undefined
  (\<open>Undef\<close>). The state reached is kept in each case: what a handler that throws has written
  stays written.
\<close>

datatype 'a outcome = Ret 'a | Throw exn | Block | Undef

type_synonym ('a, 's) prog = "'s \<Rightarrow> 'a outcome \<times> 's"

definition ret :: "'a \<Rightarrow> ('a, 's) prog" where
  "ret x w = (Ret x, w)"

definition throw :: "exn \<Rightarrow> ('a, 's) prog" where
  "throw e w = (Throw e, w)"

definition undef :: "('a, 's) prog" where
  "undef w = (Undef, w)"

definition bindP :: "('a, 's) prog \<Rightarrow> ('a \<Rightarrow> ('b, 's) prog) \<Rightarrow> ('b, 's) prog" where
  "bindP m f w =
     (case m w of
        (Ret x, w') \<Rightarrow> f x w'
      | (Throw e, w') \<Rightarrow> (Throw e, w')
      | (Block, w') \<Rightarrow> (Block, w')
      | (Undef, w') \<Rightarrow> (Undef, w'))"

text \<open>A value that a throwing function computes.\<close>

definition liftP :: "exn + 'a \<Rightarrow> ('a, 's) prog" where
  "liftP m w = (case m of Inl e \<Rightarrow> (Throw e, w) | Inr x \<Rightarrow> (Ret x, w))"

text \<open>
  \<open>try_catch m h\<close> is a try block: \<open>h\<close> is its list of catch clauses, which sees the exception in the
  state the body left.
\<close>

definition try_catch :: "('a, 's) prog \<Rightarrow> (exn \<Rightarrow> ('a, 's) prog) \<Rightarrow> ('a, 's) prog" where
  "try_catch m h w = (case m w of (Throw e, w') \<Rightarrow> h e w' | r \<Rightarrow> r)"

lemma ret_run [simp, prog_simps]: "ret x w = (Ret x, w)"
  by (simp add: ret_def)

lemma throw_run [simp, prog_simps]: "throw e w = (Throw e, w)"
  by (simp add: throw_def)

lemma undef_run [simp, prog_simps]: "undef w = (Undef, w)"
  by (simp add: undef_def)

lemma liftP_run [simp, prog_simps]:
  "liftP (Inl e) w = (Throw e, w)"
  "liftP (Inr x) w = (Ret x, w)"
  by (simp_all add: liftP_def)

lemma bindP_run:
  "m w = (Ret x, w') \<Longrightarrow> bindP m f w = f x w'"
  "m w = (Throw e, w') \<Longrightarrow> bindP m f w = (Throw e, w')"
  "m w = (Block, w') \<Longrightarrow> bindP m f w = (Block, w')"
  "m w = (Undef, w') \<Longrightarrow> bindP m f w = (Undef, w')"
  by (simp_all add: bindP_def)

lemma bindP_simps [simp, prog_simps]:
  "bindP (ret x) f w = f x w"
  "bindP (throw e) f w = (Throw e, w)"
  "bindP (liftP (Inr x)) f w = f x w"
  "bindP (liftP (Inl e)) f w = (Throw e, w)"
  by (simp_all add: bindP_def)

lemma bindP_assoc: "bindP (bindP m f) g w = bindP m (\<lambda>x. bindP (f x) g) w"
  by (auto simp: bindP_def split: outcome.splits prod.splits)

lemma try_catch_run:
  "m w = (Ret x, w') \<Longrightarrow> try_catch m h w = (Ret x, w')"
  "m w = (Throw e, w') \<Longrightarrow> try_catch m h w = h e w'"
  "m w = (Block, w') \<Longrightarrow> try_catch m h w = (Block, w')"
  "m w = (Undef, w') \<Longrightarrow> try_catch m h w = (Undef, w')"
  by (simp_all add: try_catch_def)

text \<open>
  A program preserves a property of the state when it holds of the state left, however the program
  ends. The rules are those of the program's structure.
\<close>

definition preserves :: "('s \<Rightarrow> bool) \<Rightarrow> ('a, 's) prog \<Rightarrow> bool" where
  "preserves P m \<longleftrightarrow> (\<forall>w. P w \<longrightarrow> P (snd (m w)))"

lemma preservesI: "(\<And>w. P w \<Longrightarrow> P (snd (m w))) \<Longrightarrow> preserves P m"
  by (simp add: preserves_def)

lemma preservesD: "preserves P m \<Longrightarrow> P w \<Longrightarrow> P (snd (m w))"
  by (simp add: preserves_def)

lemma preserves_basic [simp, intro]:
  "preserves P (ret x)" "preserves P (throw e)" "preserves P undef" "preserves P (liftP m)" "preserves P (Pair r)"
  by (auto simp: preserves_def liftP_def split: sum.splits)

lemma preserves_bindP:
  assumes "preserves P m" and "\<And>x. preserves P (k x)"
  shows "preserves P (bindP m k)"
proof (rule preservesI)
  fix w
  assume "P w"
  then have w: "P (snd (m w))" by (rule preservesD [OF assms(1)])
  show "P (snd (bindP m k w))"
    using w preservesD [OF assms(2)] by (cases "m w"; cases "fst (m w)") (auto simp: bindP_def)
qed

lemma preserves_liftP_bindP:
  assumes "\<And>x. r = Inr x \<Longrightarrow> preserves P (k x)"
  shows "preserves P (bindP (liftP r) k)"
  using assms by (cases r) (auto simp: preserves_def)

lemma preserves_try_catch:
  assumes "preserves P m" and "\<And>e. preserves P (h e)"
  shows "preserves P (try_catch m h)"
proof (rule preservesI)
  fix w
  assume "P w"
  then have w: "P (snd (m w))" by (rule preservesD [OF assms(1)])
  show "P (snd (try_catch m h w))"
    using w preservesD [OF assms(2)] by (cases "m w"; cases "fst (m w)") (auto simp: try_catch_def)
qed

lemma preserves_if: "(c \<Longrightarrow> preserves P m) \<Longrightarrow> (\<not> c \<Longrightarrow> preserves P m') \<Longrightarrow> preserves P (if c then m else m')"
  by simp

section \<open>Lists\<close>

lemma takeWhile_append_stop: "\<forall>x \<in> set xs. P x \<Longrightarrow> \<not> P y \<Longrightarrow> takeWhile P (xs @ y # ys) = xs"
  by (induction xs) auto

lemma dropWhile_append_stop: "\<forall>x \<in> set xs. P x \<Longrightarrow> \<not> P y \<Longrightarrow> dropWhile P (xs @ y # ys) = y # ys"
  by (induction xs) auto

lemma takeWhile_all: "\<forall>x \<in> set xs. P x \<Longrightarrow> takeWhile P xs = xs"
  by (induction xs) auto

lemma dropWhile_all: "\<forall>x \<in> set xs. P x \<Longrightarrow> dropWhile P xs = []"
  by (induction xs) auto

end
