(* ===== verification/Cxx_Std.thy ===== *)
theory Cxx_Std
  imports Prelude
begin

text \<open>
  What the program uses of the C and C++ standard libraries on strings and numbers: character
  classes in the C locale, stol and stoi, std::to_string and operator<< on unsigned numbers,
  sprintf with zero padding, fgets, and the word splitting of operator>>. The round trips between
  printing and parsing a number are here too.
\<close>

section \<open>Character classes\<close>

definition isdigit :: "char \<Rightarrow> bool" where
  "isdigit c \<longleftrightarrow> 48 \<le> (of_char c :: nat) \<and> (of_char c :: nat) \<le> 57"

definition isalnum :: "char \<Rightarrow> bool" where
  "isalnum c \<longleftrightarrow>
     isdigit c \<or>
     (65 \<le> (of_char c :: nat) \<and> (of_char c :: nat) \<le> 90) \<or>
     (97 \<le> (of_char c :: nat) \<and> (of_char c :: nat) \<le> 122)"

definition isprint :: "char \<Rightarrow> bool" where
  "isprint c \<longleftrightarrow> 32 \<le> (of_char c :: nat) \<and> (of_char c :: nat) \<le> 126"

definition isspace :: "char \<Rightarrow> bool" where
  "isspace c \<longleftrightarrow> (of_char c :: nat) = 32 \<or> (9 \<le> (of_char c :: nat) \<and> (of_char c :: nat) \<le> 13)"

text \<open>
  The characters a field of the protocol may not hold: a space or a newline ends it. A string
  passed as a C string ends at its first NUL.
\<close>

definition is_sep :: "char \<Rightarrow> bool" where
  "is_sep c \<longleftrightarrow> c = CHR '' '' \<or> c = CHR 0x0A"

definition NUL :: char where
  "NUL = CHR 0x00"

definition c_str :: "string \<Rightarrow> string" where
  "c_str s = takeWhile (\<lambda>c. c \<noteq> NUL) s"

lemma isdigit_not [simp]:
  "isdigit c \<Longrightarrow> \<not> isspace c"
  "isdigit c \<Longrightarrow> \<not> is_sep c"
  "isdigit c \<Longrightarrow> c \<noteq> NUL"
  "isdigit c \<Longrightarrow> c \<noteq> CHR ''/''"
  "isdigit c \<Longrightarrow> c \<noteq> CHR ''.''"
  "isdigit c \<Longrightarrow> c \<noteq> CHR ''-''"
  "isdigit c \<Longrightarrow> c \<noteq> CHR ''+''"
  by (auto simp: isdigit_def isspace_def is_sep_def NUL_def)

lemma isdigit_consts [simp]:
  "\<not> isdigit NUL" "\<not> isdigit (CHR '' '')" "\<not> isdigit (CHR 0x0A)"
  "\<not> isdigit (CHR ''/'')" "\<not> isdigit (CHR ''.'')" "\<not> isdigit (CHR ''-'')"
  "\<not> isdigit (CHR '':'')" "\<not> isdigit (CHR ''_'')"
  by (simp_all add: isdigit_def NUL_def)

lemma isalnum_consts [simp]:
  "\<not> isalnum NUL" "\<not> isalnum (CHR '' '')" "\<not> isalnum (CHR 0x0A)"
  by (simp_all add: isalnum_def isdigit_def NUL_def)

lemma isdigit_isalnum: "isdigit c \<Longrightarrow> isalnum c"
  by (simp add: isalnum_def)

lemma isalnum_not [simp]:
  "isalnum c \<Longrightarrow> \<not> isspace c"
  "isalnum c \<Longrightarrow> \<not> is_sep c"
  "isalnum c \<Longrightarrow> c \<noteq> NUL"
  "isalnum c \<Longrightarrow> c \<noteq> CHR 0x0A"
  by (auto simp: isalnum_def isdigit_def isspace_def is_sep_def NUL_def)

lemma c_str_id: "NUL \<notin> set s \<Longrightarrow> c_str s = s"
  unfolding c_str_def by (rule takeWhile_all) auto

lemma c_str_append: "NUL \<notin> set s \<Longrightarrow> c_str (s @ t) = s @ c_str t"
  unfolding c_str_def by (induction s) auto

lemma c_str_Nil [simp]: "c_str [] = []"
  by (simp add: c_str_def)

lemma set_c_str: "set (c_str s) \<subseteq> set s - {NUL}"
  unfolding c_str_def by (auto dest: set_takeWhileD)

section \<open>Printing numbers\<close>

definition digit_char :: "nat \<Rightarrow> char" where
  "digit_char d = ''0123456789'' ! d"

fun nat_str :: "nat \<Rightarrow> string" where
  "nat_str n = (if n < 10 then [digit_char n] else nat_str (n div 10) @ [digit_char (n mod 10)])"

declare nat_str.simps [simp del]

text \<open>std::to_string and operator<< on a uint32_t.\<close>

definition to_string :: "uint32 \<Rightarrow> string" where
  "to_string w = nat_str (unat w)"

text \<open>
  sprintf with \<open>%0<w>d\<close> on a number that is not negative: zeros on the left up to the width, and
  no cut where the number is longer.
\<close>

definition pad0 :: "nat \<Rightarrow> nat \<Rightarrow> string" where
  "pad0 w n = replicate (w - length (nat_str n)) (CHR ''0'') @ nat_str n"

text \<open>sprintf with \<open>%<w>u\<close>: spaces on the left.\<close>

definition pad_space :: "nat \<Rightarrow> nat \<Rightarrow> string" where
  "pad_space w n = replicate (w - length (nat_str n)) (CHR '' '') @ nat_str n"

section \<open>Parsing numbers\<close>

definition digit_val :: "char \<Rightarrow> nat" where
  "digit_val c = of_char c - 48"

definition digits_val :: "string \<Rightarrow> nat" where
  "digits_val s = foldl (\<lambda>n c. 10 * n + digit_val c) 0 s"

text \<open>
  strtol in base 10 on a C string: white space, an optional sign, digits; \<open>None\<close> where there is no
  digit. The value is not yet cut to a machine width.
\<close>

definition strtol :: "string \<Rightarrow> int option" where
  "strtol str =
     (let s = dropWhile isspace (c_str str);
          neg = (s \<noteq> [] \<and> hd s = CHR ''-'');
          s' = (if s \<noteq> [] \<and> (hd s = CHR ''-'' \<or> hd s = CHR ''+'') then tl s else s);
          ds = takeWhile isdigit s'
      in if ds = [] then None
         else Some (if neg then - int (digits_val ds) else int (digits_val ds)))"

text \<open>std::stol (a 64-bit long) and std::stoi (a 32-bit int).\<close>

definition stol :: "string \<Rightarrow> exn + int" where
  "stol str =
     (case strtol str of
        None \<Rightarrow> Inl Std_invalid_argument
      | Some v \<Rightarrow> if - (2 ^ 63) \<le> v \<and> v < 2 ^ 63 then Inr v else Inl Std_out_of_range)"

definition stoi :: "string \<Rightarrow> exn + int" where
  "stoi str =
     (case strtol str of
        None \<Rightarrow> Inl Std_invalid_argument
      | Some v \<Rightarrow> if - (2 ^ 31) \<le> v \<and> v < 2 ^ 31 then Inr v else Inl Std_out_of_range)"

text \<open>static_cast<uint32_t> of what stol and stoi return.\<close>

definition u32_of_int :: "int \<Rightarrow> uint32" where
  "u32_of_int v = word_of_int v"

section \<open>Printing and parsing agree\<close>

lemma digit_char_cases: "d < 10 \<Longrightarrow> d \<in> {0, 1, 2, 3, 4, 5, 6, 7, 8, 9 :: nat}"
  by auto

lemma digit_char_props:
  assumes "d < 10"
  shows "isdigit (digit_char d)" and "digit_val (digit_char d) = d"
  using digit_char_cases [OF assms] by (auto simp: digit_char_def isdigit_def digit_val_def)

lemma nat_str_digits: "c \<in> set (nat_str n) \<Longrightarrow> isdigit c"
proof (induction n rule: nat_str.induct)
  case (1 n)
  then show ?case
    by (subst (asm) nat_str.simps) (auto split: if_splits simp: digit_char_props)
qed

lemma nat_str_not_Nil [simp]: "nat_str n \<noteq> []"
  by (subst nat_str.simps) simp

lemma digits_val_snoc: "digits_val (s @ [c]) = 10 * digits_val s + digit_val c"
  by (simp add: digits_val_def)

lemma digits_val_nat_str [simp]: "digits_val (nat_str n) = n"
proof (induction n rule: nat_str.induct)
  case (1 n)
  show ?case
  proof (cases "n < 10")
    case True
    then show ?thesis
      by (subst nat_str.simps) (simp add: digits_val_def digit_char_props)
  next
    case False
    with 1 have "digits_val (nat_str (n div 10)) = n div 10" by simp
    with False show ?thesis
      by (subst nat_str.simps) (simp add: digits_val_snoc digit_char_props)
  qed
qed

lemma digits_val_zeros: "digits_val (replicate k (CHR ''0'') @ s) = digits_val s"
  by (induction k) (simp_all add: digits_val_def digit_val_def)

lemma length_nat_str_le: "n < 10 ^ k \<Longrightarrow> 0 < k \<Longrightarrow> length (nat_str n) \<le> k"
proof (induction n arbitrary: k rule: nat_str.induct)
  case (1 n)
  show ?case
  proof (cases "n < 10")
    case True
    with "1.prems" show ?thesis by (subst nat_str.simps) simp
  next
    case False
    then have "k \<noteq> 1" using "1.prems" by auto
    with "1.prems"(2) obtain j where k: "k = Suc j" and j: "0 < j"
      by (cases k) auto
    have "n div 10 < 10 ^ j"
      using "1.prems" k by (simp add: less_mult_imp_div_less mult.commute)
    with False 1 j have "length (nat_str (n div 10)) \<le> j" by simp
    with False k show ?thesis by (subst nat_str.simps) simp
  qed
qed

lemma length_nat_str_ge: "10 ^ k \<le> n \<Longrightarrow> k < length (nat_str n)"
proof (induction k arbitrary: n)
  case 0
  then show ?case by simp
next
  case (Suc k)
  have "1 \<le> (10::nat) ^ k" by simp
  then have n: "\<not> n < 10" using Suc.prems unfolding power_Suc by linarith
  have "10 ^ k \<le> n div 10" using Suc.prems by (simp add: less_eq_div_iff_mult_less_eq mult.commute)
  then have "k < length (nat_str (n div 10))" by (rule Suc.IH)
  with n show ?case by (subst nat_str.simps) simp
qed

lemma length_nat_str_eq: "10 ^ k \<le> n \<Longrightarrow> n < 10 ^ Suc k \<Longrightarrow> length (nat_str n) = Suc k"
  using length_nat_str_le [of n "Suc k"] length_nat_str_ge [of k n] by simp

lemma nat_str_inj: "nat_str m = nat_str n \<longleftrightarrow> m = n"
  by (metis digits_val_nat_str)

text \<open>A string of digits, read as a number.\<close>

lemma digits_dropWhile_space: "\<forall>c \<in> set s. isdigit c \<Longrightarrow> dropWhile isspace s = s"
  by (cases s) auto

lemma strtol_digits:
  assumes "s \<noteq> []" and "\<forall>c \<in> set s. isdigit c"
  shows "strtol s = Some (int (digits_val s))"
proof -
  have "isdigit (hd s)" using assms by (cases s) auto
  moreover from this have "hd s \<noteq> CHR ''-''" and "hd s \<noteq> CHR ''+''" by auto
  moreover have c: "c_str s = s" using assms(2) by (intro c_str_id) auto
  moreover have t: "takeWhile isdigit s = s" using assms(2) by (intro takeWhile_all)
  ultimately show ?thesis
    using assms by (simp add: strtol_def digits_dropWhile_space Let_def c t)
qed

lemma stol_digits:
  assumes "s \<noteq> []" and "\<forall>c \<in> set s. isdigit c" and "digits_val s < 2 ^ 63"
  shows "stol s = Inr (int (digits_val s))"
proof -
  have "int (digits_val s) < 2 ^ 63" using assms(3) by simp
  then show ?thesis using assms by (simp add: stol_def strtol_digits)
qed

lemma stoi_digits:
  assumes "s \<noteq> []" and "\<forall>c \<in> set s. isdigit c" and "digits_val s < 2 ^ 31"
  shows "stoi s = Inr (int (digits_val s))"
proof -
  have "int (digits_val s) < 2 ^ 31" using assms(3) by simp
  then show ?thesis using assms by (simp add: stoi_def strtol_digits)
qed

lemma stol_nat_str: "n < 2 ^ 63 \<Longrightarrow> stol (nat_str n) = Inr (int n)"
  using stol_digits [of "nat_str n"] by (simp add: nat_str_digits)

lemma stoi_nat_str: "n < 2 ^ 31 \<Longrightarrow> stoi (nat_str n) = Inr (int n)"
  using stoi_digits [of "nat_str n"] by (simp add: nat_str_digits)

lemma stol_to_string [simp]: "stol (to_string w) = Inr (uint w)"
proof -
  have "unat w < 2 ^ LENGTH(32)" by (rule unsigned_less)
  then have "unat w < 2 ^ 63" by simp
  then show ?thesis by (simp add: to_string_def stol_nat_str)
qed

lemma u32_of_uint [simp]: "u32_of_int (uint w) = w"
  by (simp add: u32_of_int_def)

lemma u32_of_int_of_nat: "u32_of_int (int n) = word_of_nat n"
  by (simp add: u32_of_int_def)

lemma to_string_digits: "c \<in> set (to_string w) \<Longrightarrow> isdigit c"
  by (simp add: to_string_def nat_str_digits)

lemma to_string_not_Nil [simp]: "to_string w \<noteq> []"
  by (simp add: to_string_def)

lemma to_string_inj: "to_string v = to_string w \<longleftrightarrow> v = w"
  by (simp add: to_string_def nat_str_inj word_unat_eq_iff)

text \<open>A bound on a string of digits.\<close>

lemma digit_val_le: "isdigit c \<Longrightarrow> digit_val c \<le> 9"
  unfolding isdigit_def digit_val_def by linarith

lemma digits_val_bound: "\<forall>c \<in> set s. isdigit c \<Longrightarrow> digits_val s < 10 ^ length s"
proof (induction s rule: rev_induct)
  case Nil
  then show ?case by (simp add: digits_val_def)
next
  case (snoc c s)
  then have "digits_val s < 10 ^ length s" and "digit_val c \<le> 9"
    by (auto simp: digit_val_le)
  then show ?case by (simp add: digits_val_snoc)
qed

text \<open>The zero-padded forms.\<close>

lemma pad0_digits: "c \<in> set (pad0 w n) \<Longrightarrow> isdigit c"
  by (auto simp: pad0_def isdigit_def dest: nat_str_digits)

lemma pad0_not_Nil [simp]: "pad0 w n \<noteq> []"
  by (simp add: pad0_def)

lemma digits_val_pad0 [simp]: "digits_val (pad0 w n) = n"
  by (simp add: pad0_def digits_val_zeros)

lemma length_pad0: "n < 10 ^ w \<Longrightarrow> 0 < w \<Longrightarrow> length (pad0 w n) = w"
  using length_nat_str_le [of n w] by (simp add: pad0_def)

lemma pad0_inj: "pad0 w m = pad0 w n \<longleftrightarrow> m = n"
  by (metis digits_val_pad0)

lemma pad0_full: "10 ^ k \<le> n \<Longrightarrow> n < 10 ^ Suc k \<Longrightarrow> pad0 (Suc k) n = nat_str n"
  using length_nat_str_eq [of k n] by (simp add: pad0_def)

text \<open>A string of digits of the full width is what printing its value with zeros gives.\<close>

lemma digits_unique:
  assumes "\<forall>c \<in> set s. isdigit c" and "\<forall>c \<in> set t. isdigit c"
    and "length s = length t" and "digits_val s = digits_val t"
  shows "s = t"
  using assms
proof (induction s arbitrary: t rule: rev_induct)
  case Nil
  then show ?case by simp
next
  case (snoc c s)
  then obtain d t' where t: "t = t' @ [d]" by (cases t rule: rev_cases) auto
  have cd: "digit_val c \<le> 9" "digit_val d \<le> 9" using snoc.prems t by (auto simp: digit_val_le)
  have "10 * digits_val s + digit_val c = 10 * digits_val t' + digit_val d"
    using snoc.prems t by (simp add: digits_val_snoc)
  with cd have v: "digits_val s = digits_val t'" "digit_val c = digit_val d"
    by presburger+
  have "s = t'" using snoc.prems t v(1) by (intro snoc.IH) auto
  moreover have "48 \<le> (of_char c :: nat)" "48 \<le> (of_char d :: nat)"
    using snoc.prems(1,2) t by (auto simp: isdigit_def)
  then have "(of_char c :: nat) = of_char d"
    using v(2) unfolding digit_val_def by linarith
  then have "c = d" by simp
  ultimately show ?case using t by simp
qed

lemma pad0_digits_val:
  assumes "\<forall>c \<in> set s. isdigit c" and "length s = w" and "0 < w"
  shows "pad0 w (digits_val s) = s"
proof (rule digits_unique)
  have "digits_val s < 10 ^ w" using digits_val_bound [OF assms(1)] assms(2) by simp
  then show "length (pad0 w (digits_val s)) = length s" using assms by (simp add: length_pad0)
qed (use assms in \<open>auto dest: pad0_digits\<close>)

section \<open>Lines and words\<close>

text \<open>
  fgets(buf, n, fp) at the start of a file: \<open>None\<close> at the end of the file, otherwise at most
  \<open>n - 1\<close> characters, the last one a newline if one is met.
\<close>

definition fgets :: "nat \<Rightarrow> string \<Rightarrow> string option" where
  "fgets n s =
     (if s = [] then None
      else Some (let t = take (n - 1) s;
                     u = takeWhile (\<lambda>c. c \<noteq> CHR 0x0A) t
                 in if length u < length t then u @ [CHR 0x0A] else u))"

text \<open>All the words \<open>while (ss >> w)\<close> extracts.\<close>

function words :: "string \<Rightarrow> string list" where
  "words s =
     (let t = dropWhile isspace s
      in if t = [] then []
         else takeWhile (\<lambda>c. \<not> isspace c) t # words (dropWhile (\<lambda>c. \<not> isspace c) t))"
  by pat_completeness auto
termination
proof (relation "measure length")
  fix s t :: string
  assume t: "t = dropWhile isspace s" and ne: "t \<noteq> []"
  then have "\<not> isspace (hd t)" by (simp add: hd_dropWhile)
  with ne have "length (dropWhile (\<lambda>c. \<not> isspace c) t) < length t"
    by (cases t) (auto simp: le_imp_less_Suc length_dropWhile_le)
  also have "\<dots> \<le> length s" using t by (simp add: length_dropWhile_le)
  finally show "(dropWhile (\<lambda>c. \<not> isspace c) t, s) \<in> measure length" by simp
qed simp

declare words.simps [simp del]

definition is_word :: "string \<Rightarrow> bool" where
  "is_word s \<longleftrightarrow> s \<noteq> [] \<and> (\<forall>c \<in> set s. \<not> isspace c)"

lemma words_Nil [simp]: "words [] = []"
  by (simp add: words.simps)

lemma isspace_blank [simp]: "isspace (CHR '' '')"
  by (simp add: isspace_def)

lemma words_last: "is_word s \<Longrightarrow> words s = [s]"
  unfolding is_word_def
  by (subst words.simps) (cases s, auto simp: Let_def takeWhile_all dropWhile_all)

lemma words_step: "is_word s \<Longrightarrow> words (s @ CHR '' '' # t) = s # words t"
proof -
  assume w: "is_word s"
  have skip: "words (CHR '' '' # t) = words t" for t
    by (subst (1 2) words.simps) simp
  from w show ?thesis
    unfolding is_word_def
    by (subst words.simps)
      (cases s, auto simp: Let_def takeWhile_append_stop dropWhile_append_stop skip)
qed

lemma digits_is_word: "s \<noteq> [] \<Longrightarrow> \<forall>c \<in> set s. isdigit c \<Longrightarrow> is_word s"
  by (auto simp: is_word_def)

lemma fgets_line:
  assumes "s \<noteq> []" and "CHR 0x0A \<notin> set s" and "length s < n"
  shows "fgets n s = Some s"
proof -
  have t: "takeWhile (\<lambda>c. c \<noteq> CHR 0x0A) s = s" using assms(2) by (intro takeWhile_all) auto
  show ?thesis using assms(1,3) by (simp add: fgets_def Let_def t)
qed

end
