(* ===== verification/File_System.thy ===== *)
theory File_System
  imports Cxx_Std "HOL-Library.AList"
begin

text \<open>
  The file system calls of server/database.cpp, over the tree below the server's working directory:
  fopen, fprintf, mkdir, opendir, access, unlink, rmdir, std::filesystem::is_empty and
  directory_iterator. A path is resolved as the system does it, component by component, so what a
  name with slashes or dots in it reaches is part of the model. The lemmas reduce every call on a
  clean path of a closed tree to a look-up or an update of the tree.
\<close>

section \<open>Trees and paths\<close>

datatype node = Dir | File string

type_synonym path = "string list"

text \<open>
  The list of the entries, in the order in which the system lists a directory. The working
  directory is \<open>[]\<close>; a path of \<open>..\<close> only lies above it and is a directory.
\<close>

type_synonym fs = "(path \<times> node) list"

definition outer :: "path \<Rightarrow> bool" where
  "outer p \<longleftrightarrow> (\<forall>c \<in> set p. c = ''..'')"

definition look :: "fs \<Rightarrow> path \<Rightarrow> node option" where
  "look f p = (if outer p then Some Dir else map_of f p)"

function split_slash :: "string \<Rightarrow> string list" where
  "split_slash s =
     takeWhile (\<lambda>c. c \<noteq> CHR ''/'') s #
     (let t = dropWhile (\<lambda>c. c \<noteq> CHR ''/'') s in if t = [] then [] else split_slash (tl t))"
  by pat_completeness auto
termination
proof (relation "measure length")
  fix s t :: string
  assume t: "t = dropWhile (\<lambda>c. c \<noteq> CHR ''/'') s" and "t \<noteq> []"
  then have "length (tl t) < length t" by (cases t) auto
  also have "\<dots> \<le> length s" using t by (simp add: length_dropWhile_le)
  finally show "(tl t, s) \<in> measure length" by simp
qed simp

declare split_slash.simps [simp del]

fun walk :: "fs \<Rightarrow> path \<Rightarrow> string list \<Rightarrow> path option" where
  "walk f cur [] = Some cur"
| "walk f cur (c # cs) =
     (if look f cur \<noteq> Some Dir then None
      else if c = [] \<or> c = ''.'' then walk f cur cs
      else if c = ''..'' then walk f (if outer cur then cur @ [''..''] else butlast cur) cs
      else walk f (cur @ [c]) cs)"

definition resolve :: "fs \<Rightarrow> string \<Rightarrow> path option" where
  "resolve f name = (if c_str name = [] then None else walk f [] (split_slash (c_str name)))"

definition node_at :: "fs \<Rightarrow> string \<Rightarrow> node option" where
  "node_at f name = Option.bind (resolve f name) (look f)"

definition children :: "fs \<Rightarrow> path \<Rightarrow> string list" where
  "children f d = map (last \<circ> fst) (filter (\<lambda>e. fst e \<noteq> [] \<and> butlast (fst e) = d) f)"

section \<open>The calls\<close>

text \<open>
  fopen for reading, as the text that can be read: a directory opens, and every read from it fails.
\<close>

definition fopen_r :: "fs \<Rightarrow> string \<Rightarrow> string option" where
  "fopen_r f name =
     (case node_at f name of None \<Rightarrow> None | Some Dir \<Rightarrow> Some [] | Some (File s) \<Rightarrow> Some s)"

text \<open>fopen for writing: the file is created or cut to length 0. The path stands for the stream.\<close>

definition fopen_w :: "fs \<Rightarrow> string \<Rightarrow> (path \<times> fs) option" where
  "fopen_w f name =
     (case resolve f name of
        None \<Rightarrow> None
      | Some p \<Rightarrow> if look f p = Some Dir then None else Some (p, AList.update p (File []) f))"

text \<open>\<open>fprintf(fp, "%s", s)\<close> on a stream opened for writing, and \<open>file << data\<close>.\<close>

definition fputs :: "path \<Rightarrow> string \<Rightarrow> fs \<Rightarrow> fs" where
  "fputs p s f = AList.update p (File (c_str s)) f"

definition fwrite :: "path \<Rightarrow> string \<Rightarrow> fs \<Rightarrow> fs" where
  "fwrite p s f = AList.update p (File s) f"

definition mkdir :: "fs \<Rightarrow> string \<Rightarrow> int \<times> fs" where
  "mkdir f name =
     (case resolve f name of
        None \<Rightarrow> (-1, f)
      | Some p \<Rightarrow> if look f p = None then (0, AList.update p Dir f) else (-1, f))"

definition opendir :: "fs \<Rightarrow> string \<Rightarrow> bool" where
  "opendir f name \<longleftrightarrow> node_at f name = Some Dir"

definition access :: "fs \<Rightarrow> string \<Rightarrow> int" where
  "access f name = (if node_at f name \<noteq> None then 0 else -1)"

definition unlink :: "fs \<Rightarrow> string \<Rightarrow> fs" where
  "unlink f name =
     (case resolve f name of
        None \<Rightarrow> f
      | Some p \<Rightarrow> (case look f p of Some (File _) \<Rightarrow> AList.delete p f | _ \<Rightarrow> f))"

definition rmdir :: "fs \<Rightarrow> string \<Rightarrow> fs" where
  "rmdir f name =
     (case resolve f name of
        None \<Rightarrow> f
      | Some p \<Rightarrow>
          if \<not> outer p \<and> look f p = Some Dir \<and> children f p = [] then AList.delete p f else f)"

text \<open>std::filesystem::is_empty throws where there is no entry.\<close>

definition fs_is_empty :: "fs \<Rightarrow> string \<Rightarrow> exn + bool" where
  "fs_is_empty f name =
     (case resolve f name of
        None \<Rightarrow> Inl Std_filesystem_error
      | Some p \<Rightarrow>
          (case look f p of
             None \<Rightarrow> Inl Std_filesystem_error
           | Some Dir \<Rightarrow> Inr (children f p = [])
           | Some (File s) \<Rightarrow> Inr (s = [])))"

text \<open>The paths \<open>entry.path()\<close> of a directory iterator.\<close>

definition entry_path :: "string \<Rightarrow> string \<Rightarrow> string" where
  "entry_path name c = (if last name = CHR ''/'' then name @ c else name @ ''/'' @ c)"

text \<open>The entries come in the order they were made; the library leaves the order open.\<close>

definition directory_iterator :: "fs \<Rightarrow> string \<Rightarrow> exn + string list" where
  "directory_iterator f name =
     (case resolve f name of
        None \<Rightarrow> Inl Std_filesystem_error
      | Some p \<Rightarrow>
          if look f p = Some Dir then Inr (map (entry_path name) (children f p))
          else Inl Std_filesystem_error)"

section \<open>Clean paths\<close>

definition clean_name :: "string \<Rightarrow> bool" where
  "clean_name c \<longleftrightarrow> c \<noteq> [] \<and> c \<noteq> ''.'' \<and> c \<noteq> ''..'' \<and> CHR ''/'' \<notin> set c \<and> NUL \<notin> set c"

definition clean :: "path \<Rightarrow> bool" where
  "clean p \<longleftrightarrow> p \<noteq> [] \<and> (\<forall>c \<in> set p. clean_name c)"

fun join :: "path \<Rightarrow> string" where
  "join [] = []"
| "join [c] = c"
| "join (c # d # cs) = c @ CHR ''/'' # join (d # cs)"

text \<open>
  A tree without two entries of the same path, where every entry lies in a directory and no name
  is empty, a dot or two dots.
\<close>

definition closed_fs :: "fs \<Rightarrow> bool" where
  "closed_fs f \<longleftrightarrow>
     distinct (map fst f) \<and>
     (\<forall>e \<in> set f. fst e \<noteq> [] \<and> last (fst e) \<notin> {[], ''.'', ''..''} \<and> look f (butlast (fst e)) = Some Dir)"

lemma split_slash_last: "CHR ''/'' \<notin> set c \<Longrightarrow> split_slash c = [c]"
  by (subst split_slash.simps) (auto simp: takeWhile_all dropWhile_all Let_def)

lemma split_slash_step: "CHR ''/'' \<notin> set c \<Longrightarrow> split_slash (c @ CHR ''/'' # s) = c # split_slash s"
proof -
  assume c: "CHR ''/'' \<notin> set c"
  have "takeWhile (\<lambda>x. x \<noteq> CHR ''/'') (c @ CHR ''/'' # s) = c"
    using c by (intro takeWhile_append_stop) auto
  moreover have "dropWhile (\<lambda>x. x \<noteq> CHR ''/'') (c @ CHR ''/'' # s) = CHR ''/'' # s"
    using c by (intro dropWhile_append_stop) auto
  ultimately show ?thesis unfolding split_slash.simps [of "c @ CHR ''/'' # s"] by (simp only: Let_def list.sel list.simps if_False)
qed

lemma split_slash_join_names: "p \<noteq> [] \<Longrightarrow> \<forall>c \<in> set p. CHR ''/'' \<notin> set c \<Longrightarrow> split_slash (join p) = p"
  by (induction p rule: join.induct) (auto simp: split_slash_last split_slash_step)

lemma split_slash_join: "clean p \<Longrightarrow> split_slash (join p) = p"
  by (intro split_slash_join_names) (auto simp: clean_def clean_name_def)

lemma split_slash_join_slash: "clean p \<Longrightarrow> split_slash (join p @ ''/'') = p @ [[]]"
  by (induction p rule: join.induct)
    (auto simp: clean_def clean_name_def split_slash_step split_slash_last)

lemma join_no_NUL: "clean p \<Longrightarrow> NUL \<notin> set (join p)"
  by (induction p rule: join.induct) (auto simp: clean_def clean_name_def NUL_def)

lemma join_not_Nil: "clean p \<Longrightarrow> join p \<noteq> []"
  by (cases p rule: join.cases) (auto simp: clean_def clean_name_def)

lemma clean_not_outer: "clean p \<Longrightarrow> \<not> outer p"
  by (cases p) (auto simp: clean_def clean_name_def outer_def)

lemma look_clean: "clean p \<Longrightarrow> look f p = map_of f p"
  by (simp add: look_def clean_not_outer)

lemma look_Nil [simp]: "look f [] = Some Dir"
  by (simp add: look_def outer_def)

lemma walk_append: "walk f cur (cs @ ds) = Option.bind (walk f cur cs) (\<lambda>p. walk f p ds)"
  by (induction f cur cs rule: walk.induct) auto

lemma clean_snoc: "clean (p @ [c]) \<longleftrightarrow> (p = [] \<or> clean p) \<and> clean_name c"
  by (auto simp: clean_def)

text \<open>In a closed tree, an entry's directory is there.\<close>

lemma look_parent:
  assumes "closed_fs f" and "look f (p @ [c]) \<noteq> None" and "\<not> outer (p @ [c])"
  shows "look f p = Some Dir"
proof -
  obtain n where "(p @ [c], n) \<in> set f" using assms(2,3) by (auto simp: look_def dest: map_of_SomeD)
  then show ?thesis using assms(1) by (fastforce simp: closed_fs_def)
qed

lemma walk_clean:
  assumes "closed_fs f" and "p = [] \<or> clean p" and "clean_name c"
  shows "walk f [] (p @ [c]) = (if look f p = Some Dir then Some (p @ [c]) else None)"
  using assms(2,3)
proof (induction p arbitrary: c rule: rev_induct)
  case Nil
  then show ?case by (auto simp: clean_name_def)
next
  case (snoc d p)
  then have p: "p = [] \<or> clean p" "clean_name d" "clean (p @ [d])" by (auto simp: clean_snoc)
  have par: "look f p = Some Dir" if "look f (p @ [d]) = Some Dir"
    using look_parent [OF assms(1), of p d] that p(3) clean_not_outer by auto
  from snoc.IH [OF p(1,2)] show ?case
    using snoc.prems(2) par by (auto simp: walk_append [of f "[]" "p @ [d]" "[c]", simplified] clean_name_def)
qed

lemma resolve_join:
  assumes "closed_fs f" and "clean p"
  shows "resolve f (join p) = (if look f (butlast p) = Some Dir then Some p else None)"
proof -
  have p: "p \<noteq> []" using assms(2) by (simp add: clean_def)
  then have "butlast p = [] \<or> clean (butlast p)" "clean_name (last p)"
    using assms(2) by (auto simp: clean_def dest: in_set_butlastD)
  from walk_clean [OF assms(1) this] show ?thesis
    using assms(2) p
    by (simp add: resolve_def c_str_id join_no_NUL join_not_Nil split_slash_join)
qed

lemma resolve_join_slash:
  assumes "closed_fs f" and "clean p"
  shows "resolve f (join p @ ''/'') = (if look f p = Some Dir then Some p else None)"
proof -
  have "NUL \<notin> set (join p @ ''/'')" using join_no_NUL [OF assms(2)] by (simp add: NUL_def)
  then have c: "c_str (join p @ ''/'') = join p @ ''/''" by (rule c_str_id)
  have w: "walk f [] p = (if look f (butlast p) = Some Dir then Some p else None)"
    using resolve_join [OF assms] assms(2)
    by (simp add: resolve_def c_str_id join_no_NUL join_not_Nil split_slash_join)
  have "look f (butlast p) = Some Dir" if "look f p = Some Dir"
    using that look_parent [OF assms(1), of "butlast p" "last p"] clean_not_outer [OF assms(2)] assms(2)
    by (auto simp: clean_def)
  then show ?thesis
    by (auto simp: resolve_def c split_slash_join_slash [OF assms(2)] walk_append w)
qed

lemma node_at_join:
  assumes "closed_fs f" and "clean p"
  shows "node_at f (join p) = look f p"
proof -
  have "look f (butlast p) = Some Dir" if "look f p \<noteq> None"
    using that look_parent [OF assms(1), of "butlast p" "last p"] clean_not_outer [OF assms(2)] assms(2)
    by (auto simp: clean_def)
  then show ?thesis by (cases "look f p") (auto simp: node_at_def resolve_join [OF assms])
qed

section \<open>The calls on clean paths\<close>

definition dir_at :: "fs \<Rightarrow> path \<Rightarrow> bool" where
  "dir_at f p \<longleftrightarrow> look f p = Some Dir"

text \<open>The text of a file, empty for a directory; \<open>None\<close> where there is no entry.\<close>

definition text_at :: "fs \<Rightarrow> path \<Rightarrow> string option" where
  "text_at f p = (case look f p of None \<Rightarrow> None | Some Dir \<Rightarrow> Some [] | Some (File s) \<Rightarrow> Some s)"

lemma fopen_r_join: "closed_fs f \<Longrightarrow> clean p \<Longrightarrow> fopen_r f (join p) = text_at f p"
  by (simp add: fopen_r_def text_at_def node_at_join)

lemma opendir_join: "closed_fs f \<Longrightarrow> clean p \<Longrightarrow> opendir f (join p) = dir_at f p"
  by (simp add: opendir_def dir_at_def node_at_join)

lemma access_join: "closed_fs f \<Longrightarrow> clean p \<Longrightarrow> access f (join p) = (if look f p \<noteq> None then 0 else -1)"
  by (simp add: access_def node_at_join)

lemma fopen_w_join:
  "closed_fs f \<Longrightarrow> clean p \<Longrightarrow>
   fopen_w f (join p) =
     (if dir_at f (butlast p) \<and> \<not> dir_at f p then Some (p, AList.update p (File []) f) else None)"
  by (simp add: fopen_w_def dir_at_def resolve_join)

lemma mkdir_join:
  "closed_fs f \<Longrightarrow> clean p \<Longrightarrow>
   mkdir f (join p) =
     (if dir_at f (butlast p) \<and> look f p = None then (0, AList.update p Dir f) else (-1, f))"
  by (simp add: mkdir_def dir_at_def resolve_join)

lemma unlink_join:
  assumes "closed_fs f" and "clean p"
  shows "unlink f (join p) = (case look f p of Some (File _) \<Rightarrow> AList.delete p f | _ \<Rightarrow> f)"
proof -
  have "look f (butlast p) = Some Dir" if "look f p \<noteq> None"
    using that look_parent [OF assms(1), of "butlast p" "last p"] clean_not_outer [OF assms(2)] assms(2)
    by (auto simp: clean_def)
  then show ?thesis by (auto simp: unlink_def resolve_join [OF assms] split: option.splits node.splits)
qed

lemma fs_is_empty_join:
  assumes "closed_fs f" and "clean p" and "dir_at f p"
  shows "fs_is_empty f (join p) = Inr (children f p = [])"
    and "fs_is_empty f (join p @ ''/'') = Inr (children f p = [])"
proof -
  have "look f (butlast p) = Some Dir"
    using assms(3) look_parent [OF assms(1), of "butlast p" "last p"] clean_not_outer [OF assms(2)] assms(2)
    by (auto simp: clean_def dir_at_def)
  with assms show "fs_is_empty f (join p) = Inr (children f p = [])"
    and "fs_is_empty f (join p @ ''/'') = Inr (children f p = [])"
    by (simp_all add: fs_is_empty_def dir_at_def resolve_join resolve_join_slash)
qed

lemma directory_iterator_join:
  assumes "closed_fs f" and "clean p" and "dir_at f p"
  shows "directory_iterator f (join p) = Inr (map (entry_path (join p)) (children f p))"
    and "directory_iterator f (join p @ ''/'') = Inr (map (entry_path (join p @ ''/'')) (children f p))"
proof -
  have "look f (butlast p) = Some Dir"
    using assms(3) look_parent [OF assms(1), of "butlast p" "last p"] clean_not_outer [OF assms(2)] assms(2)
    by (auto simp: clean_def dir_at_def)
  with assms show "directory_iterator f (join p) = Inr (map (entry_path (join p)) (children f p))"
    and "directory_iterator f (join p @ ''/'') = Inr (map (entry_path (join p @ ''/'')) (children f p))"
    by (simp_all add: directory_iterator_def dir_at_def resolve_join resolve_join_slash)
qed

lemma is_empty_missing:
  assumes "closed_fs f" and "clean p" and "look f p = None"
  shows "fs_is_empty f (join p) = Inl Std_filesystem_error"
  using assms by (simp add: fs_is_empty_def resolve_join)

lemma last_join: "clean p \<Longrightarrow> last (join p) \<noteq> CHR ''/''"
  by (induction p rule: join.induct)
    (auto simp: clean_def clean_name_def join_not_Nil [unfolded clean_def] dest: last_in_set)

lemma join_snoc: "p \<noteq> [] \<Longrightarrow> join (p @ [c]) = join p @ CHR ''/'' # c"
proof (induction p rule: join.induct)
  case (3 a b cs)
  then show ?case by (cases cs) simp_all
qed simp_all

lemma entry_path_join: "clean p \<Longrightarrow> entry_path (join p) c = join (p @ [c])"
  by (simp add: entry_path_def last_join join_snoc clean_def)

lemma entry_path_join_slash: "clean p \<Longrightarrow> entry_path (join p @ ''/'') c = join (p @ [c])"
  by (simp add: entry_path_def join_snoc clean_def)

section \<open>A tree after an update\<close>

lemma update_update: "AList.update p m (AList.update p n f) = AList.update p m f"
  by (induction f) auto

lemma look_update [fs_simps]:
  "clean p \<Longrightarrow> look (AList.update p n f) q = (if q = p then Some n else look f q)"
  by (auto simp: look_def clean_not_outer AList.update_conv)

lemma look_delete [fs_simps]:
  "clean p \<Longrightarrow> look (AList.delete p f) q = (if q = p then None else look f q)"
  by (auto simp: look_def clean_not_outer AList.delete_conv)

lemma dir_at_update [fs_simps]:
  "clean p \<Longrightarrow> dir_at (AList.update p n f) q = (if q = p then n = Dir else dir_at f q)"
  by (simp add: dir_at_def look_update)

lemma dir_at_delete [fs_simps]:
  "clean p \<Longrightarrow> dir_at (AList.delete p f) q = (q \<noteq> p \<and> dir_at f q)"
  by (simp add: dir_at_def look_delete)

lemma text_at_update [fs_simps]:
  "clean p \<Longrightarrow> text_at (AList.update p n f) q =
     (if q = p then Some (case n of Dir \<Rightarrow> [] | File s \<Rightarrow> s) else text_at f q)"
  by (simp add: text_at_def look_update split: node.splits)

lemma text_at_delete [fs_simps]:
  "clean p \<Longrightarrow> text_at (AList.delete p f) q = (if q = p then None else text_at f q)"
  by (simp add: text_at_def look_delete)

lemma clean_butlast_neq: "clean p \<Longrightarrow> butlast p \<noteq> p"
  by (cases p rule: rev_cases) (auto simp: clean_def)

lemma fst_set_update: "e \<in> set (AList.update p n f) \<Longrightarrow> e = (p, n) \<or> e \<in> set f"
  by (induction f) (auto split: if_splits)

lemma closed_update:
  assumes "closed_fs f" and "clean p" and "dir_at f (butlast p)" and "n = Dir \<or> \<not> dir_at f p"
  shows "closed_fs (AList.update p n f)"
proof -
  have p: "p \<noteq> []" "clean_name (last p)" using assms(2) by (auto simp: clean_def)
  have "look (AList.update p n f) (butlast (fst e)) = Some Dir"
    if "look f (butlast (fst e)) = Some Dir" for e :: "path \<times> node"
    using that assms(2,4) by (auto simp: look_update dir_at_def)
  moreover have "look (AList.update p n f) (butlast p) = Some Dir"
    using assms(2,3) clean_butlast_neq [OF assms(2)] by (simp add: look_update dir_at_def)
  ultimately show ?thesis
    using assms(1) p unfolding closed_fs_def
    by (auto simp: AList.distinct_update clean_name_def dest!: fst_set_update)
qed

lemma closed_delete:
  assumes "closed_fs f" and "clean p" and "\<not> dir_at f p"
  shows "closed_fs (AList.delete p f)"
proof -
  have "look (AList.delete p f) (butlast (fst e)) = Some Dir"
    if "look f (butlast (fst e)) = Some Dir" for e :: "path \<times> node"
    using that assms(2,3) by (auto simp: look_delete dir_at_def)
  moreover have "set (AList.delete p f) \<subseteq> set f" by (auto simp: AList.delete_eq)
  ultimately show ?thesis
    using assms(1) unfolding closed_fs_def
    by (auto simp: AList.distinct_delete)
qed

lemma in_children:
  assumes "closed_fs f" and "clean d"
  shows "c \<in> set (children f d) \<longleftrightarrow> look f (d @ [c]) \<noteq> None"
proof -
  have "\<not> outer (d @ [c])" using clean_not_outer [OF assms(2)] by (auto simp: outer_def)
  then have "look f (d @ [c]) \<noteq> None \<longleftrightarrow> (\<exists>n. (d @ [c], n) \<in> set f)"
    using assms(1) by (auto simp: look_def closed_fs_def map_of_eq_None_iff image_iff dest: map_of_SomeD) force
  also have "\<dots> \<longleftrightarrow> c \<in> set (children f d)"
    unfolding children_def
    by (force simp: image_iff)
  finally show ?thesis by simp
qed

lemma distinct_children: "closed_fs f \<Longrightarrow> distinct (children f d)"
proof -
  assume "closed_fs f"
  then have "distinct (map fst f)" by (simp add: closed_fs_def)
  then have "distinct (map fst (filter (\<lambda>e. fst e \<noteq> [] \<and> butlast (fst e) = d) f))"
    by (simp add: distinct_map_filter)
  moreover have "inj_on last (set (map fst (filter (\<lambda>e. fst e \<noteq> [] \<and> butlast (fst e) = d) f)))"
    by (auto intro!: inj_onI) (metis append_butlast_last_id)
  ultimately have "distinct (map last (map fst (filter (\<lambda>e. fst e \<noteq> [] \<and> butlast (fst e) = d) f)))"
    by (simp only: distinct_map simp_thms)
  then show ?thesis by (simp add: children_def)
qed

lemma children_update:
  assumes "clean p"
  shows "children (AList.update p n f) d =
     (if look f p \<noteq> None then children f d
      else children f d @ (if butlast p = d then [last p] else []))"
proof -
  have p: "p \<noteq> []" using assms by (simp add: clean_def)
  have "children (AList.update p n f) d = children f d" if "map_of f p \<noteq> None"
    using that by (induction f) (auto simp: children_def)
  moreover have "children (AList.update p n f) d = children f d @ (if butlast p = d then [last p] else [])"
    if "map_of f p = None"
    using that p by (induction f) (auto simp: children_def split: if_splits)
  ultimately show ?thesis using assms by (simp add: look_clean)
qed

lemma children_delete_other: "butlast p \<noteq> d \<Longrightarrow> children (AList.delete p f) d = children f d"
  by (induction f) (auto simp: children_def)

end
