(* ===== verification/Verifications.thy ===== *)
theory Verifications
  imports Cxx_Std
begin

text \<open>
  shared/config.hpp and shared/verifications.cpp: the sizes of the protocol's fields and the checks
  of the fields. Every check returns 0 or -1, as in the code; the lemmas characterise each one by
  the predicate on strings it decides.
\<close>

section \<open>Sizes (shared/config.hpp)\<close>

definition USER_ID_SIZE :: nat where "USER_ID_SIZE = 6"
definition AUCTION_ID_SIZE :: nat where "AUCTION_ID_SIZE = 3"
definition MAX_AUCTION_VALUE_SIZE :: nat where "MAX_AUCTION_VALUE_SIZE = 6"
definition MAX_AUCTION_NAME_SIZE :: nat where "MAX_AUCTION_NAME_SIZE = 10"
definition MAX_FILENAME_SIZE :: nat where "MAX_FILENAME_SIZE = 24"
definition MAX_FILE_SIZE :: nat where "MAX_FILE_SIZE = 10 * 1000 * 1000"
definition MAX_FILE_SIZE_LENGTH :: nat where "MAX_FILE_SIZE_LENGTH = 8"
definition MAX_TIMEACTIVE_SIZE :: nat where "MAX_TIMEACTIVE_SIZE = 6"
definition PASSWORD_SIZE :: nat where "PASSWORD_SIZE = 8"
definition MAX_LENGTH_TIMEACTIVE :: nat where "MAX_LENGTH_TIMEACTIVE = 5"
definition MAX_STATUS_SIZE :: nat where "MAX_STATUS_SIZE = 3"
definition PROTOCOL_SIZE :: nat where "PROTOCOL_SIZE = 3"
definition UDP_MAX_TRIES :: nat where "UDP_MAX_TRIES = 5"
definition UDP_SOCKET_BUFFER_LEN :: nat where "UDP_SOCKET_BUFFER_LEN = 6002"
definition SOCKET_BUFFER_LEN :: nat where "SOCKET_BUFFER_LEN = 512"

lemmas config_defs =
  USER_ID_SIZE_def AUCTION_ID_SIZE_def MAX_AUCTION_VALUE_SIZE_def MAX_AUCTION_NAME_SIZE_def
  MAX_FILENAME_SIZE_def MAX_FILE_SIZE_def MAX_FILE_SIZE_LENGTH_def MAX_TIMEACTIVE_SIZE_def
  PASSWORD_SIZE_def MAX_LENGTH_TIMEACTIVE_def MAX_STATUS_SIZE_def PROTOCOL_SIZE_def
  UDP_MAX_TRIES_def UDP_SOCKET_BUFFER_LEN_def SOCKET_BUFFER_LEN_def

section \<open>The checks\<close>

definition verify_user_id :: "string \<Rightarrow> int" where
  "verify_user_id user_id =
     (if length user_id \<noteq> 6 then -1
      else if user_id = ''000000'' then -1
      else if \<not> list_all isdigit user_id then -1
      else 0)"

definition verify_password :: "string \<Rightarrow> int" where
  "verify_password password =
     (if length password \<noteq> 8 then -1
      else if \<not> list_all isalnum password then -1
      else 0)"

definition verify_name :: "string \<Rightarrow> int" where
  "verify_name name =
     (if length name > MAX_FILENAME_SIZE then -1
      else if \<not> list_all isprint name then -1
      else 0)"

definition check_fname_not_forbidden :: "string \<Rightarrow> int" where
  "check_fname_not_forbidden fname =
     (if fname \<in> set [''..'', ''/'', ''.''] then -1 else 0)"

text \<open>\<open>asset_path.substr(asset_path.find_last_of("/\\") + 1)\<close>: what follows the last slash.\<close>

definition base_name :: "string \<Rightarrow> string" where
  "base_name path = rev (takeWhile (\<lambda>c. c \<noteq> CHR ''/'' \<and> c \<noteq> CHR 0x5C) (rev path))"

text \<open>Whether the path can be opened is the client machine's file system, a parameter here.\<close>

definition verify_asset_fname :: "(string \<Rightarrow> bool) \<Rightarrow> string \<Rightarrow> int" where
  "verify_asset_fname file_opens asset_path =
     (let assetf_name = base_name asset_path
      in if length assetf_name > MAX_FILENAME_SIZE then -1
         else if check_fname_not_forbidden assetf_name = -1 then -1
         else if file_opens asset_path then 0 else -1)"

definition verify_start_value :: "string \<Rightarrow> int" where
  "verify_start_value start_value =
     (if length start_value > 6 then -1
      else if \<not> list_all isdigit start_value then -1
      else 0)"

definition verify_timeactive :: "string \<Rightarrow> int" where
  "verify_timeactive timeactive =
     (if length timeactive > 5 then -1
      else if timeactive = ''0'' then -1
      else if \<not> list_all isdigit timeactive then -1
      else 0)"

definition verify_auction_id :: "string \<Rightarrow> int" where
  "verify_auction_id a_id =
     (if length a_id \<noteq> 3 then -1
      else if \<not> list_all isdigit a_id then -1
      else 0)"

definition verify_value :: "uint32 \<Rightarrow> int" where
  "verify_value value = (if value \<le> 0 then -1 else 0)"

text \<open>stoi throws on an empty port and on one that is no int.\<close>

definition verify_port_number :: "string \<Rightarrow> exn + int" where
  "verify_port_number port =
     (if \<not> list_all isdigit port then Inr (-1)
      else bindE (stoi port)
        (\<lambda>parsed_port. if parsed_port \<le> 0 \<or> parsed_port > 65535 then Inr (-1) else Inr 0))"

section \<open>What the checks decide\<close>

definition is_uid :: "string \<Rightarrow> bool" where
  "is_uid u \<longleftrightarrow> length u = 6 \<and> u \<noteq> ''000000'' \<and> (\<forall>c \<in> set u. isdigit c)"

definition is_aid :: "string \<Rightarrow> bool" where
  "is_aid a \<longleftrightarrow> length a = 3 \<and> (\<forall>c \<in> set a. isdigit c)"

definition is_password :: "string \<Rightarrow> bool" where
  "is_password p \<longleftrightarrow> length p = 8 \<and> (\<forall>c \<in> set p. isalnum c)"

lemma verify_user_id_eq [simp]: "verify_user_id u = (if is_uid u then 0 else -1)"
  by (auto simp: verify_user_id_def is_uid_def list_all_iff)

lemma verify_auction_id_eq [simp]: "verify_auction_id a = (if is_aid a then 0 else -1)"
  by (auto simp: verify_auction_id_def is_aid_def list_all_iff)

lemma verify_password_eq [simp]: "verify_password p = (if is_password p then 0 else -1)"
  by (auto simp: verify_password_def is_password_def list_all_iff)

lemma verify_value_eq [simp]: "verify_value v = (if v = 0 then -1 else 0)"
  by (simp add: verify_value_def)

lemma verify_name_eq:
  "verify_name n = (if length n \<le> 24 \<and> (\<forall>c \<in> set n. isprint c) then 0 else -1)"
  by (auto simp: verify_name_def list_all_iff config_defs)

lemma verify_start_value_eq:
  "verify_start_value v = (if length v \<le> 6 \<and> (\<forall>c \<in> set v. isdigit c) then 0 else -1)"
  by (auto simp: verify_start_value_def list_all_iff)

lemma verify_timeactive_eq:
  "verify_timeactive t = (if length t \<le> 5 \<and> t \<noteq> ''0'' \<and> (\<forall>c \<in> set t. isdigit c) then 0 else -1)"
  by (auto simp: verify_timeactive_def list_all_iff)

lemma is_uid_not_Nil: "is_uid u \<Longrightarrow> u \<noteq> []"
  by (auto simp: is_uid_def)

lemma is_aid_not_Nil: "is_aid a \<Longrightarrow> a \<noteq> []"
  by (auto simp: is_aid_def)

lemma is_uid_bound: "is_uid u \<Longrightarrow> digits_val u < 10 ^ 6"
  using digits_val_bound [of u] by (simp add: is_uid_def)

lemma is_aid_bound: "is_aid a \<Longrightarrow> digits_val a < 10 ^ 3"
  using digits_val_bound [of a] by (simp add: is_aid_def)

lemma is_uid_positive: "is_uid u \<Longrightarrow> 0 < digits_val u"
proof (rule ccontr)
  assume u: "is_uid u" and "\<not> 0 < digits_val u"
  then have "digits_val u = 0" by simp
  moreover have "pad0 6 (digits_val u) = u" using u by (intro pad0_digits_val) (auto simp: is_uid_def)
  ultimately have "u = pad0 6 0" by simp
  also have "\<dots> = ''000000''" by code_simp
  finally show False using u by (simp add: is_uid_def)
qed

lemma is_uid_pad0: "0 < n \<Longrightarrow> n < 10 ^ 6 \<Longrightarrow> is_uid (pad0 6 n)"
proof -
  assume n: "0 < n" "n < 10 ^ 6"
  have "pad0 6 n \<noteq> pad0 6 0" using n by (simp add: pad0_inj)
  moreover have "pad0 6 0 = ''000000''" by code_simp
  ultimately show ?thesis using n by (auto simp: is_uid_def length_pad0 dest: pad0_digits)
qed

lemma is_aid_pad0: "n < 10 ^ 3 \<Longrightarrow> is_aid (pad0 3 n)"
  by (auto simp: is_aid_def length_pad0 dest: pad0_digits)

lemma is_uid_digits_val: "is_uid u \<Longrightarrow> pad0 6 (digits_val u) = u"
  by (rule pad0_digits_val) (auto simp: is_uid_def)

lemma is_aid_digits_val: "is_aid a \<Longrightarrow> pad0 3 (digits_val a) = a"
  by (rule pad0_digits_val) (auto simp: is_aid_def)

text \<open>A port passes exactly when it is a number from 1 to 65535; an empty port throws.\<close>

lemma verify_port_number_digits:
  assumes "port \<noteq> []" and "\<forall>c \<in> set port. isdigit c"
  shows "verify_port_number port =
     (if digits_val port < 2 ^ 31
      then Inr (if 0 < digits_val port \<and> digits_val port \<le> 65535 then 0 else -1)
      else Inl Std_out_of_range)"
  using assms by (auto simp: verify_port_number_def list_all_iff stoi_def strtol_digits)

lemma base_name_no_slash: "CHR ''/'' \<notin> set (base_name path)"
  by (auto simp: base_name_def dest: set_takeWhileD)

end
