(* ===== verification/Utils.thy ===== *)
theory Utils
  imports Verifications
begin

text \<open>
  shared/utils.cpp: the conversions between the fields of the protocol and their machine
  representation, dates, and the client's file helpers. The last section is the calendar that
  gmtime computes, from which the server prints its dates.
\<close>

section \<open>Structures (shared/utils.hpp)\<close>

record Datetime =
  year :: string
  month :: string
  day :: string
  hours :: string
  minutes :: string
  seconds :: string

record Bid =
  bidder_UID :: uint32
  bid_value :: uint32
  bid_date_time :: Datetime
  bid_sec_time :: uint32

definition extractDate :: "Datetime \<Rightarrow> string" where
  "extractDate datetime = year datetime @ ''-'' @ month datetime @ ''-'' @ day datetime"

definition extractTime :: "Datetime \<Rightarrow> string" where
  "extractTime datetime = hours datetime @ '':'' @ minutes datetime @ '':'' @ seconds datetime"

section \<open>Conversions\<close>

definition convert_user_id :: "string \<Rightarrow> exn + uint32" where
  "convert_user_id str =
     (if verify_user_id str = -1 then Inl InvalidMessageException
      else bindE (stol str) (\<lambda>v. Inr (u32_of_int v)))"

text \<open>sprintf with \<open>%0<w>d\<close> on an argument that is read as a signed int.\<close>

definition sprintf_0d :: "nat \<Rightarrow> int \<Rightarrow> string" where
  "sprintf_0d w i = (if i < 0 then ''-'' @ pad0 (w - 1) (nat (- i)) else pad0 w (nat i))"

definition convert_user_id_to_str :: "uint32 \<Rightarrow> string" where
  "convert_user_id_to_str uid = sprintf_0d 6 (sint uid)"

definition convert_auction_id :: "string \<Rightarrow> exn + uint32" where
  "convert_auction_id str =
     (if verify_auction_id str = -1 then Inl InvalidMessageException
      else bindE (stoi str) (\<lambda>v. Inr (u32_of_int v)))"

definition convert_auction_id_to_str :: "uint32 \<Rightarrow> string" where
  "convert_auction_id_to_str aid = sprintf_0d 3 (sint aid)"

definition convert_auction_value :: "string \<Rightarrow> exn + uint32" where
  "convert_auction_value str =
     bindE (stol str) (\<lambda>v.
       let value = u32_of_int v
       in if verify_value value = -1 then Inl InvalidMessageException else Inr value)"

definition convert_password :: "string \<Rightarrow> exn + string" where
  "convert_password str =
     (if verify_password str = -1 then Inl InvalidMessageException else Inr str)"

definition convert_date_to_str :: "Datetime \<Rightarrow> string" where
  "convert_date_to_str date =
     year date @ ''-'' @ month date @ ''-'' @ day date @ '' '' @
     hours date @ '':'' @ minutes date @ '':'' @ seconds date"

text \<open>
  The conversions of sscanf: \<open>%<n>d\<close> skips white space and reads a sign and digits, \<open>n\<close> characters
  at most; a space skips white space; any other character has to be there.
\<close>

definition scan_d :: "nat \<Rightarrow> string \<Rightarrow> (int \<times> string) option" where
  "scan_d n s =
     (let t = dropWhile isspace s;
          sgn = (t \<noteq> [] \<and> (hd t = CHR ''-'' \<or> hd t = CHR ''+''));
          u = (if sgn then tl t else t);
          ds = takeWhile isdigit (take (if sgn then n - 1 else n) u)
      in if ds = [] then None
         else Some (if sgn \<and> hd t = CHR ''-'' then - int (digits_val ds) else int (digits_val ds),
                    drop (length ds) u))"

definition scan_char :: "char \<Rightarrow> string \<Rightarrow> string option" where
  "scan_char c s = (case s of [] \<Rightarrow> None | x # xs \<Rightarrow> if x = c then Some xs else None)"

text \<open>
  \<open>None\<close>: sscanf stopped before the last conversion, and the code goes on to print variables it
  never set.
\<close>

definition convert_str_to_date :: "string \<Rightarrow> Datetime option" where
  "convert_str_to_date str =
     Option.bind (scan_d 4 (c_str str)) (\<lambda>(y, s).
     Option.bind (scan_char (CHR ''-'') s) (\<lambda>s.
     Option.bind (scan_d 2 s) (\<lambda>(mo, s).
     Option.bind (scan_char (CHR ''-'') s) (\<lambda>s.
     Option.bind (scan_d 2 s) (\<lambda>(d, s).
     Option.bind (scan_d 2 (dropWhile isspace s)) (\<lambda>(h, s).
     Option.bind (scan_char (CHR '':'') s) (\<lambda>s.
     Option.bind (scan_d 2 s) (\<lambda>(mi, s).
     Option.bind (scan_char (CHR '':'') s) (\<lambda>s.
     Option.bind (scan_d 2 s) (\<lambda>(se, s).
     Some \<lparr>year = take 4 (sprintf_0d 4 y), month = take 2 (sprintf_0d 2 mo),
           day = take 2 (sprintf_0d 2 d), hours = take 2 (sprintf_0d 2 h),
           minutes = take 2 (sprintf_0d 2 mi), seconds = take 2 (sprintf_0d 2 se)\<rparr>))))))))))"

section \<open>Files of the client\<close>

text \<open>
  The client's files are a map from path to content; \<open>writable\<close> says which paths its file system
  lets it create or truncate.
\<close>

definition saveToFile ::
    "(string \<Rightarrow> bool) \<Rightarrow> string \<Rightarrow> string \<Rightarrow> string \<Rightarrow> (string \<rightharpoonup> string) \<Rightarrow> exn + (string \<rightharpoonup> string)" where
  "saveToFile writable file_name path file_data files =
     (let full_path = path @ file_name
      in if \<not> writable full_path then Inl FileException
         else Inr (files(full_path \<mapsto> file_data)))"

definition readFromFile :: "(string \<rightharpoonup> string) \<Rightarrow> string \<Rightarrow> string" where
  "readFromFile files pathname = (case files pathname of None \<Rightarrow> '''' | Some d \<Rightarrow> d)"

definition getFileSize :: "(string \<rightharpoonup> string) \<Rightarrow> string \<Rightarrow> int" where
  "getFileSize files file_path = (case files file_path of None \<Rightarrow> -1 | Some d \<Rightarrow> int (length d))"

section \<open>Properties of the conversions\<close>

lemma sprintf_0d_nonneg [simp]: "sprintf_0d w (int n) = pad0 w n"
  by (simp add: sprintf_0d_def)

lemma sprintf_0d_uint [simp]: "sprintf_0d w (uint x) = pad0 w (unat x)"
  using sprintf_0d_nonneg [of w "unat x"] by simp

lemma sint_small:
  assumes "unat (w :: uint32) < 2 ^ 31"
  shows "sint w = int (unat w)"
proof -
  have "int (unat w) < int (2 ^ 31)" using assms by (simp only: of_nat_less_iff)
  then have "uint w < 2 ^ 31" by simp
  then have "sint w = uint w"
    using order_trans [OF _ uint_ge_0 [of w]] by (simp add: sint_uint signed_take_bit_int_eq_self_iff)
  then show ?thesis by simp
qed

lemma convert_user_id_to_str_eq: "unat uid < 10 ^ 6 \<Longrightarrow> convert_user_id_to_str uid = pad0 6 (unat uid)"
  by (simp add: convert_user_id_to_str_def sint_small)

lemma convert_auction_id_to_str_eq: "unat aid < 10 ^ 3 \<Longrightarrow> convert_auction_id_to_str aid = pad0 3 (unat aid)"
  by (simp add: convert_auction_id_to_str_def sint_small)

lemma convert_user_id_eq:
  "convert_user_id s = (if is_uid s then Inr (word_of_nat (digits_val s)) else Inl InvalidMessageException)"
proof (cases "is_uid s")
  case True
  have "stol s = Inr (int (digits_val s))"
    using True is_uid_bound [OF True] by (intro stol_digits) (auto simp: is_uid_def)
  then show ?thesis using True by (simp add: convert_user_id_def u32_of_int_of_nat)
qed (simp add: convert_user_id_def)

lemma convert_auction_id_eq:
  "convert_auction_id s = (if is_aid s then Inr (word_of_nat (digits_val s)) else Inl InvalidMessageException)"
proof (cases "is_aid s")
  case True
  have "stoi s = Inr (int (digits_val s))"
    using True is_aid_bound [OF True] by (intro stoi_digits) (auto simp: is_aid_def)
  then show ?thesis using True by (simp add: convert_auction_id_def u32_of_int_of_nat)
qed (simp add: convert_auction_id_def)

lemma unat_of_nat_small: "n < 2 ^ 32 \<Longrightarrow> unat (word_of_nat n :: uint32) = n"
  by (simp add: unat_of_nat take_bit_nat_eq_self_iff)

text \<open>What a user id that was read prints back to, and the other way round.\<close>

lemma convert_user_id_roundtrip:
  assumes "convert_user_id s = Inr uid"
  shows "convert_user_id_to_str uid = s"
proof -
  have s: "is_uid s" and uid: "uid = word_of_nat (digits_val s)"
    using assms by (auto simp: convert_user_id_eq split: if_splits)
  have "digits_val s < 10 ^ 6" using s by (rule is_uid_bound)
  then have "unat uid = digits_val s" using uid by (simp add: unat_of_nat_small)
  with \<open>digits_val s < 10 ^ 6\<close> show ?thesis
    using s by (simp add: convert_user_id_to_str_eq is_uid_digits_val)
qed

lemma convert_auction_id_roundtrip:
  assumes "convert_auction_id s = Inr aid"
  shows "convert_auction_id_to_str aid = s"
proof -
  have s: "is_aid s" and aid: "aid = word_of_nat (digits_val s)"
    using assms by (auto simp: convert_auction_id_eq split: if_splits)
  have "digits_val s < 10 ^ 3" using s by (rule is_aid_bound)
  then have "unat aid = digits_val s" using aid by (simp add: unat_of_nat_small)
  with \<open>digits_val s < 10 ^ 3\<close> show ?thesis
    using s by (simp add: convert_auction_id_to_str_eq is_aid_digits_val)
qed

lemma convert_user_id_bound: "convert_user_id s = Inr uid \<Longrightarrow> 0 < unat uid \<and> unat uid < 10 ^ 6"
  using is_uid_bound [of s] is_uid_positive [of s]
  by (auto simp: convert_user_id_eq unat_of_nat_small split: if_splits)

lemma convert_auction_id_bound: "convert_auction_id s = Inr aid \<Longrightarrow> unat aid < 10 ^ 3"
  using is_aid_bound [of s] by (auto simp: convert_auction_id_eq unat_of_nat_small split: if_splits)

lemma convert_user_id_pad0:
  "0 < unat uid \<Longrightarrow> unat uid < 10 ^ 6 \<Longrightarrow> convert_user_id (pad0 6 (unat uid)) = Inr uid"
  by (simp add: convert_user_id_eq is_uid_pad0)

lemma convert_auction_id_pad0: "unat aid < 10 ^ 3 \<Longrightarrow> convert_auction_id (pad0 3 (unat aid)) = Inr aid"
  by (simp add: convert_auction_id_eq is_aid_pad0)

lemma convert_auction_value_to_string [simp]:
  "convert_auction_value (to_string v) = (if v = 0 then Inl InvalidMessageException else Inr v)"
  by (simp add: convert_auction_value_def Let_def)

lemma convert_password_eq:
  "convert_password p = (if is_password p then Inr p else Inl InvalidMessageException)"
  by (simp add: convert_password_def)

section \<open>Dates\<close>

definition digits_of_length :: "nat \<Rightarrow> string \<Rightarrow> bool" where
  "digits_of_length n s \<longleftrightarrow> length s = n \<and> (\<forall>c \<in> set s. isdigit c)"

definition wf_Datetime :: "Datetime \<Rightarrow> bool" where
  "wf_Datetime d \<longleftrightarrow>
     digits_of_length 4 (year d) \<and> digits_of_length 2 (month d) \<and> digits_of_length 2 (day d) \<and>
     digits_of_length 2 (hours d) \<and> digits_of_length 2 (minutes d) \<and> digits_of_length 2 (seconds d)"

lemma digits_of_lengthD:
  assumes "digits_of_length n s" and "0 < n"
  shows "s \<noteq> []" and "dropWhile isspace (s @ t) = s @ t"
    and "hd (s @ t) \<noteq> CHR ''-''" and "hd (s @ t) \<noteq> CHR ''+''"
  using assms by (cases s; auto simp: digits_of_length_def)+

lemma scan_d_digits:
  assumes "digits_of_length n s" and "0 < n"
  shows "scan_d n (s @ t) = Some (int (digits_val s), t)"
proof -
  have n: "take n (s @ t) = s" using assms by (simp add: digits_of_length_def)
  have d: "takeWhile isdigit s = s"
    using assms by (intro takeWhile_all) (simp add: digits_of_length_def)
  show ?thesis
    using digits_of_lengthD(1) [OF assms] digits_of_lengthD(2-4) [OF assms, of t]
    by (simp add: scan_d_def Let_def n d del: take_append)
qed

lemma sprintf_digits: "digits_of_length n s \<Longrightarrow> 0 < n \<Longrightarrow> take n (pad0 n (digits_val s)) = s"
  by (simp add: digits_of_length_def pad0_digits_val)

lemma convert_date_to_str_no_NUL: "wf_Datetime d \<Longrightarrow> NUL \<notin> set (convert_date_to_str d)"
  by (auto simp: wf_Datetime_def convert_date_to_str_def digits_of_length_def)
    (simp_all add: NUL_def)

lemma scan_char_Cons [simp]: "scan_char c (c # s) = Some s"
  by (simp add: scan_char_def)

lemma convert_str_to_date_wf:
  assumes wf: "wf_Datetime d"
  shows "convert_str_to_date (convert_date_to_str d) = Some d"
proof -
  note w = wf [unfolded wf_Datetime_def]
  have "c_str (convert_date_to_str d) = convert_date_to_str d"
    using wf by (intro c_str_id convert_date_to_str_no_NUL)
  moreover have "scan_d 2 (seconds d) = Some (int (digits_val (seconds d)), [])"
    using w scan_d_digits [of 2 "seconds d" "[]"] by simp
  moreover have "dropWhile isspace (hours d @ t) = hours d @ t" for t
    using w digits_of_lengthD(2) [of 2 "hours d" t] by simp
  ultimately show ?thesis
    using w by (simp add: convert_str_to_date_def convert_date_to_str_def scan_d_digits sprintf_digits)
qed

section \<open>The calendar of gmtime\<close>

record tm =
  tm_year :: nat   \<comment> \<open>the year itself, not the years since 1900\<close>
  tm_mon :: nat    \<comment> \<open>1 to 12\<close>
  tm_mday :: nat
  tm_hour :: nat
  tm_min :: nat
  tm_sec :: nat

definition leap :: "nat \<Rightarrow> bool" where
  "leap y \<longleftrightarrow> (y mod 4 = 0 \<and> y mod 100 \<noteq> 0) \<or> y mod 400 = 0"

definition days_in_year :: "nat \<Rightarrow> nat" where
  "days_in_year y = (if leap y then 366 else 365)"

definition month_lengths :: "nat \<Rightarrow> nat list" where
  "month_lengths y = [31, if leap y then 29 else 28, 31, 30, 31, 30, 31, 31, 30, 31, 30, 31]"

text \<open>The year a day falls in, counted from 1 January of \<open>y\<close>, and the day of that year.\<close>

function year_of :: "nat \<Rightarrow> nat \<Rightarrow> nat \<times> nat" where
  "year_of y d = (if d < days_in_year y then (y, d) else year_of (Suc y) (d - days_in_year y))"
  by pat_completeness auto
termination
  by (relation "measure snd") (auto simp: days_in_year_def split: if_splits)

declare year_of.simps [simp del]

fun month_of :: "nat list \<Rightarrow> nat \<Rightarrow> nat \<Rightarrow> nat \<times> nat" where
  "month_of [] m d = (m, d)"
| "month_of (l # ls) m d = (if d < l then (m, d) else month_of ls (Suc m) (d - l))"

definition gmtime :: "nat \<Rightarrow> tm" where
  "gmtime t =
     (let (y, doy) = year_of 1970 (t div 86400);
          (m, dom) = month_of (month_lengths y) 1 doy;
          s = t mod 86400
      in \<lparr>tm_year = y, tm_mon = m, tm_mday = Suc dom,
          tm_hour = s div 3600, tm_min = (s mod 3600) div 60, tm_sec = s mod 60\<rparr>)"

text \<open>\<open>sprintf(str, "%4u-%02u-%02u %02u:%02u:%02u", ...)\<close> of a broken-down time.\<close>

definition format_tm :: "tm \<Rightarrow> string" where
  "format_tm x =
     pad_space 4 (tm_year x) @ ''-'' @ pad0 2 (tm_mon x) @ ''-'' @ pad0 2 (tm_mday x) @ '' '' @
     pad0 2 (tm_hour x) @ '':'' @ pad0 2 (tm_min x) @ '':'' @ pad0 2 (tm_sec x)"

lemma days_in_year_bounds: "365 \<le> days_in_year y \<and> days_in_year y \<le> 366"
  by (simp add: days_in_year_def)

lemma sum_month_lengths: "sum_list (month_lengths y) = days_in_year y"
  by (simp add: month_lengths_def days_in_year_def)

lemma year_of_bounds:
  "year_of y d = (y', d') \<Longrightarrow> y \<le> y' \<and> (y' - y) * 365 \<le> d \<and> d' < days_in_year y'"
proof (induction y d rule: year_of.induct)
  case (1 y d)
  show ?case
  proof (cases "d < days_in_year y")
    case True
    with "1.prems" show ?thesis by (simp add: year_of.simps [of y d])
  next
    case False
    with 1 have "Suc y \<le> y' \<and> (y' - Suc y) * 365 \<le> d - days_in_year y \<and> d' < days_in_year y'"
      by (simp add: year_of.simps [of y d])
    with False show ?thesis using days_in_year_bounds [of y] by auto
  qed
qed

lemma month_of_bounds:
  "month_of ls m d = (m', d') \<Longrightarrow> d < sum_list ls \<Longrightarrow>
     m \<le> m' \<and> m' < m + length ls \<and> d' < ls ! (m' - m)"
proof (induction ls m d rule: month_of.induct)
  case (2 l ls m d)
  show ?case
  proof (cases "d < l")
    case True
    with "2.prems" show ?thesis by simp
  next
    case False
    with 2 have "Suc m \<le> m' \<and> m' < Suc m + length ls \<and> d' < ls ! (m' - Suc m)" by auto
    moreover from this have "m' - m = Suc (m' - Suc m)" by linarith
    ultimately show ?thesis by simp
  qed
qed simp

lemma month_lengths_le: "i < 12 \<Longrightarrow> month_lengths y ! i \<le> 31"
proof -
  assume "i < 12"
  then have "month_lengths y ! i \<in> set (month_lengths y)" by (intro nth_mem) (simp add: month_lengths_def)
  moreover have "\<forall>l \<in> set (month_lengths y). l \<le> 31" by (simp add: month_lengths_def)
  ultimately show ?thesis by blast
qed

lemma gmtime_bounds:
  assumes "t < 2 ^ 32"
  shows "1970 \<le> tm_year (gmtime t) \<and> tm_year (gmtime t) < 10000"
    and "1 \<le> tm_mon (gmtime t) \<and> tm_mon (gmtime t) \<le> 12"
    and "1 \<le> tm_mday (gmtime t) \<and> tm_mday (gmtime t) \<le> 31"
    and "tm_hour (gmtime t) < 24" and "tm_min (gmtime t) < 60" and "tm_sec (gmtime t) < 60"
proof -
  obtain y doy where y: "year_of 1970 (t div 86400) = (y, doy)" by fastforce
  obtain m dom where m: "month_of (month_lengths y) 1 doy = (m, dom)" by fastforce
  have yb: "1970 \<le> y" "(y - 1970) * 365 \<le> t div 86400" "doy < days_in_year y"
    using year_of_bounds [OF y] by auto
  have "t div 86400 < 50000" using assms by simp
  with yb(2) have "y < 10000" by simp
  have mb: "1 \<le> m \<and> m < 1 + length (month_lengths y) \<and> dom < month_lengths y ! (m - 1)"
    using month_of_bounds [OF m] yb(3) by (simp add: sum_month_lengths)
  then have "m \<le> 12" by (simp add: month_lengths_def)
  with mb have "dom < 31" using month_lengths_le [of "m - 1" y] by linarith
  have g: "gmtime t = \<lparr>tm_year = y, tm_mon = m, tm_mday = Suc dom,
      tm_hour = t mod 86400 div 3600, tm_min = t mod 86400 mod 3600 div 60, tm_sec = t mod 86400 mod 60\<rparr>"
    using m by (simp add: gmtime_def y Let_def)
  show "1970 \<le> tm_year (gmtime t) \<and> tm_year (gmtime t) < 10000"
    using yb(1) \<open>y < 10000\<close> by (simp add: g)
  show "1 \<le> tm_mon (gmtime t) \<and> tm_mon (gmtime t) \<le> 12" using mb \<open>m \<le> 12\<close> by (simp add: g)
  show "1 \<le> tm_mday (gmtime t) \<and> tm_mday (gmtime t) \<le> 31" using \<open>dom < 31\<close> by (simp add: g)
  have "t mod 86400 < 86400" and "t mod 86400 mod 3600 < 3600" by simp_all
  then show "tm_hour (gmtime t) < 24" and "tm_min (gmtime t) < 60"
    unfolding g tm.simps by (simp_all add: less_mult_imp_div_less)
  show "tm_sec (gmtime t) < 60" by (simp add: g)
qed

text \<open>
  A date the server prints before the year 10000 is the text of a well-formed date, so it survives
  the protocol.
\<close>

definition tm_Datetime :: "tm \<Rightarrow> Datetime" where
  "tm_Datetime x =
     \<lparr>year = nat_str (tm_year x), month = pad0 2 (tm_mon x), day = pad0 2 (tm_mday x),
      hours = pad0 2 (tm_hour x), minutes = pad0 2 (tm_min x), seconds = pad0 2 (tm_sec x)\<rparr>"

lemma digits_of_length_pad0: "n < 10 ^ w \<Longrightarrow> 0 < w \<Longrightarrow> digits_of_length w (pad0 w n)"
  by (auto simp: digits_of_length_def length_pad0 dest: pad0_digits)

lemma format_gmtime:
  assumes "t < 2 ^ 32"
  shows "format_tm (gmtime t) = convert_date_to_str (tm_Datetime (gmtime t))"
    and "wf_Datetime (tm_Datetime (gmtime t))"
proof -
  note b = gmtime_bounds [OF assms]
  have len: "length (nat_str (tm_year (gmtime t))) = 4"
    using length_nat_str_eq [of 3 "tm_year (gmtime t)"] b(1) by simp
  then show "format_tm (gmtime t) = convert_date_to_str (tm_Datetime (gmtime t))"
    by (simp add: format_tm_def convert_date_to_str_def tm_Datetime_def pad_space_def)
  show "wf_Datetime (tm_Datetime (gmtime t))"
    using len b
    by (auto simp: wf_Datetime_def tm_Datetime_def intro!: digits_of_length_pad0)
      (auto simp: digits_of_length_def dest: nat_str_digits)
qed

end
