(* ===== verification/Database.thy ===== *)
theory Database
  imports File_System Utils
begin

text \<open>
  server/database.cpp, the state the server keeps and the methods that read and write single files
  of it: the tree under ASDIR, the semaphore and the clock. A method that only looks at the tree is
  a function of the tree; one that changes only the tree returns the new tree with its value; one
  that also throws, waits or asks for the time is an operation on the whole state.
\<close>

section \<open>The state\<close>

text \<open>
  The n-th call of time() since the start returns \<open>wclock n\<close>; \<open>wcalls\<close> counts the calls.
\<close>

record world =
  wfs :: fs
  wsem :: nat
  wclock :: "nat \<Rightarrow> nat"
  wcalls :: nat

definition sys_time :: "(nat, world) prog" where
  "sys_time w = (Ret (wclock w (wcalls w)), w\<lparr>wcalls := Suc (wcalls w)\<rparr>)"

definition getF :: "(fs \<Rightarrow> 'a) \<Rightarrow> ('a, world) prog" where
  "getF g w = (Ret (g (wfs w)), w)"

definition getE :: "(fs \<Rightarrow> exn + 'a) \<Rightarrow> ('a, world) prog" where
  "getE g w = (case g (wfs w) of Inl e \<Rightarrow> (Throw e, w) | Inr x \<Rightarrow> (Ret x, w))"

definition runF :: "(fs \<Rightarrow> 'a \<times> fs) \<Rightarrow> ('a, world) prog" where
  "runF g w = (case g (wfs w) of (x, f) \<Rightarrow> (Ret x, w\<lparr>wfs := f\<rparr>))"

definition SEM_VALUE_MAX :: nat where
  "SEM_VALUE_MAX = 2147483647"

text \<open>A new semaphore has the value 1; whether sem_open succeeds is up to the system.\<close>

definition semaphore_init :: "bool \<Rightarrow> (int, world) prog" where
  "semaphore_init sem_opens w = (if sem_opens then (Ret 0, w\<lparr>wsem := 1\<rparr>) else (Ret (-1), w))"

text \<open>
  A wait for a semaphore of value 0 that nobody posts does not come back (Block); its interruption by a signal, which
  would make the code throw SemException, is left out.
\<close>

definition semaphore_wait :: "(unit, world) prog" where
  "semaphore_wait w = (if wsem w = 0 then (Block, w) else (Ret (), w\<lparr>wsem := wsem w - 1\<rparr>))"

definition semaphore_post :: "(unit, world) prog" where
  "semaphore_post w =
     (if wsem w \<ge> SEM_VALUE_MAX then (Throw SemException, w) else (Ret (), w\<lparr>wsem := Suc (wsem w)\<rparr>))"

text \<open>sem_close ends this process's use of the semaphore only; the count stays.\<close>

definition semaphore_destroy :: "(int, world) prog" where
  "semaphore_destroy = ret 0"

section \<open>Structures (server/database.hpp)\<close>

record StartInfo =
  st_user_id :: string
  st_name :: string
  st_asset_fname :: string
  st_start_value :: string
  st_timeactive :: string
  st_current_date :: string
  st_current_time :: uint32

record EndInfo =
  en_end_date :: string
  en_end_time :: uint32

record BidInfo =
  bi_user_id :: string
  bi_value :: string
  bi_current_date :: string
  bi_time_passed :: uint32

record AssetInfo =
  as_asset_fname :: string
  as_fsize :: "64 word"
  as_fdata :: string

record AuctionListing =
  al_a_id :: string
  al_active :: bool

record AuctionRecord =
  ar_host_id :: string
  ar_auction_name :: string
  ar_asset_fname :: string
  ar_start_value :: string
  ar_start_datetime :: string
  ar_timeactive :: string
  ar_list :: "BidInfo list"
  ar_active :: bool
  ar_end_datetime :: string
  ar_end_timeelapsed :: uint32

section \<open>Paths\<close>

definition user_dir :: "string \<Rightarrow> string" where
  "user_dir user_id = ''ASDIR/USERS/'' @ user_id"

definition pass_fname :: "string \<Rightarrow> string" where
  "pass_fname user_id = ''ASDIR/USERS/'' @ user_id @ ''/'' @ user_id @ ''_pass.txt''"

definition login_fname :: "string \<Rightarrow> string" where
  "login_fname user_id = ''ASDIR/USERS/'' @ user_id @ ''/'' @ user_id @ ''_login.txt''"

definition hosted_dir :: "string \<Rightarrow> string" where
  "hosted_dir user_id = ''ASDIR/USERS/'' @ user_id @ ''/HOSTED''"

definition bidded_dir :: "string \<Rightarrow> string" where
  "bidded_dir user_id = ''ASDIR/USERS/'' @ user_id @ ''/BIDDED''"

definition host_fname :: "string \<Rightarrow> string \<Rightarrow> string" where
  "host_fname user_id a_id = ''ASDIR/USERS/'' @ user_id @ ''/HOSTED/'' @ a_id @ ''.txt''"

definition bidded_fname :: "string \<Rightarrow> string \<Rightarrow> string" where
  "bidded_fname user_id a_id = ''ASDIR/USERS/'' @ user_id @ ''/BIDDED/'' @ a_id @ ''.txt''"

definition auction_dir :: "string \<Rightarrow> string" where
  "auction_dir a_id = ''ASDIR/AUCTIONS/'' @ a_id"

definition bids_dir :: "string \<Rightarrow> string" where
  "bids_dir a_id = ''ASDIR/AUCTIONS/'' @ a_id @ ''/BIDS''"

definition asset_dir :: "string \<Rightarrow> string" where
  "asset_dir a_id = ''ASDIR/AUCTIONS/'' @ a_id @ ''/ASSET''"

definition asset_path :: "string \<Rightarrow> string \<Rightarrow> string" where
  "asset_path a_id asset_fname = ''ASDIR/AUCTIONS/'' @ a_id @ ''/ASSET/'' @ asset_fname"

definition start_path :: "string \<Rightarrow> string" where
  "start_path a_id = ''ASDIR/AUCTIONS/'' @ a_id @ ''/START_'' @ a_id @ ''.txt''"

definition end_path :: "string \<Rightarrow> string" where
  "end_path a_id = ''ASDIR/AUCTIONS/'' @ a_id @ ''/END_'' @ a_id @ ''.txt''"

definition bid_path :: "string \<Rightarrow> string \<Rightarrow> string" where
  "bid_path a_id value = ''ASDIR/AUCTIONS/'' @ a_id @ ''/BIDS/'' @ value @ ''.txt''"

lemmas path_defs =
  user_dir_def pass_fname_def login_fname_def hosted_dir_def bidded_dir_def host_fname_def
  bidded_fname_def auction_dir_def bids_dir_def asset_dir_def asset_path_def start_path_def
  end_path_def bid_path_def

text \<open>\<open>s.erase(s.end() - n, s.end())\<close> and \<open>s.erase(s.begin(), s.end() - n)\<close>.\<close>

definition erase_last :: "nat \<Rightarrow> string \<Rightarrow> string" where
  "erase_last n s = take (length s - n) s"

definition keep_last :: "nat \<Rightarrow> string \<Rightarrow> string" where
  "keep_last n s = drop (length s - n) s"

section \<open>Comparing\<close>

definition CompareByAid :: "AuctionListing \<Rightarrow> AuctionListing \<Rightarrow> exn + bool" where
  "CompareByAid a b =
     bindE (stoi (al_a_id a)) (\<lambda>va. bindE (stoi (al_a_id b)) (\<lambda>vb. Inr (u32_of_int va < u32_of_int vb)))"

definition CompareByValue :: "BidInfo \<Rightarrow> BidInfo \<Rightarrow> exn + bool" where
  "CompareByValue a b =
     bindE (stol (bi_value a)) (\<lambda>va. bindE (stol (bi_value b)) (\<lambda>vb. Inr (u32_of_int va < u32_of_int vb)))"

section \<open>Users\<close>

definition CheckUserExisted :: "fs \<Rightarrow> string \<Rightarrow> int" where
  "CheckUserExisted f user_id_dirname = (if opendir f user_id_dirname then 0 else -1)"

definition CheckUserRegistered :: "fs \<Rightarrow> string \<Rightarrow> int" where
  "CheckUserRegistered f user_id =
     (if verify_user_id user_id = -1 then -1
      else if fopen_r f (pass_fname user_id) = None then -1
      else 0)"

definition CheckUserLoggedIn :: "fs \<Rightarrow> string \<Rightarrow> int" where
  "CheckUserLoggedIn f user_id =
     (if verify_user_id user_id = -1 then -1
      else if fopen_r f (login_fname user_id) = None then -1
      else 0)"

definition CreateUserDir :: "string \<Rightarrow> fs \<Rightarrow> int \<times> fs" where
  "CreateUserDir user_id f =
     (if verify_user_id user_id = -1 then (-1, f)
      else if CheckUserExisted f (user_dir user_id) = 0 then (2, f)
      else case mkdir f (user_dir user_id) of (r, f) \<Rightarrow>
        if r = -1 then (-1, f)
        else case mkdir f (hosted_dir user_id) of (r, f) \<Rightarrow>
          if r = -1 then (-1, f)
          else case mkdir f (bidded_dir user_id) of (r, f) \<Rightarrow>
            if r = -1 then (-1, f) else (0, f))"

definition CreateLogin :: "string \<Rightarrow> fs \<Rightarrow> int \<times> fs" where
  "CreateLogin user_id f =
     (if verify_user_id user_id = -1 then (-1, f)
      else case fopen_w f (login_fname user_id) of None \<Rightarrow> (-1, f) | Some (fp, f) \<Rightarrow> (0, f))"

definition CreatePassword :: "string \<Rightarrow> string \<Rightarrow> fs \<Rightarrow> int \<times> fs" where
  "CreatePassword user_id password f =
     (if verify_password password = -1 then (-1, f)
      else case fopen_w f (pass_fname user_id) of
             None \<Rightarrow> (-1, f)
           | Some (fp, f) \<Rightarrow> (0, fputs fp password f))"

definition CheckLoginExists :: "fs \<Rightarrow> string \<Rightarrow> int" where
  "CheckLoginExists f login_id_fname = (if access f login_id_fname = 0 then 0 else -1)"

definition EraseLogin :: "string \<Rightarrow> fs \<Rightarrow> int \<times> fs" where
  "EraseLogin user_id f =
     (if verify_user_id user_id = -1 then (-1, f)
      else if CheckUserExisted f (user_dir user_id) = -1 then (-1, f)
      else if CheckLoginExists f (login_fname user_id) = -1 then (2, f)
      else (0, unlink f (login_fname user_id)))"

definition CheckPasswordExists :: "fs \<Rightarrow> string \<Rightarrow> int" where
  "CheckPasswordExists f password_fname = (if access f password_fname = 0 then 0 else -1)"

definition ErasePassword :: "string \<Rightarrow> fs \<Rightarrow> int \<times> fs" where
  "ErasePassword user_id f =
     (if verify_user_id user_id = -1 then (-1, f)
      else if CheckUserExisted f (user_dir user_id) = -1 then (2, f)
      else if CheckPasswordExists f (pass_fname user_id) = -1 then (-1, f)
      else (0, unlink f (pass_fname user_id)))"

text \<open>The comparison of the buffer, a C string, with the password.\<close>

definition CorrectPassword :: "fs \<Rightarrow> string \<Rightarrow> string \<Rightarrow> int" where
  "CorrectPassword f user_id password =
     (if verify_user_id user_id = -1 then -1
      else if verify_password password = -1 then -1
      else case fopen_r f (pass_fname user_id) of
             None \<Rightarrow> -1
           | Some text \<Rightarrow>
               (case fgets 9 text of
                  None \<Rightarrow> -1
                | Some content \<Rightarrow> if c_str content = password then 1 else 0))"

definition RegisterHost :: "string \<Rightarrow> string \<Rightarrow> fs \<Rightarrow> int \<times> fs" where
  "RegisterHost user_id a_id f =
     (if verify_user_id user_id = -1 then (-1, f)
      else if verify_auction_id a_id = -1 then (-1, f)
      else case fopen_w f (host_fname user_id a_id) of None \<Rightarrow> (-1, f) | Some (fp, f) \<Rightarrow> (0, f))"

definition RegisterBid :: "string \<Rightarrow> string \<Rightarrow> fs \<Rightarrow> int \<times> fs" where
  "RegisterBid user_id a_id f =
     (if verify_user_id user_id = -1 then (-1, f)
      else if verify_auction_id a_id = -1 then (-1, f)
      else case fopen_w f (bidded_fname user_id a_id) of None \<Rightarrow> (-1, f) | Some (fp, f) \<Rightarrow> (0, f))"

section \<open>Auctions\<close>

definition CreateAuctionDir :: "string \<Rightarrow> fs \<Rightarrow> int \<times> fs" where
  "CreateAuctionDir a_id f =
     (if verify_auction_id a_id = -1 then (-1, f)
      else case mkdir f (auction_dir a_id) of (r, f) \<Rightarrow>
        if r = -1 then (-1, f)
        else case mkdir f (bids_dir a_id) of (r, f) \<Rightarrow>
          if r = -1 then (-1, f)
          else case mkdir f (asset_dir a_id) of (r, f) \<Rightarrow>
            if r = -1 then (-1, f) else (0, f))"

definition CheckAuctionExists :: "fs \<Rightarrow> string \<Rightarrow> int" where
  "CheckAuctionExists f a_id = (if opendir f (auction_dir a_id) then 0 else -1)"

definition CheckEndExists :: "fs \<Rightarrow> string \<Rightarrow> int" where
  "CheckEndExists f end_fname = (if access f end_fname = 0 then 0 else -1)"

text \<open>Whether one of the entries of HOSTED is the auction's file.\<close>

definition CheckAuctionBelongs :: "string \<Rightarrow> string \<Rightarrow> fs \<Rightarrow> exn + int" where
  "CheckAuctionBelongs a_id user_id f =
     bindE (fs_is_empty f (hosted_dir user_id)) (\<lambda>empty.
     if empty then Inr (-1)
     else
       bindE (directory_iterator f (hosted_dir user_id)) (\<lambda>entries.
       if \<exists>entry \<in> set entries. keep_last 3 (erase_last 4 entry) = a_id then Inr 0 else Inr (-1)))"

definition GetCurrentDate :: "(string, world) prog" where
  "GetCurrentDate = bindP sys_time (\<lambda>t. ret (format_tm (gmtime t)))"

definition CreateStartFile ::
    "string \<Rightarrow> string \<Rightarrow> string \<Rightarrow> string \<Rightarrow> string \<Rightarrow> string \<Rightarrow> (int, world) prog" where
  "CreateStartFile a_id user_id name asset_fname start_value timeactive =
     (if verify_timeactive timeactive = -1 then ret (-1)
      else if verify_start_value start_value = -1 then ret (-1)
      else if verify_name name = -1 then ret (-1)
      else if verify_user_id user_id = -1 then ret (-1)
      else if verify_auction_id a_id = -1 then ret (-1)
      else
        bindP GetCurrentDate (\<lambda>current_date.
        bindP sys_time (\<lambda>current_time.
        let content = user_id @ '' '' @ name @ '' '' @ asset_fname @ '' '' @ start_value @ '' '' @
              timeactive @ '' '' @ current_date @ '' '' @ nat_str current_time
        in runF (\<lambda>f. case fopen_w f (start_path a_id) of
             None \<Rightarrow> (-1, f)
           | Some (fp, f) \<Rightarrow> (0, fputs fp content f)))))"

text \<open>\<open>None\<close> is the return value -1: no file, an empty file, or not eight words.\<close>

definition GetStart :: "string \<Rightarrow> fs \<Rightarrow> exn + StartInfo option" where
  "GetStart a_id f =
     (case fopen_r f (start_path a_id) of
        None \<Rightarrow> Inr None
      | Some text \<Rightarrow>
          (case fgets 200 text of
             None \<Rightarrow> Inr None
           | Some content \<Rightarrow>
               let parsed_content = words (c_str content)
               in if length parsed_content \<noteq> 8 then Inr None
                  else bindE (stol (parsed_content ! 7)) (\<lambda>t.
                    Inr (Some \<lparr>st_user_id = parsed_content ! 0, st_name = parsed_content ! 1,
                      st_asset_fname = parsed_content ! 2, st_start_value = parsed_content ! 3,
                      st_timeactive = parsed_content ! 4,
                      st_current_date = parsed_content ! 5 @ '' '' @ parsed_content ! 6,
                      st_current_time = u32_of_int t\<rparr>))))"

definition GetEnd :: "string \<Rightarrow> fs \<Rightarrow> exn + EndInfo option" where
  "GetEnd end_fname f =
     (case fopen_r f end_fname of
        None \<Rightarrow> Inr None
      | Some text \<Rightarrow>
          (case fgets 200 text of
             None \<Rightarrow> Inr None
           | Some content \<Rightarrow>
               let parsed_content = words (c_str content)
               in if length parsed_content \<noteq> 3 then Inr None
                  else bindE (stol (parsed_content ! 2)) (\<lambda>t.
                    Inr (Some \<lparr>en_end_date = parsed_content ! 0 @ '' '' @ parsed_content ! 1,
                      en_end_time = u32_of_int t\<rparr>))))"

definition GetBid :: "string \<Rightarrow> fs \<Rightarrow> exn + BidInfo option" where
  "GetBid bid_fname f =
     (case fopen_r f bid_fname of
        None \<Rightarrow> Inr None
      | Some text \<Rightarrow>
          (case fgets 100 text of
             None \<Rightarrow> Inr None
           | Some content \<Rightarrow>
               let parsed_content = words (c_str content)
               in if length parsed_content \<noteq> 5 then Inr None
                  else bindE (stol (parsed_content ! 4)) (\<lambda>t.
                    Inr (Some \<lparr>bi_user_id = parsed_content ! 0, bi_value = parsed_content ! 1,
                      bi_current_date = parsed_content ! 2 @ '' '' @ parsed_content ! 3,
                      bi_time_passed = u32_of_int t\<rparr>))))"

text \<open>
  The text of the end file: the date and time at which the auction ran out if it has, the present
  otherwise. All times are 32-bit and wrap around.
\<close>

definition end_content :: "uint32 \<Rightarrow> uint32 \<Rightarrow> uint32 \<Rightarrow> string \<Rightarrow> string" where
  "end_content start_time supposed_end current_time current_date =
     (let time_passed = current_time - start_time
      in if time_passed > supposed_end
         then format_tm (gmtime (unat (start_time + supposed_end))) @ '' '' @ to_string supposed_end
         else current_date @ '' '' @ to_string time_passed)"

definition CreateEndFile :: "string \<Rightarrow> (int, world) prog" where
  "CreateEndFile a_id =
     (if verify_auction_id a_id = -1 then ret (-1)
      else
        bindP GetCurrentDate (\<lambda>current_date.
        bindP sys_time (\<lambda>t.
        let current_time = u32_of_int (int t)
        in bindP (getE (GetStart a_id)) (\<lambda>r.
           case r of
             None \<Rightarrow> throw AuctionNotFound
           | Some start \<Rightarrow>
               bindP (liftP (stol (st_timeactive start))) (\<lambda>ta.
               let content = end_content (st_current_time start) (u32_of_int ta) current_time current_date
               in bindP (getF (\<lambda>f. CheckEndExists f (end_path a_id))) (\<lambda>exists.
                  if exists = 0 then ret 2
                  else runF (\<lambda>f. case fopen_w f (end_path a_id) of
                         None \<Rightarrow> (-1, f)
                       | Some (fp, f) \<Rightarrow> (0, fputs fp content f))))))))"

definition CreateAssetFile :: "string \<Rightarrow> string \<Rightarrow> string \<Rightarrow> fs \<Rightarrow> int \<times> fs" where
  "CreateAssetFile a_id asset_fname data f =
     (if verify_auction_id a_id = -1 then (-1, f)
      else case fopen_w f (asset_path a_id asset_fname) of
             None \<Rightarrow> (-1, f)
           | Some (file, f) \<Rightarrow> (0, fwrite file data f))"

definition CreateBidFile :: "string \<Rightarrow> string \<Rightarrow> string \<Rightarrow> (int, world) prog" where
  "CreateBidFile a_id user_id value =
     bindP (liftP (stol value)) (\<lambda>v.
     if verify_value (u32_of_int v) = -1 then ret (-1)
     else if verify_user_id user_id = -1 then ret (-1)
     else if verify_auction_id a_id = -1 then ret (-1)
     else
       bindP GetCurrentDate (\<lambda>current_date.
       bindP sys_time (\<lambda>t.
       let current_time = u32_of_int (int t)
       in bindP (getE (GetStart a_id)) (\<lambda>r.
          case r of
            None \<Rightarrow> throw AuctionNotFound
          | Some start \<Rightarrow>
              let time_passed = current_time - st_current_time start;
                  content = user_id @ '' '' @ value @ '' '' @ current_date @ '' '' @ to_string time_passed
              in runF (\<lambda>f. case fopen_w f (bid_path a_id value) of
                   None \<Rightarrow> (-1, f)
                 | Some (fp, f) \<Rightarrow> (0, fputs fp content f))))))"

definition GetAssetDir :: "string \<Rightarrow> fs \<Rightarrow> exn + string" where
  "GetAssetDir a_id f =
     (if verify_auction_id a_id = -1 then Inr ''''
      else
        bindE (fs_is_empty f (asset_dir a_id)) (\<lambda>empty.
        if empty then Inr ''''
        else
          bindE (directory_iterator f (asset_dir a_id)) (\<lambda>entries.
          Inr (case entries of [] \<Rightarrow> '''' | entry # _ \<Rightarrow> entry))))"

definition GetAssetData :: "string \<Rightarrow> fs \<Rightarrow> string" where
  "GetAssetData asset_fname f = (case fopen_r f asset_fname of None \<Rightarrow> '''' | Some text \<Rightarrow> text)"

text \<open>Close throws where the end file was already there.\<close>

definition DB_CLOSE_NOK :: int where "DB_CLOSE_NOK = -1"
definition DB_CLOSE_OK :: int where "DB_CLOSE_OK = 0"
definition DB_CLOSE_ENDED_ALREADY :: int where "DB_CLOSE_ENDED_ALREADY = 2"

definition Db_Close :: "string \<Rightarrow> (int, world) prog" where
  "Db_Close a_id =
     bindP (CreateEndFile a_id) (\<lambda>ended.
     if ended = -1 then ret DB_CLOSE_NOK
     else if ended = 0 then ret DB_CLOSE_OK
     else if ended = 2 then throw AuctionAlreadyClosed
     else ret (-1))"

definition CreateBaseDir :: "bool \<Rightarrow> (int, world) prog" where
  "CreateBaseDir sem_opens =
     bindP (semaphore_init sem_opens) (\<lambda>r.
     if r = -1 then ret (-1)
     else bindP (runF (\<lambda>f. mkdir f ''ASDIR'')) (\<lambda>r.
     if r = -1 then ret (-1)
     else bindP (runF (\<lambda>f. mkdir f ''ASDIR/USERS'')) (\<lambda>r.
     if r = -1 then ret (-1)
     else bindP (runF (\<lambda>f. mkdir f ''ASDIR/AUCTIONS'')) (\<lambda>r.
     if r = -1 then ret (-1) else ret 0))))"

end
