(* ===== verification/Database_Api.thy ===== *)
theory Database_Api
  imports Database
begin

text \<open>
  server/database.cpp, the methods the request handlers call. Each takes the semaphore and gives it
  back where the code does; where the code forgets to, so does the model.
\<close>

section \<open>Users\<close>

definition DB_LOGIN_NOK :: int where "DB_LOGIN_NOK = -1"
definition DB_LOGIN_OK :: int where "DB_LOGIN_OK = 0"
definition DB_LOGIN_REGISTER :: int where "DB_LOGIN_REGISTER = 2"
definition DB_LOGOUT_NOK :: int where "DB_LOGOUT_NOK = -1"
definition DB_LOGOUT_OK :: int where "DB_LOGOUT_OK = 0"
definition DB_LOGOUT_UNREGISTERED :: int where "DB_LOGOUT_UNREGISTERED = 2"
definition DB_UNREGISTER_NOK :: int where "DB_UNREGISTER_NOK = -1"
definition DB_UNREGISTER_OK :: int where "DB_UNREGISTER_OK = 0"
definition DB_UNREGISTER_UNKNOWN :: int where "DB_UNREGISTER_UNKNOWN = 2"
definition DB_OPEN_NOT_LOGGED_IN :: int where "DB_OPEN_NOT_LOGGED_IN = -1"
definition DB_OPEN_CREATE_FAIL :: int where "DB_OPEN_CREATE_FAIL = -2"
definition DB_BID_NOK :: int where "DB_BID_NOK = -2"
definition DB_BID_REFUSE :: int where "DB_BID_REFUSE = -1"
definition DB_BID_ACCEPT :: int where "DB_BID_ACCEPT = 0"

lemmas db_defs =
  DB_LOGIN_NOK_def DB_LOGIN_OK_def DB_LOGIN_REGISTER_def DB_LOGOUT_NOK_def DB_LOGOUT_OK_def
  DB_LOGOUT_UNREGISTERED_def DB_UNREGISTER_NOK_def DB_UNREGISTER_OK_def DB_UNREGISTER_UNKNOWN_def
  DB_OPEN_NOT_LOGGED_IN_def DB_OPEN_CREATE_FAIL_def DB_BID_NOK_def DB_BID_REFUSE_def
  DB_BID_ACCEPT_def DB_CLOSE_NOK_def DB_CLOSE_OK_def DB_CLOSE_ENDED_ALREADY_def

text \<open>\<open>semaphore_post(); return x;\<close> and \<open>semaphore_post(); throw e;\<close>.\<close>

definition post_ret :: "'a \<Rightarrow> ('a, world) prog" where
  "post_ret x = bindP semaphore_post (\<lambda>_. ret x)"

definition post_throw :: "exn \<Rightarrow> ('a, world) prog" where
  "post_throw e = bindP semaphore_post (\<lambda>_. throw e)"

definition LoginUser :: "string \<Rightarrow> string \<Rightarrow> (int, world) prog" where
  "LoginUser user_id password =
     bindP semaphore_wait (\<lambda>_.
     bindP (getF (\<lambda>f. CheckUserLoggedIn f user_id)) (\<lambda>logged.
     if logged = 0 then
       bindP (getF (\<lambda>f. CorrectPassword f user_id password)) (\<lambda>correct.
       if correct \<noteq> 1 then post_throw UserNotLoggedIn else post_ret DB_LOGIN_OK)
     else
       bindP (runF (CreateUserDir user_id)) (\<lambda>created_user.
       if created_user = -1 then post_ret DB_LOGIN_NOK
       else if created_user = 2 then
         bindP (getF (\<lambda>f. CheckUserRegistered f user_id)) (\<lambda>registered.
         if registered = 0 then
           bindP (getF (\<lambda>f. CorrectPassword f user_id password)) (\<lambda>correct.
           if correct \<noteq> 1 then post_ret DB_LOGIN_NOK
           else
             bindP (runF (CreateLogin user_id)) (\<lambda>r.
             if r = -1 then post_ret DB_LOGIN_NOK else post_ret DB_LOGIN_OK))
         else
           bindP (runF (CreatePassword user_id password)) (\<lambda>r.
           if r = -1 then post_ret DB_LOGIN_NOK
           else
             bindP (runF (CreateLogin user_id)) (\<lambda>r.
             if r = -1 then post_ret DB_LOGIN_NOK else post_ret DB_LOGIN_REGISTER)))
       else
         bindP (runF (CreatePassword user_id password)) (\<lambda>r.
         if r = -1 then post_ret DB_LOGIN_NOK
         else
           bindP (runF (CreateLogin user_id)) (\<lambda>r.
           if r = -1 then post_ret DB_LOGIN_NOK else post_ret DB_LOGIN_REGISTER)))))"

definition Logout :: "string \<Rightarrow> string \<Rightarrow> (int, world) prog" where
  "Logout user_id password =
     bindP semaphore_wait (\<lambda>_.
     bindP (getF (\<lambda>f. CorrectPassword f user_id password)) (\<lambda>correct.
     if correct \<noteq> 1 then post_ret DB_LOGOUT_NOK
     else
       bindP (runF (EraseLogin user_id)) (\<lambda>removed_login.
       if removed_login = -1 then post_ret DB_LOGOUT_UNREGISTERED
       else if removed_login = 0 then post_ret DB_LOGOUT_OK
       else if removed_login = 2 then post_throw UserNotLoggedIn
       else post_ret DB_LOGOUT_NOK)))"

definition Unregister :: "string \<Rightarrow> string \<Rightarrow> (int, world) prog" where
  "Unregister user_id password =
     bindP semaphore_wait (\<lambda>_.
     bindP (getF (\<lambda>f. CorrectPassword f user_id password)) (\<lambda>correct.
     if correct \<noteq> 1 then post_ret DB_UNREGISTER_NOK
     else
       bindP semaphore_post (\<lambda>_.
       bindP (Logout user_id password) (\<lambda>r.
       if r = DB_LOGOUT_NOK then ret DB_UNREGISTER_NOK
       else
         bindP semaphore_wait (\<lambda>_.
         bindP (runF (ErasePassword user_id)) (\<lambda>erased_password.
         if erased_password = -1 then post_ret DB_UNREGISTER_NOK
         else if erased_password = 0 then post_ret DB_UNREGISTER_OK
         else if erased_password = 2 then post_ret DB_UNREGISTER_UNKNOWN
         else post_ret DB_UNREGISTER_NOK))))))"

section \<open>Opening and closing an auction\<close>

text \<open>The loop over ASDIR/AUCTIONS/ that finds the next auction id.\<close>

fun next_aid :: "string list \<Rightarrow> uint32 \<Rightarrow> exn + uint32" where
  "next_aid [] aid = Inr aid"
| "next_aid (entry # entries) aid =
     bindE (stoi (keep_last 3 entry)) (\<lambda>v.
       let n_new_aid = u32_of_int v
       in next_aid entries (if aid \<le> n_new_aid then n_new_aid + 1 else aid))"

text \<open>The id of a new auction: 1 where there is none.\<close>

definition open_aid :: "(uint32, world) prog" where
  "open_aid =
     bindP (getE (\<lambda>f. fs_is_empty f ''ASDIR/AUCTIONS/'')) (\<lambda>empty.
     if empty then ret 1
     else bindP (getE (\<lambda>f. directory_iterator f ''ASDIR/AUCTIONS/'')) (\<lambda>entries. liftP (next_aid entries 0)))"

definition Db_Open ::
    "string \<Rightarrow> string \<Rightarrow> string \<Rightarrow> string \<Rightarrow> string \<Rightarrow> string \<Rightarrow> 64 word \<Rightarrow> string \<Rightarrow> (int, world) prog" where
  "Db_Open user_id name password asset_fname start_value timeactive fsize data =
     bindP semaphore_wait (\<lambda>_.
     bindP (getF (\<lambda>f. CheckUserLoggedIn f user_id)) (\<lambda>logged.
     if logged \<noteq> 0 then post_throw UserNotLoggedIn
     else
       bindP (getF (\<lambda>f. CorrectPassword f user_id password)) (\<lambda>correct.
       if correct \<noteq> 1 then post_ret DB_OPEN_CREATE_FAIL
       else
         bindP open_aid (\<lambda>aid.
         if aid > 999 then post_ret DB_OPEN_CREATE_FAIL
         else
           let c_aid = convert_auction_id_to_str aid
           in bindP (runF (CreateAuctionDir c_aid)) (\<lambda>r.
              if r = -1 then post_ret DB_OPEN_CREATE_FAIL
              else
                bindP (CreateStartFile c_aid user_id name asset_fname start_value timeactive) (\<lambda>r.
                if r = -1 then
                  bindP (runF (\<lambda>f. ((), rmdir f (auction_dir c_aid)))) (\<lambda>_. post_ret DB_OPEN_CREATE_FAIL)
                else
                  bindP (runF (CreateAssetFile c_aid asset_fname data)) (\<lambda>r.
                  if r = -1 then
                    bindP (runF (\<lambda>f. ((), rmdir f (auction_dir c_aid)))) (\<lambda>_. post_ret DB_OPEN_CREATE_FAIL)
                  else
                    bindP (runF (RegisterHost user_id c_aid)) (\<lambda>r.
                    if r = -1 then
                      bindP (runF (\<lambda>f. ((), rmdir f (auction_dir c_aid)))) (\<lambda>_. post_ret DB_OPEN_CREATE_FAIL)
                    else post_ret (sint aid)))))))))"

text \<open>The path this method looks at lacks the underscore of the end file's name.\<close>

definition close_checked_path :: "string \<Rightarrow> string" where
  "close_checked_path a_id = ''ASDIR/AUCTIONS/'' @ a_id @ ''/END'' @ a_id @ ''.txt''"

definition CloseAuction :: "string \<Rightarrow> string \<Rightarrow> string \<Rightarrow> (int, world) prog" where
  "CloseAuction a_id user_id password =
     bindP semaphore_wait (\<lambda>_.
     bindP (getF (\<lambda>f. CheckUserExisted f (user_dir user_id))) (\<lambda>existed.
     if existed = -1 then post_throw UserDoesNotExist
     else
       bindP (getF (\<lambda>f. CheckUserLoggedIn f user_id)) (\<lambda>logged.
       if logged \<noteq> 0 then post_throw UserNotLoggedIn
       else
         bindP (getF (\<lambda>f. CorrectPassword f user_id password)) (\<lambda>correct.
         if correct \<noteq> 1 then post_throw IncorrectPassword
         else
           bindP (getF (\<lambda>f. CheckAuctionExists f a_id)) (\<lambda>exists.
           if exists = -1 then post_throw AuctionNotFound
           else
             bindP (getE (CheckAuctionBelongs a_id user_id)) (\<lambda>belongs.
             if belongs = -1 then post_throw AuctionNotOwnedByUser
             else
               bindP (getF (\<lambda>f. CheckEndExists f (close_checked_path a_id))) (\<lambda>ended.
               if ended = 0 then post_throw AuctionAlreadyClosed
               else
                 bindP (getE (GetStart a_id)) (\<lambda>r.
                 case r of
                   None \<Rightarrow> post_throw AuctionNotFound
                 | Some start \<Rightarrow>
                     bindP sys_time (\<lambda>t.
                     let time_passed = u32_of_int (int t) - st_current_time start
                     in bindP (liftP (stol (st_timeactive start))) (\<lambda>ta.
                        if time_passed \<ge> u32_of_int ta then
                          bindP (Db_Close a_id) (\<lambda>_. post_throw AuctionAlreadyClosed)
                        else
                          bindP (Db_Close a_id) (\<lambda>res. post_ret res)))))))))))"

section \<open>Lists\<close>

text \<open>
  The body of the loop the three lists share: the state of one auction, closing it where its time
  is over.
\<close>

definition list_auction :: "string \<Rightarrow> (AuctionListing, world) prog" where
  "list_auction aid =
     bindP (getF (\<lambda>f. CheckEndExists f (end_path aid))) (\<lambda>exists.
     if exists = -1 then
       bindP (getE (GetStart aid)) (\<lambda>r.
       case r of
         None \<Rightarrow> post_throw AuctionNotFound
       | Some start \<Rightarrow>
           bindP sys_time (\<lambda>t.
           let time_passed = u32_of_int (int t) - st_current_time start
           in bindP (liftP (stol (st_timeactive start))) (\<lambda>ta.
              if time_passed \<ge> u32_of_int ta then
                bindP (Db_Close aid) (\<lambda>_. ret \<lparr>al_a_id = aid, al_active = False\<rparr>)
              else ret \<lparr>al_a_id = aid, al_active = True\<rparr>)))
     else ret \<lparr>al_a_id = aid, al_active = False\<rparr>)"

fun list_loop :: "string list \<Rightarrow> AuctionListing list \<Rightarrow> (AuctionListing list, world) prog" where
  "list_loop [] result = ret result"
| "list_loop (aid # aids) result =
     bindP (list_auction aid) (\<lambda>auction. list_loop aids (result @ [auction]))"

text \<open>
  std::sort, which compares every element of a list of two or more and so runs into a key that is
  no number. It leaves open which of two equal keys comes first; sort_key keeps their order.
\<close>

fun first_error :: "(exn + 'a) list \<Rightarrow> exn option" where
  "first_error [] = None"
| "first_error (Inl e # _) = Some e"
| "first_error (Inr _ # rs) = first_error rs"

definition std_sort :: "('a \<Rightarrow> exn + int) \<Rightarrow> 'a list \<Rightarrow> exn + 'a list" where
  "std_sort key xs =
     (if length xs \<le> 1 then Inr xs
      else case first_error (map key xs) of
             Some e \<Rightarrow> Inl e
           | None \<Rightarrow> Inr (sort_key (\<lambda>x. u32_of_int (projr (key x))) xs))"

definition sort_listings :: "AuctionListing list \<Rightarrow> exn + AuctionListing list" where
  "sort_listings = std_sort (\<lambda>a. stoi (al_a_id a))"

definition sort_bids :: "BidInfo list \<Rightarrow> exn + BidInfo list" where
  "sort_bids = std_sort (\<lambda>b. stol (bi_value b))"

definition MyAuctions :: "string \<Rightarrow> (AuctionListing list, world) prog" where
  "MyAuctions user_id =
     bindP semaphore_wait (\<lambda>_.
     bindP (getE (\<lambda>f. fs_is_empty f (hosted_dir user_id))) (\<lambda>empty.
     if empty then post_ret []
     else
       bindP (getE (\<lambda>f. directory_iterator f (hosted_dir user_id))) (\<lambda>entries.
       bindP (list_loop (map (\<lambda>entry. keep_last 3 (erase_last 4 entry)) entries) []) (\<lambda>result.
       bindP (liftP (sort_listings result)) (\<lambda>result. post_ret result)))))"

definition MyBids :: "string \<Rightarrow> (AuctionListing list, world) prog" where
  "MyBids user_id =
     bindP semaphore_wait (\<lambda>_.
     bindP (getE (\<lambda>f. fs_is_empty f (bidded_dir user_id))) (\<lambda>empty.
     if empty then post_ret []
     else
       bindP (getE (\<lambda>f. directory_iterator f (bidded_dir user_id))) (\<lambda>entries.
       bindP (list_loop (map (\<lambda>entry. keep_last 3 (erase_last 4 entry)) entries) []) (\<lambda>result.
       bindP (liftP (sort_listings result)) (\<lambda>result. post_ret result)))))"

text \<open>List does not take the semaphore, and gives it back all the same.\<close>

definition Db_List :: "(AuctionListing list, world) prog" where
  "Db_List =
     bindP (getE (\<lambda>f. fs_is_empty f ''ASDIR/AUCTIONS'')) (\<lambda>empty.
     if empty then post_ret []
     else
       bindP (getE (\<lambda>f. directory_iterator f ''ASDIR/AUCTIONS'')) (\<lambda>entries.
       bindP (list_loop (map (keep_last 3) entries) []) (\<lambda>result.
       bindP (liftP (sort_listings result)) (\<lambda>result. post_ret result))))"

section \<open>Assets, bids, records\<close>

definition ShowAsset :: "string \<Rightarrow> (AssetInfo, world) prog" where
  "ShowAsset a_id =
     bindP (getE (GetAssetDir a_id)) (\<lambda>asset_dir.
     bindP semaphore_wait (\<lambda>_.
     if asset_dir = '''' then post_throw AssetDoesNotExist
     else
       bindP (getF (GetAssetData asset_dir)) (\<lambda>fdata.
       post_ret \<lparr>as_asset_fname = drop 25 asset_dir, as_fsize = word_of_nat (length fdata), as_fdata = fdata\<rparr>)))"

text \<open>
  The loop over the bids already placed. A bid file that cannot be read leaves the structure with
  what the file before it held.
\<close>

fun bid_loop :: "string list \<Rightarrow> BidInfo \<Rightarrow> int \<Rightarrow> (unit, world) prog" where
  "bid_loop [] bid value = ret ()"
| "bid_loop (bid_fname # entries) bid value =
     bindP (getE (GetBid bid_fname)) (\<lambda>r.
       let bid = (case r of None \<Rightarrow> bid | Some b \<Rightarrow> b)
       in bindP (liftP (stol (bi_value bid))) (\<lambda>old_value.
          if old_value \<ge> value then post_throw LargerBidAlreadyExists
          else bid_loop entries bid value))"

definition no_bid :: BidInfo where
  "no_bid = \<lparr>bi_user_id = '''', bi_value = '''', bi_current_date = '''', bi_time_passed = 0\<rparr>"

definition Db_Bid :: "string \<Rightarrow> string \<Rightarrow> string \<Rightarrow> string \<Rightarrow> (int, world) prog" where
  "Db_Bid user_id password a_id value_str =
     bindP semaphore_wait (\<lambda>_.
     bindP (getF (\<lambda>f. CheckUserLoggedIn f user_id)) (\<lambda>logged.
     if logged \<noteq> 0 then post_throw UserNotLoggedIn
     else
       bindP (getF (\<lambda>f. CorrectPassword f user_id password)) (\<lambda>correct.
       if correct \<noteq> 1 then post_ret DB_BID_NOK
       else
         bindP (getF (\<lambda>f. CheckAuctionExists f a_id)) (\<lambda>exists.
         if exists = -1 then post_throw AuctionNotFound
         else
           bindP (getE (CheckAuctionBelongs a_id user_id)) (\<lambda>belongs.
           if belongs = 0 then post_throw BidOnSelf
           else
             bindP (liftP (stol value_str)) (\<lambda>value.
             bindP (getF (\<lambda>f. CheckEndExists f (end_path a_id))) (\<lambda>ended.
             if ended = 0 then post_throw AuctionAlreadyClosed
             else
               bindP (getE (GetStart a_id)) (\<lambda>r.
               case r of
                 None \<Rightarrow> post_throw AuctionNotFound
               | Some start \<Rightarrow>
                   bindP sys_time (\<lambda>t.
                   let time_passed = u32_of_int (int t) - st_current_time start
                   in bindP (liftP (stol (st_timeactive start))) (\<lambda>ta.
                      if time_passed \<ge> u32_of_int ta then
                        bindP (Db_Close a_id) (\<lambda>_. throw AuctionAlreadyClosed)
                      else
                        bindP (getE (\<lambda>f. fs_is_empty f (bids_dir a_id @ ''/''))) (\<lambda>empty.
                        bindP (if empty then
                                 bindP (liftP (stol (st_start_value start))) (\<lambda>old_value.
                                 if old_value \<ge> value then post_throw LargerBidAlreadyExists else ret ())
                               else
                                 bindP (getE (\<lambda>f. directory_iterator f (bids_dir a_id @ ''/'')))
                                   (\<lambda>entries. bid_loop entries no_bid value)) (\<lambda>_.
                        bindP (runF (RegisterBid user_id a_id)) (\<lambda>r.
                        if r = -1 then post_ret DB_BID_REFUSE
                        else
                          bindP (CreateBidFile a_id user_id value_str) (\<lambda>r.
                          if r = -1 then post_ret DB_BID_REFUSE
                          else post_ret DB_BID_ACCEPT))))))))))))))"

text \<open>
  The loop that collects the bids of a record. Before the first bid the structure's time is not
  set, and copying it is undefined.
\<close>

fun record_loop :: "string list \<Rightarrow> BidInfo option \<Rightarrow> BidInfo list \<Rightarrow> (BidInfo list, world) prog" where
  "record_loop [] bid list = ret list"
| "record_loop (bid_fname # entries) bid list =
     bindP (getE (GetBid bid_fname)) (\<lambda>r.
       case (case r of None \<Rightarrow> bid | Some b \<Rightarrow> Some b) of
         None \<Rightarrow> undef
       | Some b \<Rightarrow> record_loop entries (Some b) (list @ [b]))"

text \<open>The end of the auction: active, or the date and the time of the end file.\<close>

definition record_end :: "string \<Rightarrow> AuctionRecord \<Rightarrow> (AuctionRecord, world) prog" where
  "record_end a_id result =
     bindP (getE (GetEnd (end_path a_id))) (\<lambda>r.
     case r of
       None \<Rightarrow> undef
     | Some end \<Rightarrow>
         ret (result\<lparr>ar_active := False, ar_end_datetime := en_end_date end,
                     ar_end_timeelapsed := en_end_time end\<rparr>))"

definition ShowRecord :: "string \<Rightarrow> (AuctionRecord, world) prog" where
  "ShowRecord a_id =
     bindP semaphore_wait (\<lambda>_.
     bindP (getE (GetStart a_id)) (\<lambda>r.
     case r of
       None \<Rightarrow> post_throw AuctionNotFound
     | Some start \<Rightarrow>
         let result = \<lparr>ar_host_id = st_user_id start, ar_auction_name = st_name start,
               ar_asset_fname = st_asset_fname start, ar_start_value = st_start_value start,
               ar_start_datetime = st_current_date start, ar_timeactive = st_timeactive start,
               ar_list = [], ar_active = False, ar_end_datetime = '''', ar_end_timeelapsed = 0\<rparr>
         in bindP sys_time (\<lambda>t.
            let time_passed = u32_of_int (int t) - st_current_time start
            in bindP (liftP (stol (st_timeactive start))) (\<lambda>ta.
               bindP (getF (\<lambda>f. CheckEndExists f (end_path a_id))) (\<lambda>ended.
               bindP (if ended = 0 then record_end a_id result
                      else if time_passed \<ge> u32_of_int ta then
                        bindP (Db_Close a_id) (\<lambda>_. record_end a_id result)
                      else ret (result\<lparr>ar_active := True\<rparr>)) (\<lambda>result.
               bindP (getE (\<lambda>f. directory_iterator f (bids_dir a_id))) (\<lambda>entries.
               bindP (record_loop entries None []) (\<lambda>list.
               bindP (liftP (sort_bids list)) (\<lambda>list.
               post_ret (result\<lparr>ar_list :=
                 (if length entries > 50 then drop (length list - 50) list else list)\<rparr>))))))))))"

section \<open>Running the operations\<close>

lemma bindP_getF [prog_simps]: "bindP (getF g) k w = k (g (wfs w)) w"
  by (simp add: bindP_def getF_def)

lemma bindP_getE [prog_simps]:
  "bindP (getE g) k w = (case g (wfs w) of Inl e \<Rightarrow> (Throw e, w) | Inr x \<Rightarrow> k x w)"
  by (simp add: bindP_def getE_def split: sum.splits)

lemma bindP_runF [prog_simps]:
  "bindP (runF g) k w = k (fst (g (wfs w))) (w\<lparr>wfs := snd (g (wfs w))\<rparr>)"
  by (simp add: bindP_def runF_def split: prod.splits)

lemma runF_run [prog_simps]: "runF g w = (Ret (fst (g (wfs w))), w\<lparr>wfs := snd (g (wfs w))\<rparr>)"
  by (simp add: runF_def split: prod.splits)

lemma bindP_sys_time [prog_simps]:
  "bindP sys_time k w = k (wclock w (wcalls w)) (w\<lparr>wcalls := Suc (wcalls w)\<rparr>)"
  by (simp add: bindP_def sys_time_def)

lemma bindP_liftP [prog_simps]:
  "bindP (liftP m) k w = (case m of Inl e \<Rightarrow> (Throw e, w) | Inr x \<Rightarrow> k x w)"
  by (cases m) simp_all

lemma bindP_if [prog_simps]:
  "bindP (if c then m else m') k w = (if c then bindP m k w else bindP m' k w)"
  by simp

lemma bindP_GetCurrentDate [prog_simps]:
  "bindP GetCurrentDate k w = k (format_tm (gmtime (wclock w (wcalls w)))) (w\<lparr>wcalls := Suc (wcalls w)\<rparr>)"
  by (simp add: GetCurrentDate_def bindP_assoc bindP_sys_time)

text \<open>The semaphore can be taken, and given back after it.\<close>

definition sem_ok :: "world \<Rightarrow> bool" where
  "sem_ok w \<longleftrightarrow> 0 < wsem w \<and> wsem w \<le> SEM_VALUE_MAX"

lemma bindP_wait [prog_simps]:
  "bindP semaphore_wait k w = (if wsem w = 0 then (Block, w) else k () (w\<lparr>wsem := wsem w - 1\<rparr>))"
  by (simp add: bindP_def semaphore_wait_def)

lemma bindP_post [prog_simps]:
  "wsem w < SEM_VALUE_MAX \<Longrightarrow> bindP semaphore_post k w = k () (w\<lparr>wsem := Suc (wsem w)\<rparr>)"
  by (simp add: bindP_def semaphore_post_def)

lemma post_ret_run [prog_simps]:
  "wsem w < SEM_VALUE_MAX \<Longrightarrow> post_ret x w = (Ret x, w\<lparr>wsem := Suc (wsem w)\<rparr>)"
  by (simp add: post_ret_def bindP_post)

lemma post_throw_run [prog_simps]:
  "wsem w < SEM_VALUE_MAX \<Longrightarrow> post_throw e w = (Throw e, w\<lparr>wsem := Suc (wsem w)\<rparr>)"
  by (simp add: post_throw_def bindP_post)

lemma bindP_post_throw [prog_simps]:
  "wsem w < SEM_VALUE_MAX \<Longrightarrow> bindP (post_throw e) k w = (Throw e, w\<lparr>wsem := Suc (wsem w)\<rparr>)"
  by (simp add: bindP_def post_throw_run)

lemma sem_okD:
  assumes "sem_ok w"
  shows "wsem w \<noteq> 0" and "wsem w - Suc 0 < SEM_VALUE_MAX" and "Suc (wsem w - Suc 0) = wsem w"
  using assms by (auto simp: sem_ok_def)

text \<open>
  The state inside the critical section: an operation that starts there and gives the semaphore
  back ends with the value the caller saw.
\<close>

lemma world_eta [simp]:
  "w\<lparr>wsem := wsem w\<rparr> = w" "w\<lparr>wfs := wfs w\<rparr> = w"
  "w\<lparr>wfs := f, wsem := wsem w\<rparr> = w\<lparr>wfs := f\<rparr>" "w\<lparr>wsem := wsem w, wfs := f\<rparr> = w\<lparr>wfs := f\<rparr>"
  by simp_all

end
