(* ===== verification/Store_Paths.thy ===== *)
theory Store_Paths
  imports Database_Api
begin

text \<open>
  The paths of ASDIR as lists of components: the strings the database builds are their joins, so
  the calls on them reduce to look-ups and updates of the tree. The single-file methods of the
  database in these terms.
\<close>

section \<open>Components\<close>

definition usersP :: path where "usersP = [''ASDIR'', ''USERS'']"
definition auctionsP :: path where "auctionsP = [''ASDIR'', ''AUCTIONS'']"

definition userP :: "string \<Rightarrow> path" where "userP u = usersP @ [u]"
definition passP :: "string \<Rightarrow> path" where "passP u = userP u @ [u @ ''_pass.txt'']"
definition loginP :: "string \<Rightarrow> path" where "loginP u = userP u @ [u @ ''_login.txt'']"
definition hostedP :: "string \<Rightarrow> path" where "hostedP u = userP u @ [''HOSTED'']"
definition biddedP :: "string \<Rightarrow> path" where "biddedP u = userP u @ [''BIDDED'']"
definition hostP :: "string \<Rightarrow> string \<Rightarrow> path" where "hostP u a = hostedP u @ [a @ ''.txt'']"
definition bidderP :: "string \<Rightarrow> string \<Rightarrow> path" where "bidderP u a = biddedP u @ [a @ ''.txt'']"

definition auctionP :: "string \<Rightarrow> path" where "auctionP a = auctionsP @ [a]"
definition bidsP :: "string \<Rightarrow> path" where "bidsP a = auctionP a @ [''BIDS'']"
definition assetsP :: "string \<Rightarrow> path" where "assetsP a = auctionP a @ [''ASSET'']"
definition assetP :: "string \<Rightarrow> string \<Rightarrow> path" where "assetP a n = assetsP a @ [n]"
definition startP :: "string \<Rightarrow> path" where "startP a = auctionP a @ [''START_'' @ a @ ''.txt'']"
definition endP :: "string \<Rightarrow> path" where "endP a = auctionP a @ [''END_'' @ a @ ''.txt'']"
definition noendP :: "string \<Rightarrow> path" where "noendP a = auctionP a @ [''END'' @ a @ ''.txt'']"
definition bidP :: "string \<Rightarrow> string \<Rightarrow> path" where "bidP a v = bidsP a @ [v @ ''.txt'']"

lemmas user_paths = userP_def usersP_def passP_def loginP_def hostedP_def biddedP_def hostP_def bidderP_def
lemmas auction_paths = auctionP_def auctionsP_def bidsP_def assetsP_def assetP_def startP_def endP_def noendP_def bidP_def

lemma butlast_paths [simp]:
  "butlast (userP u) = usersP" "butlast (passP u) = userP u" "butlast (loginP u) = userP u"
  "butlast (hostedP u) = userP u" "butlast (biddedP u) = userP u" "butlast (hostP u a) = hostedP u"
  "butlast (bidderP u a) = biddedP u" "butlast (auctionP a) = auctionsP" "butlast (bidsP a) = auctionP a"
  "butlast (assetsP a) = auctionP a" "butlast (assetP a n) = assetsP a" "butlast (startP a) = auctionP a"
  "butlast (endP a) = auctionP a" "butlast (noendP a) = auctionP a" "butlast (bidP a v) = bidsP a"
  by (simp_all add: user_paths auction_paths)

text \<open>Different paths of the store are different lists.\<close>

lemma user_paths_neq [simp]:
  "passP u \<noteq> loginP v" "loginP v \<noteq> passP u" "userP u \<noteq> passP v" "passP v \<noteq> userP u"
  "userP u \<noteq> loginP v" "loginP v \<noteq> userP u" "userP u \<noteq> hostedP v" "hostedP v \<noteq> userP u"
  "userP u \<noteq> biddedP v" "biddedP v \<noteq> userP u" "hostedP u \<noteq> biddedP v" "biddedP v \<noteq> hostedP u"
  "hostP u a \<noteq> userP v" "userP v \<noteq> hostP u a" "hostP u a \<noteq> hostedP v" "hostedP v \<noteq> hostP u a"
  "hostP u a \<noteq> biddedP v" "biddedP v \<noteq> hostP u a" "hostP u a \<noteq> passP v" "passP v \<noteq> hostP u a"
  "hostP u a \<noteq> loginP v" "loginP v \<noteq> hostP u a" "bidderP u a \<noteq> userP v" "userP v \<noteq> bidderP u a"
  "bidderP u a \<noteq> hostedP v" "hostedP v \<noteq> bidderP u a" "bidderP u a \<noteq> biddedP v" "biddedP v \<noteq> bidderP u a"
  "bidderP u a \<noteq> passP v" "passP v \<noteq> bidderP u a" "bidderP u a \<noteq> loginP v" "loginP v \<noteq> bidderP u a"
  "hostP u a \<noteq> bidderP v b" "bidderP v b \<noteq> hostP u a"
  by (auto simp: user_paths)

lemma user_files_neq [simp]:
  "is_uid u \<Longrightarrow> passP u \<noteq> hostedP v" "is_uid u \<Longrightarrow> passP u \<noteq> biddedP v"
  "is_uid u \<Longrightarrow> loginP u \<noteq> hostedP v" "is_uid u \<Longrightarrow> loginP u \<noteq> biddedP v"
  "is_uid u \<Longrightarrow> hostedP v \<noteq> passP u" "is_uid u \<Longrightarrow> biddedP v \<noteq> passP u"
  "is_uid u \<Longrightarrow> hostedP v \<noteq> loginP u" "is_uid u \<Longrightarrow> biddedP v \<noteq> loginP u"
  by (auto simp: user_paths is_uid_def dest!: arg_cong [where f = length])

lemma user_paths_inj [simp]:
  "userP u = userP v \<longleftrightarrow> u = v" "passP u = passP v \<longleftrightarrow> u = v" "loginP u = loginP v \<longleftrightarrow> u = v"
  "hostedP u = hostedP v \<longleftrightarrow> u = v" "biddedP u = biddedP v \<longleftrightarrow> u = v"
  "hostP u a = hostP v b \<longleftrightarrow> u = v \<and> a = b" "bidderP u a = bidderP v b \<longleftrightarrow> u = v \<and> a = b"
  by (auto simp: user_paths)

lemma auction_paths_inj [simp]:
  "auctionP a = auctionP b \<longleftrightarrow> a = b" "bidsP a = bidsP b \<longleftrightarrow> a = b" "assetsP a = assetsP b \<longleftrightarrow> a = b"
  "assetP a m = assetP b n \<longleftrightarrow> a = b \<and> m = n" "startP a = startP b \<longleftrightarrow> a = b" "endP a = endP b \<longleftrightarrow> a = b"
  "bidP a v = bidP b w \<longleftrightarrow> a = b \<and> v = w"
  by (auto simp: auction_paths)

lemma auction_paths_neq [simp]:
  "auctionP a \<noteq> bidsP b" "bidsP b \<noteq> auctionP a" "auctionP a \<noteq> assetsP b" "assetsP b \<noteq> auctionP a"
  "auctionP a \<noteq> startP b" "startP b \<noteq> auctionP a" "auctionP a \<noteq> endP b" "endP b \<noteq> auctionP a"
  "auctionP a \<noteq> assetP b n" "assetP b n \<noteq> auctionP a" "auctionP a \<noteq> bidP b v" "bidP b v \<noteq> auctionP a"
  "bidsP a \<noteq> assetsP b" "assetsP b \<noteq> bidsP a" "bidsP a \<noteq> startP b" "startP b \<noteq> bidsP a"
  "bidsP a \<noteq> endP b" "endP b \<noteq> bidsP a" "assetsP a \<noteq> startP b" "startP b \<noteq> assetsP a"
  "assetsP a \<noteq> endP b" "endP b \<noteq> assetsP a" "startP a \<noteq> endP b" "endP b \<noteq> startP a"
  "assetP a n \<noteq> bidsP b" "bidsP b \<noteq> assetP a n" "assetP a n \<noteq> assetsP b" "assetsP b \<noteq> assetP a n"
  "assetP a n \<noteq> startP b" "startP b \<noteq> assetP a n" "assetP a n \<noteq> endP b" "endP b \<noteq> assetP a n"
  "assetP a n \<noteq> bidP b v" "bidP b v \<noteq> assetP a n" "bidP b v \<noteq> bidsP a" "bidsP a \<noteq> bidP b v"
  "bidP b v \<noteq> assetsP a" "assetsP a \<noteq> bidP b v" "bidP b v \<noteq> startP a" "startP a \<noteq> bidP b v"
  "bidP b v \<noteq> endP a" "endP a \<noteq> bidP b v"
  by (auto simp: auction_paths)

lemma noendP_neq [simp]:
  "noendP a \<noteq> auctionP b" "noendP a \<noteq> bidsP b" "noendP a \<noteq> assetsP b" "noendP a \<noteq> startP b" "noendP a \<noteq> assetP b n"
  "noendP a \<noteq> bidP b v" "auctionP b \<noteq> noendP a" "bidsP b \<noteq> noendP a" "assetsP b \<noteq> noendP a" "startP b \<noteq> noendP a"
  "assetP b n \<noteq> noendP a" "bidP b v \<noteq> noendP a" "noendP a \<noteq> hostP u c" "noendP a \<noteq> bidderP u c"
  "hostP u c \<noteq> noendP a" "bidderP u c \<noteq> noendP a"
  by (auto simp: auction_paths user_paths)

lemma noendP_endP [simp]: "noendP a \<noteq> endP b" "endP b \<noteq> noendP a"
  by (auto simp: auction_paths dest!: arg_cong [where f = length])

lemma halves_neq [simp]:
  "userP u \<noteq> auctionP a" "auctionP a \<noteq> userP u" "userP u \<noteq> bidsP a" "bidsP a \<noteq> userP u" "userP u \<noteq> assetsP a" "assetsP a \<noteq> userP u" "userP u \<noteq> startP a" "startP a \<noteq> userP u" "userP u \<noteq> endP a" "endP a \<noteq> userP u" "userP u \<noteq> assetP a n" "assetP a n \<noteq> userP u" "userP u \<noteq> bidP a v" "bidP a v \<noteq> userP u"
  "passP u \<noteq> auctionP a" "auctionP a \<noteq> passP u" "passP u \<noteq> bidsP a" "bidsP a \<noteq> passP u" "passP u \<noteq> assetsP a" "assetsP a \<noteq> passP u" "passP u \<noteq> startP a" "startP a \<noteq> passP u" "passP u \<noteq> endP a" "endP a \<noteq> passP u" "passP u \<noteq> assetP a n" "assetP a n \<noteq> passP u" "passP u \<noteq> bidP a v" "bidP a v \<noteq> passP u"
  "loginP u \<noteq> auctionP a" "auctionP a \<noteq> loginP u" "loginP u \<noteq> bidsP a" "bidsP a \<noteq> loginP u" "loginP u \<noteq> assetsP a" "assetsP a \<noteq> loginP u" "loginP u \<noteq> startP a" "startP a \<noteq> loginP u" "loginP u \<noteq> endP a" "endP a \<noteq> loginP u" "loginP u \<noteq> assetP a n" "assetP a n \<noteq> loginP u" "loginP u \<noteq> bidP a v" "bidP a v \<noteq> loginP u"
  "hostedP u \<noteq> auctionP a" "auctionP a \<noteq> hostedP u" "hostedP u \<noteq> bidsP a" "bidsP a \<noteq> hostedP u" "hostedP u \<noteq> assetsP a" "assetsP a \<noteq> hostedP u" "hostedP u \<noteq> startP a" "startP a \<noteq> hostedP u" "hostedP u \<noteq> endP a" "endP a \<noteq> hostedP u" "hostedP u \<noteq> assetP a n" "assetP a n \<noteq> hostedP u" "hostedP u \<noteq> bidP a v" "bidP a v \<noteq> hostedP u"
  "biddedP u \<noteq> auctionP a" "auctionP a \<noteq> biddedP u" "biddedP u \<noteq> bidsP a" "bidsP a \<noteq> biddedP u" "biddedP u \<noteq> assetsP a" "assetsP a \<noteq> biddedP u" "biddedP u \<noteq> startP a" "startP a \<noteq> biddedP u" "biddedP u \<noteq> endP a" "endP a \<noteq> biddedP u" "biddedP u \<noteq> assetP a n" "assetP a n \<noteq> biddedP u" "biddedP u \<noteq> bidP a v" "bidP a v \<noteq> biddedP u"
  "hostP u c \<noteq> auctionP a" "auctionP a \<noteq> hostP u c" "hostP u c \<noteq> bidsP a" "bidsP a \<noteq> hostP u c" "hostP u c \<noteq> assetsP a" "assetsP a \<noteq> hostP u c" "hostP u c \<noteq> startP a" "startP a \<noteq> hostP u c" "hostP u c \<noteq> endP a" "endP a \<noteq> hostP u c" "hostP u c \<noteq> assetP a n" "assetP a n \<noteq> hostP u c" "hostP u c \<noteq> bidP a v" "bidP a v \<noteq> hostP u c"
  "bidderP u c \<noteq> auctionP a" "auctionP a \<noteq> bidderP u c" "bidderP u c \<noteq> bidsP a" "bidsP a \<noteq> bidderP u c" "bidderP u c \<noteq> assetsP a" "assetsP a \<noteq> bidderP u c" "bidderP u c \<noteq> startP a" "startP a \<noteq> bidderP u c" "bidderP u c \<noteq> endP a" "endP a \<noteq> bidderP u c" "bidderP u c \<noteq> assetP a n" "assetP a n \<noteq> bidderP u c" "bidderP u c \<noteq> bidP a v" "bidP a v \<noteq> bidderP u c"
  by (simp_all add: user_paths auction_paths)

text \<open>The two halves of the store.\<close>

definition in_users :: "path \<Rightarrow> bool" where "in_users p \<longleftrightarrow> take 2 p = usersP"
definition in_auctions :: "path \<Rightarrow> bool" where "in_auctions p \<longleftrightarrow> take 2 p = auctionsP"

lemma in_users_paths [simp]:
  "in_users (userP u)" "in_users (passP u)" "in_users (loginP u)" "in_users (hostedP u)"
  "in_users (biddedP u)" "in_users (hostP u a)" "in_users (bidderP u a)"
  "\<not> in_users (auctionP a)" "\<not> in_users (bidsP a)" "\<not> in_users (assetsP a)" "\<not> in_users (assetP a n)"
  "\<not> in_users (startP a)" "\<not> in_users (endP a)" "\<not> in_users (bidP a v)"
  "in_users usersP" "\<not> in_users auctionsP" "\<not> in_users [''ASDIR'']"
  by (simp_all add: in_users_def user_paths auction_paths)

lemma in_auctions_paths [simp]:
  "\<not> in_auctions (userP u)" "\<not> in_auctions (passP u)" "\<not> in_auctions (loginP u)" "\<not> in_auctions (hostedP u)"
  "\<not> in_auctions (biddedP u)" "\<not> in_auctions (hostP u a)" "\<not> in_auctions (bidderP u a)"
  "in_auctions (auctionP a)" "in_auctions (bidsP a)" "in_auctions (assetsP a)" "in_auctions (assetP a n)"
  "in_auctions (startP a)" "in_auctions (endP a)" "in_auctions (bidP a v)"
  "\<not> in_auctions usersP" "in_auctions auctionsP" "\<not> in_auctions [''ASDIR'']"
  by (simp_all add: in_auctions_def user_paths auction_paths)

section \<open>Clean names\<close>

lemma digits_clean: "s \<noteq> [] \<Longrightarrow> \<forall>c \<in> set s. isdigit c \<Longrightarrow> clean_name s"
  by (auto simp: clean_name_def)

lemma clean_name_append:
  "clean_name s \<Longrightarrow> t \<noteq> [] \<Longrightarrow> isalnum (last t) \<Longrightarrow> CHR ''/'' \<notin> set t \<Longrightarrow> NUL \<notin> set t \<Longrightarrow> clean_name (s @ t)"
  by (cases t rule: rev_cases) (auto simp: clean_name_def isalnum_def isdigit_def)

lemma clean_uid: "is_uid u \<Longrightarrow> clean_name u"
  by (rule digits_clean) (auto simp: is_uid_def)

lemma clean_aid: "is_aid a \<Longrightarrow> clean_name a"
  by (rule digits_clean) (auto simp: is_aid_def)

lemma clean_const [simp]:
  "clean_name ''ASDIR''" "clean_name ''USERS''" "clean_name ''AUCTIONS''" "clean_name ''HOSTED''"
  "clean_name ''BIDDED''" "clean_name ''BIDS''" "clean_name ''ASSET''"
  by (simp_all add: clean_name_def NUL_def)

lemma clean_user_names:
  assumes "is_uid u"
  shows "clean_name (u @ ''_pass.txt'')" and "clean_name (u @ ''_login.txt'')"
  using clean_uid [OF assms] by (intro clean_name_append; simp add: isalnum_def NUL_def)+

lemma clean_txt: "clean_name s \<Longrightarrow> clean_name (s @ ''.txt'')"
  by (intro clean_name_append) (simp_all add: isalnum_def NUL_def)

lemma clean_start_end:
  assumes "is_aid a"
  shows "clean_name (''START_'' @ a @ ''.txt'')" and "clean_name (''END_'' @ a @ ''.txt'')"
    and "clean_name (''END'' @ a @ ''.txt'')"
  using clean_aid [OF assms] by (auto simp: clean_name_def NUL_def)

lemma clean_user_paths [simp]:
  "clean usersP" "clean auctionsP" "clean [''ASDIR'']"
  "is_uid u \<Longrightarrow> clean (userP u)" "is_uid u \<Longrightarrow> clean (passP u)" "is_uid u \<Longrightarrow> clean (loginP u)"
  "is_uid u \<Longrightarrow> clean (hostedP u)" "is_uid u \<Longrightarrow> clean (biddedP u)"
  "is_uid u \<Longrightarrow> is_aid a \<Longrightarrow> clean (hostP u a)" "is_uid u \<Longrightarrow> is_aid a \<Longrightarrow> clean (bidderP u a)"
  by (simp_all add: clean_def user_paths auctionsP_def clean_uid clean_aid clean_user_names clean_txt)

lemma clean_auction_paths [simp]:
  "is_aid a \<Longrightarrow> clean (auctionP a)" "is_aid a \<Longrightarrow> clean (bidsP a)" "is_aid a \<Longrightarrow> clean (assetsP a)"
  "is_aid a \<Longrightarrow> clean (startP a)" "is_aid a \<Longrightarrow> clean (endP a)" "is_aid a \<Longrightarrow> clean (noendP a)"
  "is_aid a \<Longrightarrow> clean_name n \<Longrightarrow> clean (assetP a n)" "is_aid a \<Longrightarrow> clean_name v \<Longrightarrow> clean (bidP a v)"
  using clean_start_end [of a]
  by (simp_all add: clean_def auction_paths clean_aid clean_txt)

section \<open>The strings the code builds\<close>

lemma path_joins:
  "''ASDIR'' = join [''ASDIR'']" "''ASDIR/USERS'' = join usersP" "''ASDIR/AUCTIONS'' = join auctionsP"
  "''ASDIR/AUCTIONS/'' = join auctionsP @ ''/''"
  by (simp_all add: usersP_def auctionsP_def)

lemma path_join:
  "user_dir u = join (userP u)" "pass_fname u = join (passP u)" "login_fname u = join (loginP u)"
  "hosted_dir u = join (hostedP u)" "bidded_dir u = join (biddedP u)" "host_fname u a = join (hostP u a)"
  "bidded_fname u a = join (bidderP u a)" "auction_dir a = join (auctionP a)" "bids_dir a = join (bidsP a)"
  "asset_dir a = join (assetsP a)" "asset_path a n = join (assetP a n)" "start_path a = join (startP a)"
  "end_path a = join (endP a)" "close_checked_path a = join (noendP a)" "bid_path a v = join (bidP a v)"
  by (simp_all add: path_defs close_checked_path_def user_paths auction_paths)

lemmas fs_join =
  fopen_r_join opendir_join access_join fopen_w_join mkdir_join unlink_join fs_is_empty_join
  directory_iterator_join

end
