(* ===== verification/Users.thy ===== *)
theory Users
  imports Store_Paths
begin

text \<open>
  The accounts: what the files under ASDIR/USERS say about a user, the invariant they keep, and the
  methods LoginUser, Logout and Unregister against an abstract account with a password and a flag.
\<close>

section \<open>The invariant\<close>

definition base_inv :: "fs \<Rightarrow> bool" where
  "base_inv f \<longleftrightarrow> closed_fs f \<and> dir_at f [''ASDIR''] \<and> dir_at f usersP \<and> dir_at f auctionsP"

text \<open>
  The directories under USERS are named by user ids. Every user id has either no directory, or a directory with HOSTED and BIDDED in it; its password
  file, if there, holds a password; a user who is logged in has one.
\<close>

definition user_inv :: "fs \<Rightarrow> string \<Rightarrow> bool" where
  "user_inv f u \<longleftrightarrow>
     (look f (userP u) \<noteq> None \<longrightarrow> dir_at f (userP u) \<and> dir_at f (hostedP u) \<and> dir_at f (biddedP u)) \<and>
     (\<forall>n. look f (passP u) = Some n \<longrightarrow> (\<exists>pw. is_password pw \<and> n = File pw)) \<and>
     (\<forall>n. look f (loginP u) = Some n \<longrightarrow> n = File [] \<and> look f (passP u) \<noteq> None)"

definition users_inv :: "fs \<Rightarrow> bool" where
  "users_inv f \<longleftrightarrow>
     base_inv f \<and> (\<forall>u. look f (userP u) \<noteq> None \<longrightarrow> is_uid u) \<and> (\<forall>u. is_uid u \<longrightarrow> user_inv f u)"

lemma users_invD:
  assumes "users_inv f"
  shows "closed_fs f" and "base_inv f" and "dir_at f usersP" and "dir_at f auctionsP"
    and "is_uid u \<Longrightarrow> user_inv f u" and "look f (userP u) \<noteq> None \<Longrightarrow> is_uid u"
  using assms by (auto simp: users_inv_def base_inv_def)

section \<open>The abstract account\<close>

record account =
  acc_password :: "string option"
  acc_logged_in :: bool

definition account :: "fs \<Rightarrow> string \<Rightarrow> account" where
  "account f u =
     \<lparr>acc_password = text_at f (passP u), acc_logged_in = (look f (loginP u) \<noteq> None)\<rparr>"

text \<open>What the protocol's commands mean for one account.\<close>

definition account_login :: "string \<Rightarrow> account \<Rightarrow> int outcome \<times> account" where
  "account_login pw a =
     (case acc_password a of
        None \<Rightarrow> (Ret DB_LOGIN_REGISTER, \<lparr>acc_password = Some pw, acc_logged_in = True\<rparr>)
      | Some q \<Rightarrow>
          if q = pw then (Ret DB_LOGIN_OK, a\<lparr>acc_logged_in := True\<rparr>)
          else if acc_logged_in a then (Throw UserNotLoggedIn, a)
          else (Ret DB_LOGIN_NOK, a))"

definition account_logout :: "string \<Rightarrow> account \<Rightarrow> int outcome \<times> account" where
  "account_logout pw a =
     (if acc_password a \<noteq> Some pw then (Ret DB_LOGOUT_NOK, a)
      else if acc_logged_in a then (Ret DB_LOGOUT_OK, a\<lparr>acc_logged_in := False\<rparr>)
      else (Throw UserNotLoggedIn, a))"

definition account_unregister :: "string \<Rightarrow> account \<Rightarrow> int outcome \<times> account" where
  "account_unregister pw a =
     (if acc_password a \<noteq> Some pw then (Ret DB_UNREGISTER_NOK, a)
      else if acc_logged_in a then (Ret DB_UNREGISTER_OK, \<lparr>acc_password = None, acc_logged_in = False\<rparr>)
      else (Throw UserNotLoggedIn, a))"

section \<open>The single-file methods under the invariant\<close>

lemma CheckUserExisted_eq:
  "users_inv f \<Longrightarrow> is_uid u \<Longrightarrow> CheckUserExisted f (user_dir u) = (if look f (userP u) \<noteq> None then 0 else -1)"
  using users_invD(5) [of f u]
  by (auto simp: CheckUserExisted_def path_join opendir_join users_invD(1) user_inv_def dir_at_def)

lemma text_at_None [simp]: "text_at f p = None \<longleftrightarrow> look f p = None"
  by (auto simp: text_at_def split: option.splits node.splits)

lemma CheckUserLoggedIn_eq:
  "users_inv f \<Longrightarrow> is_uid u \<Longrightarrow> CheckUserLoggedIn f u = (if acc_logged_in (account f u) then 0 else -1)"
  by (auto simp: CheckUserLoggedIn_def path_join fopen_r_join users_invD(1) account_def)

lemma CheckUserLoggedIn_not_uid: "\<not> is_uid u \<Longrightarrow> CheckUserLoggedIn f u = -1"
  by (simp add: CheckUserLoggedIn_def)

lemma CheckUserRegistered_eq:
  "users_inv f \<Longrightarrow> is_uid u \<Longrightarrow> CheckUserRegistered f u = (if acc_password (account f u) \<noteq> None then 0 else -1)"
  by (auto simp: CheckUserRegistered_def path_join fopen_r_join users_invD(1) account_def)

lemma password_text:
  assumes "users_inv f" and "is_uid u" and "acc_password (account f u) = Some q"
  shows "is_password q"
  using assms users_invD(5) [OF assms(1,2)]
  by (auto simp: user_inv_def account_def text_at_def split: option.splits node.splits)

lemma fgets_password: "is_password q \<Longrightarrow> fgets 9 q = Some q \<and> c_str q = q"
proof -
  assume q: "is_password q"
  then have "CHR 0x0A \<notin> set q" and "NUL \<notin> set q" by (auto simp: is_password_def)
  with q show ?thesis by (auto simp: is_password_def c_str_id intro!: fgets_line)
qed

lemma CorrectPassword_eq:
  assumes "users_inv f" and "is_uid u" and "is_password pw"
  shows "CorrectPassword f u pw = 1 \<longleftrightarrow> acc_password (account f u) = Some pw"
proof (cases "acc_password (account f u)")
  case None
  then have "text_at f (passP u) = None" by (simp add: account_def del: text_at_None)
  then show ?thesis using assms
    by (simp add: CorrectPassword_def path_join fopen_r_join users_invD(1) account_def del: text_at_None)
next
  case (Some q)
  then show ?thesis using assms fgets_password [OF password_text [OF assms(1,2) Some]]
    by (simp add: CorrectPassword_def path_join fopen_r_join users_invD(1) account_def)
qed

lemma CorrectPassword_invalid: "\<not> (is_uid u \<and> is_password pw) \<Longrightarrow> CorrectPassword f u pw = -1"
  by (simp add: CorrectPassword_def)

text \<open>A user without a directory has no files.\<close>

lemma account_no_dir:
  assumes "users_inv f" and "is_uid u" and "look f (userP u) = None"
  shows "account f u = \<lparr>acc_password = None, acc_logged_in = False\<rparr>"
    and "look f (hostedP u) = None" and "look f (biddedP u) = None"
proof -
  have "look f (userP u @ [c]) = None" for c
  proof (rule ccontr)
    assume "look f (userP u @ [c]) \<noteq> None"
    moreover have "\<not> outer (userP u @ [c])" by (simp add: outer_def user_paths)
    ultimately have "look f (userP u) = Some Dir" by (rule look_parent [OF users_invD(1) [OF assms(1)]])
    then show False using assms(3) by simp
  qed
  note none = this
  have "look f (passP u) = None" and "look f (loginP u) = None"
    using none by (simp_all add: passP_def loginP_def)
  then show "account f u = \<lparr>acc_password = None, acc_logged_in = False\<rparr>" by (simp add: account_def)
  show "look f (hostedP u) = None" and "look f (biddedP u) = None"
    using none by (simp_all add: hostedP_def biddedP_def)
qed

text \<open>A new user's directories.\<close>

definition with_user_dir :: "string \<Rightarrow> fs \<Rightarrow> fs" where
  "with_user_dir u f =
     AList.update (biddedP u) Dir (AList.update (hostedP u) Dir (AList.update (userP u) Dir f))"

lemma CreateUserDir_eq:
  assumes "users_inv f" and "is_uid u"
  shows "CreateUserDir u f = (if look f (userP u) \<noteq> None then (2, f) else (0, with_user_dir u f))"
proof (cases "look f (userP u) = None")
  case True
  note none = account_no_dir [OF assms True]
  let ?f1 = "AList.update (userP u) Dir f"
  let ?f2 = "AList.update (hostedP u) Dir ?f1"
  have c1: "closed_fs ?f1"
    using assms by (intro closed_update) (simp_all add: users_invD)
  have m1: "mkdir f (user_dir u) = (0, ?f1)"
    using assms True by (simp add: path_join mkdir_join users_invD)
  have m2: "mkdir ?f1 (hosted_dir u) = (0, ?f2)"
    using assms none c1 by (simp add: path_join mkdir_join fs_simps)
  have c2: "closed_fs ?f2"
    using assms c1 by - (rule closed_update, simp_all add: fs_simps)
  have m3: "mkdir ?f2 (bidded_dir u) = (0, with_user_dir u f)"
    using assms none c2 by (simp add: path_join mkdir_join fs_simps with_user_dir_def)
  show ?thesis
    using True assms by (simp add: CreateUserDir_def CheckUserExisted_eq m1 m2 m3)
next
  case False
  then show ?thesis using assms by (simp add: CreateUserDir_def CheckUserExisted_eq)
qed

lemma look_with_user_dir:
  "is_uid u \<Longrightarrow> look (with_user_dir u f) p =
     (if p = userP u \<or> p = hostedP u \<or> p = biddedP u then Some Dir else look f p)"
  by (simp add: with_user_dir_def fs_simps)

lemma base_inv_update:
  assumes "base_inv f" and "clean p" and "dir_at f (butlast p)" and "n = Dir \<or> \<not> dir_at f p"
  shows "base_inv (AList.update p n f)"
  using assms closed_update [of f p n]
  by (auto simp: base_inv_def fs_simps)

lemma users_inv_with_user_dir:
  assumes "users_inv f" and "is_uid u" and "look f (userP u) = None"
  shows "users_inv (with_user_dir u f)"
proof -
  have "base_inv (with_user_dir u f)"
    unfolding with_user_dir_def using assms
    by (intro base_inv_update) (simp_all add: users_invD fs_simps)
  moreover have "user_inv (with_user_dir u f) v" if "is_uid v" for v
    using users_invD(5) [OF assms(1) that] that assms(2)
    by (auto simp: user_inv_def look_with_user_dir dir_at_def)
  moreover have "is_uid v" if "look (with_user_dir u f) (userP v) \<noteq> None" for v
    using that assms(2) users_invD(6) [OF assms(1)] by (auto simp: look_with_user_dir split: if_splits)
  ultimately show ?thesis by (simp add: users_inv_def)
qed

lemma fputs_update: "fputs p s (AList.update p (File []) f) = AList.update p (File (c_str s)) f"
  by (simp add: fputs_def update_update)

lemma CreatePassword_eq:
  assumes "users_inv f" and "is_uid u" and "look f (userP u) \<noteq> None"
  shows "CreatePassword u pw f = (if is_password pw then (0, AList.update (passP u) (File pw) f) else (-1, f))"
proof -
  have inv: "user_inv f u" using assms(1,2) by (rule users_invD)
  then have "dir_at f (userP u)" and "\<not> dir_at f (passP u)"
    using assms(3) by (auto simp: user_inv_def dir_at_def)
  then show ?thesis
    using assms fgets_password [of pw]
    by (simp add: CreatePassword_def path_join fopen_w_join users_invD fputs_update)
qed

lemma CreateLogin_eq:
  assumes "users_inv f" and "is_uid u" and "look f (userP u) \<noteq> None"
  shows "CreateLogin u f = (0, AList.update (loginP u) (File []) f)"
proof -
  have inv: "user_inv f u" using assms(1,2) by (rule users_invD)
  then have "dir_at f (userP u)" and "\<not> dir_at f (loginP u)"
    using assms(3) by (auto simp: user_inv_def dir_at_def)
  then show ?thesis using assms by (simp add: CreateLogin_def path_join fopen_w_join users_invD)
qed

text \<open>A user with a file has a directory.\<close>

lemma user_dir_of_file:
  assumes "users_inv f" and "is_uid u" and "look f (passP u) \<noteq> None"
  shows "look f (userP u) \<noteq> None"
  using account_no_dir(1) [OF assms(1,2)] assms(3) by (auto simp: account_def)

lemma account_password_file: "acc_password (account f u) = Some q \<Longrightarrow> look f (passP u) \<noteq> None"
  by (auto simp: account_def text_at_def split: option.splits)

lemma EraseLogin_eq:
  assumes "users_inv f" and "is_uid u" and "look f (passP u) \<noteq> None"
  shows "EraseLogin u f =
     (if acc_logged_in (account f u) then (0, AList.delete (loginP u) f) else (2, f))"
proof -
  have "look f (loginP u) \<noteq> None \<Longrightarrow> look f (loginP u) = Some (File [])"
    using users_invD(5) [OF assms(1,2)] by (auto simp: user_inv_def)
  then show ?thesis
    using assms user_dir_of_file [OF assms]
    by (auto simp: EraseLogin_def CheckUserExisted_eq [OF assms(1,2), unfolded path_join] CheckLoginExists_def path_join access_join unlink_join
        users_invD account_def)
qed

lemma ErasePassword_eq:
  assumes "users_inv f" and "is_uid u" and "look f (passP u) \<noteq> None"
  shows "ErasePassword u f = (0, AList.delete (passP u) f)"
proof -
  obtain pw where "look f (passP u) = Some (File pw)"
    using users_invD(5) [OF assms(1,2)] assms(3) by (auto simp: user_inv_def)
  then show ?thesis
    using assms user_dir_of_file [OF assms]
    by (auto simp: ErasePassword_def CheckUserExisted_eq [OF assms(1,2), unfolded path_join] CheckPasswordExists_def path_join access_join
        unlink_join users_invD)
qed

section \<open>Steps that touch one account only\<close>

text \<open>
  What a change of the files of user \<open>u\<close> leaves alone: the other accounts, the directories there are, every user's list of
  auctions, and the auctions.
\<close>

definition user_step :: "string \<Rightarrow> fs \<Rightarrow> fs \<Rightarrow> bool" where
  "user_step u f f' \<longleftrightarrow>
     users_inv f' \<and>
     (\<forall>v. v \<noteq> u \<longrightarrow> account f' v = account f v) \<and>
     (\<forall>v. look f' (userP v) = None \<longrightarrow> look f (userP v) = None) \<and>
     (\<forall>v. is_uid v \<longrightarrow> children f' (hostedP v) = children f (hostedP v) \<and>
                     children f' (biddedP v) = children f (biddedP v)) \<and>
     (\<forall>v c. look f' (hostedP v @ [c]) = look f (hostedP v @ [c]) \<and>
            look f' (biddedP v @ [c]) = look f (biddedP v @ [c])) \<and>
     (\<forall>p. in_auctions p \<longrightarrow> look f' p = look f p \<and> children f' p = children f p)"

lemma user_step_refl: "users_inv f \<Longrightarrow> user_step u f f"
  by (simp add: user_step_def)

lemma user_step_trans: "user_step u f g \<Longrightarrow> user_step u g h \<Longrightarrow> user_step u f h"
  by (simp add: user_step_def)

lemma in_auctions_neq [simp]: "in_auctions p \<Longrightarrow> usersP \<noteq> p" "in_auctions p \<Longrightarrow> userP u \<noteq> p"
  by (auto simp: in_auctions_def user_paths auctionsP_def)

lemma list_entries_neq [simp]:
  "userP u \<noteq> hostedP v @ [c]" "userP u \<noteq> biddedP v @ [c]" "hostedP v @ [c] \<noteq> userP u" "biddedP v @ [c] \<noteq> userP u"
  "passP u \<noteq> hostedP v @ [c]" "passP u \<noteq> biddedP v @ [c]" "loginP u \<noteq> hostedP v @ [c]" "loginP u \<noteq> biddedP v @ [c]"
  "hostedP v @ [c] \<noteq> passP u" "biddedP v @ [c] \<noteq> passP u" "hostedP v @ [c] \<noteq> loginP u" "biddedP v @ [c] \<noteq> loginP u"
  "hostedP v @ [c] \<noteq> hostedP u" "hostedP v @ [c] \<noteq> biddedP u" "biddedP v @ [c] \<noteq> hostedP u" "biddedP v @ [c] \<noteq> biddedP u"
  by (auto simp: user_paths)

lemma look_no_dir:
  assumes "closed_fs f" and "clean d" and "look f d = None"
  shows "look f (d @ [c]) = None"
proof (rule ccontr)
  assume "look f (d @ [c]) \<noteq> None"
  moreover have "\<not> outer (d @ [c])" using clean_not_outer [OF assms(2)] by (auto simp: outer_def)
  ultimately have "look f d = Some Dir" by (rule look_parent [OF assms(1)])
  then show False using assms(3) by simp
qed

lemma children_no_entry:
  assumes "closed_fs f" and "clean d" and "look f d = None"
  shows "children f d = []"
proof -
  have "look f (d @ [c]) = None" for c
  proof (rule ccontr)
    assume "look f (d @ [c]) \<noteq> None"
    moreover have "\<not> outer (d @ [c])" using clean_not_outer [OF assms(2)] by (auto simp: outer_def)
    ultimately have "look f d = Some Dir" by (rule look_parent [OF assms(1)])
    then show False using assms(3) by simp
  qed
  then have "\<And>c. c \<notin> set (children f d)" using in_children [OF assms(1,2)] by simp
  then show ?thesis by (cases "children f d") (auto dest: meta_spec)
qed

lemma user_step_dir:
  assumes "users_inv f" and "is_uid u" and "look f (userP u) = None"
  shows "user_step u f (with_user_dir u f)" and "account (with_user_dir u f) u = account f u"
proof -
  have "children (with_user_dir u f) p = children f p" if "in_auctions p" for p
    using that assms by (simp add: with_user_dir_def children_update fs_simps)
  moreover have "children (with_user_dir u f) (hostedP v) = children f (hostedP v)"
      "children (with_user_dir u f) (biddedP v) = children f (biddedP v)" for v
    using assms by (simp_all add: with_user_dir_def children_update fs_simps) (simp_all add: user_paths)
  moreover have "look (with_user_dir u f) p = look f p" if "in_auctions p" for p
    using that assms(2) by (auto simp: look_with_user_dir)
  moreover have "look (with_user_dir u f) (passP v) = look f (passP v)"
      "look (with_user_dir u f) (loginP v) = look f (loginP v)" for v
    using assms(2) by (auto simp: look_with_user_dir user_paths dest: arg_cong [where f = length])
  moreover have "look (with_user_dir u f) (userP v) = None \<longrightarrow> look f (userP v) = None" for v
    using assms(2) by (simp add: look_with_user_dir)
  moreover have "look (with_user_dir u f) (hostedP v @ [c]) = look f (hostedP v @ [c])"
      "look (with_user_dir u f) (biddedP v @ [c]) = look f (biddedP v @ [c])" for v c
    using assms(2) by (simp_all add: look_with_user_dir)
  ultimately show "user_step u f (with_user_dir u f)" "account (with_user_dir u f) u = account f u"
    using users_inv_with_user_dir [OF assms]
    by (simp_all add: user_step_def account_def text_at_def)
qed

lemma user_step_password:
  assumes "users_inv f" and "is_uid u" and "is_password pw" and "look f (userP u) \<noteq> None"
  shows "user_step u f (AList.update (passP u) (File pw) f)"
    and "account (AList.update (passP u) (File pw) f) u = (account f u)\<lparr>acc_password := Some pw\<rparr>"
proof -
  let ?f = "AList.update (passP u) (File pw) f"
  have u: "dir_at f (userP u)" "\<not> dir_at f (passP u)"
    using users_invD(5) [OF assms(1,2)] assms(4) by (auto simp: user_inv_def dir_at_def)
  have "base_inv ?f"
    using assms(1,2) u by (intro base_inv_update) (simp_all add: users_invD)
  moreover have "user_inv ?f v" if "is_uid v" for v
    using users_invD(5) [OF assms(1) that] assms(2,3) that by (auto simp: user_inv_def fs_simps)
  ultimately show "user_step u f ?f" "account ?f u = (account f u)\<lparr>acc_password := Some pw\<rparr>"
    using assms(2) users_invD(6) [OF assms(1)]
    by (auto simp: user_step_def users_inv_def account_def fs_simps children_update)
qed

lemma user_step_login:
  assumes "users_inv f" and "is_uid u" and "acc_password (account f u) \<noteq> None"
  shows "user_step u f (AList.update (loginP u) (File []) f)"
    and "account (AList.update (loginP u) (File []) f) u = (account f u)\<lparr>acc_logged_in := True\<rparr>"
proof -
  let ?f = "AList.update (loginP u) (File []) f"
  have pw: "look f (passP u) \<noteq> None" using assms(3) by (simp add: account_def)
  have u: "dir_at f (userP u)" "\<not> dir_at f (loginP u)"
    using users_invD(5) [OF assms(1,2)] user_dir_of_file [OF assms(1,2) pw]
    by (auto simp: user_inv_def dir_at_def)
  have "base_inv ?f"
    using assms(1,2) u by (intro base_inv_update) (simp_all add: users_invD)
  moreover have "user_inv ?f v" if "is_uid v" for v
    using users_invD(5) [OF assms(1) that] assms(2) pw that by (auto simp: user_inv_def fs_simps)
  ultimately show "user_step u f ?f" "account ?f u = (account f u)\<lparr>acc_logged_in := True\<rparr>"
    using assms(2) users_invD(6) [OF assms(1)]
    by (auto simp: user_step_def users_inv_def account_def fs_simps children_update)
qed

lemma base_inv_delete:
  "base_inv f \<Longrightarrow> clean p \<Longrightarrow> \<not> dir_at f p \<Longrightarrow> base_inv (AList.delete p f)"
  using closed_delete [of f p] by (auto simp: base_inv_def fs_simps)

lemma user_step_logout:
  assumes "users_inv f" and "is_uid u"
  shows "user_step u f (AList.delete (loginP u) f)"
    and "account (AList.delete (loginP u) f) u = (account f u)\<lparr>acc_logged_in := False\<rparr>"
proof -
  let ?f = "AList.delete (loginP u) f"
  have "\<not> dir_at f (loginP u)"
    using users_invD(5) [OF assms] by (auto simp: user_inv_def dir_at_def)
  then have "base_inv ?f"
    using assms by (intro base_inv_delete) (simp_all add: users_invD)
  moreover have "user_inv ?f v" if "is_uid v" for v
    using users_invD(5) [OF assms(1) that] assms(2) that by (auto simp: user_inv_def fs_simps)
  ultimately show "user_step u f ?f" "account ?f u = (account f u)\<lparr>acc_logged_in := False\<rparr>"
    using assms(2) users_invD(6) [OF assms(1)]
    by (auto simp: user_step_def users_inv_def account_def fs_simps children_delete_other)
qed

lemma user_step_unregister:
  assumes "users_inv f" and "is_uid u" and "\<not> acc_logged_in (account f u)"
  shows "user_step u f (AList.delete (passP u) f)"
    and "account (AList.delete (passP u) f) u = (account f u)\<lparr>acc_password := None\<rparr>"
proof -
  let ?f = "AList.delete (passP u) f"
  have "\<not> dir_at f (passP u)"
    using users_invD(5) [OF assms(1,2)] by (auto simp: user_inv_def dir_at_def)
  then have "base_inv ?f"
    using assms by (intro base_inv_delete) (simp_all add: users_invD)
  moreover have "user_inv ?f v" if "is_uid v" for v
    using users_invD(5) [OF assms(1) that] assms(2,3) that by (auto simp: user_inv_def fs_simps account_def)
  ultimately show "user_step u f ?f" "account ?f u = (account f u)\<lparr>acc_password := None\<rparr>"
    using assms(2) users_invD(6) [OF assms(1)]
    by (auto simp: user_step_def users_inv_def account_def fs_simps children_delete_other)
qed

section \<open>The three methods implement the account\<close>

text \<open>
  \<open>runs_account u spec m w\<close>: the method \<open>m\<close> does to the account of \<open>u\<close> what \<open>spec\<close> does, returns
  or throws what it says, takes and gives back the semaphore, and touches nothing else.
\<close>

definition runs_account ::
    "string \<Rightarrow> (account \<Rightarrow> int outcome \<times> account) \<Rightarrow> (int, world) prog \<Rightarrow> world \<Rightarrow> bool" where
  "runs_account u spec m w \<longleftrightarrow>
     (\<exists>f'. m w = (fst (spec (account (wfs w) u)), w\<lparr>wfs := f'\<rparr>) \<and>
           account f' u = snd (spec (account (wfs w) u)) \<and>
           user_step u (wfs w) f')"

lemma runs_accountI:
  assumes "m w = (o', w\<lparr>wfs := f'\<rparr>)" and "spec (account (wfs w) u) = (o', account f' u)"
    and "user_step u (wfs w) f'"
  shows "runs_account u spec m w"
  using assms by (auto simp: runs_account_def)

lemma runs_account_same:
  assumes "users_inv (wfs w)" and "m w = (o', w)" and "spec (account (wfs w) u) = (o', account (wfs w) u)"
  shows "runs_account u spec m w"
  using assms by (intro runs_accountI [of _ _ o' "wfs w"]) (simp_all add: user_step_refl)

text \<open>Writing both files of a user with a directory.\<close>

lemma user_step_register:
  assumes "users_inv f" and "is_uid u" and "is_password pw" and "look f (userP u) \<noteq> None"
  shows "user_step u f (AList.update (loginP u) (File []) (AList.update (passP u) (File pw) f))"
    and "account (AList.update (loginP u) (File []) (AList.update (passP u) (File pw) f)) u =
         \<lparr>acc_password = Some pw, acc_logged_in = True\<rparr>"
proof -
  let ?g = "AList.update (passP u) (File pw) f"
  note pw = user_step_password [OF assms]
  then have g: "users_inv ?g" "acc_password (account ?g u) \<noteq> None" by (simp_all add: user_step_def)
  note lg = user_step_login [OF g(1) assms(2) g(2)]
  show "user_step u f (AList.update (loginP u) (File []) ?g)"
    using pw(1) lg(1) by (rule user_step_trans)
  show "account (AList.update (loginP u) (File []) ?g) u = \<lparr>acc_password = Some pw, acc_logged_in = True\<rparr>"
    using lg(2) pw(2) by simp
qed

lemma LoginUser_register:
  assumes "users_inv f" and "is_uid u" and "is_password pw" and "look f (userP u) \<noteq> None"
  shows "snd (CreateLogin u (snd (CreatePassword u pw f))) =
       AList.update (loginP u) (File []) (AList.update (passP u) (File pw) f)"
    and "fst (CreatePassword u pw f) = 0" and "fst (CreateLogin u (snd (CreatePassword u pw f))) = 0"
proof -
  have g: "users_inv (AList.update (passP u) (File pw) f)"
    using user_step_password [OF assms] by (simp add: user_step_def)
  have "look (AList.update (passP u) (File pw) f) (userP u) \<noteq> None"
    using assms by (simp add: fs_simps)
  from CreateLogin_eq [OF g assms(2) this] CreatePassword_eq [OF assms(1,2,4), of pw] assms(3)
  show "snd (CreateLogin u (snd (CreatePassword u pw f))) =
       AList.update (loginP u) (File []) (AList.update (passP u) (File pw) f)"
    and "fst (CreatePassword u pw f) = 0" and "fst (CreateLogin u (snd (CreatePassword u pw f))) = 0"
    by simp_all
qed

lemma LoginUser_runs:
  assumes "users_inv (wfs w)" and "is_uid u" and "is_password pw" and "sem_ok w"
  shows "runs_account u (account_login pw) (LoginUser u pw) w"
proof -
  let ?f = "wfs w" and ?a = "account (wfs w) u"
  note sem = sem_okD [OF assms(4)]
  note eqs = LoginUser_def prog_simps sem CheckUserLoggedIn_eq [OF assms(1,2)]
    CheckUserRegistered_eq [OF assms(1,2)] CorrectPassword_eq [OF assms(1-3)]
    CreateUserDir_eq [OF assms(1,2)] account_login_def
  show ?thesis
  proof (cases "acc_password ?a")
    case None
    then have nolog: "\<not> acc_logged_in ?a"
      using users_invD(5) [OF assms(1,2)] by (auto simp: account_def user_inv_def)
    show ?thesis
    proof (cases "look ?f (userP u) = None")
      case True
      let ?g = "with_user_dir u ?f"
      note d = user_step_dir [OF assms(1,2) True]
      have g: "users_inv ?g" "look ?g (userP u) \<noteq> None"
        using d(1) assms(2) by (simp_all add: user_step_def look_with_user_dir)
      note reg = user_step_register [OF g(1) assms(2,3) g(2)]
      note cr = LoginUser_register [OF g(1) assms(2,3) g(2)]
      show ?thesis
        using None nolog True reg(2) user_step_trans [OF d(1) reg(1)] cr
        by (intro runs_accountI) (simp_all add: eqs)
    next
      case False
      note reg = user_step_register [OF assms(1-3) False]
      note cr = LoginUser_register [OF assms(1-3) False]
      show ?thesis
        using None nolog False reg cr by (intro runs_accountI) (simp_all add: eqs)
    qed
  next
    case (Some q)
    then have dir: "look ?f (userP u) \<noteq> None"
      using user_dir_of_file [OF assms(1,2)] account_password_file by blast
    show ?thesis
    proof (cases "acc_logged_in ?a \<or> q \<noteq> pw")
      case True
      then show ?thesis
        using Some dir assms(1)
        by (cases "acc_logged_in ?a"; cases "q = pw"; intro runs_account_same) (simp_all add: eqs)
    next
      case False
      show ?thesis
        using Some dir False user_step_login [OF assms(1,2)] CreateLogin_eq [OF assms(1,2) dir]
        by (intro runs_accountI) (simp_all add: eqs)
    qed
  qed
qed

lemma Logout_runs:
  assumes "users_inv (wfs w)" and "is_uid u" and "is_password pw" and "sem_ok w"
  shows "runs_account u (account_logout pw) (Logout u pw) w"
proof -
  let ?a = "account (wfs w) u"
  note eqs = Logout_def prog_simps sem_okD [OF assms(4)] CorrectPassword_eq [OF assms(1-3)] account_logout_def
  show ?thesis
  proof (cases "acc_password ?a = Some pw")
    case True
    note er = EraseLogin_eq [OF assms(1,2) account_password_file [OF True]]
    show ?thesis
    proof (cases "acc_logged_in ?a")
      case log: True
      then show ?thesis
        using True er user_step_logout [OF assms(1,2)] by (intro runs_accountI) (simp_all add: eqs)
    next
      case False
      then show ?thesis using True er assms(1) by (intro runs_account_same) (simp_all add: eqs)
    qed
  next
    case False
    then show ?thesis using assms(1) by (intro runs_account_same) (simp_all add: eqs)
  qed
qed

text \<open>
  Unregister gives the semaphore back before it calls Logout; run alone, that is not seen.
\<close>

lemma Unregister_runs:
  assumes "users_inv (wfs w)" and "is_uid u" and "is_password pw" and "sem_ok w"
  shows "runs_account u (account_unregister pw) (Unregister u pw) w"
proof -
  let ?a = "account (wfs w) u"
  note eqs = Unregister_def prog_simps sem_okD [OF assms(4)] CorrectPassword_eq [OF assms(1-3)] account_unregister_def
  show ?thesis
  proof (cases "acc_password ?a = Some pw")
    case pw: True
    obtain f1 where lo: "Logout u pw w = (fst (account_logout pw ?a), w\<lparr>wfs := f1\<rparr>)"
      and a1: "account f1 u = snd (account_logout pw ?a)" and st1: "user_step u (wfs w) f1"
      using Logout_runs [OF assms] by (auto simp: runs_account_def)
    show ?thesis
    proof (cases "acc_logged_in ?a")
      case True
      have f1: "users_inv f1" "\<not> acc_logged_in (account f1 u)" "acc_password (account f1 u) = Some pw"
        using st1 a1 pw True by (simp_all add: user_step_def account_logout_def)
      note er = ErasePassword_eq [OF f1(1) assms(2) account_password_file [OF f1(3)]]
      note st2 = user_step_unregister [OF f1(1) assms(2) f1(2)]
      have "Logout u pw w = (Ret DB_LOGOUT_OK, w\<lparr>wfs := f1\<rparr>)"
        using lo pw True by (simp add: account_logout_def)
      then have "bindP (Logout u pw) k w = k DB_LOGOUT_OK (w\<lparr>wfs := f1\<rparr>)" for k :: "int \<Rightarrow> (int, world) prog"
        by (rule bindP_run)
      moreover have "account (AList.delete (passP u) f1) u = \<lparr>acc_password = None, acc_logged_in = False\<rparr>"
        using st2(2) f1(2) by (cases "account f1 u") simp
      ultimately show ?thesis
        using pw True er user_step_trans [OF st1 st2(1)]
        by (intro runs_accountI) (simp_all add: eqs db_defs)
    next
      case False
      have "Logout u pw w = (Throw UserNotLoggedIn, w\<lparr>wfs := f1\<rparr>)"
        using lo pw False by (simp add: account_logout_def)
      then have "bindP (Logout u pw) k w = (Throw UserNotLoggedIn, w\<lparr>wfs := f1\<rparr>)" for k :: "int \<Rightarrow> (int, world) prog"
        by (rule bindP_run)
      then show ?thesis
        using pw False a1 st1 by (intro runs_accountI) (simp_all add: eqs account_logout_def)
    qed
  next
    case False
    then show ?thesis using assms(1) by (intro runs_account_same) (simp_all add: eqs)
  qed
qed

text \<open>A malformed user id or password changes nothing.\<close>

lemma LoginUser_not_uid:
  assumes "\<not> is_uid u" and "sem_ok w"
  shows "LoginUser u pw w = (Ret DB_LOGIN_NOK, w)"
  using assms sem_okD [OF assms(2)]
  by (simp add: LoginUser_def prog_simps CheckUserLoggedIn_not_uid CreateUserDir_def)

lemma Logout_invalid:
  assumes "\<not> (is_uid u \<and> is_password pw)" and "sem_ok w"
  shows "Logout u pw w = (Ret DB_LOGOUT_NOK, w)"
  using sem_okD [OF assms(2)]
  by (simp add: Logout_def prog_simps CorrectPassword_invalid [OF assms(1)])

lemma Unregister_invalid:
  assumes "\<not> (is_uid u \<and> is_password pw)" and "sem_ok w"
  shows "Unregister u pw w = (Ret DB_UNREGISTER_NOK, w)"
  using sem_okD [OF assms(2)]
  by (simp add: Unregister_def prog_simps CorrectPassword_invalid [OF assms(1)])

section \<open>The start\<close>

text \<open>On an empty tree CreateBaseDir builds a store without users; a second start fails.\<close>

definition fresh_fs :: fs where
  "fresh_fs = [([''ASDIR''], Dir), ([''ASDIR'', ''USERS''], Dir), ([''ASDIR'', ''AUCTIONS''], Dir)]"

lemma CreateBaseDir_fresh:
  assumes "wfs w = []"
  shows "CreateBaseDir True w = (Ret 0, w\<lparr>wsem := 1, wfs := fresh_fs\<rparr>)"
proof -
  have "mkdir [] ''ASDIR'' = (0, [([''ASDIR''], Dir)])"
    and "mkdir [([''ASDIR''], Dir)] ''ASDIR/USERS'' = (0, [([''ASDIR''], Dir), ([''ASDIR'', ''USERS''], Dir)])"
    and "mkdir [([''ASDIR''], Dir), ([''ASDIR'', ''USERS''], Dir)] ''ASDIR/AUCTIONS'' = (0, fresh_fs)"
    by code_simp+
  then show ?thesis
    using assms by (simp add: CreateBaseDir_def semaphore_init_def bindP_def runF_def)
qed

lemma users_inv_fresh: "users_inv fresh_fs"
proof -
  have c: "closed_fs fresh_fs" by code_simp
  have "base_inv fresh_fs"
    using c by (simp add: base_inv_def dir_at_def look_clean) (simp add: fresh_fs_def usersP_def auctionsP_def)
  moreover have "user_inv fresh_fs u" if "is_uid u" for u
    using that by (simp add: user_inv_def look_clean) (simp add: fresh_fs_def user_paths)
  moreover have "look fresh_fs (userP u) = None" for u
    by (simp add: look_def fresh_fs_def outer_def user_paths)
  ultimately show ?thesis by (simp add: users_inv_def)
qed

end
