(* ===== verification/Auction_Files.thy ===== *)
theory Auction_Files
  imports Users
begin

text \<open>
  The files of an auction: what the start, end and bid files hold, the round trips between writing
  and reading them, and the invariant of the whole store.
\<close>

section \<open>Reading a file of words\<close>

definition parse_start :: "string \<Rightarrow> exn + StartInfo option" where
  "parse_start text =
     (case fgets 200 text of
        None \<Rightarrow> Inr None
      | Some content \<Rightarrow>
          let ws = words (c_str content)
          in if length ws \<noteq> 8 then Inr None
             else bindE (stol (ws ! 7)) (\<lambda>t.
               Inr (Some \<lparr>st_user_id = ws ! 0, st_name = ws ! 1, st_asset_fname = ws ! 2,
                 st_start_value = ws ! 3, st_timeactive = ws ! 4,
                 st_current_date = ws ! 5 @ '' '' @ ws ! 6, st_current_time = u32_of_int t\<rparr>)))"

definition parse_end :: "string \<Rightarrow> exn + EndInfo option" where
  "parse_end text =
     (case fgets 200 text of
        None \<Rightarrow> Inr None
      | Some content \<Rightarrow>
          let ws = words (c_str content)
          in if length ws \<noteq> 3 then Inr None
             else bindE (stol (ws ! 2)) (\<lambda>t.
               Inr (Some \<lparr>en_end_date = ws ! 0 @ '' '' @ ws ! 1, en_end_time = u32_of_int t\<rparr>)))"

definition parse_bid :: "string \<Rightarrow> exn + BidInfo option" where
  "parse_bid text =
     (case fgets 100 text of
        None \<Rightarrow> Inr None
      | Some content \<Rightarrow>
          let ws = words (c_str content)
          in if length ws \<noteq> 5 then Inr None
             else bindE (stol (ws ! 4)) (\<lambda>t.
               Inr (Some \<lparr>bi_user_id = ws ! 0, bi_value = ws ! 1,
                 bi_current_date = ws ! 2 @ '' '' @ ws ! 3, bi_time_passed = u32_of_int t\<rparr>)))"

lemma GetStart_eq:
  "closed_fs f \<Longrightarrow> is_aid a \<Longrightarrow>
   GetStart a f = (case text_at f (startP a) of None \<Rightarrow> Inr None | Some t \<Rightarrow> parse_start t)"
  by (simp add: GetStart_def path_join fopen_r_join parse_start_def cong: option.case_cong)

lemma GetEnd_eq:
  "closed_fs f \<Longrightarrow> is_aid a \<Longrightarrow>
   GetEnd (end_path a) f = (case text_at f (endP a) of None \<Rightarrow> Inr None | Some t \<Rightarrow> parse_end t)"
  by (simp add: GetEnd_def path_join fopen_r_join parse_end_def cong: option.case_cong)

lemma GetBid_eq:
  "closed_fs f \<Longrightarrow> clean p \<Longrightarrow>
   GetBid (join p) f = (case text_at f p of None \<Rightarrow> Inr None | Some t \<Rightarrow> parse_bid t)"
  by (simp add: GetBid_def fopen_r_join parse_bid_def cong: option.case_cong)

text \<open>One line of words without NUL or newline, short enough for the buffer, is read as a whole.\<close>

definition plain_line :: "string \<Rightarrow> bool" where
  "plain_line s \<longleftrightarrow> NUL \<notin> set s \<and> CHR 0x0A \<notin> set s"

lemma plain_line_append [simp]: "plain_line (s @ t) \<longleftrightarrow> plain_line s \<and> plain_line t"
  by (auto simp: plain_line_def)

lemma plain_line_Nil [simp]: "plain_line []"
  by (simp add: plain_line_def)

lemma plain_line_Cons [simp]: "plain_line (c # s) \<longleftrightarrow> c \<noteq> NUL \<and> c \<noteq> CHR 0x0A \<and> plain_line s"
  by (auto simp: plain_line_def)

lemma fgets_plain: "plain_line s \<Longrightarrow> s \<noteq> [] \<Longrightarrow> length s < n \<Longrightarrow> fgets n s = Some s \<and> c_str s = s"
  by (simp add: plain_line_def fgets_line c_str_id)

lemma digits_plain: "\<forall>c \<in> set s. isdigit c \<Longrightarrow> plain_line s"
  by (auto simp: plain_line_def)

lemma nat_str_plain [simp]: "plain_line (nat_str n)"
  by (rule digits_plain) (simp add: nat_str_digits)

lemma nat_str_word [simp]: "is_word (nat_str n)"
  by (simp add: digits_is_word nat_str_digits)

lemma to_string_plain [simp]: "plain_line (to_string v)"
  by (simp add: to_string_def)

lemma to_string_word [simp]: "is_word (to_string v)"
  by (simp add: to_string_def)

lemma length_to_string: "length (to_string v) \<le> 10"
proof -
  have "unat v < 2 ^ LENGTH(32)" by (rule unsigned_less)
  then have "unat v < 10 ^ 10" by simp
  then show ?thesis by (simp add: to_string_def length_nat_str_le)
qed

lemma uid_word: "is_uid u \<Longrightarrow> is_word u \<and> plain_line u \<and> length u = 6"
  by (auto simp: is_uid_def intro!: digits_is_word digits_plain)

section \<open>Dates in the files\<close>

definition date_words :: "string \<Rightarrow> bool" where
  "date_words s \<longleftrightarrow>
     (\<exists>d t. s = d @ '' '' @ t \<and> is_word d \<and> is_word t \<and> plain_line s \<and> length s = 19) \<and>
     (\<exists>d. wf_Datetime d \<and> s = convert_date_to_str d)"

lemma date_wordsD: "date_words s \<Longrightarrow> length s = 19 \<and> plain_line s"
  by (auto simp: date_words_def)

lemma wf_Datetime_words:
  assumes "wf_Datetime d"
  shows "date_words (convert_date_to_str d)"
proof -
  have sp: "\<not> isspace (CHR ''-'')" "\<not> isspace (CHR '':'')" by (simp_all add: isspace_def)
  have w: "is_word (extractDate d)" "is_word (extractTime d)"
    using assms sp
    by (auto simp: wf_Datetime_def extractDate_def extractTime_def is_word_def digits_of_length_def)
  moreover have "plain_line (convert_date_to_str d)" "length (convert_date_to_str d) = 19"
    using assms by (auto simp: wf_Datetime_def convert_date_to_str_def digits_of_length_def NUL_def intro!: digits_plain)
  moreover have "convert_date_to_str d = extractDate d @ '' '' @ extractTime d"
    by (simp add: convert_date_to_str_def extractDate_def extractTime_def)
  ultimately show ?thesis using w assms unfolding date_words_def by metis
qed

lemma clock_date_words: "t < 2 ^ 32 \<Longrightarrow> date_words (format_tm (gmtime t))"
  using format_gmtime [of t] by (simp add: wf_Datetime_words)

section \<open>Round trips\<close>

definition start_text :: "string \<Rightarrow> string \<Rightarrow> string \<Rightarrow> string \<Rightarrow> string \<Rightarrow> string \<Rightarrow> nat \<Rightarrow> string" where
  "start_text user_id name asset_fname start_value timeactive date t =
     user_id @ '' '' @ name @ '' '' @ asset_fname @ '' '' @ start_value @ '' '' @ timeactive @ '' '' @
     date @ '' '' @ nat_str t"

lemma parse_start_text:
  assumes "is_uid u" and "is_word name" "plain_line name" "length name \<le> 24"
    and "is_word fname" "plain_line fname" "length fname \<le> 24"
    and "date_words date" and "t < 2 ^ 32"
  shows "parse_start (start_text u name fname (to_string sv) (to_string ta) date t) =
     Inr (Some \<lparr>st_user_id = u, st_name = name, st_asset_fname = fname, st_start_value = to_string sv,
       st_timeactive = to_string ta, st_current_date = date, st_current_time = word_of_nat t\<rparr>)"
proof -
  let ?s = "start_text u name fname (to_string sv) (to_string ta) date t"
  obtain d e where de: "date = d @ '' '' @ e" "is_word d" "is_word e"
    using assms(8) by (auto simp: date_words_def)
  have de': "d @ CHR '' '' # e = date" using de(1) by simp
  note u = uid_word [OF assms(1)]
  have "length (nat_str t) \<le> 10" using assms(9) by (intro length_nat_str_le) simp_all
  then have len: "length ?s < 200"
    using assms u length_to_string [of sv] length_to_string [of ta] date_wordsD [OF assms(8)] by (simp add: start_text_def)
  have pl: "plain_line ?s" using assms u date_wordsD [OF assms(8)] by (simp add: start_text_def NUL_def)
  have f: "fgets 200 ?s = Some ?s" "c_str ?s = ?s"
    using fgets_plain [OF pl _ len] u by (auto simp: start_text_def)
  have w: "words ?s = [u, name, fname, to_string sv, to_string ta, d, e, nat_str t]"
    using assms u de by (simp add: start_text_def words_step words_last)
  have "stol (nat_str t) = Inr (int t)" using assms(9) by (intro stol_nat_str) simp
  then show ?thesis by (simp add: parse_start_def f w Let_def de' u32_of_int_of_nat)
qed

definition end_text :: "string \<Rightarrow> uint32 \<Rightarrow> string" where
  "end_text date t = date @ '' '' @ to_string t"

lemma parse_end_text:
  assumes "date_words date"
  shows "parse_end (end_text date t) = Inr (Some \<lparr>en_end_date = date, en_end_time = t\<rparr>)"
proof -
  let ?s = "end_text date t"
  obtain d e where de: "date = d @ '' '' @ e" "is_word d" "is_word e"
    using assms by (auto simp: date_words_def)
  have de': "d @ CHR '' '' # e = date" using de(1) by simp
  have len: "length ?s < 200" using length_to_string [of t] date_wordsD [OF assms] by (simp add: end_text_def)
  have pl: "plain_line ?s" using date_wordsD [OF assms] by (simp add: end_text_def NUL_def)
  have f: "fgets 200 ?s = Some ?s" "c_str ?s = ?s" using fgets_plain [OF pl _ len] by (auto simp: end_text_def)
  have w: "words ?s = [d, e, to_string t]" using de by (simp add: end_text_def words_step words_last)
  show ?thesis by (simp add: parse_end_def f w Let_def de')
qed

definition bid_text :: "string \<Rightarrow> string \<Rightarrow> string \<Rightarrow> uint32 \<Rightarrow> string" where
  "bid_text user_id value date t = user_id @ '' '' @ value @ '' '' @ date @ '' '' @ to_string t"

lemma parse_bid_text:
  assumes "is_uid u" and "date_words date"
  shows "parse_bid (bid_text u (to_string v) date t) =
     Inr (Some \<lparr>bi_user_id = u, bi_value = to_string v, bi_current_date = date, bi_time_passed = t\<rparr>)"
proof -
  let ?s = "bid_text u (to_string v) date t"
  obtain d e where de: "date = d @ '' '' @ e" "is_word d" "is_word e"
    using assms(2) by (auto simp: date_words_def)
  have de': "d @ CHR '' '' # e = date" using de(1) by simp
  note u = uid_word [OF assms(1)]
  have len: "length ?s < 100"
    using assms u length_to_string [of v] length_to_string [of t] date_wordsD [OF assms(2)] by (simp add: bid_text_def)
  have pl: "plain_line ?s" using assms u date_wordsD [OF assms(2)] by (simp add: bid_text_def NUL_def)
  have f: "fgets 100 ?s = Some ?s" "c_str ?s = ?s" using fgets_plain [OF pl _ len] u by (auto simp: bid_text_def)
  have w: "words ?s = [u, to_string v, d, e, to_string t]"
    using u de by (simp add: bid_text_def words_step words_last)
  show ?thesis by (simp add: parse_bid_def f w Let_def de')
qed

section \<open>The invariant of the store\<close>

definition wf_start :: "StartInfo \<Rightarrow> bool" where
  "wf_start s \<longleftrightarrow>
     is_uid (st_user_id s) \<and>
     (\<exists>sv. st_start_value s = to_string sv) \<and> (\<exists>ta. st_timeactive s = to_string ta) \<and>
     date_words (st_current_date s)"

definition auction_inv :: "fs \<Rightarrow> string \<Rightarrow> bool" where
  "auction_inv f a \<longleftrightarrow>
     dir_at f (auctionP a) \<and> dir_at f (bidsP a) \<and> dir_at f (assetsP a) \<and>
     (\<exists>t s. look f (startP a) = Some (File t) \<and> parse_start t = Inr (Some s) \<and> wf_start s) \<and>
     (\<forall>n. look f (endP a) = Some n \<longrightarrow> (\<exists>t e. n = File t \<and> parse_end t = Inr (Some e) \<and> date_words (en_end_date e))) \<and>
     look f (noendP a) = None \<and>
     (\<forall>c n. look f (bidsP a @ [c]) = Some n \<longrightarrow>
        (\<exists>v t b. c = to_string v @ ''.txt'' \<and> n = File t \<and> parse_bid t = Inr (Some b) \<and>
           is_uid (bi_user_id b) \<and> bi_value b = to_string v \<and> date_words (bi_current_date b)))"

text \<open>An entry of HOSTED or BIDDED is an empty file named after an auction there is.\<close>

definition entry_inv :: "fs \<Rightarrow> path \<Rightarrow> string \<Rightarrow> bool" where
  "entry_inv f d c \<longleftrightarrow>
     look f (d @ [c]) = Some (File []) \<and> (\<exists>a. c = a @ ''.txt'' \<and> is_aid a \<and> look f (auctionP a) \<noteq> None)"

definition store_inv :: "fs \<Rightarrow> bool" where
  "store_inv f \<longleftrightarrow>
     users_inv f \<and>
     (\<forall>c. look f (auctionsP @ [c]) \<noteq> None \<longrightarrow> is_aid c \<and> auction_inv f c) \<and>
     (\<forall>u c. is_uid u \<longrightarrow> look f (hostedP u @ [c]) \<noteq> None \<longrightarrow> entry_inv f (hostedP u) c) \<and>
     (\<forall>u c. is_uid u \<longrightarrow> look f (biddedP u @ [c]) \<noteq> None \<longrightarrow> entry_inv f (biddedP u) c)"

lemma store_invD:
  assumes "store_inv f"
  shows "users_inv f" and "closed_fs f"
    and "look f (auctionP a) \<noteq> None \<Longrightarrow> is_aid a" and "look f (auctionP a) \<noteq> None \<Longrightarrow> auction_inv f a"
  using assms users_invD(1) by (auto simp: store_inv_def auctionP_def)

lemma store_inv_hosted:
  assumes "store_inv f" and "is_uid u" and "look f (hostedP u @ [c]) \<noteq> None"
  shows "entry_inv f (hostedP u) c"
  using assms(1) [unfolded store_inv_def] assms(2,3) by blast

lemma store_inv_bidded:
  assumes "store_inv f" and "is_uid u" and "look f (biddedP u @ [c]) \<noteq> None"
  shows "entry_inv f (biddedP u) c"
  using assms(1) [unfolded store_inv_def] assms(2,3) by blast

lemma store_invI:
  assumes "users_inv f"
    and "\<And>a. look f (auctionP a) \<noteq> None \<Longrightarrow> is_aid a \<and> auction_inv f a"
    and "\<And>u c. is_uid u \<Longrightarrow> look f (hostedP u @ [c]) \<noteq> None \<Longrightarrow> entry_inv f (hostedP u) c"
    and "\<And>u c. is_uid u \<Longrightarrow> look f (biddedP u @ [c]) \<noteq> None \<Longrightarrow> entry_inv f (biddedP u) c"
  shows "store_inv f"
  using assms(1) assms(2) [unfolded auctionP_def] assms(3,4) unfolding store_inv_def by blast

text \<open>The auctions' ids, in the order of the directory.\<close>

definition auction_ids :: "fs \<Rightarrow> string list" where
  "auction_ids f = children f auctionsP"

lemma in_auction_ids: "closed_fs f \<Longrightarrow> a \<in> set (auction_ids f) \<longleftrightarrow> look f (auctionP a) \<noteq> None"
  by (simp add: auction_ids_def in_children auctionP_def)

text \<open>What the start file of an auction says.\<close>

definition start_of :: "fs \<Rightarrow> string \<Rightarrow> StartInfo" where
  "start_of f a = (case text_at f (startP a) of
     Some t \<Rightarrow> (case parse_start t of Inr (Some s) \<Rightarrow> s | _ \<Rightarrow> undefined) | _ \<Rightarrow> undefined)"

lemma start_of_eq:
  assumes "auction_inv f a" and "closed_fs f" and "is_aid a"
  shows "GetStart a f = Inr (Some (start_of f a))" and "wf_start (start_of f a)"
  using assms by (auto simp: auction_inv_def GetStart_eq start_of_def text_at_def)

definition timeactive_of :: "fs \<Rightarrow> string \<Rightarrow> uint32" where
  "timeactive_of f a = (case stol (st_timeactive (start_of f a)) of Inr v \<Rightarrow> u32_of_int v | Inl _ \<Rightarrow> 0)"

lemma timeactive_of_eq:
  assumes "auction_inv f a" and "closed_fs f" and "is_aid a"
  shows "stol (st_timeactive (start_of f a)) = Inr (uint (timeactive_of f a))"
proof -
  obtain ta where "st_timeactive (start_of f a) = to_string ta"
    using start_of_eq(2) [OF assms] by (auto simp: wf_start_def)
  then show ?thesis by (simp add: timeactive_of_def)
qed

text \<open>An auction has ended when its end file is there.\<close>

definition ended :: "fs \<Rightarrow> string \<Rightarrow> bool" where
  "ended f a \<longleftrightarrow> look f (endP a) \<noteq> None"

definition time_over :: "fs \<Rightarrow> string \<Rightarrow> nat \<Rightarrow> bool" where
  "time_over f a t \<longleftrightarrow> word_of_nat t - st_current_time (start_of f a) \<ge> timeactive_of f a"

lemma CheckEndExists_eq:
  "closed_fs f \<Longrightarrow> is_aid a \<Longrightarrow> CheckEndExists f (end_path a) = (if ended f a then 0 else -1)"
  by (simp add: CheckEndExists_def path_join access_join ended_def)

lemma CheckAuctionExists_eq:
  assumes "store_inv f" and "is_aid a"
  shows "CheckAuctionExists f a = (if a \<in> set (auction_ids f) then 0 else -1)"
  using assms store_invD(4) [OF assms(1)] in_auction_ids [OF store_invD(2) [OF assms(1)]]
  by (auto simp: CheckAuctionExists_def path_join opendir_join store_invD(2) auction_inv_def dir_at_def)

end
