(* ===== verification/Closing.thy ===== *)
theory Closing
  imports Auction_Files
begin

text \<open>
  Closing an auction and listing auctions: Close writes the end file once; the three lists close
  what has run out and report every auction of the directory, in the order of the ids, as active
  exactly if it has no end file afterwards.
\<close>

section \<open>Updates among the auctions\<close>

lemma users_inv_auction_update:
  assumes "users_inv f" and "clean p" and "in_auctions p" and "dir_at f (butlast p)"
    and "n = Dir \<or> \<not> dir_at f p"
  shows "users_inv (AList.update p n f)"
proof -
  have neq: "q \<noteq> p" if "\<not> in_auctions q" for q using that assms(3) by auto
  have "base_inv (AList.update p n f)"
    using assms by (intro base_inv_update) (simp_all add: users_invD)
  moreover have "user_inv (AList.update p n f) u" if "is_uid u" for u
    using users_invD(5) [OF assms(1) that] assms(2) by (simp add: user_inv_def fs_simps neq)
  moreover have "is_uid v" if "look (AList.update p n f) (userP v) \<noteq> None" for v
    using that assms neq users_invD(6) [OF assms(1)] by (auto simp: fs_simps split: if_splits)
  ultimately show ?thesis by (simp add: users_inv_def)
qed

lemma list_paths_neq [simp]:
  "endP a \<noteq> bidsP b @ [c]" "bidsP b @ [c] \<noteq> endP a" "endP a \<noteq> auctionsP @ [c]" "auctionsP @ [c] \<noteq> endP a"
  "endP a \<noteq> hostedP u @ [c]" "hostedP u @ [c] \<noteq> endP a" "endP a \<noteq> biddedP u @ [c]" "biddedP u @ [c] \<noteq> endP a"
  by (auto simp: user_paths auction_paths)

lemma auction_dir_of:
  "auction_inv f a \<Longrightarrow> dir_at f (auctionP a) \<and> dir_at f (bidsP a) \<and> dir_at f (assetsP a)"
  by (simp add: auction_inv_def)

lemma store_inv_end:
  assumes "store_inv f" and "look f (auctionP a) \<noteq> None" and "parse_end text = Inr (Some e)"
    and "date_words (en_end_date e)"
  shows "store_inv (AList.update (endP a) (File text) f)"
proof -
  note a = store_invD(3,4) [OF assms(1,2)]
  have "\<not> dir_at f (endP a)" using a(2) by (auto simp: auction_inv_def dir_at_def)
  then have "users_inv (AList.update (endP a) (File text) f)"
    using assms(1) a auction_dir_of [OF a(2)] by (intro users_inv_auction_update) (simp_all add: store_invD)
  moreover have "auction_inv (AList.update (endP a) (File text) f) b" if "auction_inv f b" for b
    using that a(1) assms(3,4) by (auto simp: auction_inv_def fs_simps)
  ultimately show ?thesis
    using assms(1) a(1) unfolding store_inv_def
    by (simp add: fs_simps entry_inv_def)
qed

section \<open>Close\<close>

definition clock_ok :: "world \<Rightarrow> bool" where
  "clock_ok w \<longleftrightarrow> (\<forall>n. wclock w n < 2 ^ 32)"

text \<open>The two times CreateEndFile reads: one for the date, one for the seconds.\<close>

definition closing_text :: "fs \<Rightarrow> string \<Rightarrow> nat \<Rightarrow> nat \<Rightarrow> string" where
  "closing_text f a t1 t2 =
     end_content (st_current_time (start_of f a)) (timeactive_of f a) (word_of_nat t2) (format_tm (gmtime t1))"

text \<open>An end file never says more seconds than the auction was to last.\<close>

lemma end_content_text:
  assumes "t1 < 2 ^ 32"
  shows "\<exists>date s. end_content start ta now (format_tm (gmtime t1)) = end_text date s \<and> date_words date \<and> s \<le> ta"
proof -
  have "unat (start + ta) < 2 ^ LENGTH(32)" by (rule unsigned_less)
  then have "date_words (format_tm (gmtime (unat (start + ta))))" by (intro clock_date_words) simp
  then show ?thesis
    using clock_date_words [OF assms]
    by (cases "now - start > ta") (auto simp: end_content_def end_text_def Let_def not_less)
qed

lemma closing_text_parse:
  assumes "t1 < 2 ^ 32"
  shows "\<exists>e. parse_end (closing_text f a t1 t2) = Inr (Some e) \<and> en_end_time e \<le> timeactive_of f a \<and>
     date_words (en_end_date e)"
  using end_content_text [OF assms, of "st_current_time (start_of f a)" "timeactive_of f a" "word_of_nat t2"]
  by (auto simp: closing_text_def parse_end_text)

definition closed_now :: "string \<Rightarrow> world \<Rightarrow> fs" where
  "closed_now a w =
     AList.update (endP a) (File (closing_text (wfs w) a (wclock w (wcalls w)) (wclock w (Suc (wcalls w))))) (wfs w)"

lemma plain_end_text: "date_words d \<Longrightarrow> c_str (end_text d s) = end_text d s"
  using date_wordsD [of d] to_string_plain [of s]
  by (intro c_str_id) (auto simp: end_text_def plain_line_def NUL_def)

lemma Db_Close_run:
  assumes "store_inv (wfs w)" and "look (wfs w) (auctionP a) \<noteq> None" and "clock_ok w"
  shows "Db_Close a w =
     (if ended (wfs w) a then (Throw AuctionAlreadyClosed, w\<lparr>wcalls := Suc (Suc (wcalls w))\<rparr>)
      else (Ret DB_CLOSE_OK, w\<lparr>wcalls := Suc (Suc (wcalls w)), wfs := closed_now a w\<rparr>))"
proof -
  let ?f = "wfs w"
  note c = store_invD(2) [OF assms(1)]
  note a = store_invD(3,4) [OF assms(1,2)]
  let ?text = "closing_text ?f a (wclock w (wcalls w)) (wclock w (Suc (wcalls w)))"
  have t1: "wclock w (wcalls w) < 2 ^ 32" using assms(3) by (simp add: clock_ok_def)
  have str: "c_str ?text = ?text"
    using end_content_text [OF t1, of "st_current_time (start_of ?f a)" "timeactive_of ?f a"
        "word_of_nat (wclock w (Suc (wcalls w)))"]
    by (auto simp: closing_text_def plain_end_text)
  have w: "fopen_w ?f (end_path a) = Some (endP a, AList.update (endP a) (File []) ?f)" if "\<not> ended ?f a"
    using that a c auction_dir_of [OF a(2)] by (simp add: path_join fopen_w_join ended_def dir_at_def)
  show ?thesis
    using a c w str
    by (simp add: Db_Close_def CreateEndFile_def bindP_assoc prog_simps start_of_eq timeactive_of_eq
        CheckEndExists_eq Let_def fputs_update closed_now_def closing_text_def db_defs u32_of_int_of_nat)
qed

text \<open>What closing leaves alone.\<close>

definition close_step :: "string \<Rightarrow> fs \<Rightarrow> fs \<Rightarrow> bool" where
  "close_step a f f' \<longleftrightarrow>
     f' = f \<or> \<not> ended f a \<and> (\<exists>t e. f' = AList.update (endP a) (File t) f \<and> parse_end t = Inr (Some e) \<and> date_words (en_end_date e))"

lemma close_step_closed_now:
  assumes "clock_ok w" and "\<not> ended (wfs w) a"
  shows "close_step a (wfs w) (closed_now a w)"
proof -
  have "wclock w (wcalls w) < 2 ^ 32" using assms(1) by (simp add: clock_ok_def)
  then obtain e where "parse_end (closing_text (wfs w) a (wclock w (wcalls w)) (wclock w (Suc (wcalls w)))) = Inr (Some e)"
      and "date_words (en_end_date e)"
    using closing_text_parse by blast
  then show ?thesis using assms(2) unfolding close_step_def closed_now_def by blast
qed

lemma close_stepD:
  assumes "close_step a f f'" and "store_inv f" and "look f (auctionP a) \<noteq> None"
  shows "store_inv f'" and "p \<noteq> endP a \<Longrightarrow> look f' p = look f p"
    and "ended f a \<Longrightarrow> f' = f" and "d \<noteq> auctionP a \<Longrightarrow> children f' d = children f d"
proof -
  have aid: "is_aid a" using assms(2,3) by (rule store_invD)
  show "store_inv f'" using assms store_inv_end by (auto simp: close_step_def)
  show "p \<noteq> endP a \<Longrightarrow> look f' p = look f p"
    using assms(1) aid by (auto simp: close_step_def fs_simps)
  show "ended f a \<Longrightarrow> f' = f" using assms(1) by (auto simp: close_step_def)
  show "d \<noteq> auctionP a \<Longrightarrow> children f' d = children f d"
    using assms(1) aid by (auto simp: close_step_def children_update)
qed

section \<open>One entry of a list\<close>

lemma list_auction_run:
  assumes "store_inv (wfs w)" and "look (wfs w) (auctionP a) \<noteq> None" and "clock_ok w"
  shows "\<exists>f' n. list_auction a w = (Ret \<lparr>al_a_id = a, al_active = (\<not> ended f' a)\<rparr>, w\<lparr>wfs := f', wcalls := n\<rparr>) \<and>
     close_step a (wfs w) f' \<and>
     (ended f' a \<longleftrightarrow> ended (wfs w) a \<or> time_over (wfs w) a (wclock w (wcalls w))) \<and>
     wcalls w \<le> n \<and> (\<not> ended (wfs w) a \<longrightarrow> wcalls w < n)"
proof -
  let ?f = "wfs w"
  note c = store_invD(2) [OF assms(1)]
  note a = store_invD(3,4) [OF assms(1,2)]
  note eqs = list_auction_def prog_simps CheckEndExists_eq [OF c a(1)] start_of_eq(1) [OF a(2) c a(1)]
    timeactive_of_eq [OF a(2) c a(1)] Let_def u32_of_int_of_nat
  show ?thesis
  proof (cases "ended ?f a")
    case True
    then have "list_auction a w = (Ret \<lparr>al_a_id = a, al_active = (\<not> ended ?f a)\<rparr>, w\<lparr>wfs := ?f, wcalls := wcalls w\<rparr>)"
      by (simp add: eqs)
    with True show ?thesis unfolding close_step_def by fast
  next
    case False
    let ?w = "w\<lparr>wcalls := Suc (wcalls w)\<rparr>"
    show ?thesis
    proof (cases "time_over ?f a (wclock w (wcalls w))")
      case over: True
      have cl: "Db_Close a ?w = (Ret DB_CLOSE_OK, ?w\<lparr>wcalls := Suc (Suc (wcalls ?w)), wfs := closed_now a ?w\<rparr>)"
        using Db_Close_run [of ?w a] assms False by (simp add: clock_ok_def)
      have b: "bindP (Db_Close a) k ?w = k DB_CLOSE_OK (?w\<lparr>wcalls := Suc (Suc (wcalls ?w)), wfs := closed_now a ?w\<rparr>)"
        for k :: "int \<Rightarrow> (AuctionListing, world) prog"
        by (rule bindP_run(1)) (rule cl)
      have step: "close_step a ?f (closed_now a ?w)"
        using close_step_closed_now [of ?w a] assms(3) False by (simp add: clock_ok_def)
      have e: "ended (closed_now a ?w) a" using a(1) by (simp add: closed_now_def ended_def fs_simps)
      have "list_auction a w = (Ret \<lparr>al_a_id = a, al_active = (\<not> ended (closed_now a ?w) a)\<rparr>,
          w\<lparr>wfs := closed_now a ?w, wcalls := Suc (Suc (wcalls ?w))\<rparr>)"
        using False over e by (simp add: eqs time_over_def b)
      moreover have "wcalls w \<le> Suc (Suc (wcalls ?w))" "wcalls w < Suc (Suc (wcalls ?w))" by simp_all
      ultimately show ?thesis using step over e by blast
    next
      case active: False
      then have "list_auction a w = (Ret \<lparr>al_a_id = a, al_active = (\<not> ended ?f a)\<rparr>,
          w\<lparr>wfs := ?f, wcalls := Suc (wcalls w)\<rparr>)"
        using False by (simp add: eqs time_over_def)
      moreover have "wcalls w \<le> Suc (wcalls w)" "wcalls w < Suc (wcalls w)" by simp_all
      ultimately show ?thesis using active False unfolding close_step_def by blast
    qed
  qed
qed

section \<open>The loop over a directory\<close>

lemma look_same_start: "look f' (startP a) = look f (startP a) \<Longrightarrow> start_of f' a = start_of f a"
  unfolding start_of_def text_at_def by (simp only:)

lemma time_over_same:
  assumes "look f' (startP a) = look f (startP a)"
  shows "time_over f' a t = time_over f a t"
  by (simp add: time_over_def timeactive_of_def look_same_start [OF assms])

text \<open>
  The times that the clock shows between two states, the second of which has called it \<open>n\<close> times in all. An
  auction has ended after the loop exactly if it had before, or its time was over at one of these times, when the
  loop looked at it. Only auctions of the list that had not ended were closed.
\<close>

definition readings :: "world \<Rightarrow> nat \<Rightarrow> nat set" where
  "readings w n = wclock w ` {wcalls w..<n}"

lemma readings_same [simp]: "readings (w\<lparr>wsem := k\<rparr>) n = readings w n" "readings (w\<lparr>wfs := f\<rparr>) n = readings w n"
  by (simp_all add: readings_def)

definition looked_at :: "string \<Rightarrow> fs \<Rightarrow> fs \<Rightarrow> nat set \<Rightarrow> bool" where
  "looked_at a f f' ts \<longleftrightarrow> (if ended f a then ended f' a else \<exists>t \<in> ts. ended f' a \<longleftrightarrow> time_over f a t)"

definition closed_those :: "string list \<Rightarrow> fs \<Rightarrow> fs \<Rightarrow> nat set \<Rightarrow> bool" where
  "closed_those as f f' ts \<longleftrightarrow>
     store_inv f' \<and>
     (\<forall>p. (\<forall>a \<in> set as. ended f a \<or> p \<noteq> endP a) \<longrightarrow> look f' p = look f p) \<and>
     (\<forall>d. (\<forall>a. d \<noteq> auctionP a) \<longrightarrow> children f' d = children f d) \<and>
     (\<forall>a \<in> set as. looked_at a f f' ts)"

lemma list_loop_run:
  assumes "store_inv (wfs w)" and "\<forall>a \<in> set as. look (wfs w) (auctionP a) \<noteq> None"
    and "distinct as" and "clock_ok w"
  shows "\<exists>f' n. list_loop as acc w =
       (Ret (acc @ map (\<lambda>a. \<lparr>al_a_id = a, al_active = (\<not> ended f' a)\<rparr>) as), w\<lparr>wfs := f', wcalls := n\<rparr>) \<and>
     closed_those as (wfs w) f' (readings w n) \<and> wcalls w \<le> n"
  using assms
proof (induction as arbitrary: w acc)
  case Nil
  have "closed_those [] (wfs w) (wfs w) (readings w (wcalls w))" using Nil by (simp add: closed_those_def)
  moreover have "list_loop [] acc w =
      (Ret (acc @ map (\<lambda>a. \<lparr>al_a_id = a, al_active = (\<not> ended (wfs w) a)\<rparr>) []), w\<lparr>wfs := wfs w, wcalls := wcalls w\<rparr>)"
    by simp
  ultimately show ?case by (meson order_refl)
next
  case (Cons a as)
  obtain f1 n1 where s1: "list_auction a w = (Ret \<lparr>al_a_id = a, al_active = (\<not> ended f1 a)\<rparr>, w\<lparr>wfs := f1, wcalls := n1\<rparr>)"
    and step: "close_step a (wfs w) f1"
    and e1: "ended f1 a \<longleftrightarrow> ended (wfs w) a \<or> time_over (wfs w) a (wclock w (wcalls w))"
    and n1: "wcalls w \<le> n1" "\<not> ended (wfs w) a \<longrightarrow> wcalls w < n1"
    using list_auction_run [of w a] Cons.prems by (metis list.set_intros(1))
  have la: "look (wfs w) (auctionP a) \<noteq> None" using Cons.prems by simp
  note st = close_stepD [OF step Cons.prems(1) la]
  let ?w1 = "w\<lparr>wfs := f1, wcalls := n1\<rparr>"
  have "\<forall>b \<in> set as. look (wfs ?w1) (auctionP b) \<noteq> None" using Cons.prems(2) st(2) by simp
  then obtain f' n where s2: "list_loop as (acc @ [\<lparr>al_a_id = a, al_active = (\<not> ended f1 a)\<rparr>]) ?w1 =
       (Ret (acc @ [\<lparr>al_a_id = a, al_active = (\<not> ended f1 a)\<rparr>] @ map (\<lambda>a. \<lparr>al_a_id = a, al_active = (\<not> ended f' a)\<rparr>) as),
        w\<lparr>wfs := f', wcalls := n\<rparr>)"
    and cl: "closed_those as f1 f' (readings ?w1 n)" and n: "n1 \<le> n"
    using Cons.IH [of ?w1 "acc @ [\<lparr>al_a_id = a, al_active = (\<not> ended f1 a)\<rparr>]"] Cons.prems st(1)
    by (auto simp: clock_ok_def)
  have a_as: "a \<notin> set as" using Cons.prems(3) by simp
  have "(\<forall>b \<in> set as. ended f1 b \<or> endP a \<noteq> endP b) \<longrightarrow> look f' (endP a) = look f1 (endP a)"
    using cl unfolding closed_those_def by blast
  then have "look f' (endP a) = look f1 (endP a)" using a_as by auto
  then have ea: "ended f' a = ended f1 a" by (simp add: ended_def)
  have other: "ended f1 b = ended (wfs w) b" "time_over f1 b t = time_over (wfs w) b t" if "b \<noteq> a" for b t
    using st(2) that by (simp_all add: ended_def time_over_same [of f1 b "wfs w"])
  have same: "look f' p = look (wfs w) p" if "\<forall>b \<in> set (a # as). ended (wfs w) b \<or> p \<noteq> endP b" for p
  proof -
    have "\<forall>b \<in> set as. ended f1 b \<or> p \<noteq> endP b"
    proof
      fix b assume b: "b \<in> set as"
      then have "b \<noteq> a" using a_as by auto
      then show "ended f1 b \<or> p \<noteq> endP b" using that b by (simp add: other(1))
    qed
    then have "look f' p = look f1 p" using cl unfolding closed_those_def by blast
    moreover have "look f1 p = look (wfs w) p" using that st(2,3) by (cases "p = endP a") auto
    ultimately show ?thesis by simp
  qed
  have later: "t \<in> readings w n" if "t \<in> readings ?w1 n" for t using that n1 by (auto simp: readings_def)
  have now: "wclock w (wcalls w) \<in> readings w n" if "\<not> ended (wfs w) a" using that n1 n by (auto simp: readings_def)
  have "looked_at b (wfs w) f' (readings w n)" if b: "b \<in> set (a # as)" for b
  proof (cases "b = a")
    case True
    with e1 ea now show ?thesis unfolding looked_at_def by auto
  next
    case False
    with b cl have "looked_at b f1 f' (readings ?w1 n)" by (simp add: closed_those_def)
    with False later show ?thesis by (auto simp: looked_at_def other split: if_splits)
  qed
  then have "closed_those (a # as) (wfs w) f' (readings w n)"
    using cl same st(4) by (simp add: closed_those_def)
  moreover have "wcalls w \<le> n" using n1 n by simp
  moreover have "list_loop (a # as) acc w =
      (Ret (acc @ map (\<lambda>a. \<lparr>al_a_id = a, al_active = (\<not> ended f' a)\<rparr>) (a # as)), w\<lparr>wfs := f', wcalls := n\<rparr>)"
    using s2 ea by (simp add: bindP_run(1) [of "list_auction a" w, OF s1])
  ultimately show ?case by blast
qed

end
