(* ===== verification/Listing.thy ===== *)
theory Listing
  imports Closing "HOL-Library.Multiset"
begin

text \<open>
  The three lists of auctions: what they return, and in which order; std::sort has one possible
  result here, because the ids of a directory are distinct.
\<close>

section \<open>Sorting\<close>

definition id_less :: "AuctionListing \<Rightarrow> AuctionListing \<Rightarrow> bool" where
  "id_less x y \<longleftrightarrow> digits_val (al_a_id x) < digits_val (al_a_id y)"

text \<open>\<open>L\<close> lists the auctions \<open>as\<close> by rising id, each active exactly if it has no end file in \<open>f\<close>.\<close>

definition listing_of :: "string list \<Rightarrow> fs \<Rightarrow> AuctionListing list \<Rightarrow> bool" where
  "listing_of as f L \<longleftrightarrow>
     mset (map al_a_id L) = mset as \<and> sorted_wrt id_less L \<and>
     (\<forall>x \<in> set L. al_active x \<longleftrightarrow> \<not> ended f (al_a_id x))"

text \<open>A comparison agrees with the numbers; so whatever std::sort does, the result is this one.\<close>

lemma CompareByAid_eq:
  assumes "is_aid (al_a_id x)" and "is_aid (al_a_id y)"
  shows "CompareByAid x y = Inr (id_less x y)"
proof -
  have "stoi (al_a_id x) = Inr (int (digits_val (al_a_id x)))" "stoi (al_a_id y) = Inr (int (digits_val (al_a_id y)))"
    using assms is_aid_bound [OF assms(1)] is_aid_bound [OF assms(2)]
    by (auto intro!: stoi_digits simp: is_aid_def)
  then show ?thesis
    using is_aid_bound [OF assms(1)] is_aid_bound [OF assms(2)]
    by (simp add: CompareByAid_def id_less_def u32_of_int_of_nat word_less_nat_alt unat_of_nat_small)
qed

lemma sorted_wrt_id_less_unique:
  "mset L = mset M \<Longrightarrow> sorted_wrt id_less L \<Longrightarrow> sorted_wrt id_less M \<Longrightarrow> L = M"
proof (induction L arbitrary: M)
  case Nil
  then show ?case by simp
next
  case (Cons x L)
  then obtain y M' where M: "M = y # M'" by (cases M) auto
  have "x = y"
  proof (rule ccontr)
    assume "x \<noteq> y"
    then have "x \<in> set M'" and "y \<in> set L"
      using Cons.prems(1) M set_mset_mset [of "x # L"] set_mset_mset [of "y # M'"] by auto
    then have "id_less y x" and "id_less x y" using Cons.prems M by auto
    then show False by (simp add: id_less_def)
  qed
  with Cons M show ?case by simp
qed

lemma listing_of_unique: "listing_of as f L \<Longrightarrow> listing_of as f M \<Longrightarrow> L = M"
proof -
  assume L: "listing_of as f L" and M: "listing_of as f M"
  have "L = map (\<lambda>a. \<lparr>al_a_id = a, al_active = (\<not> ended f a)\<rparr>) (map al_a_id L)"
    and "M = map (\<lambda>a. \<lparr>al_a_id = a, al_active = (\<not> ended f a)\<rparr>) (map al_a_id M)"
    using L M by (auto simp: listing_of_def intro!: map_idI [symmetric])
  then have "mset L = mset M"
    using L M unfolding listing_of_def by (metis mset_map)
  with L M show "L = M" by (auto simp: listing_of_def intro: sorted_wrt_id_less_unique)
qed

lemma first_error_none: "\<forall>r \<in> set rs. \<exists>v. r = Inr v \<Longrightarrow> first_error rs = None"
  by (induction rs rule: first_error.induct) auto

lemma stoi_aid: "is_aid a \<Longrightarrow> stoi a = Inr (int (digits_val a))"
  using is_aid_bound [of a] by (intro stoi_digits) (auto simp: is_aid_def)

lemma digits_val_aid_inj: "is_aid a \<Longrightarrow> is_aid b \<Longrightarrow> digits_val a = digits_val b \<Longrightarrow> a = b"
  by (metis is_aid_digits_val)

lemma sort_listings_run:
  assumes "\<forall>a \<in> set as. is_aid a" and "distinct as"
  shows "\<exists>L. sort_listings (map (\<lambda>a. \<lparr>al_a_id = a, al_active = (\<not> ended f a)\<rparr>) as) = Inr L \<and> listing_of as f L"
proof -
  let ?xs = "map (\<lambda>a. \<lparr>al_a_id = a, al_active = (\<not> ended f a)\<rparr>) as"
  let ?k = "\<lambda>x. u32_of_int (projr (stoi (al_a_id x)))"
  show ?thesis
  proof (cases "length as \<le> 1")
    case True
    then have "listing_of as f ?xs" by (cases as) (auto simp: listing_of_def)
    with True show ?thesis by (simp add: sort_listings_def std_sort_def)
  next
    case False
    have "first_error (map (\<lambda>x. stoi (al_a_id x)) ?xs) = None"
      using assms(1) by (intro first_error_none) (auto simp: stoi_aid)
    then have s: "sort_listings ?xs = Inr (sort_key ?k ?xs)"
      using False by (simp add: sort_listings_def std_sort_def)
    have k: "?k x = word_of_nat (digits_val (al_a_id x)) \<and> digits_val (al_a_id x) < 2 ^ 32" if "x \<in> set ?xs" for x
    proof -
      have "is_aid (al_a_id x)" using that assms(1) by auto
      then show ?thesis using is_aid_bound [of "al_a_id x"] by (simp add: stoi_aid u32_of_int_of_nat)
    qed
    have less: "id_less x y" if "x \<in> set ?xs" "y \<in> set ?xs" "?k x < ?k y" for x y
      using that k [OF that(1)] k [OF that(2)] by (simp add: id_less_def word_less_nat_alt unat_of_nat_small)
    have "inj_on ?k (set ?xs)"
    proof (rule inj_onI)
      fix x y assume xy: "x \<in> set ?xs" "y \<in> set ?xs" "?k x = ?k y"
      then have "unat (word_of_nat (digits_val (al_a_id x)) :: uint32) = unat (word_of_nat (digits_val (al_a_id y)) :: uint32)"
        using k by metis
      then have "digits_val (al_a_id x) = digits_val (al_a_id y)"
        using k [OF xy(1)] k [OF xy(2)] by (simp add: unat_of_nat_small)
      moreover have "is_aid (al_a_id x)" "is_aid (al_a_id y)" using xy assms(1) by auto
      ultimately have "al_a_id x = al_a_id y" by (intro digits_val_aid_inj)
      then show "x = y" using xy by auto
    qed
    moreover have "distinct ?xs" using assms(2) by (simp add: distinct_map inj_on_def)
    ultimately have "distinct (map ?k (sort_key ?k ?xs))"
      by (simp add: distinct_map)
    then have "sorted_wrt (\<lambda>x y. ?k x < ?k y) (sort_key ?k ?xs)"
      using sorted_sort_key [of ?k ?xs] strict_sorted_iff [of "map ?k (sort_key ?k ?xs)"]
      by (simp add: sorted_wrt_map)
    then have "sorted_wrt id_less (sort_key ?k ?xs)"
      using less by (auto intro: sorted_wrt_mono_rel [rotated])
    moreover have "mset (map al_a_id (sort_key ?k ?xs)) = mset as"
    proof -
      have "mset (map al_a_id (sort_key ?k ?xs)) = image_mset al_a_id (mset ?xs)"
        by (simp only: mset_map mset_sort)
      also have "\<dots> = mset (map al_a_id ?xs)" by (simp only: mset_map)
      also have "map al_a_id ?xs = as" by (simp add: comp_def)
      finally show ?thesis .
    qed
    ultimately have "listing_of as f (sort_key ?k ?xs)"
      by (auto simp: listing_of_def)
    with s show ?thesis by blast
  qed
qed

section \<open>Names from entries\<close>

lemma keep_last_append: "length t = n \<Longrightarrow> keep_last n (s @ t) = t"
  by (simp add: keep_last_def)

lemma erase_last_append: "length t = n \<Longrightarrow> erase_last n (s @ t) = s"
  by (simp add: erase_last_def)

lemma keep_last_entry:
  assumes "is_aid a" and "clean p"
  shows "keep_last 3 (join (p @ [a])) = a"
proof -
  have "join (p @ [a]) = (join p @ ''/'') @ a" using assms(2) by (simp add: join_snoc clean_def)
  then show ?thesis using assms(1) by (simp only: keep_last_append is_aid_def)
qed

lemma keep_last_txt:
  assumes "is_aid a" and "clean p"
  shows "keep_last 3 (erase_last 4 (join (p @ [a @ ''.txt'']))) = a"
proof -
  have "join (p @ [a @ ''.txt'']) = (join p @ ''/'' @ a) @ ''.txt''"
    using assms(2) by (simp add: join_snoc clean_def)
  moreover have "erase_last 4 ((join p @ ''/'' @ a) @ ''.txt'') = join p @ ''/'' @ a"
    by (rule erase_last_append) simp
  ultimately have "erase_last 4 (join (p @ [a @ ''.txt''])) = (join p @ ''/'') @ a"
    by simp
  then show ?thesis using assms(1) keep_last_append [of a 3 "join p @ ''/''"] by (simp add: is_aid_def)
qed

section \<open>List\<close>

lemma auction_ids_props:
  assumes "store_inv f"
  shows "distinct (auction_ids f)" and "a \<in> set (auction_ids f) \<Longrightarrow> is_aid a"
    and "a \<in> set (auction_ids f) \<Longrightarrow> look f (auctionP a) \<noteq> None"
  using distinct_children [OF store_invD(2) [OF assms]] in_auction_ids [OF store_invD(2) [OF assms]]
    store_invD(3) [OF assms]
  by (auto simp: auction_ids_def)

lemma closed_thoseD: "closed_those as f f' clk \<Longrightarrow> store_inv f'"
  by (simp add: closed_those_def)

lemma Db_List_post:
  assumes "store_inv (wfs w)" and "clock_ok w"
  shows "\<exists>L f' n. Db_List w = post_ret L (w\<lparr>wfs := f', wcalls := n\<rparr>) \<and>
     closed_those (auction_ids (wfs w)) (wfs w) f' (readings w n) \<and> listing_of (auction_ids (wfs w)) f' L"
proof -
  let ?f = "wfs w" and ?as = "auction_ids (wfs w)"
  note inv = users_invD [OF store_invD(1) [OF assms(1)]]
  have e: "fs_is_empty ?f ''ASDIR/AUCTIONS'' = Inr (?as = [])"
    using inv by (simp add: path_joins fs_is_empty_join auction_ids_def)
  have it: "directory_iterator ?f ''ASDIR/AUCTIONS'' = Inr (map (\<lambda>a. join (auctionsP @ [a])) ?as)"
    using inv by (simp add: path_joins directory_iterator_join auction_ids_def entry_path_join)
  show ?thesis
  proof (cases "?as = []")
    case True
    have "Db_List w = post_ret [] (w\<lparr>wfs := ?f, wcalls := wcalls w\<rparr>)"
      using True e by (simp add: Db_List_def prog_simps)
    moreover have "closed_those ?as ?f ?f (readings w (wcalls w))" "listing_of ?as ?f []"
      using True assms(1) by (simp_all add: closed_those_def listing_of_def)
    ultimately show ?thesis by blast
  next
    case False
    have "map (keep_last 3) (map (\<lambda>a. join (auctionsP @ [a])) ?as) = ?as"
      using auction_ids_props(2) [OF assms(1)] by (auto intro!: map_idI simp: keep_last_entry)
    moreover obtain f' n where
      l: "list_loop ?as [] w = (Ret ([] @ map (\<lambda>a. \<lparr>al_a_id = a, al_active = (\<not> ended f' a)\<rparr>) ?as), w\<lparr>wfs := f', wcalls := n\<rparr>)"
      and cl: "closed_those ?as ?f f' (readings w n)"
      using list_loop_run [OF assms(1) _ auction_ids_props(1) [OF assms(1)] assms(2), of "[]"]
        auction_ids_props(3) [OF assms(1)] by blast
    moreover obtain L where L: "sort_listings (map (\<lambda>a. \<lparr>al_a_id = a, al_active = (\<not> ended f' a)\<rparr>) ?as) = Inr L"
        "listing_of ?as f' L"
      using sort_listings_run [of ?as f'] auction_ids_props(1,2) [OF assms(1)] by blast
    ultimately have "Db_List w = post_ret L (w\<lparr>wfs := f', wcalls := n\<rparr>)"
      using False e it
      by (simp add: Db_List_def prog_simps bindP_run(1) [of "list_loop ?as []" w, OF l])
    with cl L show ?thesis by blast
  qed
qed

text \<open>The semaphore is posted though nobody waited for it: its value grows.\<close>

lemma Db_List_run:
  assumes "store_inv (wfs w)" and "clock_ok w" and "wsem w < SEM_VALUE_MAX"
  shows "\<exists>L f' n. Db_List w = (Ret L, w\<lparr>wfs := f', wcalls := n, wsem := Suc (wsem w)\<rparr>) \<and>
     closed_those (auction_ids (wfs w)) (wfs w) f' (readings w n) \<and> listing_of (auction_ids (wfs w)) f' L"
  using Db_List_post [OF assms(1,2)] assms(3) by (auto simp: post_ret_run)

section \<open>A user's lists\<close>

text \<open>The auctions a user hosts, and those the user bid on, by the names in HOSTED and BIDDED.\<close>

definition hosted_ids :: "fs \<Rightarrow> string \<Rightarrow> string list" where
  "hosted_ids f u = map (erase_last 4) (children f (hostedP u))"

definition bidded_ids :: "fs \<Rightarrow> string \<Rightarrow> string list" where
  "bidded_ids f u = map (erase_last 4) (children f (biddedP u))"

lemma listed_ids_props:
  assumes "closed_fs f" and "clean d" and "\<forall>c \<in> set (children f d). \<exists>a. c = a @ ''.txt'' \<and> is_aid a"
  shows "distinct (map (erase_last 4) (children f d))"
    and "a \<in> set (map (erase_last 4) (children f d)) \<longleftrightarrow> look f (d @ [a @ ''.txt'']) \<noteq> None"
    and "map (\<lambda>c. keep_last 3 (erase_last 4 (join (d @ [c])))) (children f d) = map (erase_last 4) (children f d)"
proof -
  have e: "erase_last 4 (a @ ''.txt'') = a" for a by (simp add: erase_last_append)
  have "inj_on (erase_last 4) (set (children f d))"
    using assms(3) e by (intro inj_onI) metis
  then show "distinct (map (erase_last 4) (children f d))"
    using distinct_children [OF assms(1)] by (simp add: distinct_map)
  have "a \<in> set (map (erase_last 4) (children f d)) \<longleftrightarrow> a @ ''.txt'' \<in> set (children f d)"
    using assms(3) e by (auto simp: image_iff) metis+
  then show "a \<in> set (map (erase_last 4) (children f d)) \<longleftrightarrow> look f (d @ [a @ ''.txt'']) \<noteq> None"
    using in_children [OF assms(1,2)] by simp
  show "map (\<lambda>c. keep_last 3 (erase_last 4 (join (d @ [c])))) (children f d) = map (erase_last 4) (children f d)"
    using assms(2,3) e by (auto simp: keep_last_txt)
qed

lemma store_inv_lists:
  assumes "store_inv f" and "is_uid u"
  shows "\<forall>c \<in> set (children f (hostedP u)). \<exists>a. c = a @ ''.txt'' \<and> is_aid a"
    and "\<forall>c \<in> set (children f (biddedP u)). \<exists>a. c = a @ ''.txt'' \<and> is_aid a"
    and "look f (hostP u a) \<noteq> None \<Longrightarrow> look f (auctionP a) \<noteq> None"
    and "look f (bidderP u a) \<noteq> None \<Longrightarrow> look f (auctionP a) \<noteq> None"
proof -
  have h: "\<exists>a. c = a @ ''.txt'' \<and> is_aid a \<and> look f (auctionP a) \<noteq> None" if "look f (hostedP u @ [c]) \<noteq> None" for c
    using store_inv_hosted [OF assms that] by (auto simp: entry_inv_def)
  have b: "\<exists>a. c = a @ ''.txt'' \<and> is_aid a \<and> look f (auctionP a) \<noteq> None" if "look f (biddedP u @ [c]) \<noteq> None" for c
    using store_inv_bidded [OF assms that] by (auto simp: entry_inv_def)
  note ch = in_children [OF store_invD(2) [OF assms(1)]]
  show "\<forall>c \<in> set (children f (hostedP u)). \<exists>a. c = a @ ''.txt'' \<and> is_aid a"
    using h ch [of "hostedP u"] assms(2) by (meson clean_user_paths)
  show "\<forall>c \<in> set (children f (biddedP u)). \<exists>a. c = a @ ''.txt'' \<and> is_aid a"
    using b ch [of "biddedP u"] assms(2) by (meson clean_user_paths)
  show "look f (hostP u a) \<noteq> None \<Longrightarrow> look f (auctionP a) \<noteq> None"
    using h [of "a @ ''.txt''"] by (auto simp: hostP_def)
  show "look f (bidderP u a) \<noteq> None \<Longrightarrow> look f (auctionP a) \<noteq> None"
    using b [of "a @ ''.txt''"] by (auto simp: bidderP_def)
qed

text \<open>Both methods are one on the directory they list.\<close>

definition list_dir :: "string \<Rightarrow> (AuctionListing list, world) prog" where
  "list_dir dir =
     bindP semaphore_wait (\<lambda>_.
     bindP (getE (\<lambda>f. fs_is_empty f dir)) (\<lambda>empty.
     if empty then post_ret []
     else
       bindP (getE (\<lambda>f. directory_iterator f dir)) (\<lambda>entries.
       bindP (list_loop (map (\<lambda>entry. keep_last 3 (erase_last 4 entry)) entries) []) (\<lambda>result.
       bindP (liftP (sort_listings result)) (\<lambda>result. post_ret result)))))"

lemma MyAuctions_dir: "MyAuctions u = list_dir (hosted_dir u)"
  and MyBids_dir: "MyBids u = list_dir (bidded_dir u)"
  by (simp_all add: MyAuctions_def MyBids_def list_dir_def)

lemma list_dir_run:
  assumes "store_inv (wfs w)" and "clock_ok w" and "sem_ok w" and c: "clean d" and d: "dir_at (wfs w) d"
    and names: "\<forall>c \<in> set (children (wfs w) d). \<exists>a. c = a @ ''.txt'' \<and> is_aid a"
    and as: "as = map (erase_last 4) (children (wfs w) d)"
    and there: "\<forall>a \<in> set as. look (wfs w) (auctionP a) \<noteq> None"
  shows "\<exists>L f' n. list_dir (join d) w = (Ret L, w\<lparr>wfs := f', wcalls := n\<rparr>) \<and>
     closed_those as (wfs w) f' (readings w n) \<and> listing_of as f' L"
proof -
  let ?f = "wfs w" and ?w = "w\<lparr>wsem := wsem w - Suc 0\<rparr>"
  note inv = users_invD [OF store_invD(1) [OF assms(1)]]
  note sem = sem_okD [OF assms(3)]
  note ids = listed_ids_props [OF inv(1) c names]
  have e: "fs_is_empty ?f (join d) = Inr (as = [])"
    using inv d c as by (simp add: fs_is_empty_join)
  have it: "directory_iterator ?f (join d) = Inr (map (\<lambda>a. join (d @ [a])) (children ?f d))"
    using inv d c by (simp add: directory_iterator_join entry_path_join)
  show ?thesis
  proof (cases "as = []")
    case True
    have "list_dir (join d) w = (Ret [], w\<lparr>wfs := ?f, wcalls := wcalls w\<rparr>)"
      using True e sem by (simp add: list_dir_def prog_simps)
    moreover have "closed_those as ?f ?f (readings w (wcalls w))" "listing_of as ?f []"
      using True assms(1) by (simp_all add: closed_those_def listing_of_def)
    ultimately show ?thesis by blast
  next
    case False
    obtain f' n where
      l: "list_loop as [] ?w = (Ret ([] @ map (\<lambda>a. \<lparr>al_a_id = a, al_active = (\<not> ended f' a)\<rparr>) as), ?w\<lparr>wfs := f', wcalls := n\<rparr>)"
      and cl: "closed_those as ?f f' (readings w n)"
      using list_loop_run [of ?w as "[]"] assms(1,2) there ids(1) as by (auto simp: clock_ok_def)
    obtain L where L: "sort_listings (map (\<lambda>a. \<lparr>al_a_id = a, al_active = (\<not> ended f' a)\<rparr>) as) = Inr L"
        "listing_of as f' L"
      using sort_listings_run [of as f'] ids(1) there store_invD(3) [OF assms(1)] as by auto
    have "map (\<lambda>entry. keep_last 3 (erase_last 4 entry)) (map (\<lambda>a. join (d @ [a])) (children ?f d)) = as"
      using ids(3) as by (simp add: comp_def)
    then have "list_dir (join d) w = (Ret L, w\<lparr>wfs := f', wcalls := n\<rparr>)"
      using False e it sem L(1)
      by (simp add: list_dir_def prog_simps bindP_run(1) [of "list_loop as []" ?w, OF l])
    with cl L show ?thesis by blast
  qed
qed

lemma MyAuctions_run:
  assumes "store_inv (wfs w)" and "clock_ok w" and "sem_ok w" and "is_uid u" and "look (wfs w) (userP u) \<noteq> None"
  shows "\<exists>L f' n. MyAuctions u w = (Ret L, w\<lparr>wfs := f', wcalls := n\<rparr>) \<and>
     closed_those (hosted_ids (wfs w) u) (wfs w) f' (readings w n) \<and> listing_of (hosted_ids (wfs w) u) f' L"
proof -
  note inv = users_invD [OF store_invD(1) [OF assms(1)]]
  have d: "dir_at (wfs w) (hostedP u)" using inv(5) [OF assms(4)] assms(5) by (simp add: user_inv_def)
  have c: "clean (hostedP u)" using assms(4) by simp
  note names = store_inv_lists(1) [OF assms(1,4)]
  have "\<forall>a \<in> set (hosted_ids (wfs w) u). look (wfs w) (auctionP a) \<noteq> None"
    using listed_ids_props(2) [OF inv(1) c names] store_inv_lists(3) [OF assms(1,4)]
    by (simp add: hosted_ids_def hostP_def)
  from list_dir_run [OF assms(1-3) c d names hosted_ids_def this]
  show ?thesis by (simp add: MyAuctions_dir path_join)
qed

lemma MyBids_run:
  assumes "store_inv (wfs w)" and "clock_ok w" and "sem_ok w" and "is_uid u" and "look (wfs w) (userP u) \<noteq> None"
  shows "\<exists>L f' n. MyBids u w = (Ret L, w\<lparr>wfs := f', wcalls := n\<rparr>) \<and>
     closed_those (bidded_ids (wfs w) u) (wfs w) f' (readings w n) \<and> listing_of (bidded_ids (wfs w) u) f' L"
proof -
  note inv = users_invD [OF store_invD(1) [OF assms(1)]]
  have d: "dir_at (wfs w) (biddedP u)" using inv(5) [OF assms(4)] assms(5) by (simp add: user_inv_def)
  have c: "clean (biddedP u)" using assms(4) by simp
  note names = store_inv_lists(2) [OF assms(1,4)]
  have "\<forall>a \<in> set (bidded_ids (wfs w) u). look (wfs w) (auctionP a) \<noteq> None"
    using listed_ids_props(2) [OF inv(1) c names] store_inv_lists(4) [OF assms(1,4)]
    by (simp add: bidded_ids_def bidderP_def)
  from list_dir_run [OF assms(1-3) c d names bidded_ids_def this]
  show ?thesis by (simp add: MyBids_dir path_join)
qed

text \<open>
  For a user without a directory the check of the directory throws after the semaphore was taken:
  it is never given back.
\<close>

lemma MyAuctions_unknown:
  assumes "store_inv (wfs w)" and "sem_ok w" and "clean_name u" and "look (wfs w) (userP u) = None"
  shows "MyAuctions u w = (Throw Std_filesystem_error, w\<lparr>wsem := wsem w - 1\<rparr>)"
    and "MyBids u w = (Throw Std_filesystem_error, w\<lparr>wsem := wsem w - 1\<rparr>)"
proof -
  note c = store_invD(2) [OF assms(1)]
  have p: "clean (userP u)" "clean (hostedP u)" "clean (biddedP u)"
    using assms(3) by (simp_all add: clean_def userP_def hostedP_def biddedP_def usersP_def clean_name_def NUL_def)
  have "look (wfs w) (hostedP u) = None" "look (wfs w) (biddedP u) = None"
    using look_no_dir [OF c p(1) assms(4)] by (simp_all add: hostedP_def biddedP_def)
  then have "fs_is_empty (wfs w) (join (hostedP u)) = Inl Std_filesystem_error"
    "fs_is_empty (wfs w) (join (biddedP u)) = Inl Std_filesystem_error"
    using c p by (simp_all add: is_empty_missing)
  then show "MyAuctions u w = (Throw Std_filesystem_error, w\<lparr>wsem := wsem w - 1\<rparr>)"
    and "MyBids u w = (Throw Std_filesystem_error, w\<lparr>wsem := wsem w - 1\<rparr>)"
    using sem_okD [OF assms(2)]
    by (simp_all add: MyAuctions_dir MyBids_dir list_dir_def path_join prog_simps)
qed

end
