(* ===== verification/Opening.thy ===== *)
theory Opening
  imports Listing
begin

text \<open>
  Opening an auction: the id it gets is one more than the greatest id there is, its directory and
  files are new, and nothing else of the store changes.
\<close>

section \<open>The next id\<close>

definition next_id :: "string list \<Rightarrow> nat" where
  "next_id as = (if as = [] then 1 else Max (Suc ` digits_val ` set as))"

lemma next_aid_eq:
  assumes "\<forall>a \<in> set as. is_aid a" and "unat aid \<le> 1000"
  shows "\<exists>r. next_aid (map (\<lambda>a. join (auctionsP @ [a])) as) aid = Inr r \<and>
     unat r = Max (insert (unat aid) (Suc ` digits_val ` set as)) \<and> unat r \<le> 1000"
  using assms
proof (induction as arbitrary: aid)
  case Nil
  then show ?case by simp
next
  case (Cons a as)
  then have a: "is_aid a" "digits_val a < 1000" using is_aid_bound [of a] by auto
  let ?n = "word_of_nat (digits_val a) :: uint32"
  have n: "unat ?n = digits_val a" using a by (simp add: unat_of_nat_small)
  have n1: "unat (?n + 1) = Suc (digits_val a)" using a n by (simp add: unat_word_ariths unat_of_nat_small)
  let ?aid' = "if aid \<le> ?n then ?n + 1 else aid"
  have u: "unat ?aid' = max (unat aid) (Suc (digits_val a))"
    using n n1 by (auto simp: word_le_nat_alt max_def)
  then have "unat ?aid' \<le> 1000" using Cons.prems(2) a by simp
  then obtain r where r: "next_aid (map (\<lambda>a. join (auctionsP @ [a])) as) ?aid' = Inr r"
      "unat r = Max (insert (unat ?aid') (Suc ` digits_val ` set as))" "unat r \<le> 1000"
    using Cons.IH [of ?aid'] Cons.prems(1) by auto
  moreover have "next_aid (map (\<lambda>a. join (auctionsP @ [a])) (a # as)) aid =
      next_aid (map (\<lambda>a. join (auctionsP @ [a])) as) ?aid'"
    using keep_last_entry [OF a(1), of auctionsP] a(1) by (simp add: stoi_aid u32_of_int_of_nat Let_def)
  moreover have "Max (insert (unat ?aid') (Suc ` digits_val ` set as)) =
      Max (insert (unat aid) (Suc ` digits_val ` set (a # as)))"
    unfolding u by (cases "as = []") (simp_all add: max.assoc)
  ultimately show ?case by metis
qed

lemma next_id_fresh:
  assumes "next_id as \<le> 999" and "\<forall>a \<in> set as. is_aid a"
  shows "is_aid (pad0 3 (next_id as))" and "pad0 3 (next_id as) \<notin> set as" and "0 < next_id as"
proof -
  show "is_aid (pad0 3 (next_id as))" using assms(1) by (intro is_aid_pad0) simp
  have "Suc (digits_val a) \<le> next_id as" if "a \<in> set as" for a
    using that by (auto simp: next_id_def)
  then show "pad0 3 (next_id as) \<notin> set as" by (metis digits_val_pad0 not_less_eq_eq order_refl)
  show "0 < next_id as"
  proof (cases "as = []")
    case False
    then have "Suc (digits_val (hd as)) \<le> next_id as"
      using \<open>\<And>a. a \<in> set as \<Longrightarrow> Suc (digits_val a) \<le> next_id as\<close> by simp
    then show ?thesis by simp
  qed (simp add: next_id_def)
qed

text \<open>The id Open computes from the directory.\<close>

lemma Open_ids:
  assumes "store_inv f"
  shows "fs_is_empty f ''ASDIR/AUCTIONS/'' = Inr (auction_ids f = [])"
    and "auction_ids f \<noteq> [] \<Longrightarrow>
      \<exists>entries r. directory_iterator f ''ASDIR/AUCTIONS/'' = Inr entries \<and> next_aid entries 0 = Inr r \<and>
        unat r = next_id (auction_ids f)"
proof -
  note inv = users_invD [OF store_invD(1) [OF assms]]
  show "fs_is_empty f ''ASDIR/AUCTIONS/'' = Inr (auction_ids f = [])"
    using inv by (simp add: path_joins(4) fs_is_empty_join auction_ids_def del: join.simps)
  assume ne: "auction_ids f \<noteq> []"
  have "directory_iterator f ''ASDIR/AUCTIONS/'' = Inr (map (\<lambda>a. join (auctionsP @ [a])) (auction_ids f))"
    using inv by (simp add: path_joins(4) directory_iterator_join auction_ids_def entry_path_join_slash)
  moreover obtain r where "next_aid (map (\<lambda>a. join (auctionsP @ [a])) (auction_ids f)) 0 = Inr r"
      "unat r = Max (insert 0 (Suc ` digits_val ` set (auction_ids f)))"
    using next_aid_eq [of "auction_ids f" 0] auction_ids_props(2) [OF assms] by auto
  moreover have "Max (insert 0 (Suc ` digits_val ` set (auction_ids f))) = next_id (auction_ids f)"
    using ne by (simp add: next_id_def)
  ultimately show "\<exists>entries r. directory_iterator f ''ASDIR/AUCTIONS/'' = Inr entries \<and> next_aid entries 0 = Inr r \<and>
        unat r = next_id (auction_ids f)" by simp
qed

section \<open>The files of the new auction\<close>

definition with_auction_dir :: "string \<Rightarrow> fs \<Rightarrow> fs" where
  "with_auction_dir a f =
     AList.update (assetsP a) Dir (AList.update (bidsP a) Dir (AList.update (auctionP a) Dir f))"

lemma look_with_auction_dir:
  "is_aid a \<Longrightarrow> look (with_auction_dir a f) p =
     (if p = auctionP a \<or> p = bidsP a \<or> p = assetsP a then Some Dir else look f p)"
  by (simp add: with_auction_dir_def fs_simps)

lemma CreateAuctionDir_eq:
  assumes "users_inv f" and "is_aid a" and "look f (auctionP a) = None"
  shows "CreateAuctionDir a f = (0, with_auction_dir a f)" and "users_inv (with_auction_dir a f)"
proof -
  let ?f1 = "AList.update (auctionP a) Dir f"
  let ?f2 = "AList.update (bidsP a) Dir ?f1"
  have none: "look f (bidsP a) = None" "look f (assetsP a) = None"
    using look_no_dir [OF users_invD(1) [OF assms(1)] _ assms(3)] assms(2) by (simp_all add: bidsP_def assetsP_def)
  have u1: "users_inv ?f1"
    using assms by (intro users_inv_auction_update) (simp_all add: users_invD)
  have u2: "users_inv ?f2"
    using assms u1 by - (rule users_inv_auction_update, simp_all add: fs_simps)
  show "users_inv (with_auction_dir a f)"
    using assms u2 unfolding with_auction_dir_def
    by - (rule users_inv_auction_update, simp_all add: fs_simps)
  show "CreateAuctionDir a f = (0, with_auction_dir a f)"
    using assms none users_invD(1,4) [OF assms(1)] users_invD(1) [OF u1] users_invD(1) [OF u2]
    by (simp add: CreateAuctionDir_def path_join mkdir_join fs_simps with_auction_dir_def)
qed

text \<open>What the command line may hold for a new auction; a word has no white space.\<close>

definition good_name :: "string \<Rightarrow> bool" where
  "good_name s \<longleftrightarrow> is_word s \<and> length s \<le> 24 \<and> (\<forall>c \<in> set s. isprint c)"

lemma good_name_plain: "good_name s \<Longrightarrow> is_word s \<and> plain_line s \<and> length s \<le> 24"
  by (auto simp: good_name_def plain_line_def isprint_def NUL_def)

lemma verify_numbers:
  assumes "unat sv < 10 ^ 6" and "0 < unat ta" and "unat ta < 10 ^ 5"
  shows "verify_start_value (to_string sv) = 0" and "verify_timeactive (to_string ta) = 0"
proof -
  have "to_string 0 = ''0''" by code_simp
  moreover have "ta \<noteq> 0" using assms(2) by auto
  ultimately have "to_string ta \<noteq> ''0''" by (metis to_string_inj)
  then show "verify_timeactive (to_string ta) = 0"
    using assms(3) length_nat_str_le [of "unat ta" 5]
    by (simp add: verify_timeactive_eq to_string_digits) (simp add: to_string_def)
  show "verify_start_value (to_string sv) = 0"
    using assms(1) length_nat_str_le [of "unat sv" 6]
    by (simp add: verify_start_value_eq to_string_digits) (simp add: to_string_def)
qed

lemma start_text_plain:
  assumes "is_uid u" and "good_name name" and "good_name fname" and "date_words date"
  shows "c_str (start_text u name fname (to_string sv) (to_string ta) date t) =
     start_text u name fname (to_string sv) (to_string ta) date t"
proof -
  have "plain_line (start_text u name fname (to_string sv) (to_string ta) date t)"
    using uid_word [OF assms(1)] good_name_plain [OF assms(2)] good_name_plain [OF assms(3)]
      date_wordsD [OF assms(4)]
    by (simp add: start_text_def NUL_def)
  then show ?thesis by (intro c_str_id) (simp add: plain_line_def)
qed

lemma CreateStartFile_run:
  assumes "users_inv (wfs w)" and "clock_ok w" and "is_uid u" and "is_aid a" and "good_name name"
    and "good_name fname" and "unat sv < 10 ^ 6" and "0 < unat ta" and "unat ta < 10 ^ 5"
    and "dir_at (wfs w) (auctionP a)" and "look (wfs w) (startP a) = None"
  shows "CreateStartFile a u name fname (to_string sv) (to_string ta) w =
     (Ret 0, w\<lparr>wcalls := Suc (Suc (wcalls w)), wfs := AList.update (startP a) (File
        (start_text u name fname (to_string sv) (to_string ta) (format_tm (gmtime (wclock w (wcalls w))))
          (wclock w (Suc (wcalls w))))) (wfs w)\<rparr>)"
proof -
  have v: "verify_name name = 0" using assms(5) by (simp add: verify_name_eq good_name_def)
  have d: "date_words (format_tm (gmtime (wclock w (wcalls w))))"
    using assms(2) by (intro clock_date_words) (simp add: clock_ok_def)
  have o: "fopen_w (wfs w) (start_path a) = Some (startP a, AList.update (startP a) (File []) (wfs w))"
    using assms by (simp add: path_join fopen_w_join users_invD dir_at_def)
  show ?thesis
    using assms(3,4) v verify_numbers [OF assms(7-9)] o start_text_plain [OF assms(3,5,6) d]
    by (simp add: CreateStartFile_def prog_simps Let_def fputs_update start_text_def)
qed

section \<open>The store with the new auction\<close>

record open_request =
  op_user :: string
  op_name :: string
  op_asset :: string
  op_start_value :: uint32
  op_timeactive :: uint32
  op_data :: string

text \<open>What a well-formed request asks for.\<close>

definition good_opening :: "open_request \<Rightarrow> bool" where
  "good_opening x \<longleftrightarrow>
     is_uid (op_user x) \<and> good_name (op_name x) \<and> good_name (op_asset x) \<and> clean_name (op_asset x) \<and>
     unat (op_start_value x) < 10 ^ 6 \<and> 0 < unat (op_timeactive x) \<and> unat (op_timeactive x) < 10 ^ 5"

definition with_start :: "string \<Rightarrow> open_request \<Rightarrow> string \<Rightarrow> nat \<Rightarrow> fs \<Rightarrow> fs" where
  "with_start a x date t f =
     AList.update (startP a) (File (start_text (op_user x) (op_name x) (op_asset x) (to_string (op_start_value x))
       (to_string (op_timeactive x)) date t)) (with_auction_dir a f)"

definition with_auction :: "string \<Rightarrow> open_request \<Rightarrow> string \<Rightarrow> nat \<Rightarrow> fs \<Rightarrow> fs" where
  "with_auction a x date t f =
     AList.update (hostP (op_user x) a) (File [])
       (AList.update (assetP a (op_asset x)) (File (op_data x)) (with_start a x date t f))"

lemma look_with_auction:
  assumes "is_aid a" and "good_opening x"
  shows "look (with_auction a x date t f) p =
     (if p = hostP (op_user x) a then Some (File [])
      else if p = assetP a (op_asset x) then Some (File (op_data x))
      else if p = startP a then Some (File (start_text (op_user x) (op_name x) (op_asset x)
        (to_string (op_start_value x)) (to_string (op_timeactive x)) date t))
      else if p = auctionP a \<or> p = bidsP a \<or> p = assetsP a then Some Dir
      else look f p)"
  using assms by (simp add: with_auction_def with_start_def good_opening_def fs_simps look_with_auction_dir)

lemma users_inv_list_update:
  assumes "users_inv f" and "is_uid u" and "is_aid a" and "\<not> dir_at f p"
    and "p = hostP u a \<and> dir_at f (hostedP u) \<or> p = bidderP u a \<and> dir_at f (biddedP u)"
  shows "users_inv (AList.update p (File s) f)"
proof -
  have p: "clean p" "dir_at f (butlast p)" using assms by auto
  have neq: "p \<noteq> userP v" "p \<noteq> hostedP v" "p \<noteq> biddedP v" "p \<noteq> passP v" "p \<noteq> loginP v" for v
    using assms(5) by auto
  have "base_inv (AList.update p (File s) f)"
    using assms p by (intro base_inv_update) (simp_all add: users_invD)
  moreover have "user_inv (AList.update p (File s) f) v" if "is_uid v" for v
    using users_invD(5) [OF assms(1) that] p(1) neq neq [symmetric]
    by (simp add: user_inv_def fs_simps)
  moreover have "is_uid v" if "look (AList.update p (File s) f) (userP v) \<noteq> None" for v
    using that assms neq users_invD(6) [OF assms(1)] by (auto simp: fs_simps split: if_splits)
  ultimately show ?thesis by (simp add: users_inv_def)
qed

lemma users_inv_with_start:
  assumes "store_inv f" and "is_aid a" and "look f (auctionP a) = None"
  shows "users_inv (with_start a x date t f)"
proof -
  have "look f (startP a) = None"
    using look_no_dir [OF store_invD(2) [OF assms(1)] _ assms(3)] assms(2) by (simp add: startP_def)
  then show ?thesis
    unfolding with_start_def using CreateAuctionDir_eq(2) [OF store_invD(1) [OF assms(1)] assms(2,3)] assms(2)
    by - (rule users_inv_auction_update, simp_all add: dir_at_def look_with_auction_dir)
qed

lemma with_auction_steps:
  assumes "store_inv f" and "is_aid a" and "look f (auctionP a) = None" and "good_opening x"
    and "look f (userP (op_user x)) \<noteq> None"
  shows "users_inv (with_start a x date t f)" and "users_inv (with_auction a x date t f)"
    and "look (with_start a x date t f) (assetP a (op_asset x)) = None"
    and "look f (hostP (op_user x) a) = None"
proof -
  let ?u = "op_user x" and ?f1 = "with_auction_dir a f"
  note inv = users_invD [OF store_invD(1) [OF assms(1)]]
  have x: "is_uid ?u" "clean_name (op_asset x)" using assms(4) by (simp_all add: good_opening_def)
  note u1 = CreateAuctionDir_eq(2) [OF store_invD(1) [OF assms(1)] assms(2,3)]
  have ca: "clean (auctionP a)" "clean (assetsP a)" using assms(2) by simp_all
  note none = look_no_dir [OF inv(1) ca(1) assms(3)]
  have nodir: "look f (assetsP a) = None" "look f (startP a) = None" by (simp_all add: assetsP_def startP_def none)
  then have "look f (assetP a (op_asset x)) = None"
    using look_no_dir [OF inv(1) ca(2)] by (simp add: assetP_def)
  then have st: "look ?f1 (startP a) = None" and as: "look ?f1 (assetP a (op_asset x)) = None"
    using nodir assms(2) by (simp_all add: look_with_auction_dir)
  show h: "look f (hostP ?u a) = None" using store_inv_lists(3) [OF assms(1) x(1), of a] assms(3) by blast
  show u2: "users_inv (with_start a x date t f)" by (rule users_inv_with_start [OF assms(1-3)])
  show as2: "look (with_start a x date t f) (assetP a (op_asset x)) = None"
    using as assms(2) by (simp add: with_start_def fs_simps)
  let ?f3 = "AList.update (assetP a (op_asset x)) (File (op_data x)) (with_start a x date t f)"
  have u3: "users_inv ?f3"
    using u2 as2 x assms(2)
    by - (rule users_inv_auction_update, simp_all add: dir_at_def with_start_def fs_simps look_with_auction_dir)
  have "dir_at f (hostedP ?u)" using inv(5) [OF x(1)] assms(5) by (simp add: user_inv_def)
  then show "users_inv (with_auction a x date t f)"
    unfolding with_auction_def using x assms(2) h
    by - (rule users_inv_list_update [OF u3 x(1) assms(2)],
      simp_all add: dir_at_def with_start_def fs_simps look_with_auction_dir)
qed

lemma store_inv_with_auction:
  assumes "store_inv f" and "is_aid a" and "look f (auctionP a) = None" and "good_opening x"
    and "look f (userP (op_user x)) \<noteq> None" and "date_words date" and "t < 2 ^ 32"
  shows "store_inv (with_auction a x date t f)"
proof -
  let ?g = "with_auction a x date t f"
  note lk = look_with_auction [OF assms(2,4), of date t f]
  have ca: "clean (auctionP a)" "clean (bidsP a)" using assms(2) by simp_all
  note none = look_no_dir [OF store_invD(2) [OF assms(1)] ca(1) assms(3)]
  have "look f (bidsP a) = None" by (simp add: bidsP_def none)
  note nb = look_no_dir [OF store_invD(2) [OF assms(1)] ca(2) this]
  have inv_a: "auction_inv ?g a"
  proof -
    have "look f (endP a) = None" by (simp add: endP_def none)
    then have "look ?g (endP a) = None" by (simp add: lk)
    moreover have "look f (noendP a) = None" by (simp add: noendP_def none)
    then have "look ?g (noendP a) = None" by (simp add: lk)
    moreover have "look ?g (bidsP a @ [c]) = None" for c
      using nb by (simp add: lk) (simp add: auction_paths user_paths)
    moreover have "parse_start (start_text (op_user x) (op_name x) (op_asset x) (to_string (op_start_value x))
        (to_string (op_timeactive x)) date t) = Inr (Some \<lparr>st_user_id = op_user x, st_name = op_name x,
        st_asset_fname = op_asset x, st_start_value = to_string (op_start_value x),
        st_timeactive = to_string (op_timeactive x), st_current_date = date, st_current_time = word_of_nat t\<rparr>)"
      using assms(4,6,7) good_name_plain by (intro parse_start_text) (auto simp: good_opening_def)
    ultimately show ?thesis
      using assms(4,6) by (auto simp: auction_inv_def dir_at_def lk wf_start_def good_opening_def)
  qed
  have inv_b: "auction_inv ?g b" if "auction_inv f b" "b \<noteq> a" for b
  proof -
    have "look ?g (bidsP b @ [c]) = look f (bidsP b @ [c])" for c
      using that(2) by (simp add: lk) (simp add: auction_paths user_paths)
    moreover have "look ?g q = look f q" if "q \<in> {auctionP b, bidsP b, assetsP b, startP b, endP b, noendP b}" for q
      using that \<open>b \<noteq> a\<close> by (auto simp: lk)
    ultimately show ?thesis using that(1) by (simp add: auction_inv_def dir_at_def)
  qed
  have au: "look ?g (auctionP b) = (if b = a then Some Dir else look f (auctionP b))" for b
    by (simp add: lk)
  have ho: "look ?g (hostedP u @ [c]) = (if u = op_user x \<and> c = a @ ''.txt'' then Some (File [])
      else look f (hostedP u @ [c]))" for u c
    by (simp add: lk) (auto simp: auction_paths user_paths)
  have bi: "look ?g (biddedP u @ [c]) = look f (biddedP u @ [c])" for u c
    by (simp add: lk) (auto simp: auction_paths user_paths)
  show ?thesis
  proof (rule store_invI [OF with_auction_steps(2) [OF assms(1-5)]])
    fix b assume "look ?g (auctionP b) \<noteq> None"
    then show "is_aid b \<and> auction_inv ?g b"
      using inv_a inv_b [of b] assms(2) store_invD(3,4) [OF assms(1), of b] by (cases "b = a") (simp_all add: au)
  next
    fix u c assume "is_uid u" "look ?g (hostedP u @ [c]) \<noteq> None"
    then show "entry_inv ?g (hostedP u) c"
      using assms(2) store_inv_hosted [OF assms(1), of u c] by (auto simp: entry_inv_def ho au split: if_splits)
  next
    fix u c assume "is_uid u" "look ?g (biddedP u @ [c]) \<noteq> None"
    then show "entry_inv ?g (biddedP u) c"
      using store_inv_bidded [OF assms(1), of u c] by (auto simp: entry_inv_def bi au)
  qed
qed

section \<open>Open\<close>

text \<open>The arguments the handler passes for a request.\<close>

definition open_auction :: "string \<Rightarrow> open_request \<Rightarrow> 64 word \<Rightarrow> (int, world) prog" where
  "open_auction password x fsize =
     Db_Open (op_user x) (op_name x) password (op_asset x) (to_string (op_start_value x))
       (to_string (op_timeactive x)) fsize (op_data x)"

lemma open_aid_run:
  assumes "store_inv (wfs w)"
  shows "\<exists>aid. open_aid w = (Ret aid, w) \<and> unat aid = next_id (auction_ids (wfs w))"
proof (cases "auction_ids (wfs w) = []")
  case True
  then show ?thesis
    using Open_ids(1) [OF assms] by (simp add: open_aid_def prog_simps next_id_def)
next
  case False
  then obtain entries r where "directory_iterator (wfs w) ''ASDIR/AUCTIONS/'' = Inr entries"
      "next_aid entries 0 = Inr r" "unat r = next_id (auction_ids (wfs w))"
    using Open_ids(2) [OF assms] by blast
  then show ?thesis
    using Open_ids(1) [OF assms] False by (simp add: open_aid_def prog_simps)
qed

lemma CreateAssetFile_with_start:
  assumes "store_inv f" and "is_aid a" and "look f (auctionP a) = None" and "good_opening x"
    and "look f (userP (op_user x)) \<noteq> None"
  shows "CreateAssetFile a (op_asset x) (op_data x) (with_start a x date t f) =
      (0, AList.update (assetP a (op_asset x)) (File (op_data x)) (with_start a x date t f))"
    and "RegisterHost (op_user x) a
        (AList.update (assetP a (op_asset x)) (File (op_data x)) (with_start a x date t f)) =
      (0, with_auction a x date t f)"
proof -
  let ?g = "with_start a x date t f"
  let ?g2 = "AList.update (assetP a (op_asset x)) (File (op_data x)) ?g"
  note st = with_auction_steps [OF assms(1-5)]
  have x: "is_uid (op_user x)" "clean_name (op_asset x)" using assms(4) by (simp_all add: good_opening_def)
  have d: "dir_at ?g (assetsP a)" "\<not> dir_at ?g (assetP a (op_asset x))"
    using st(3) assms(2) by (simp_all add: dir_at_def with_start_def fs_simps look_with_auction_dir)
  then show "CreateAssetFile a (op_asset x) (op_data x) ?g = (0, ?g2)"
    using st(1) x assms(2)
    by (simp add: CreateAssetFile_def path_join fopen_w_join users_invD fwrite_def update_update)
  have u2: "users_inv ?g2"
    using st(1) d x assms(2) by - (rule users_inv_auction_update, simp_all)
  have "dir_at f (hostedP (op_user x))"
    using users_invD(5) [OF store_invD(1) [OF assms(1)] x(1)] assms(5) by (simp add: user_inv_def)
  then show "RegisterHost (op_user x) a ?g2 = (0, with_auction a x date t f)"
    using u2 x assms(2) st(4)
    by (simp add: RegisterHost_def path_join fopen_w_join users_invD with_auction_def dir_at_def
        with_start_def fs_simps look_with_auction_dir)
qed

text \<open>
  Open up to the file of the asset: the start file is written by then, and what is left are the two
  writes of the asset and of the host list.
\<close>

lemma Db_Open_writes:
  assumes "store_inv (wfs w)" and "clock_ok w" and "sem_ok w" 
    and x: "is_uid (op_user x)" "good_name (op_name x)" "good_name (op_asset x)"
      "unat (op_start_value x) < 10 ^ 6" "0 < unat (op_timeactive x)" "unat (op_timeactive x) < 10 ^ 5"
    and acc: "account (wfs w) (op_user x) = \<lparr>acc_password = Some pw, acc_logged_in = True\<rparr>"
    and n: "n = next_id (auction_ids (wfs w))" "n \<le> 999"
    and writes: "CreateAssetFile (pad0 3 n) (op_asset x) (op_data x) (with_start (pad0 3 n) x
        (format_tm (gmtime (wclock w (wcalls w)))) (wclock w (Suc (wcalls w))) (wfs w)) = (0, g)"
      "RegisterHost (op_user x) (pad0 3 n) g = (0, h)"
  shows "open_auction pw x fsize w = (Ret (int n), w\<lparr>wcalls := Suc (Suc (wcalls w)), wfs := h\<rparr>)"
proof -
  let ?f = "wfs w" and ?a = "pad0 3 n" and ?u = "op_user x" and ?w = "w\<lparr>wsem := wsem w - Suc 0\<rparr>"
  let ?d = "format_tm (gmtime (wclock w (wcalls w)))" and ?t = "wclock w (Suc (wcalls w))"
  note sem = sem_okD [OF assms(3)]
  have pw: "is_password pw"
    using password_text [OF store_invD(1) [OF assms(1)] x(1)] acc by simp
  have a: "is_aid ?a" and new: "look ?f (auctionP ?a) = None"
    using next_id_fresh [of "auction_ids ?f"] auction_ids_props(2) [OF assms(1)]
      in_auction_ids [OF store_invD(2) [OF assms(1)]] n by auto
  obtain aid where "open_aid ?w = (Ret aid, ?w)" and aid: "unat aid = n"
    using open_aid_run [of ?w] assms(1) n by auto
  then have oa: "bindP open_aid k ?w = k aid ?w" for k :: "uint32 \<Rightarrow> (int, world) prog"
    by (intro bindP_run(1))
  have aid_str: "convert_auction_id_to_str aid = ?a" "sint aid = int n" "\<not> aid > 999"
    using aid n by (simp_all add: convert_auction_id_to_str_eq sint_small word_less_nat_alt)
  let ?w1 = "?w\<lparr>wfs := with_auction_dir ?a ?f\<rparr>"
  have sf: "CreateStartFile ?a ?u (op_name x) (op_asset x) (to_string (op_start_value x)) (to_string (op_timeactive x)) ?w1 =
      (Ret 0, ?w1\<lparr>wcalls := Suc (Suc (wcalls ?w1)), wfs := with_start ?a x ?d ?t ?f\<rparr>)"
  proof -
    have "look ?f (startP ?a) = None"
      using look_no_dir [OF store_invD(2) [OF assms(1)] _ new] a by (simp add: startP_def)
    then show ?thesis
      using x a CreateAuctionDir_eq(2) [OF store_invD(1) [OF assms(1)] a new] assms(2)
      by (subst CreateStartFile_run) (simp_all add: clock_ok_def dir_at_def look_with_auction_dir with_start_def)
  qed
  have sfb: "bindP (CreateStartFile ?a ?u (op_name x) (op_asset x) (to_string (op_start_value x)) (to_string (op_timeactive x))) k ?w1 =
      k 0 (?w1\<lparr>wcalls := Suc (Suc (wcalls ?w1)), wfs := with_start ?a x ?d ?t ?f\<rparr>)" for k :: "int \<Rightarrow> (int, world) prog"
    by (rule bindP_run(1)) (rule sf)
  show ?thesis
    using CheckUserLoggedIn_eq [OF store_invD(1) [OF assms(1)] x(1)]
      CorrectPassword_eq [OF store_invD(1) [OF assms(1)] x(1) pw] acc
      CreateAuctionDir_eq(1) [OF store_invD(1) [OF assms(1)] a new]
      writes
    by (simp add: open_auction_def Db_Open_def prog_simps sem oa aid_str Let_def sfb [simplified])
qed

lemma Db_Open_run:
  assumes "store_inv (wfs w)" and "clock_ok w" and "sem_ok w" and "good_opening x"
    and acc: "account (wfs w) (op_user x) = \<lparr>acc_password = Some pw, acc_logged_in = True\<rparr>"
    and n: "n = next_id (auction_ids (wfs w))" "n \<le> 999"
  shows "open_auction pw x fsize w = (Ret (int n), w\<lparr>wcalls := Suc (Suc (wcalls w)),
     wfs := with_auction (pad0 3 n) x (format_tm (gmtime (wclock w (wcalls w)))) (wclock w (Suc (wcalls w))) (wfs w)\<rparr>)"
proof -
  have x: "is_uid (op_user x)" "good_name (op_name x)" "good_name (op_asset x)"
    "unat (op_start_value x) < 10 ^ 6" "0 < unat (op_timeactive x)" "unat (op_timeactive x) < 10 ^ 5"
    using assms(4) by (simp_all add: good_opening_def)
  have a: "is_aid (pad0 3 n)" and new: "look (wfs w) (auctionP (pad0 3 n)) = None"
    using next_id_fresh [of "auction_ids (wfs w)"] auction_ids_props(2) [OF assms(1)]
      in_auction_ids [OF store_invD(2) [OF assms(1)]] n by auto
  have dir: "look (wfs w) (userP (op_user x)) \<noteq> None"
    using user_dir_of_file [OF store_invD(1) [OF assms(1)] x(1)] account_password_file [of "wfs w" "op_user x" pw] acc
    by simp
  show ?thesis
    by (rule Db_Open_writes [OF assms(1-3) x acc n CreateAssetFile_with_start [OF assms(1) a new assms(4) dir]])
qed

text \<open>Every other outcome of Open on a store in its invariant leaves the store as it was.\<close>

lemma Db_Open_refused:
  assumes "store_inv (wfs w)" and "sem_ok w" and "is_uid (op_user x)" and "is_password pw"
  shows "\<not> acc_logged_in (account (wfs w) (op_user x)) \<Longrightarrow>
      open_auction pw x fsize w = (Throw UserNotLoggedIn, w)"
    and "acc_logged_in (account (wfs w) (op_user x)) \<Longrightarrow> acc_password (account (wfs w) (op_user x)) \<noteq> Some pw \<Longrightarrow>
      open_auction pw x fsize w = (Ret DB_OPEN_CREATE_FAIL, w)"
    and "acc_logged_in (account (wfs w) (op_user x)) \<Longrightarrow> next_id (auction_ids (wfs w)) > 999 \<Longrightarrow>
      open_auction pw x fsize w = (Ret DB_OPEN_CREATE_FAIL, w)"
proof -
  let ?w = "w\<lparr>wsem := wsem w - Suc 0\<rparr>"
  note eqs = open_auction_def Db_Open_def prog_simps sem_okD [OF assms(2)]
    CheckUserLoggedIn_eq [OF store_invD(1) [OF assms(1)] assms(3)]
    CorrectPassword_eq [OF store_invD(1) [OF assms(1)] assms(3,4)]
  show "\<not> acc_logged_in (account (wfs w) (op_user x)) \<Longrightarrow> open_auction pw x fsize w = (Throw UserNotLoggedIn, w)"
    by (simp add: eqs)
  show "acc_logged_in (account (wfs w) (op_user x)) \<Longrightarrow> acc_password (account (wfs w) (op_user x)) \<noteq> Some pw \<Longrightarrow>
      open_auction pw x fsize w = (Ret DB_OPEN_CREATE_FAIL, w)"
    by (simp add: eqs)
  assume "acc_logged_in (account (wfs w) (op_user x))" "next_id (auction_ids (wfs w)) > 999"
  moreover obtain aid where "open_aid ?w = (Ret aid, ?w)" and "unat aid = next_id (auction_ids (wfs w))"
    using open_aid_run [of ?w] assms(1) by auto
  moreover from this have "bindP open_aid k ?w = k aid ?w" for k :: "uint32 \<Rightarrow> (int, world) prog"
    by (intro bindP_run(1))
  ultimately show "open_auction pw x fsize w = (Ret DB_OPEN_CREATE_FAIL, w)"
    by (simp add: eqs word_less_nat_alt)
qed

section \<open>What is true of the new auction\<close>

lemma with_auction_props:
  assumes "store_inv f" and "is_aid a" and "look f (auctionP a) = None" and "good_opening x"
    and "look f (userP (op_user x)) \<noteq> None" and "date_words date" and "t < 2 ^ 32"
  shows "auction_ids (with_auction a x date t f) = auction_ids f @ [a]"
    and "hosted_ids (with_auction a x date t f) (op_user x) = hosted_ids f (op_user x) @ [a]"
    and "start_of (with_auction a x date t f) a = \<lparr>st_user_id = op_user x, st_name = op_name x,
        st_asset_fname = op_asset x, st_start_value = to_string (op_start_value x),
        st_timeactive = to_string (op_timeactive x), st_current_date = date, st_current_time = word_of_nat t\<rparr>"
    and "look (with_auction a x date t f) (assetP a (op_asset x)) = Some (File (op_data x))"
    and "\<not> ended (with_auction a x date t f) a"
    and "b \<noteq> a \<Longrightarrow> start_of (with_auction a x date t f) b = start_of f b"
proof -
  let ?g = "with_auction a x date t f"
  note lk = look_with_auction [OF assms(2,4), of date t f]
  have x: "is_uid (op_user x)" "clean_name (op_asset x)" using assms(4) by (simp_all add: good_opening_def)
  note st = with_auction_steps [OF assms(1-5)]
  have ne: "hostedP (op_user x) \<noteq> auctionsP" "hostedP u \<noteq> usersP" for u by (auto simp: user_paths auction_paths)
  have l: "look (with_auction_dir a f) (bidsP a) \<noteq> None" using assms(2) by (simp add: look_with_auction_dir)
  show "auction_ids ?g = auction_ids f @ [a]"
    using assms(2,3) x st(3,4)
    by (simp add: auction_ids_def with_auction_def with_start_def with_auction_dir_def children_update fs_simps)
      (simp add: auction_paths user_paths)
  have "children ?g (hostedP (op_user x)) = children f (hostedP (op_user x)) @ [a @ ''.txt'']"
    using assms(2,3) x st(3,4)
    by (simp add: with_auction_def with_start_def with_auction_dir_def children_update fs_simps)
      (simp add: auction_paths user_paths)
  then show "hosted_ids ?g (op_user x) = hosted_ids f (op_user x) @ [a]"
    by (simp add: hosted_ids_def erase_last_append)
  have "parse_start (start_text (op_user x) (op_name x) (op_asset x) (to_string (op_start_value x))
        (to_string (op_timeactive x)) date t) = Inr (Some \<lparr>st_user_id = op_user x, st_name = op_name x,
        st_asset_fname = op_asset x, st_start_value = to_string (op_start_value x),
        st_timeactive = to_string (op_timeactive x), st_current_date = date, st_current_time = word_of_nat t\<rparr>)"
    using assms(4,6,7) good_name_plain by (intro parse_start_text) (auto simp: good_opening_def)
  then show "start_of ?g a = \<lparr>st_user_id = op_user x, st_name = op_name x,
        st_asset_fname = op_asset x, st_start_value = to_string (op_start_value x),
        st_timeactive = to_string (op_timeactive x), st_current_date = date, st_current_time = word_of_nat t\<rparr>"
    by (simp add: start_of_def text_at_def lk)
  show "look ?g (assetP a (op_asset x)) = Some (File (op_data x))" by (simp add: lk)
  have "look f (endP a) = None"
    using look_no_dir [OF store_invD(2) [OF assms(1)] _ assms(3)] assms(2) by (simp add: endP_def)
  then show "\<not> ended ?g a" by (simp add: ended_def lk)
  show "b \<noteq> a \<Longrightarrow> start_of ?g b = start_of f b" by (simp add: start_of_def text_at_def lk)
qed

end
