(* ===== verification/Bidding.thy ===== *)
theory Bidding
  imports Opening
begin

text \<open>
  Bidding on an auction, closing one by hand, and showing its record. A bid is accepted exactly if
  it is greater than every bid before it, or than the start value where there is none.
\<close>

section \<open>The bids of an auction\<close>

definition bids :: "fs \<Rightarrow> string \<Rightarrow> uint32 set" where
  "bids f a = {v. look f (bidP a (to_string v)) \<noteq> None}"

definition bid_of :: "fs \<Rightarrow> string \<Rightarrow> uint32 \<Rightarrow> BidInfo" where
  "bid_of f a v = (case text_at f (bidP a (to_string v)) of
     Some t \<Rightarrow> (case parse_bid t of Inr (Some b) \<Rightarrow> b | _ \<Rightarrow> undefined) | _ \<Rightarrow> undefined)"

text \<open>In the order of the directory.\<close>

definition bid_list :: "fs \<Rightarrow> string \<Rightarrow> uint32 list" where
  "bid_list f a = map (\<lambda>c. word_of_nat (digits_val (erase_last 4 c))) (children f (bidsP a))"

lemma clean_to_string [simp]: "clean_name (to_string v)"
  by (rule digits_clean) (auto dest: to_string_digits)

lemma bid_children:
  assumes "auction_inv f a" and "closed_fs f" and "is_aid a"
  shows "children f (bidsP a) = map (\<lambda>v. to_string v @ ''.txt'') (bid_list f a)"
    and "set (bid_list f a) = bids f a" and "distinct (bid_list f a)"
proof -
  have e: "word_of_nat (digits_val (erase_last 4 (to_string v @ ''.txt''))) = v" for v :: uint32
    by (simp add: erase_last_append to_string_def)
  have names: "\<exists>v :: uint32. c = to_string v @ ''.txt''" if c: "c \<in> set (children f (bidsP a))" for c
  proof -
    obtain n where "look f (bidsP a @ [c]) = Some n"
      using c assms(3) in_children [OF assms(2), of "bidsP a" c] by auto
    then show ?thesis using assms(1) unfolding auction_inv_def by blast
  qed
  then have "to_string (word_of_nat (digits_val (erase_last 4 c)) :: uint32) @ ''.txt'' = c"
    if "c \<in> set (children f (bidsP a))" for c
    using e that by metis
  then show ch: "children f (bidsP a) = map (\<lambda>v. to_string v @ ''.txt'') (bid_list f a)"
    by (auto simp: bid_list_def comp_def intro!: map_idI [symmetric])
  then show "distinct (bid_list f a)"
    using distinct_children [OF assms(2), of "bidsP a"] by (simp add: distinct_map)
  have "v \<in> set (bid_list f a) \<longleftrightarrow> to_string v @ ''.txt'' \<in> set (children f (bidsP a))" for v
    unfolding ch by (auto simp: to_string_inj)
  then show "set (bid_list f a) = bids f a"
    using in_children [OF assms(2), of "bidsP a"] assms(3) by (auto simp: bids_def bidP_def)
qed

lemma GetBid_bid:
  assumes "auction_inv f a" and "closed_fs f" and "is_aid a" and "v \<in> bids f a"
  shows "GetBid (join (bidP a (to_string v))) f = Inr (Some (bid_of f a v))"
    and "bi_value (bid_of f a v) = to_string v" and "is_uid (bi_user_id (bid_of f a v))"
    and "date_words (bi_current_date (bid_of f a v))"
proof -
  obtain n where n: "look f (bidsP a @ [to_string v @ ''.txt'']) = Some n"
    using assms(4) by (auto simp: bids_def bidP_def)
  then obtain v' t b where b: "to_string v @ ''.txt'' = to_string v' @ ''.txt''" "n = File t"
      "parse_bid t = Inr (Some b)" "is_uid (bi_user_id b)" "bi_value b = to_string v'"
      "date_words (bi_current_date b)"
    using assms(1) unfolding auction_inv_def by blast
  then have "text_at f (bidP a (to_string v)) = Some t" using n by (simp add: text_at_def bidP_def)
  with b show "GetBid (join (bidP a (to_string v))) f = Inr (Some (bid_of f a v))"
    and "bi_value (bid_of f a v) = to_string v" and "is_uid (bi_user_id (bid_of f a v))"
    and "date_words (bi_current_date (bid_of f a v))"
    using assms(2,3) by (simp_all add: GetBid_eq bid_of_def to_string_inj)
qed

lemma bids_iterator:
  assumes "auction_inv f a" and "closed_fs f" and "is_aid a"
  shows "fs_is_empty f (bids_dir a @ ''/'') = Inr (bid_list f a = [])"
    and "directory_iterator f (bids_dir a @ ''/'') = Inr (map (\<lambda>v. join (bidP a (to_string v))) (bid_list f a))"
    and "directory_iterator f (bids_dir a) = Inr (map (\<lambda>v. join (bidP a (to_string v))) (bid_list f a))"
proof -
  have d: "dir_at f (bidsP a)" and c: "clean (bidsP a)" using assms by (auto simp: auction_inv_def)
  note ch = bid_children(1) [OF assms]
  show "fs_is_empty f (bids_dir a @ ''/'') = Inr (bid_list f a = [])"
    using assms(2) d c ch by (simp add: path_join fs_is_empty_join)
  show "directory_iterator f (bids_dir a @ ''/'') = Inr (map (\<lambda>v. join (bidP a (to_string v))) (bid_list f a))"
    using assms(2) d c ch by (simp add: path_join directory_iterator_join entry_path_join_slash bidP_def)
  show "directory_iterator f (bids_dir a) = Inr (map (\<lambda>v. join (bidP a (to_string v))) (bid_list f a))"
    using assms(2) d c ch by (simp add: path_join directory_iterator_join entry_path_join bidP_def)
qed

section \<open>Accepting a bid\<close>

definition start_value_of :: "fs \<Rightarrow> string \<Rightarrow> uint32" where
  "start_value_of f a = (case stol (st_start_value (start_of f a)) of Inr v \<Rightarrow> u32_of_int v | Inl _ \<Rightarrow> 0)"

lemma start_value_of_eq:
  assumes "auction_inv f a" and "closed_fs f" and "is_aid a"
  shows "stol (st_start_value (start_of f a)) = Inr (uint (start_value_of f a))"
proof -
  obtain sv where "st_start_value (start_of f a) = to_string sv"
    using start_of_eq(2) [OF assms] by (auto simp: wf_start_def)
  then show ?thesis by (simp add: start_value_of_def)
qed

definition outbids :: "fs \<Rightarrow> string \<Rightarrow> uint32 \<Rightarrow> bool" where
  "outbids f a v \<longleftrightarrow> (if bids f a = {} then start_value_of f a < v else (\<forall>b \<in> bids f a. b < v))"

lemma bid_loop_run:
  assumes "auction_inv (wfs w) a" and "closed_fs (wfs w)" and "is_aid a" and "set vs \<subseteq> bids (wfs w) a"
  shows "bid_loop (map (\<lambda>v. join (bidP a (to_string v))) vs) bid (uint v) w =
     (if \<forall>b \<in> set vs. b < v then ret () w else post_throw LargerBidAlreadyExists w)"
  using assms(4)
proof (induction vs arbitrary: bid)
  case (Cons x vs)
  have "GetBid (join (bidP a (to_string x))) (wfs w) = Inr (Some (bid_of (wfs w) a x))"
    "bi_value (bid_of (wfs w) a x) = to_string x"
    using GetBid_bid [OF assms(1-3), of x] Cons.prems by auto
  then show ?case
    using Cons by (auto simp: prog_simps Let_def word_less_def not_less)
qed simp

text \<open>Whether the auction is one of the user's own.\<close>

lemma CheckAuctionBelongs_eq:
  assumes "store_inv f" and "is_uid u" and "look f (userP u) \<noteq> None" and "is_aid a"
  shows "CheckAuctionBelongs a u f = Inr (if a \<in> set (hosted_ids f u) then 0 else -1)"
proof -
  note inv = users_invD [OF store_invD(1) [OF assms(1)]]
  have d: "dir_at f (hostedP u)" using inv(5) [OF assms(2)] assms(3) by (simp add: user_inv_def)
  have c: "clean (hostedP u)" using assms(2) by simp
  have "map (\<lambda>c. keep_last 3 (erase_last 4 (join (hostedP u @ [c])))) (children f (hostedP u)) = hosted_ids f u"
    using listed_ids_props(3) [OF inv(1) c store_inv_lists(1) [OF assms(1,2)]] by (simp add: hosted_ids_def)
  then have "set (hosted_ids f u) = (\<lambda>c. keep_last 3 (erase_last 4 (join (hostedP u @ [c])))) ` set (children f (hostedP u))"
    by (metis list.set_map)
  then show ?thesis
    using inv(1) d c
    by (auto simp: CheckAuctionBelongs_def path_join fs_is_empty_join directory_iterator_join entry_path_join)
qed

definition with_bid :: "string \<Rightarrow> string \<Rightarrow> uint32 \<Rightarrow> string \<Rightarrow> fs \<Rightarrow> fs" where
  "with_bid u a v text f =
     AList.update (bidP a (to_string v)) (File text) (AList.update (bidderP u a) (File []) f)"

lemma look_with_bid:
  "is_uid u \<Longrightarrow> is_aid a \<Longrightarrow> look (with_bid u a v text f) p =
     (if p = bidP a (to_string v) then Some (File text) else if p = bidderP u a then Some (File []) else look f p)"
  by (simp add: with_bid_def fs_simps)

lemma with_bid_steps:
  assumes "store_inv f" and "is_uid u" and "look f (userP u) \<noteq> None" and "look f (auctionP a) \<noteq> None"
    and "v \<notin> bids f a"
  shows "RegisterBid u a f = (0, AList.update (bidderP u a) (File []) f)"
    and "users_inv (AList.update (bidderP u a) (File []) f)" and "users_inv (with_bid u a v text f)"
proof -
  let ?g = "AList.update (bidderP u a) (File []) f"
  note inv = users_invD [OF store_invD(1) [OF assms(1)]]
  note a = store_invD(3,4) [OF assms(1,4)]
  have d: "dir_at f (biddedP u)" using inv(5) [OF assms(2)] assms(3) by (simp add: user_inv_def)
  have nd: "\<not> dir_at f (bidderP u a)"
    using store_inv_bidded [OF assms(1,2), of "a @ ''.txt''"] by (auto simp: dir_at_def bidderP_def entry_inv_def)
  show "RegisterBid u a f = (0, ?g)"
    using assms(2) a(1) d nd inv(1) by (simp add: RegisterBid_def path_join fopen_w_join)
  show g: "users_inv ?g"
    using store_invD(1) [OF assms(1)] assms(2) a(1) nd d by (intro users_inv_list_update) auto
  have "\<not> dir_at f (bidP a (to_string v))" using assms(5) by (simp add: bids_def dir_at_def)
  then show "users_inv (with_bid u a v text f)"
    unfolding with_bid_def using g a assms(2) auction_dir_of [OF a(2)]
    by - (rule users_inv_auction_update, simp_all add: fs_simps)
qed

lemma store_inv_with_bid:
  assumes "store_inv f" and "is_uid u" and "look f (userP u) \<noteq> None" and "look f (auctionP a) \<noteq> None"
    and "v \<notin> bids f a" and "date_words date"
  shows "store_inv (with_bid u a v (bid_text u (to_string v) date t) f)"
    and "bids (with_bid u a v (bid_text u (to_string v) date t) f) a = insert v (bids f a)"
    and "bid_of (with_bid u a v (bid_text u (to_string v) date t) f) a v =
      \<lparr>bi_user_id = u, bi_value = to_string v, bi_current_date = date, bi_time_passed = t\<rparr>"
    and "look (with_bid u a v (bid_text u (to_string v) date t) f) (bidderP u a) = Some (File [])"
proof -
  let ?text = "bid_text u (to_string v) date t"
  let ?g = "with_bid u a v ?text f"
  note a = store_invD(3,4) [OF assms(1,4)]
  note lk = look_with_bid [OF assms(2) a(1), of v ?text f]
  note pb = parse_bid_text [OF assms(2,6), of v t]
  have inv: "auction_inv ?g b" if b: "auction_inv f b" for b
  proof -
    have "look ?g q = look f q" if "q \<in> {auctionP b, bidsP b, assetsP b, startP b, endP b, noendP b}" for q
      using that by (auto simp: lk)
    moreover have "look ?g (bidsP b @ [c]) =
        (if b = a \<and> c = to_string v @ ''.txt'' then Some (File ?text) else look f (bidsP b @ [c]))" for c
      by (simp add: lk) (auto simp: auction_paths user_paths)
    ultimately show ?thesis
      using b pb assms(2,6) unfolding auction_inv_def dir_at_def by auto
  qed
  have au: "look ?g (auctionP b) = look f (auctionP b)" for b by (simp add: lk)
  have ho: "look ?g (hostedP x @ [c]) = look f (hostedP x @ [c])" for x c
    by (simp add: lk) (auto simp: auction_paths user_paths)
  have bi: "look ?g (biddedP x @ [c]) = (if x = u \<and> c = a @ ''.txt'' then Some (File [])
      else look f (biddedP x @ [c]))" for x c
    by (simp add: lk) (auto simp: auction_paths user_paths)
  show "store_inv ?g"
  proof (rule store_invI [OF with_bid_steps(3) [OF assms(1-5)]])
    fix b assume "look ?g (auctionP b) \<noteq> None"
    then show "is_aid b \<and> auction_inv ?g b"
      using inv store_invD(3,4) [OF assms(1), of b] by (simp add: au)
  next
    fix x c assume "is_uid x" "look ?g (hostedP x @ [c]) \<noteq> None"
    then show "entry_inv ?g (hostedP x) c"
      using store_inv_hosted [OF assms(1), of x c] by (simp add: entry_inv_def ho au)
  next
    fix x c assume "is_uid x" "look ?g (biddedP x @ [c]) \<noteq> None"
    then show "entry_inv ?g (biddedP x) c"
      using assms(4) a(1) store_inv_bidded [OF assms(1), of x c] by (auto simp: entry_inv_def bi au split: if_splits)
  qed
  show "bids ?g a = insert v (bids f a)" by (auto simp: bids_def lk to_string_inj)
  show "bid_of ?g a v = \<lparr>bi_user_id = u, bi_value = to_string v, bi_current_date = date, bi_time_passed = t\<rparr>"
    using pb by (simp add: bid_of_def text_at_def lk)
  show "look ?g (bidderP u a) = Some (File [])" by (simp add: lk)
qed

lemma bid_text_plain: "is_uid u \<Longrightarrow> date_words date \<Longrightarrow> c_str (bid_text u (to_string v) date t) = bid_text u (to_string v) date t"
  using uid_word [of u] date_wordsD [of date] to_string_plain [of v] to_string_plain [of t]
  by (intro c_str_id) (auto simp: bid_text_def plain_line_def NUL_def)

lemma CreateBidFile_run:
  assumes "users_inv (wfs w)" and "auction_inv (wfs w) a" and "clock_ok w" and "is_uid u" and "is_aid a"
    and "v \<noteq> 0" and "v \<notin> bids (wfs w) a"
  shows "CreateBidFile a u (to_string v) w =
     (Ret 0, w\<lparr>wcalls := Suc (Suc (wcalls w)), wfs := AList.update (bidP a (to_string v)) (File
        (bid_text u (to_string v) (format_tm (gmtime (wclock w (wcalls w))))
          (word_of_nat (wclock w (Suc (wcalls w))) - st_current_time (start_of (wfs w) a)))) (wfs w)\<rparr>)"
proof -
  have d: "date_words (format_tm (gmtime (wclock w (wcalls w))))"
    using assms(3) by (intro clock_date_words) (simp add: clock_ok_def)
  have o: "fopen_w (wfs w) (bid_path a (to_string v)) =
      Some (bidP a (to_string v), AList.update (bidP a (to_string v)) (File []) (wfs w))"
    using assms by (simp add: path_join fopen_w_join users_invD dir_at_def bids_def auction_inv_def)
  show ?thesis
    using assms(4-6) o bid_text_plain [OF assms(4) d] start_of_eq(1) [OF assms(2) users_invD(1) [OF assms(1)] assms(5)]
    by (simp add: CreateBidFile_def prog_simps Let_def fputs_update bid_text_def u32_of_int_of_nat)
qed

text \<open>The checks of Bid before the auction's time is looked at.\<close>

definition may_bid :: "fs \<Rightarrow> string \<Rightarrow> string \<Rightarrow> string \<Rightarrow> bool" where
  "may_bid f u pw a \<longleftrightarrow>
     account f u = \<lparr>acc_password = Some pw, acc_logged_in = True\<rparr> \<and> a \<in> set (auction_ids f) \<and>
     a \<notin> set (hosted_ids f u)"

lemma account_facts:
  assumes "store_inv f" and "is_uid u" and "account f u = \<lparr>acc_password = Some pw, acc_logged_in = l\<rparr>"
  shows "is_password pw" and "look f (userP u) \<noteq> None"
  using password_text [OF store_invD(1) [OF assms(1)] assms(2), of pw] assms(3)
    user_dir_of_file [OF store_invD(1) [OF assms(1)] assms(2)] account_password_file [of f u pw]
  by simp_all

lemma may_bid_facts:
  assumes "store_inv f" and "is_uid u" and "may_bid f u pw a"
  shows "CheckUserLoggedIn f u = 0" and "CorrectPassword f u pw = 1" and "CheckAuctionExists f a = 0"
    and "CheckAuctionBelongs a u f = Inr (-1)" and "is_aid a" and "auction_inv f a" and "look f (auctionP a) \<noteq> None"
    and "look f (userP u) \<noteq> None"
proof -
  have m: "account f u = \<lparr>acc_password = Some pw, acc_logged_in = True\<rparr>" "a \<in> set (auction_ids f)"
    "a \<notin> set (hosted_ids f u)" using assms(3) by (simp_all add: may_bid_def)
  note acc = account_facts [OF assms(1,2) m(1)]
  show l: "look f (auctionP a) \<noteq> None" "look f (userP u) \<noteq> None"
    using m(2) in_auction_ids [OF store_invD(2) [OF assms(1)]] acc by simp_all
  then show a: "is_aid a" "auction_inv f a" using store_invD(3,4) [OF assms(1)] by simp_all
  show "CheckUserLoggedIn f u = 0" using CheckUserLoggedIn_eq [OF store_invD(1) [OF assms(1)] assms(2)] m(1) by simp
  show "CorrectPassword f u pw = 1" using CorrectPassword_eq [OF store_invD(1) [OF assms(1)] assms(2) acc(1)] m(1) by simp
  show "CheckAuctionExists f a = 0" using CheckAuctionExists_eq [OF assms(1) a(1)] m(2) by simp
  show "CheckAuctionBelongs a u f = Inr (-1)" using CheckAuctionBelongs_eq [OF assms(1,2) acc(2) a(1)] m(3) by simp
qed

text \<open>The store after an accepted bid, in terms of the clock's readings.\<close>

definition bid_store :: "string \<Rightarrow> string \<Rightarrow> uint32 \<Rightarrow> world \<Rightarrow> fs" where
  "bid_store u a v w =
     with_bid u a v (bid_text u (to_string v) (format_tm (gmtime (wclock w (Suc (wcalls w)))))
       (word_of_nat (wclock w (Suc (Suc (wcalls w)))) - st_current_time (start_of (wfs w) a))) (wfs w)"

lemma outbids_new: "outbids f a v \<Longrightarrow> v \<notin> bids f a"
  by (auto simp: outbids_def split: if_splits)

lemma Db_Bid_run:
  assumes "store_inv (wfs w)" and "clock_ok w" and "sem_ok w" and "is_uid u" and "may_bid (wfs w) u pw a"
    and "v \<noteq> 0" and "\<not> ended (wfs w) a" and "\<not> time_over (wfs w) a (wclock w (wcalls w))"
  shows "outbids (wfs w) a v \<Longrightarrow>
      Db_Bid u pw a (to_string v) w = (Ret DB_BID_ACCEPT, w\<lparr>wcalls := Suc (Suc (Suc (wcalls w))), wfs := bid_store u a v w\<rparr>)"
    and "\<not> outbids (wfs w) a v \<Longrightarrow>
      Db_Bid u pw a (to_string v) w = (Throw LargerBidAlreadyExists, w\<lparr>wcalls := Suc (wcalls w)\<rparr>)"
proof -
  let ?f = "wfs w"
  let ?w = "w\<lparr>wsem := wsem w - Suc 0, wcalls := Suc (wcalls w)\<rparr>"
  note m = may_bid_facts [OF assms(1,4,5)]
  note c = store_invD(2) [OF assms(1)]
  note it = bids_iterator [OF m(6) c m(5)]
  note bs = bid_children(2) [OF m(6) c m(5)]
  note eqs = Db_Bid_def prog_simps sem_okD [OF assms(3)] m(1-4) CheckEndExists_eq [OF c m(5)] assms(7)
    start_of_eq(1) [OF m(6) c m(5)] timeactive_of_eq [OF m(6) c m(5)] start_value_of_eq [OF m(6) c m(5)]
    it u32_of_int_of_nat Let_def bindP_assoc
  have time: "\<not> timeactive_of ?f a \<le> word_of_nat (wclock w (wcalls w)) - st_current_time (start_of ?f a)"
    using assms(8) by (simp add: time_over_def)
  have loop: "bid_loop (map (\<lambda>v. join (bidP a (to_string v))) (bid_list ?f a)) no_bid (uint v) ?w =
     (if \<forall>b \<in> bids ?f a. b < v then ret () ?w else post_throw LargerBidAlreadyExists ?w)"
    using bid_loop_run [of ?w a "bid_list ?f a" no_bid v] m(5,6) c bs by simp
  have empty: "bid_list ?f a = [] \<longleftrightarrow> bids ?f a = {}" using bs by (metis set_empty)
  {
    assume ob: "outbids ?f a v"
    let ?g = "AList.update (bidderP u a) (File []) ?f"
    note st = with_bid_steps [OF assms(1,4) m(8,7) outbids_new [OF ob]]
    have same: "auction_inv ?g a" "start_of ?g a = start_of ?f a" "v \<notin> bids ?g a"
    proof -
      have lk: "look ?g (bidsP a @ [c]) = look ?f (bidsP a @ [c])" for c
        using assms(4) m(5) by (simp add: fs_simps) (auto simp: auction_paths user_paths)
      then show "auction_inv ?g a" using m(6) assms(4) m(5) by (simp add: auction_inv_def fs_simps)
      show "start_of ?g a = start_of ?f a" using assms(4) m(5) by (simp add: start_of_def fs_simps)
      show "v \<notin> bids ?g a" using outbids_new [OF ob] assms(4) m(5) by (simp add: bids_def fs_simps)
    qed
    have cb: "bindP (CreateBidFile a u (to_string v)) k (?w\<lparr>wfs := ?g\<rparr>) =
        k 0 (?w\<lparr>wfs := bid_store u a v w, wcalls := Suc (Suc (Suc (wcalls w)))\<rparr>)" for k :: "int \<Rightarrow> (int, world) prog"
      using CreateBidFile_run [of "?w\<lparr>wfs := ?g\<rparr>" a u v] st(2) same assms(2,4,6) m(5)
      by (intro bindP_run(1)) (simp add: clock_ok_def bid_store_def with_bid_def)
    have lp: "bindP (bid_loop (map (\<lambda>v. join (bidP a (to_string v))) (bid_list ?f a)) no_bid (uint v)) k ?w = k () ?w"
      if "bids ?f a \<noteq> {}" for k :: "unit \<Rightarrow> (int, world) prog"
      using loop ob that by (intro bindP_run(1)) (simp add: outbids_def)
    show "Db_Bid u pw a (to_string v) w = (Ret DB_BID_ACCEPT, w\<lparr>wcalls := Suc (Suc (Suc (wcalls w))), wfs := bid_store u a v w\<rparr>)"
      using ob time st(1) cb lp empty
      by (cases "bids ?f a = {}") (simp_all add: eqs outbids_def word_less_def not_less)
  next
    assume ob: "\<not> outbids ?f a v"
    have lp: "bindP (bid_loop (map (\<lambda>v. join (bidP a (to_string v))) (bid_list ?f a)) no_bid (uint v)) k ?w =
        (Throw LargerBidAlreadyExists, w\<lparr>wcalls := Suc (wcalls w)\<rparr>)"
      if "bids ?f a \<noteq> {}" for k :: "unit \<Rightarrow> (int, world) prog"
      using loop ob that sem_okD [OF assms(3)] by (intro bindP_run(2)) (simp add: outbids_def prog_simps)
    show "Db_Bid u pw a (to_string v) w = (Throw LargerBidAlreadyExists, w\<lparr>wcalls := Suc (wcalls w)\<rparr>)"
      using ob time lp empty
      by (cases "bids ?f a = {}") (simp_all add: eqs outbids_def word_less_def not_less)
  }
qed

text \<open>The refusals before that, in the order of the checks; none of them changes the store.\<close>

lemma Db_Bid_refused:
  assumes "store_inv (wfs w)" and "sem_ok w" and "is_uid u" and "is_password pw" and "is_aid a"
  shows "\<not> acc_logged_in (account (wfs w) u) \<Longrightarrow> Db_Bid u pw a v w = (Throw UserNotLoggedIn, w)"
    and "acc_logged_in (account (wfs w) u) \<Longrightarrow> acc_password (account (wfs w) u) \<noteq> Some pw \<Longrightarrow>
      Db_Bid u pw a v w = (Ret DB_BID_NOK, w)"
    and "account (wfs w) u = \<lparr>acc_password = Some pw, acc_logged_in = True\<rparr> \<Longrightarrow> a \<notin> set (auction_ids (wfs w)) \<Longrightarrow>
      Db_Bid u pw a v w = (Throw AuctionNotFound, w)"
    and "account (wfs w) u = \<lparr>acc_password = Some pw, acc_logged_in = True\<rparr> \<Longrightarrow> a \<in> set (auction_ids (wfs w)) \<Longrightarrow>
      a \<in> set (hosted_ids (wfs w) u) \<Longrightarrow> Db_Bid u pw a v w = (Throw BidOnSelf, w)"
    and "may_bid (wfs w) u pw a \<Longrightarrow> ended (wfs w) a \<Longrightarrow> stol v = Inr x \<Longrightarrow>
      Db_Bid u pw a v w = (Throw AuctionAlreadyClosed, w)"
proof -
  note eqs = Db_Bid_def prog_simps sem_okD [OF assms(2)] CheckUserLoggedIn_eq [OF store_invD(1) [OF assms(1)] assms(3)]
    CorrectPassword_eq [OF store_invD(1) [OF assms(1)] assms(3,4)] CheckAuctionExists_eq [OF assms(1,5)]
  show "\<not> acc_logged_in (account (wfs w) u) \<Longrightarrow> Db_Bid u pw a v w = (Throw UserNotLoggedIn, w)"
    and "acc_logged_in (account (wfs w) u) \<Longrightarrow> acc_password (account (wfs w) u) \<noteq> Some pw \<Longrightarrow>
      Db_Bid u pw a v w = (Ret DB_BID_NOK, w)"
    and "account (wfs w) u = \<lparr>acc_password = Some pw, acc_logged_in = True\<rparr> \<Longrightarrow> a \<notin> set (auction_ids (wfs w)) \<Longrightarrow>
      Db_Bid u pw a v w = (Throw AuctionNotFound, w)"
    by (simp_all add: eqs)
  assume acc: "account (wfs w) u = \<lparr>acc_password = Some pw, acc_logged_in = True\<rparr>" "a \<in> set (auction_ids (wfs w))"
    "a \<in> set (hosted_ids (wfs w) u)"
  then show "Db_Bid u pw a v w = (Throw BidOnSelf, w)"
    using CheckAuctionBelongs_eq [OF assms(1,3) account_facts(2) [OF assms(1,3) acc(1)] assms(5)] by (simp add: eqs)
next
  assume m: "may_bid (wfs w) u pw a" and "ended (wfs w) a" "stol v = Inr x"
  then show "Db_Bid u pw a v w = (Throw AuctionAlreadyClosed, w)"
    using may_bid_facts [OF assms(1,3) m] CheckEndExists_eq [OF store_invD(2) [OF assms(1)] assms(5)] sem_okD [OF assms(2)]
    by (simp add: Db_Bid_def prog_simps)
qed

text \<open>
  A bid on an auction whose time is over closes it, and throws without giving the semaphore back.
\<close>

lemma Db_Bid_expired:
  assumes "store_inv (wfs w)" and "clock_ok w" and "sem_ok w" and "is_uid u" and "may_bid (wfs w) u pw a"
    and "\<not> ended (wfs w) a" and "time_over (wfs w) a (wclock w (wcalls w))"
  shows "Db_Bid u pw a (to_string v) w = (Throw AuctionAlreadyClosed,
     w\<lparr>wsem := wsem w - 1, wcalls := Suc (Suc (Suc (wcalls w))), wfs := closed_now a (w\<lparr>wcalls := Suc (wcalls w)\<rparr>)\<rparr>)"
proof -
  let ?f = "wfs w"
  let ?w = "w\<lparr>wsem := wsem w - Suc 0, wcalls := Suc (wcalls w)\<rparr>"
  note m = may_bid_facts [OF assms(1,4,5)]
  note c = store_invD(2) [OF assms(1)]
  have cl: "bindP (Db_Close a) k ?w = k DB_CLOSE_OK (?w\<lparr>wcalls := Suc (Suc (Suc (wcalls w))), wfs := closed_now a ?w\<rparr>)"
    for k :: "int \<Rightarrow> (int, world) prog"
    using Db_Close_run [of ?w a] assms(1,2,6) m(7) by (intro bindP_run(1)) (simp add: clock_ok_def)
  have "closed_now a ?w = closed_now a (w\<lparr>wcalls := Suc (wcalls w)\<rparr>)" by (simp add: closed_now_def)
  moreover have "timeactive_of ?f a \<le> word_of_nat (wclock w (wcalls w)) - st_current_time (start_of ?f a)"
    using assms(7) by (simp add: time_over_def)
  ultimately show ?thesis
    using assms(6) cl m(1-4) CheckEndExists_eq [OF c m(5)]
    by (simp add: Db_Bid_def prog_simps sem_okD [OF assms(3)] start_of_eq(1) [OF m(6) c m(5)]
        timeactive_of_eq [OF m(6) c m(5)] u32_of_int_of_nat Let_def)
qed

section \<open>Closing by hand\<close>

definition may_close :: "fs \<Rightarrow> string \<Rightarrow> string \<Rightarrow> string \<Rightarrow> bool" where
  "may_close f u pw a \<longleftrightarrow>
     account f u = \<lparr>acc_password = Some pw, acc_logged_in = True\<rparr> \<and> a \<in> set (auction_ids f) \<and>
     a \<in> set (hosted_ids f u)"

lemma may_close_facts:
  assumes "store_inv f" and "is_uid u" and "may_close f u pw a"
  shows "CheckUserExisted f (user_dir u) = 0" and "CheckUserLoggedIn f u = 0" and "CorrectPassword f u pw = 1"
    and "CheckAuctionExists f a = 0" and "CheckAuctionBelongs a u f = Inr 0"
    and "CheckEndExists f (close_checked_path a) = -1"
    and "is_aid a" and "auction_inv f a" and "look f (auctionP a) \<noteq> None"
proof -
  have m: "account f u = \<lparr>acc_password = Some pw, acc_logged_in = True\<rparr>" "a \<in> set (auction_ids f)"
    "a \<in> set (hosted_ids f u)" using assms(3) by (simp_all add: may_close_def)
  note acc = account_facts [OF assms(1,2) m(1)]
  show l: "look f (auctionP a) \<noteq> None" using m(2) in_auction_ids [OF store_invD(2) [OF assms(1)]] by simp
  then show a: "is_aid a" "auction_inv f a" using store_invD(3,4) [OF assms(1)] by simp_all
  show "CheckUserExisted f (user_dir u) = 0"
    using CheckUserExisted_eq [OF store_invD(1) [OF assms(1)] assms(2)] acc(2) by simp
  show "CheckUserLoggedIn f u = 0" using CheckUserLoggedIn_eq [OF store_invD(1) [OF assms(1)] assms(2)] m(1) by simp
  show "CorrectPassword f u pw = 1" using CorrectPassword_eq [OF store_invD(1) [OF assms(1)] assms(2) acc(1)] m(1) by simp
  show "CheckAuctionExists f a = 0" using CheckAuctionExists_eq [OF assms(1) a(1)] m(2) by simp
  show "CheckAuctionBelongs a u f = Inr 0" using CheckAuctionBelongs_eq [OF assms(1,2) acc(2) a(1)] m(3) by simp
  show "CheckEndExists f (close_checked_path a) = -1"
    using a store_invD(2) [OF assms(1)] by (simp add: CheckEndExists_def path_join access_join auction_inv_def)
qed

text \<open>
  The host closes an auction. An active one gets its end file and the answer is OK. One whose time
  has just run out gets it too, and the answer is that it was closed. Of one that has its end file
  already, the code notices this only inside Close, whose exception passes the semaphore_post by.
\<close>

lemma CloseAuction_run:
  assumes "store_inv (wfs w)" and "clock_ok w" and "sem_ok w" and "is_uid u" and "may_close (wfs w) u pw a"
  shows "\<not> ended (wfs w) a \<Longrightarrow> \<not> time_over (wfs w) a (wclock w (wcalls w)) \<Longrightarrow>
      CloseAuction a u pw w = (Ret DB_CLOSE_OK,
        w\<lparr>wcalls := Suc (Suc (Suc (wcalls w))), wfs := closed_now a (w\<lparr>wcalls := Suc (wcalls w)\<rparr>)\<rparr>)"
    and "\<not> ended (wfs w) a \<Longrightarrow> time_over (wfs w) a (wclock w (wcalls w)) \<Longrightarrow>
      CloseAuction a u pw w = (Throw AuctionAlreadyClosed,
        w\<lparr>wcalls := Suc (Suc (Suc (wcalls w))), wfs := closed_now a (w\<lparr>wcalls := Suc (wcalls w)\<rparr>)\<rparr>)"
    and "ended (wfs w) a \<Longrightarrow>
      CloseAuction a u pw w = (Throw AuctionAlreadyClosed,
        w\<lparr>wsem := wsem w - 1, wcalls := Suc (Suc (Suc (wcalls w)))\<rparr>)"
proof -
  let ?f = "wfs w"
  let ?w = "w\<lparr>wsem := wsem w - Suc 0, wcalls := Suc (wcalls w)\<rparr>"
  note m = may_close_facts [OF assms(1,4,5)]
  note c = store_invD(2) [OF assms(1)]
  note eqs = CloseAuction_def prog_simps sem_okD [OF assms(3)] m(1-6) start_of_eq(1) [OF m(8) c m(7)]
    timeactive_of_eq [OF m(8) c m(7)] u32_of_int_of_nat Let_def
  have same: "closed_now a ?w = closed_now a (w\<lparr>wcalls := Suc (wcalls w)\<rparr>)" by (simp add: closed_now_def)
  {
    assume e: "\<not> ended ?f a"
    have cl: "bindP (Db_Close a) k ?w = k DB_CLOSE_OK (?w\<lparr>wcalls := Suc (Suc (Suc (wcalls w))), wfs := closed_now a ?w\<rparr>)"
      for k :: "int \<Rightarrow> (int, world) prog"
      using Db_Close_run [of ?w a] e assms(1,2) m(9) by (intro bindP_run(1)) (simp add: clock_ok_def)
    {
      assume "\<not> time_over ?f a (wclock w (wcalls w))"
      then show "CloseAuction a u pw w = (Ret DB_CLOSE_OK,
          w\<lparr>wcalls := Suc (Suc (Suc (wcalls w))), wfs := closed_now a (w\<lparr>wcalls := Suc (wcalls w)\<rparr>)\<rparr>)"
        using cl same by (simp add: eqs time_over_def)
    next
      assume "time_over ?f a (wclock w (wcalls w))"
      then show "CloseAuction a u pw w = (Throw AuctionAlreadyClosed,
          w\<lparr>wcalls := Suc (Suc (Suc (wcalls w))), wfs := closed_now a (w\<lparr>wcalls := Suc (wcalls w)\<rparr>)\<rparr>)"
        using cl same by (simp add: eqs time_over_def)
    }
  next
    assume e: "ended ?f a"
    have "bindP (Db_Close a) k ?w = (Throw AuctionAlreadyClosed, ?w\<lparr>wcalls := Suc (Suc (Suc (wcalls w)))\<rparr>)"
      for k :: "int \<Rightarrow> (int, world) prog"
      using Db_Close_run [of ?w a] e assms(1,2) m(9) by (intro bindP_run(2)) (simp add: clock_ok_def)
    then show "CloseAuction a u pw w = (Throw AuctionAlreadyClosed,
        w\<lparr>wsem := wsem w - 1, wcalls := Suc (Suc (Suc (wcalls w)))\<rparr>)"
      by (simp add: eqs)
  }
qed

lemma CloseAuction_refused:
  assumes "store_inv (wfs w)" and "sem_ok w" and "is_uid u" and "is_password pw" and "is_aid a"
  shows "look (wfs w) (userP u) = None \<Longrightarrow> CloseAuction a u pw w = (Throw UserDoesNotExist, w)"
    and "look (wfs w) (userP u) \<noteq> None \<Longrightarrow> \<not> acc_logged_in (account (wfs w) u) \<Longrightarrow>
      CloseAuction a u pw w = (Throw UserNotLoggedIn, w)"
    and "acc_logged_in (account (wfs w) u) \<Longrightarrow> acc_password (account (wfs w) u) \<noteq> Some pw \<Longrightarrow>
      CloseAuction a u pw w = (Throw IncorrectPassword, w)"
    and "account (wfs w) u = \<lparr>acc_password = Some pw, acc_logged_in = True\<rparr> \<Longrightarrow> a \<notin> set (auction_ids (wfs w)) \<Longrightarrow>
      CloseAuction a u pw w = (Throw AuctionNotFound, w)"
    and "account (wfs w) u = \<lparr>acc_password = Some pw, acc_logged_in = True\<rparr> \<Longrightarrow> a \<in> set (auction_ids (wfs w)) \<Longrightarrow>
      a \<notin> set (hosted_ids (wfs w) u) \<Longrightarrow> CloseAuction a u pw w = (Throw AuctionNotOwnedByUser, w)"
proof -
  note u = store_invD(1) [OF assms(1)]
  note eqs = CloseAuction_def prog_simps sem_okD [OF assms(2)] CheckUserLoggedIn_eq [OF u assms(3)]
    CorrectPassword_eq [OF u assms(3,4)] CheckAuctionExists_eq [OF assms(1,5)] CheckUserExisted_eq [OF u assms(3)]
  have dir: "look (wfs w) (userP u) \<noteq> None" if "acc_logged_in (account (wfs w) u)"
    using that account_no_dir(1) [OF u assms(3)] by (cases "look (wfs w) (userP u)") auto
  show "look (wfs w) (userP u) = None \<Longrightarrow> CloseAuction a u pw w = (Throw UserDoesNotExist, w)"
    and "look (wfs w) (userP u) \<noteq> None \<Longrightarrow> \<not> acc_logged_in (account (wfs w) u) \<Longrightarrow>
      CloseAuction a u pw w = (Throw UserNotLoggedIn, w)"
    by (simp_all add: eqs)
  show "acc_logged_in (account (wfs w) u) \<Longrightarrow> acc_password (account (wfs w) u) \<noteq> Some pw \<Longrightarrow>
      CloseAuction a u pw w = (Throw IncorrectPassword, w)"
    and "account (wfs w) u = \<lparr>acc_password = Some pw, acc_logged_in = True\<rparr> \<Longrightarrow> a \<notin> set (auction_ids (wfs w)) \<Longrightarrow>
      CloseAuction a u pw w = (Throw AuctionNotFound, w)"
    using dir by (simp_all add: eqs)
  assume acc: "account (wfs w) u = \<lparr>acc_password = Some pw, acc_logged_in = True\<rparr>" "a \<in> set (auction_ids (wfs w))"
    "a \<notin> set (hosted_ids (wfs w) u)"
  then show "CloseAuction a u pw w = (Throw AuctionNotOwnedByUser, w)"
    using dir CheckAuctionBelongs_eq [OF assms(1,3) account_facts(2) [OF assms(1,3) acc(1)] assms(5)] by (simp add: eqs)
qed

end
