(* ===== verification/Records.thy ===== *)
theory Records
  imports Bidding
begin

text \<open>
  The record of an auction and its asset: ShowRecord reports what the start file says, whether and
  when the auction ended, and the fifty greatest bids in rising order; ShowAsset returns the asset
  that Open stored.
\<close>

section \<open>Sorting the bids\<close>

lemma CompareByValue_eq:
  "bi_value x = to_string v \<Longrightarrow> bi_value y = to_string u \<Longrightarrow> CompareByValue x y = Inr (v < u)"
  by (simp add: CompareByValue_def)

lemma sort_key_map_sort:
  assumes "\<forall>v \<in> set vs. k (g v) = v"
  shows "sort_key k (map g vs) = map g (sort vs)"
proof -
  have "insort_key k (g v) (map g us) = map g (insort v us)"
    if "k (g v) = v" "\<forall>u \<in> set us. k (g u) = u" for v us
    using that by (induction us) auto
  then show ?thesis using assms by (induction vs) (auto simp: sort_key_simps)
qed

lemma sort_bids_run:
  assumes "\<forall>v \<in> set vs. bi_value (g v) = to_string v"
  shows "sort_bids (map g vs) = Inr (map g (sort vs))"
proof (cases "length vs \<le> 1")
  case True
  then show ?thesis by (cases vs) (auto simp: sort_bids_def std_sort_def)
next
  case False
  have "first_error (map (\<lambda>b. stol (bi_value b)) (map g vs)) = None"
    using assms by (intro first_error_none) auto
  moreover have "sort_key (\<lambda>b. u32_of_int (projr (stol (bi_value b)))) (map g vs) = map g (sort vs)"
    using assms by (intro sort_key_map_sort) simp
  ultimately show ?thesis using False by (simp add: sort_bids_def std_sort_def)
qed

section \<open>The record of an auction\<close>

definition end_of :: "fs \<Rightarrow> string \<Rightarrow> EndInfo" where
  "end_of f a = (case text_at f (endP a) of
     Some t \<Rightarrow> (case parse_end t of Inr (Some e) \<Rightarrow> e | _ \<Rightarrow> undefined) | _ \<Rightarrow> undefined)"

lemma GetEnd_end:
  assumes "auction_inv f a" and "closed_fs f" and "is_aid a" and "ended f a"
  shows "GetEnd (end_path a) f = Inr (Some (end_of f a))" and "date_words (en_end_date (end_of f a))"
  using assms by (auto simp: auction_inv_def ended_def GetEnd_eq end_of_def text_at_def)

text \<open>The last fifty of the bids by value.\<close>

definition shown_bids :: "fs \<Rightarrow> string \<Rightarrow> BidInfo list" where
  "shown_bids f a = map (bid_of f a) (drop (card (bids f a) - 50) (sorted_list_of_set (bids f a)))"

definition record_of :: "fs \<Rightarrow> string \<Rightarrow> AuctionRecord" where
  "record_of f a =
     (let s = start_of f a in
      \<lparr>ar_host_id = st_user_id s, ar_auction_name = st_name s, ar_asset_fname = st_asset_fname s,
       ar_start_value = st_start_value s, ar_start_datetime = st_current_date s, ar_timeactive = st_timeactive s,
       ar_list = shown_bids f a, ar_active = (\<not> ended f a),
       ar_end_datetime = (if ended f a then en_end_date (end_of f a) else ''''),
       ar_end_timeelapsed = (if ended f a then en_end_time (end_of f a) else 0)\<rparr>)"

lemma record_loop_run:
  assumes "auction_inv (wfs w) a" and "closed_fs (wfs w)" and "is_aid a" and "set vs \<subseteq> bids (wfs w) a"
  shows "record_loop (map (\<lambda>v. join (bidP a (to_string v))) vs) bid list w =
     (Ret (list @ map (bid_of (wfs w) a) vs), w)"
  using assms(4)
proof (induction vs arbitrary: bid list)
  case (Cons v vs)
  then show ?case
    using GetBid_bid(1) [OF assms(1-3), of v] by (simp add: prog_simps)
qed simp

text \<open>What the two branches of an ended auction and the bids have in common.\<close>

lemma record_end_run:
  assumes "auction_inv (wfs w) a" and "closed_fs (wfs w)" and "is_aid a" and "ended (wfs w) a"
  shows "bindP (record_end a result) k w = k (result\<lparr>ar_active := False, ar_end_datetime := en_end_date (end_of (wfs w) a),
     ar_end_timeelapsed := en_end_time (end_of (wfs w) a)\<rparr>) w"
  using GetEnd_end [OF assms] by (simp add: record_end_def bindP_assoc prog_simps)

lemma bids_of_record:
  assumes "auction_inv (wfs w) a" and "closed_fs (wfs w)" and "is_aid a"
  shows "bindP (record_loop (map (\<lambda>v. join (bidP a (to_string v))) (bid_list (wfs w) a)) None []) k w =
      k (map (bid_of (wfs w) a) (bid_list (wfs w) a)) w"
    and "sort_bids (map (bid_of (wfs w) a) (bid_list (wfs w) a)) =
      Inr (map (bid_of (wfs w) a) (sorted_list_of_set (bids (wfs w) a)))"
    and "length (bid_list (wfs w) a) = card (bids (wfs w) a)"
proof -
  note bs = bid_children(2,3) [OF assms(1,2,3)]
  have s: "sort (bid_list (wfs w) a) = sorted_list_of_set (bids (wfs w) a)"
    using bs sorted_list_of_set_sort_remdups [of "bid_list (wfs w) a"] by (simp add: distinct_remdups_id)
  have n: "length (bid_list (wfs w) a) = card (bids (wfs w) a)"
    using bs distinct_card by metis
  show "bindP (record_loop (map (\<lambda>v. join (bidP a (to_string v))) (bid_list (wfs w) a)) None []) k w =
      k (map (bid_of (wfs w) a) (bid_list (wfs w) a)) w"
    using record_loop_run [OF assms, of "bid_list (wfs w) a" None "[]"] bs by (intro bindP_run(1)) simp
  show "sort_bids (map (bid_of (wfs w) a) (bid_list (wfs w) a)) =
      Inr (map (bid_of (wfs w) a) (sorted_list_of_set (bids (wfs w) a)))"
    using GetBid_bid(2) [OF assms] bs by (subst sort_bids_run) (auto simp: s)
  show "length (bid_list (wfs w) a) = card (bids (wfs w) a)" by (rule n)
qed

lemma ShowRecord_kept:
  assumes "store_inv (wfs w)" and "sem_ok w" and "look (wfs w) (auctionP a) \<noteq> None"
    and "ended (wfs w) a \<or> \<not> time_over (wfs w) a (wclock w (wcalls w))"
  shows "ShowRecord a w = (Ret (record_of (wfs w) a), w\<lparr>wcalls := Suc (wcalls w)\<rparr>)"
proof -
  let ?f = "wfs w" and ?w = "w\<lparr>wsem := wsem w - Suc 0, wcalls := Suc (wcalls w)\<rparr>"
  note a = store_invD(3,4) [OF assms(1,3)]
  note c = store_invD(2) [OF assms(1)]
  have i: "auction_inv (wfs ?w) a" "closed_fs (wfs ?w)" "is_aid a" using a c by simp_all
  note eqs = ShowRecord_def prog_simps sem_okD [OF assms(2)] start_of_eq(1) [OF a(2) c a(1)]
    timeactive_of_eq [OF a(2) c a(1)] CheckEndExists_eq [OF c a(1)] bids_iterator(3) [OF a(2) c a(1)]
    bids_of_record [OF i, simplified] u32_of_int_of_nat Let_def
  show ?thesis
  proof (cases "ended ?f a")
    case True
    then have e: "ended (wfs ?w) a" by simp
    show ?thesis using True by (simp add: eqs record_of_def shown_bids_def drop_map record_end_run [OF i e, simplified])
  next
    case False
    then show ?thesis using assms(4) by (simp add: eqs record_of_def shown_bids_def drop_map time_over_def)
  qed
qed

lemma ShowRecord_closes:
  assumes "store_inv (wfs w)" and "clock_ok w" and "sem_ok w" and "look (wfs w) (auctionP a) \<noteq> None"
    and "\<not> ended (wfs w) a" and "time_over (wfs w) a (wclock w (wcalls w))"
  shows "\<exists>f'. ShowRecord a w = (Ret (record_of f' a), w\<lparr>wcalls := Suc (Suc (Suc (wcalls w))), wfs := f'\<rparr>) \<and>
     f' = closed_now a (w\<lparr>wcalls := Suc (wcalls w)\<rparr>) \<and> ended f' a"
proof -
  let ?f = "wfs w" and ?w = "w\<lparr>wsem := wsem w - Suc 0, wcalls := Suc (wcalls w)\<rparr>"
  let ?g = "closed_now a (w\<lparr>wcalls := Suc (wcalls w)\<rparr>)"
  let ?v = "w\<lparr>wsem := wsem w - Suc 0, wcalls := Suc (Suc (Suc (wcalls w))), wfs := ?g\<rparr>"
  note a = store_invD(3,4) [OF assms(1,4)]
  note c = store_invD(2) [OF assms(1)]
  have same: "closed_now a ?w = ?g" by (simp add: closed_now_def)
  have cl: "bindP (Db_Close a) k ?w = k DB_CLOSE_OK ?v" for k :: "int \<Rightarrow> (AuctionRecord, world) prog"
    using Db_Close_run [of ?w a] assms(1,2,4,5) same by (intro bindP_run(1)) (simp add: clock_ok_def)
  have step: "close_step a ?f ?g"
    using close_step_closed_now [of "w\<lparr>wcalls := Suc (wcalls w)\<rparr>" a] assms(2,5) by (simp add: clock_ok_def)
  note st = close_stepD [OF step assms(1,4)]
  have e: "ended ?g a" using a(1) by (simp add: closed_now_def ended_def fs_simps)
  have s: "start_of ?g a = start_of ?f a" using st(2) by (intro look_same_start) simp
  have "look ?g (auctionP a) \<noteq> None" using st(2) assms(4) by simp
  then have i: "auction_inv (wfs ?v) a" "closed_fs (wfs ?v)" "is_aid a"
    using store_invD(2,4) [OF st(1)] a(1) by simp_all
  have e': "ended (wfs ?v) a" using e by simp
  have "ShowRecord a w = (Ret (record_of ?g a), w\<lparr>wcalls := Suc (Suc (Suc (wcalls w))), wfs := ?g\<rparr>)"
    using assms(5,6) e s bids_iterator(3) [OF i]
    by (simp add: record_end_run [OF i e', simplified] bids_of_record [OF i, simplified] ShowRecord_def prog_simps sem_okD [OF assms(3)] start_of_eq(1) [OF a(2) c a(1)]
        timeactive_of_eq [OF a(2) c a(1)] CheckEndExists_eq [OF c a(1)] u32_of_int_of_nat Let_def
        bindP_assoc cl time_over_def record_of_def shown_bids_def drop_map)
  with e show ?thesis by blast
qed

lemma ShowRecord_unknown:
  assumes "store_inv (wfs w)" and "sem_ok w" and "is_aid a" and "look (wfs w) (auctionP a) = None"
  shows "ShowRecord a w = (Throw AuctionNotFound, w)"
proof -
  have "look (wfs w) (startP a) = None"
    using look_no_dir [OF store_invD(2) [OF assms(1)] _ assms(4)] assms(3) by (simp add: startP_def)
  then show ?thesis
    by (simp add: ShowRecord_def prog_simps sem_okD [OF assms(2)] GetStart_eq [OF store_invD(2) [OF assms(1)] assms(3)]
        text_at_def)
qed

text \<open>At most fifty bids are shown, in rising order, and no bid left out is greater than one shown.\<close>

lemma shown_bids_props:
  assumes "auction_inv f a" and "closed_fs f" and "is_aid a"
  shows "length (shown_bids f a) = min 50 (card (bids f a))"
    and "sorted_wrt (\<lambda>x y. CompareByValue x y = Inr True) (shown_bids f a)"
    and "v \<in> bids f a \<Longrightarrow> bid_of f a v \<notin> set (shown_bids f a) \<Longrightarrow> u \<in> bids f a \<Longrightarrow>
      bid_of f a u \<in> set (shown_bids f a) \<Longrightarrow> v < u"
proof -
  note bs = bid_children(2,3) [OF assms]
  have fin: "finite (bids f a)" unfolding bs(1) [symmetric] by simp
  let ?l = "sorted_list_of_set (bids f a)"
  let ?k = "card (bids f a) - 50"
  have val: "bi_value (bid_of f a x) = to_string x" if "x \<in> bids f a" for x
    using GetBid_bid(2) [OF assms that] .
  show "length (shown_bids f a) = min 50 (card (bids f a))"
    using fin by (simp add: shown_bids_def)
  have "sorted_wrt (<) ?l" using fin by simp
  then have "sorted_wrt (<) (drop ?k ?l)" by (rule sorted_wrt_drop)
  then show "sorted_wrt (\<lambda>x y. CompareByValue x y = Inr True) (shown_bids f a)"
    unfolding shown_bids_def sorted_wrt_map
  proof (elim sorted_wrt_mono_rel [rotated])
    fix x y assume "x \<in> set (drop ?k ?l)" "y \<in> set (drop ?k ?l)" "x < y"
    then have "bi_value (bid_of f a x) = to_string x" "bi_value (bid_of f a y) = to_string y"
      using fin set_drop_subset [of ?k ?l] val by auto
    then have "CompareByValue (bid_of f a x) (bid_of f a y) = Inr (x < y)" by (rule CompareByValue_eq)
    then show "CompareByValue (bid_of f a x) (bid_of f a y) = Inr True" using \<open>x < y\<close> by simp
  qed
  assume v: "v \<in> bids f a" "bid_of f a v \<notin> set (shown_bids f a)" and u: "u \<in> bids f a"
    "bid_of f a u \<in> set (shown_bids f a)"
  have split: "?l = take ?k ?l @ drop ?k ?l" by simp
  obtain u' where u': "u' \<in> set (drop ?k ?l)" "bid_of f a u = bid_of f a u'"
    using u(2) by (auto simp: shown_bids_def)
  have "u' \<in> bids f a" using u'(1) fin set_drop_subset [of ?k ?l] by auto
  then have "to_string u = to_string u'" using u'(2) val u(1) by metis
  then have "u \<in> set (drop ?k ?l)" using u'(1) by (simp add: to_string_inj)
  moreover have "v \<in> set (take ?k ?l)"
  proof -
    have "v \<notin> set (drop ?k ?l)" using v(2) by (auto simp: shown_bids_def)
    moreover have "v \<in> set ?l" using v(1) fin by simp
    ultimately show ?thesis using split by (metis Un_iff set_append)
  qed
  moreover have "sorted_wrt (<) (take ?k ?l @ drop ?k ?l)" using fin by simp
  ultimately show "v < u" unfolding sorted_wrt_append by blast
qed

section \<open>The asset of an auction\<close>

lemma ShowAsset_run:
  assumes "closed_fs (wfs w)" and "sem_ok w" and "is_aid a" and "dir_at (wfs w) (assetsP a)"
  shows "children (wfs w) (assetsP a) = [] \<Longrightarrow> ShowAsset a w = (Throw AssetDoesNotExist, w)"
    and "children (wfs w) (assetsP a) = c # cs \<Longrightarrow> clean_name c \<Longrightarrow> look (wfs w) (assetP a c) = Some (File d) \<Longrightarrow>
      ShowAsset a w = (Ret \<lparr>as_asset_fname = c, as_fsize = word_of_nat (length d), as_fdata = d\<rparr>, w)"
proof -
  let ?f = "wfs w"
  have cl: "clean (assetsP a)" using assms(3) by simp
  have v: "verify_auction_id a \<noteq> -1" using assms(3) by simp
  have e: "fs_is_empty ?f (asset_dir a) = Inr (children ?f (assetsP a) = [])"
    using assms(1,4) cl by (simp add: path_join fs_is_empty_join)
  have it: "directory_iterator ?f (asset_dir a) = Inr (map (\<lambda>c. join (assetsP a @ [c])) (children ?f (assetsP a)))"
    using assms(1,4) cl by (simp add: path_join directory_iterator_join entry_path_join entry_path_join_slash)
  show "children ?f (assetsP a) = [] \<Longrightarrow> ShowAsset a w = (Throw AssetDoesNotExist, w)"
    using v e by (simp add: ShowAsset_def GetAssetDir_def prog_simps sem_okD [OF assms(2)])
  assume c: "children ?f (assetsP a) = c # cs" "clean_name c" "look ?f (assetP a c) = Some (File d)"
  have j: "join (assetsP a @ [c]) = join (assetsP a) @ ''/'' @ c" using cl by (simp add: join_snoc clean_def)
  have "length (join (assetsP a)) = 24" using assms(3) by (simp add: assetsP_def auctionP_def auctionsP_def is_aid_def)
  then have "drop 25 (join (assetsP a @ [c])) = c" and "join (assetsP a @ [c]) \<noteq> ''''" by (simp_all add: j)
  moreover have "GetAssetData (join (assetsP a @ [c])) ?f = d"
    using assms(1) cl c(2,3) fopen_r_join [of "wfs w" "assetsP a @ [c]"]
    by (simp add: GetAssetData_def text_at_def assetP_def clean_def)
  ultimately show "ShowAsset a w = (Ret \<lparr>as_asset_fname = c, as_fsize = word_of_nat (length d), as_fdata = d\<rparr>, w)"
    using v e it c(1) by (simp add: ShowAsset_def GetAssetDir_def prog_simps sem_okD [OF assms(2)])
qed

lemma with_auction_assets:
  assumes "store_inv f" and "is_aid a" and "look f (auctionP a) = None" and "good_opening x"
    and "look f (userP (op_user x)) \<noteq> None"
  shows "children (with_auction a x date t f) (assetsP a) = [op_asset x]"
proof -
  have x: "is_uid (op_user x)" "clean_name (op_asset x)" using assms(4) by (simp_all add: good_opening_def)
  note st = with_auction_steps [OF assms]
  have ca: "clean (auctionP a)" "clean (assetsP a)" using assms(2) by simp_all
  have "look f (assetsP a) = None"
    using look_no_dir [OF store_invD(2) [OF assms(1)] ca(1) assms(3)] by (simp add: assetsP_def)
  then have "look f (assetsP a @ [c]) = None" for c
    using look_no_dir [OF store_invD(2) [OF assms(1)] ca(2)] by simp
  then have "children f (assetsP a) = []"
    using in_children [OF store_invD(2) [OF assms(1)], of "assetsP a"] ca(2) by (cases "children f (assetsP a)") auto
  then show ?thesis
    using assms(2,3) x st(3,4)
    by (simp add: with_auction_def with_start_def with_auction_dir_def children_update fs_simps)
      (simp add: auction_paths user_paths)
qed

text \<open>What a user opened is what ShowAsset returns.\<close>

lemma ShowAsset_opened:
  assumes "store_inv f" and "is_aid a" and "look f (auctionP a) = None" and "good_opening x"
    and "look f (userP (op_user x)) \<noteq> None" and "date_words date" and "t < 2 ^ 32"
    and "sem_ok w" and "wfs w = with_auction a x date t f"
  shows "ShowAsset a w = (Ret \<lparr>as_asset_fname = op_asset x,
     as_fsize = word_of_nat (length (op_data x)), as_fdata = op_data x\<rparr>, w)"
proof -
  have inv: "store_inv (wfs w)" using store_inv_with_auction [OF assms(1-7)] assms(9) by simp
  have ch: "children (wfs w) (assetsP a) = op_asset x # []" using with_auction_assets [OF assms(1-5)] assms(9) by simp
  have "clean_name (op_asset x)" using assms(4) by (simp add: good_opening_def)
  moreover have "look (wfs w) (assetP a (op_asset x)) = Some (File (op_data x))"
    using look_with_auction [OF assms(2,4)] assms(9) by simp
  moreover have "dir_at (wfs w) (assetsP a)"
    using look_with_auction [OF assms(2,4), of date t f "assetsP a"] assms(9) by (simp add: dir_at_def)
  ultimately show ?thesis
    using ShowAsset_run(2) [OF store_invD(2) [OF inv] assms(8,2) _ ch] by simp
qed

end
