(* ===== verification/Adapter.thy ===== *)
theory Adapter
  imports Verifications
begin

text \<open>
  shared/protocol.hpp, class MessageAdapter and its two subclasses: StreamMessage, over the
  stringstream that holds a UDP datagram, and TcpMessage, over the socket of a connection. The
  virtual class is the record of its methods; each subclass is a state and an instance of the
  record. The locale \<open>message_adapter\<close> states what the reading functions rely on.
\<close>

section \<open>The interface\<close>

record 'b MessageAdapter =
  ma_get :: "'b \<Rightarrow> (char, 'b) read_result"
  ma_good :: "'b \<Rightarrow> bool"
  ma_unget :: "'b \<Rightarrow> 'b"
  ma_getn :: "nat \<Rightarrow> 'b \<Rightarrow> (string, 'b) read_result"

section \<open>StreamMessage\<close>

text \<open>
  A std::stringstream that is only read: the characters already extracted (the last one first),
  those still to come, and the three state flags.
\<close>

record stream =
  st_read :: string
  st_left :: string
  st_eof :: bool
  st_fail :: bool
  st_bad :: bool

definition EOF_char :: char where
  "EOF_char = CHR 0xFF"

definition stream_good :: "stream \<Rightarrow> bool" where
  "stream_good s \<longleftrightarrow> \<not> st_eof s \<and> \<not> st_fail s \<and> \<not> st_bad s"

definition stream_get :: "stream \<Rightarrow> (char, stream) read_result" where
  "stream_get s =
     (if \<not> stream_good s then Inr (EOF_char, s\<lparr>st_fail := True\<rparr>)
      else case st_left s of
        [] \<Rightarrow> Inr (EOF_char, s\<lparr>st_eof := True, st_fail := True\<rparr>)
      | c # cs \<Rightarrow> Inr (c, s\<lparr>st_read := c # st_read s, st_left := cs\<rparr>))"

text \<open>istream::unget clears the end-of-file flag before it looks at the others.\<close>

definition stream_unget :: "stream \<Rightarrow> stream" where
  "stream_unget s0 =
     (let s = s0\<lparr>st_eof := False\<rparr>
      in if \<not> stream_good s then s\<lparr>st_fail := True\<rparr>
         else case st_read s of
           [] \<Rightarrow> s\<lparr>st_bad := True\<rparr>
         | c # cs \<Rightarrow> s\<lparr>st_read := cs, st_left := c # st_left s\<rparr>)"

text \<open>
  getn reads into a string of \<open>n\<close> NUL characters; where the stream is shorter, the NULs stay and
  the stream fails.
\<close>

definition stream_getn :: "nat \<Rightarrow> stream \<Rightarrow> (string, stream) read_result" where
  "stream_getn n s =
     (if \<not> stream_good s then Inr (replicate n NUL, s\<lparr>st_fail := True\<rparr>)
      else let got = take n (st_left s);
               s' = s\<lparr>st_read := rev got @ st_read s, st_left := drop n (st_left s)\<rparr>
           in if length got < n
              then Inr (got @ replicate (n - length got) NUL, s'\<lparr>st_eof := True, st_fail := True\<rparr>)
              else Inr (got, s'))"

definition StreamMessage :: "stream MessageAdapter" where
  "StreamMessage = \<lparr>ma_get = stream_get, ma_good = stream_good, ma_unget = stream_unget, ma_getn = stream_getn\<rparr>"

text \<open>A stream in good state.\<close>

definition stream_at :: "string \<Rightarrow> string \<Rightarrow> stream" where
  "stream_at p s = \<lparr>st_read = p, st_left = s, st_eof = False, st_fail = False, st_bad = False\<rparr>"

text \<open>\<open>stringstream data; data.write(buffer, n); StreamMessage m(data);\<close>\<close>

definition stream_of :: "string \<Rightarrow> stream" where
  "stream_of datagram = stream_at [] datagram"

section \<open>TcpMessage\<close>

text \<open>
  The connection's bytes are the list of chunks that read will find, in order: an empty chunk, or
  none left, is a read that returns 0 or -1 (the peer closed, or the timeout of the socket). The
  vector \<open>_buffer\<close> is the list of its elements from the back, so push_back is Cons.
\<close>

record tcp =
  tcp_buffer :: string
  tcp_last :: char
  tcp_has_read :: bool
  tcp_input :: "string list"

definition TcpMessage_new :: "char \<Rightarrow> string list \<Rightarrow> tcp" where
  "TcpMessage_new uninit input =
     \<lparr>tcp_buffer = [], tcp_last = uninit, tcp_has_read = False, tcp_input = input\<rparr>"

text \<open>read(fd, buf, n): the bytes it stores, and what is left for the next one.\<close>

definition sys_read :: "nat \<Rightarrow> string list \<Rightarrow> string \<times> string list" where
  "sys_read n input =
     (case input of
        [] \<Rightarrow> ([], [])
      | c # cs \<Rightarrow> (take n c, if drop n c = [] then cs else drop n c # cs))"

definition push_back :: "string \<Rightarrow> char \<Rightarrow> string" where
  "push_back buffer c = c # buffer"

text \<open>The loop over \<open>buf\<close> from its last index down to 0.\<close>

definition push_back_reversed :: "string \<Rightarrow> string \<Rightarrow> string" where
  "push_back_reversed buffer buf = foldl push_back buffer (rev buf)"

definition tcp_fillBuffer :: "tcp \<Rightarrow> exn + tcp" where
  "tcp_fillBuffer m =
     (let (buf, input) = sys_read SOCKET_BUFFER_LEN (tcp_input m);
          n = length buf;
          m = m\<lparr>tcp_input := input\<rparr>;
          m = (if n > 0 \<and> \<not> tcp_has_read m then m\<lparr>tcp_has_read := True\<rparr> else m)
      in if n \<le> 0 \<and> tcp_has_read m then Inl InvalidMessageException
         else if n \<le> 0 \<and> \<not> tcp_has_read m then Inl MessageReceiveException
         else Inr (m\<lparr>tcp_buffer := push_back_reversed (tcp_buffer m) buf\<rparr>))"

definition tcp_get :: "tcp \<Rightarrow> (char, tcp) read_result" where
  "tcp_get m =
     bindE (if length (tcp_buffer m) = 0 then tcp_fillBuffer m else Inr m) (\<lambda>m.
       let c = hd (tcp_buffer m)
       in Inr (c, m\<lparr>tcp_last := c, tcp_buffer := tl (tcp_buffer m)\<rparr>))"

definition tcp_good :: "tcp \<Rightarrow> bool" where
  "tcp_good m = True"

definition tcp_unget :: "tcp \<Rightarrow> tcp" where
  "tcp_unget m = m\<lparr>tcp_buffer := push_back (tcp_buffer m) (tcp_last m)\<rparr>"

fun tcp_getn :: "nat \<Rightarrow> tcp \<Rightarrow> (string, tcp) read_result" where
  "tcp_getn 0 m = Inr ([], m)"
| "tcp_getn (Suc n) m =
     bindR (tcp_get m) (\<lambda>c m. bindR (tcp_getn n m) (\<lambda>str m. Inr (c # str, m)))"

definition TcpMessage :: "tcp MessageAdapter" where
  "TcpMessage = \<lparr>ma_get = tcp_get, ma_good = tcp_good, ma_unget = tcp_unget, ma_getn = tcp_getn\<rparr>"

section \<open>What the reading functions rely on\<close>

text \<open>
  \<open>rest b\<close> is the text an adapter in state \<open>b\<close> still delivers. Where there is a character, get
  returns it, leaves the adapter good, and an unget right after it gives it back; where there is
  none, get throws InvalidMessageException or leaves the adapter not good, for which the reading
  functions throw the same exception.
\<close>

locale message_adapter =
  fixes A :: "'b MessageAdapter"
    and valid :: "'b \<Rightarrow> bool"
    and rest :: "'b \<Rightarrow> string"
  assumes get_some: "valid b \<Longrightarrow> rest b = c # cs \<Longrightarrow>
      \<exists>b'. ma_get A b = Inr (c, b') \<and> ma_good A b' \<and> valid b' \<and> rest b' = cs \<and>
           valid (ma_unget A b') \<and> rest (ma_unget A b') = c # cs"
    and get_none: "valid b \<Longrightarrow> rest b = [] \<Longrightarrow>
      ma_get A b = Inl InvalidMessageException \<or> (\<exists>c b'. ma_get A b = Inr (c, b') \<and> \<not> ma_good A b')"

section \<open>Both adapters keep the contract\<close>

lemma StreamMessage_sel [simp]:
  "ma_get StreamMessage = stream_get" "ma_good StreamMessage = stream_good"
  "ma_unget StreamMessage = stream_unget" "ma_getn StreamMessage = stream_getn"
  by (simp_all add: StreamMessage_def)

lemma TcpMessage_sel [simp]:
  "ma_get TcpMessage = tcp_get" "ma_good TcpMessage = tcp_good"
  "ma_unget TcpMessage = tcp_unget" "ma_getn TcpMessage = tcp_getn"
  by (simp_all add: TcpMessage_def)

lemma stream_good_at [simp]: "stream_good (stream_at p s)"
  by (simp add: stream_good_def stream_at_def)

lemma st_left_at [simp]: "st_left (stream_at p s) = s"
  by (simp add: stream_at_def)

lemma stream_at_inject [simp]: "stream_at p s = stream_at p' s' \<longleftrightarrow> p = p' \<and> s = s'"
  by (simp add: stream_at_def)

lemma stream_get_at [simp]:
  "stream_get (stream_at p (c # s)) = Inr (c, stream_at (c # p) s)"
  by (simp add: stream_get_def stream_good_def stream_at_def)

lemma stream_get_end:
  "\<exists>b. stream_get (stream_at p []) = Inr (EOF_char, b) \<and> \<not> stream_good b"
  by (simp add: stream_get_def stream_good_def stream_at_def)

lemma stream_unget_at [simp]: "stream_unget (stream_at (c # p) s) = stream_at p (c # s)"
  by (simp add: stream_unget_def stream_good_def stream_at_def)

lemma stream_good_eq: "stream_good b \<Longrightarrow> b = stream_at (st_read b) (st_left b)"
  by (cases b) (simp add: stream_good_def stream_at_def)

interpretation stream_adapter: message_adapter StreamMessage stream_good st_left
proof unfold_locales
  fix b :: stream and c cs
  assume b: "stream_good b" and l: "st_left b = c # cs"
  have "b = stream_at (st_read b) (c # cs)" using stream_good_eq [OF b] l by simp
  then obtain p where "b = stream_at p (c # cs)" by blast
  then show "\<exists>b'. ma_get StreamMessage b = Inr (c, b') \<and> ma_good StreamMessage b' \<and> stream_good b' \<and>
      st_left b' = cs \<and> stream_good (ma_unget StreamMessage b') \<and> st_left (ma_unget StreamMessage b') = c # cs"
    by simp
next
  fix b :: stream
  assume b: "stream_good b" and l: "st_left b = []"
  have "b = stream_at (st_read b) []" using stream_good_eq [OF b] l by simp
  then show "ma_get StreamMessage b = Inl InvalidMessageException \<or>
      (\<exists>c b'. ma_get StreamMessage b = Inr (c, b') \<and> \<not> ma_good StreamMessage b')"
    using stream_get_end [of "st_read b"] by auto
qed

text \<open>
  What a connection still delivers: its buffer, then the chunks up to the first read that fails.
  It is valid once it has delivered a byte, or while it can.
\<close>

definition tcp_rest :: "tcp \<Rightarrow> string" where
  "tcp_rest m = tcp_buffer m @ concat (takeWhile (\<lambda>c. c \<noteq> []) (tcp_input m))"

definition tcp_valid :: "tcp \<Rightarrow> bool" where
  "tcp_valid m \<longleftrightarrow> tcp_has_read m \<or> (tcp_buffer m = [] \<and> tcp_rest m \<noteq> [])"

lemma push_back_reversed_eq [simp]: "push_back_reversed buffer buf = buf @ buffer"
  unfolding push_back_reversed_def by (induction buf) (simp_all add: push_back_def)

lemma sys_read_rest:
  assumes "sys_read SOCKET_BUFFER_LEN input = (buf, input')"
  shows "buf @ (if buf = [] then [] else concat (takeWhile (\<lambda>c. c \<noteq> []) input'))
       = concat (takeWhile (\<lambda>c. c \<noteq> []) input)"
proof (cases input)
  case Nil
  with assms show ?thesis by (simp add: sys_read_def)
next
  case (Cons c cs)
  have pos: "0 < SOCKET_BUFFER_LEN" by (simp add: SOCKET_BUFFER_LEN_def)
  show ?thesis
  proof (cases "c = []")
    case True
    with Cons assms show ?thesis by (auto simp: sys_read_def)
  next
    case False
    with Cons assms pos show ?thesis
      using append_take_drop_id [of SOCKET_BUFFER_LEN c]
      by (auto simp: sys_read_def split: if_splits)
  qed
qed

lemma tcp_fillBuffer_some:
  assumes "tcp_buffer m = []" and "tcp_rest m \<noteq> []"
  shows "\<exists>m'. tcp_fillBuffer m = Inr m' \<and> tcp_buffer m' \<noteq> [] \<and> tcp_has_read m' \<and> tcp_rest m' = tcp_rest m"
proof -
  obtain buf input' where r: "sys_read SOCKET_BUFFER_LEN (tcp_input m) = (buf, input')" by fastforce
  have eq: "buf @ (if buf = [] then [] else concat (takeWhile (\<lambda>c. c \<noteq> []) input')) = tcp_rest m"
    using sys_read_rest [OF r] assms(1) by (simp add: tcp_rest_def)
  with assms(2) have "buf \<noteq> []" by (auto split: if_splits)
  with eq assms(1) r show ?thesis by (auto simp: tcp_fillBuffer_def tcp_rest_def Let_def)
qed

lemma tcp_fillBuffer_none:
  assumes "tcp_buffer m = []" and "tcp_rest m = []"
  shows "tcp_fillBuffer m = Inl (if tcp_has_read m then InvalidMessageException else MessageReceiveException)"
proof -
  obtain buf input' where r: "sys_read SOCKET_BUFFER_LEN (tcp_input m) = (buf, input')" by fastforce
  have "concat (takeWhile (\<lambda>c. c \<noteq> []) (tcp_input m)) = []"
    using assms unfolding tcp_rest_def by blast
  then have "buf = []" using sys_read_rest [OF r] by (simp del: concat_eq_Nil_conv)
  with r show ?thesis by (simp add: tcp_fillBuffer_def Let_def)
qed

lemma tcp_get_some:
  assumes "tcp_rest m = c # cs"
  shows "\<exists>m'. tcp_get m = Inr (c, m') \<and> tcp_rest m' = cs \<and> tcp_rest (tcp_unget m') = c # cs \<and>
     (tcp_has_read m \<or> tcp_buffer m = [] \<longrightarrow> tcp_has_read m' \<and> tcp_has_read (tcp_unget m'))"
proof (cases "tcp_buffer m")
  case Nil
  then obtain m' where f: "tcp_fillBuffer m = Inr m'" "tcp_buffer m' \<noteq> []" "tcp_has_read m'"
    and rest: "tcp_rest m' = c # cs"
    using tcp_fillBuffer_some [of m] assms by auto
  then obtain bs where b: "tcp_buffer m' = c # bs"
    by (cases "tcp_buffer m'") (auto simp: tcp_rest_def)
  with f rest Nil show ?thesis
    by (auto simp: tcp_get_def tcp_unget_def push_back_def tcp_rest_def)
next
  case (Cons d ds)
  with assms show ?thesis
    by (auto simp: tcp_get_def tcp_unget_def push_back_def tcp_rest_def)
qed

interpretation tcp_adapter: message_adapter TcpMessage tcp_valid tcp_rest
proof unfold_locales
  fix m :: tcp and c cs
  assume "tcp_valid m" and "tcp_rest m = c # cs"
  then show "\<exists>m'. ma_get TcpMessage m = Inr (c, m') \<and> ma_good TcpMessage m' \<and> tcp_valid m' \<and>
      tcp_rest m' = cs \<and> tcp_valid (ma_unget TcpMessage m') \<and> tcp_rest (ma_unget TcpMessage m') = c # cs"
    using tcp_get_some [of m c cs] by (auto simp: tcp_valid_def tcp_good_def)
next
  fix m :: tcp
  assume v: "tcp_valid m" and r: "tcp_rest m = []"
  then have "tcp_buffer m = []" and "tcp_has_read m" by (auto simp: tcp_rest_def tcp_valid_def)
  with r show "ma_get TcpMessage m = Inl InvalidMessageException \<or>
      (\<exists>c m'. ma_get TcpMessage m = Inr (c, m') \<and> \<not> ma_good TcpMessage m')"
    by (simp add: tcp_get_def tcp_fillBuffer_none)
qed

text \<open>getn, with which the server reads the request's code.\<close>

lemma stream_getn_at: "n \<le> length s \<Longrightarrow> stream_getn n (stream_at p s) = Inr (take n s, stream_at (rev (take n s) @ p) (drop n s))"
  by (simp add: stream_getn_def stream_good_def stream_at_def Let_def)

lemma tcp_getn_some:
  assumes "n \<le> length (tcp_rest m)" and "tcp_valid m"
  shows "\<exists>m'. tcp_getn n m = Inr (take n (tcp_rest m), m') \<and> tcp_rest m' = drop n (tcp_rest m) \<and>
     tcp_valid m'"
  using assms
proof (induction n arbitrary: m)
  case 0
  then show ?case by simp
next
  case (Suc n)
  then obtain c cs where r: "tcp_rest m = c # cs" by (cases "tcp_rest m") auto
  then obtain m' where g: "tcp_get m = Inr (c, m')" "tcp_rest m' = cs" "tcp_valid m'"
    using tcp_adapter.get_some [OF Suc.prems(2) r] by auto
  then obtain m'' where "tcp_getn n m' = Inr (take n cs, m'')" "tcp_rest m'' = drop n cs" "tcp_valid m''"
    using Suc.IH [of m'] Suc.prems(1) r by auto
  with g r show ?case by simp
qed

end
