(* ===== verification/Protocol_Read.thy ===== *)
theory Protocol_Read
  imports Adapter Utils
begin

text \<open>
  shared/protocol.cpp, the reading functions of class ProtocolMessage. They are generic in the
  adapter, as the C++ methods are. The locale lemmas show that over any adapter that keeps its
  contract each of them returns what it returns over a stream with the same text; the lemmas
  after them say what that is.
\<close>

section \<open>The reading functions\<close>

definition readChar :: "'b MessageAdapter \<Rightarrow> 'b \<Rightarrow> (char, 'b) read_result" where
  "readChar A b =
     bindR (ma_get A b) (\<lambda>c b.
       if \<not> ma_good A b then Inl InvalidMessageException else Inr (c, b))"

text \<open>The overload \<open>readChar(buffer, c)\<close>.\<close>

definition readChar_c :: "'b MessageAdapter \<Rightarrow> char \<Rightarrow> 'b \<Rightarrow> (unit, 'b) read_result" where
  "readChar_c A c b =
     bindR (readChar A b) (\<lambda>read b.
       if read \<noteq> c then Inl InvalidMessageException else Inr ((), b))"

definition readCharEqual :: "'b MessageAdapter \<Rightarrow> char \<Rightarrow> 'b \<Rightarrow> (bool, 'b) read_result" where
  "readCharEqual A c b =
     bindR (readChar A b) (\<lambda>read b.
       if read \<noteq> c then Inr (False, ma_unget A b) else Inr (True, b))"

text \<open>
  The loop over the code's characters. The test for the code ERR comes after the throw in the
  source and never runs.
\<close>

fun readMessageId :: "'b MessageAdapter \<Rightarrow> string \<Rightarrow> 'b \<Rightarrow> (unit, 'b) read_result" where
  "readMessageId A [] b = Inr ((), b)"
| "readMessageId A (p # protocol_code) b =
     bindR (readChar A b) (\<lambda>current_char b.
       if \<not> ma_good A b \<or> current_char \<noteq> p then Inl UnexpectedMessageException
       else readMessageId A protocol_code b)"

definition readSpace :: "'b MessageAdapter \<Rightarrow> 'b \<Rightarrow> (unit, 'b) read_result" where
  "readSpace A b = readChar_c A (CHR '' '') b"

definition readDelimiter :: "'b MessageAdapter \<Rightarrow> 'b \<Rightarrow> (unit, 'b) read_result" where
  "readDelimiter A b = readChar_c A (CHR 0x0A) b"

fun readString :: "'b MessageAdapter \<Rightarrow> nat \<Rightarrow> 'b \<Rightarrow> (string, 'b) read_result" where
  "readString A 0 b = Inr ([], b)"
| "readString A (Suc n) b =
     bindR (ma_get A b) (\<lambda>c b.
       if \<not> ma_good A b then Inl InvalidMessageException
       else if c = CHR '' '' \<or> c = CHR 0x0A then Inr ([], ma_unget A b)
       else bindR (readString A n b) (\<lambda>str b. Inr (c # str, b)))"

definition readUserId :: "'b MessageAdapter \<Rightarrow> 'b \<Rightarrow> (uint32, 'b) read_result" where
  "readUserId A b =
     bindR (readString A USER_ID_SIZE b) (\<lambda>id_str b. liftR (convert_user_id id_str) b)"

definition readAuctionId :: "'b MessageAdapter \<Rightarrow> 'b \<Rightarrow> (uint32, 'b) read_result" where
  "readAuctionId A b =
     bindR (readString A AUCTION_ID_SIZE b) (\<lambda>id_str b. liftR (convert_auction_id id_str) b)"

definition readAuctionValue :: "'b MessageAdapter \<Rightarrow> 'b \<Rightarrow> (uint32, 'b) read_result" where
  "readAuctionValue A b =
     bindR (readString A MAX_AUCTION_VALUE_SIZE b)
       (\<lambda>value_str b. liftR (convert_auction_value value_str) b)"

definition readPassword :: "'b MessageAdapter \<Rightarrow> 'b \<Rightarrow> (string, 'b) read_result" where
  "readPassword A b =
     bindR (readString A PASSWORD_SIZE b)
       (\<lambda>password_str b. liftR (convert_password password_str) b)"

definition checkIfOver :: "'b MessageAdapter \<Rightarrow> 'b \<Rightarrow> (bool, 'b) read_result" where
  "checkIfOver A b =
     bindR (readChar A b) (\<lambda>read b.
       if read = CHR 0x0A then Inr (True, ma_unget A b) else Inr (False, ma_unget A b))"

definition readAuctionAndState :: "'b MessageAdapter \<Rightarrow> 'b \<Rightarrow> (string, 'b) read_result" where
  "readAuctionAndState A b =
     bindR (checkIfOver A b) (\<lambda>over b.
     if over then Inr ([], b)
     else
       bindR (readSpace A b) (\<lambda>_ b.
       bindR (readString A AUCTION_ID_SIZE b) (\<lambda>auction_str b.
       bindR (readSpace A b) (\<lambda>_ b.
       bindR (readString A 1 b) (\<lambda>state_str b.
         let state_str =
           (if state_str = ''1'' then ''ACTIVE''
            else if state_str = ''0'' then ''OVER''
            else state_str)
         in Inr (''AID: '' @ auction_str @ '' --- STATUS: '' @ state_str, b))))))"

definition readDate :: "'b MessageAdapter \<Rightarrow> 'b \<Rightarrow> (Datetime, 'b) read_result" where
  "readDate A b =
     bindR (readString A 4 b) (\<lambda>y b.
     bindR (readChar_c A (CHR ''-'') b) (\<lambda>_ b.
     bindR (readString A 2 b) (\<lambda>mo b.
     bindR (readChar_c A (CHR ''-'') b) (\<lambda>_ b.
     bindR (readString A 2 b) (\<lambda>d b.
     bindR (readChar_c A (CHR '' '') b) (\<lambda>_ b.
     bindR (readString A 2 b) (\<lambda>h b.
     bindR (readChar_c A (CHR '':'') b) (\<lambda>_ b.
     bindR (readString A 2 b) (\<lambda>mi b.
     bindR (readChar_c A (CHR '':'') b) (\<lambda>_ b.
     bindR (readString A 2 b) (\<lambda>s b.
     Inr (\<lparr>year = y, month = mo, day = d, hours = h, minutes = mi, seconds = s\<rparr>, b))))))))))))"

text \<open>The loop of readFile.\<close>

fun readFile_loop :: "'b MessageAdapter \<Rightarrow> nat \<Rightarrow> 'b \<Rightarrow> (string, 'b) read_result" where
  "readFile_loop A 0 b = Inr ([], b)"
| "readFile_loop A (Suc n) b =
     bindR (ma_get A b) (\<lambda>c b.
       if \<not> ma_good A b then Inl InvalidMessageException
       else bindR (readFile_loop A n b) (\<lambda>str b. Inr (c # str, b)))"

definition readFile :: "'b MessageAdapter \<Rightarrow> uint32 \<Rightarrow> 'b \<Rightarrow> (string, 'b) read_result" where
  "readFile A max_len b =
     (if unat max_len > MAX_FILE_SIZE then Inl FileException
      else readFile_loop A (unat max_len) b)"

text \<open>\<open>static_cast<uint32_t>(stol(readString(buffer, n)))\<close>, as several messages read a number.\<close>

definition readNumber :: "'b MessageAdapter \<Rightarrow> nat \<Rightarrow> 'b \<Rightarrow> (uint32, 'b) read_result" where
  "readNumber A n b =
     bindR (readString A n b) (\<lambda>str b. liftR (bindE (stol str) (\<lambda>v. Inr (u32_of_int v))) b)"

section \<open>Independence of the adapter\<close>

text \<open>
  \<open>agrees valid rest r s\<close>: the result \<open>r\<close> over an adapter is the result \<open>s\<close> over a stream, up to
  the characters the stream remembers, and the adapter is left valid with the stream's text.
\<close>

definition agrees ::
    "('b \<Rightarrow> bool) \<Rightarrow> ('b \<Rightarrow> string) \<Rightarrow> ('a, 'b) read_result \<Rightarrow> ('a, stream) read_result \<Rightarrow> bool" where
  "agrees valid rest r s =
     (case r of
        Inl e \<Rightarrow> s = Inl e
      | Inr (x, b) \<Rightarrow> valid b \<and> (\<exists>p. s = Inr (x, stream_at p (rest b))))"

lemma agrees_Inl [intro!]: "agrees valid rest (Inl e) (Inl e)"
  by (simp add: agrees_def)

lemma agrees_Inr [intro!]: "valid b \<Longrightarrow> agrees valid rest (Inr (x, b)) (Inr (x, stream_at p (rest b)))"
  by (auto simp: agrees_def)

lemma agrees_liftR: "valid b \<Longrightarrow> agrees valid rest (liftR m b) (liftR m (stream_at p (rest b)))"
  by (cases m) auto

lemma agrees_if:
  "(c \<Longrightarrow> agrees valid rest r s) \<Longrightarrow> (\<not> c \<Longrightarrow> agrees valid rest r' s') \<Longrightarrow>
   agrees valid rest (if c then r else r') (if c then s else s')"
  by simp

lemma agrees_bindR:
  assumes "agrees valid rest m s"
    and "\<And>x b p. valid b \<Longrightarrow> agrees valid rest (f x b) (g x (stream_at p (rest b)))"
  shows "agrees valid rest (bindR m f) (bindR s g)"
  using assms by (auto simp: agrees_def [of _ _ m] split: sum.splits)

text \<open>The value or the exception of a reading function, without the adapter.\<close>

definition result :: "('a, 'b) read_result \<Rightarrow> exn + 'a" where
  "result r = (case r of Inl e \<Rightarrow> Inl e | Inr (x, _) \<Rightarrow> Inr x)"

lemma result_simps [simp]: "result (Inl e) = Inl e" "result (Inr (x, b)) = Inr x"
  by (simp_all add: result_def)

lemma agrees_result: "agrees valid rest r s \<Longrightarrow> result r = result s"
  by (auto simp: agrees_def split: sum.splits)

context message_adapter
begin

text \<open>The functions that call the adapter themselves: by cases on whether a character is left.\<close>

lemma readChar_agrees:
  assumes "valid b"
  shows "agrees valid rest (readChar A b) (readChar StreamMessage (stream_at p (rest b)))"
proof (cases "rest b")
  case Nil
  then show ?thesis
    using get_none [OF assms Nil] stream_get_end [of p] by (auto simp: readChar_def)
next
  case (Cons c cs)
  then show ?thesis using get_some [OF assms Cons] by (auto simp: readChar_def)
qed

lemma readCharEqual_agrees:
  assumes "valid b"
  shows "agrees valid rest (readCharEqual A c b) (readCharEqual StreamMessage c (stream_at p (rest b)))"
proof (cases "rest b")
  case Nil
  then show ?thesis
    using get_none [OF assms Nil] stream_get_end [of p] by (auto simp: readCharEqual_def readChar_def)
next
  case (Cons d cs)
  then show ?thesis
    using get_some [OF assms Cons] by (auto simp: readCharEqual_def readChar_def agrees_def)
qed

lemma checkIfOver_agrees:
  assumes "valid b"
  shows "agrees valid rest (checkIfOver A b) (checkIfOver StreamMessage (stream_at p (rest b)))"
proof (cases "rest b")
  case Nil
  then show ?thesis
    using get_none [OF assms Nil] stream_get_end [of p] by (auto simp: checkIfOver_def readChar_def)
next
  case (Cons d cs)
  then show ?thesis
    using get_some [OF assms Cons] by (auto simp: checkIfOver_def readChar_def agrees_def)
qed

lemma readMessageId_agrees:
  "valid b \<Longrightarrow> agrees valid rest (readMessageId A code b) (readMessageId StreamMessage code (stream_at p (rest b)))"
proof (induction code arbitrary: b p)
  case Nil
  then show ?case by auto
next
  case (Cons d code)
  show ?case
  proof (cases "rest b")
    case Nil
    then show ?thesis
      using get_none [OF Cons.prems Nil] stream_get_end [of p] by (auto simp: readChar_def)
  next
    case (Cons c cs)
    then obtain b' where b': "ma_get A b = Inr (c, b')" "ma_good A b'" "valid b'" "rest b' = cs"
      using get_some [OF \<open>valid b\<close> Cons] by blast
    then show ?thesis using Cons.IH [of b' "c # p"] Cons by (auto simp: readChar_def)
  qed
qed

lemma readString_agrees:
  "valid b \<Longrightarrow> agrees valid rest (readString A n b) (readString StreamMessage n (stream_at p (rest b)))"
proof (induction n arbitrary: b p)
  case 0
  then show ?case by auto
next
  case (Suc n)
  show ?case
  proof (cases "rest b")
    case Nil
    then show ?thesis
      using get_none [OF Suc.prems Nil] stream_get_end [of p] by auto
  next
    case (Cons c cs)
    obtain b' where b': "ma_get A b = Inr (c, b')" "ma_good A b'" "valid b'" "rest b' = cs"
      and u: "valid (ma_unget A b')" "rest (ma_unget A b') = c # cs"
      using get_some [OF Suc.prems Cons] by blast
    have IH: "agrees valid rest (readString A n b') (readString StreamMessage n (stream_at (c # p) cs))"
      using Suc.IH [of b' "c # p"] b' by simp
    show ?thesis
    proof (cases "c = CHR '' '' \<or> c = CHR 0x0A")
      case True
      then show ?thesis using b' u Cons by (auto simp: agrees_def)
    next
      case False
      then show ?thesis using b' Cons by (simp add: agrees_bindR [OF IH] agrees_Inr)
    qed
  qed
qed

lemma readFile_loop_agrees:
  "valid b \<Longrightarrow> agrees valid rest (readFile_loop A n b) (readFile_loop StreamMessage n (stream_at p (rest b)))"
proof (induction n arbitrary: b p)
  case 0
  then show ?case by auto
next
  case (Suc n)
  show ?case
  proof (cases "rest b")
    case Nil
    then show ?thesis
      using get_none [OF Suc.prems Nil] stream_get_end [of p] by auto
  next
    case (Cons c cs)
    obtain b' where b': "ma_get A b = Inr (c, b')" "ma_good A b'" "valid b'" "rest b' = cs"
      using get_some [OF Suc.prems Cons] by blast
    have "agrees valid rest (readFile_loop A n b') (readFile_loop StreamMessage n (stream_at (c # p) cs))"
      using Suc.IH [of b' "c # p"] b' by simp
    then show ?thesis using b' Cons by (simp add: agrees_bindR agrees_Inr)
  qed
qed

text \<open>Those built from them.\<close>

lemma readChar_c_agrees:
  "valid b \<Longrightarrow> agrees valid rest (readChar_c A c b) (readChar_c StreamMessage c (stream_at p (rest b)))"
  unfolding readChar_c_def by (intro agrees_bindR agrees_if readChar_agrees) auto

lemma readSpace_agrees:
  "valid b \<Longrightarrow> agrees valid rest (readSpace A b) (readSpace StreamMessage (stream_at p (rest b)))"
  unfolding readSpace_def by (rule readChar_c_agrees)

lemma readDelimiter_agrees:
  "valid b \<Longrightarrow> agrees valid rest (readDelimiter A b) (readDelimiter StreamMessage (stream_at p (rest b)))"
  unfolding readDelimiter_def by (rule readChar_c_agrees)

lemma readUserId_agrees:
  "valid b \<Longrightarrow> agrees valid rest (readUserId A b) (readUserId StreamMessage (stream_at p (rest b)))"
  unfolding readUserId_def by (intro agrees_bindR agrees_liftR readString_agrees)

lemma readAuctionId_agrees:
  "valid b \<Longrightarrow> agrees valid rest (readAuctionId A b) (readAuctionId StreamMessage (stream_at p (rest b)))"
  unfolding readAuctionId_def by (intro agrees_bindR agrees_liftR readString_agrees)

lemma readAuctionValue_agrees:
  "valid b \<Longrightarrow> agrees valid rest (readAuctionValue A b) (readAuctionValue StreamMessage (stream_at p (rest b)))"
  unfolding readAuctionValue_def by (intro agrees_bindR agrees_liftR readString_agrees)

lemma readPassword_agrees:
  "valid b \<Longrightarrow> agrees valid rest (readPassword A b) (readPassword StreamMessage (stream_at p (rest b)))"
  unfolding readPassword_def by (intro agrees_bindR agrees_liftR readString_agrees)

lemma readNumber_agrees:
  "valid b \<Longrightarrow> agrees valid rest (readNumber A n b) (readNumber StreamMessage n (stream_at p (rest b)))"
  unfolding readNumber_def by (intro agrees_bindR agrees_liftR readString_agrees)

lemma readFile_agrees:
  "valid b \<Longrightarrow> agrees valid rest (readFile A k b) (readFile StreamMessage k (stream_at p (rest b)))"
  unfolding readFile_def by (intro agrees_if readFile_loop_agrees agrees_Inl)

lemma readDate_agrees:
  "valid b \<Longrightarrow> agrees valid rest (readDate A b) (readDate StreamMessage (stream_at p (rest b)))"
  unfolding readDate_def by (intro agrees_bindR readString_agrees readChar_c_agrees agrees_Inr)

lemma readAuctionAndState_agrees:
  "valid b \<Longrightarrow> agrees valid rest (readAuctionAndState A b) (readAuctionAndState StreamMessage (stream_at p (rest b)))"
  unfolding readAuctionAndState_def Let_def
  by (intro agrees_bindR agrees_if checkIfOver_agrees readString_agrees readSpace_agrees agrees_Inr)

lemmas read_agrees =
  agrees_bindR agrees_if agrees_liftR agrees_Inl agrees_Inr
  readChar_agrees readCharEqual_agrees checkIfOver_agrees readMessageId_agrees readString_agrees
  readSpace_agrees readDelimiter_agrees readUserId_agrees readAuctionId_agrees
  readAuctionValue_agrees readPassword_agrees readNumber_agrees readFile_agrees readDate_agrees
  readAuctionAndState_agrees

end

section \<open>Reading a text\<close>

text \<open>
  What the functions return over a stream whose text begins with a field: these rules run a
  message's reading function over the text its buildMessage prints.
\<close>

lemma readChar_at [read_simps]: "readChar StreamMessage (stream_at p (c # s)) = Inr (c, stream_at (c # p) s)"
  by (simp add: readChar_def)

lemma readChar_end [read_simps]: "readChar StreamMessage (stream_at p []) = Inl InvalidMessageException"
  using stream_get_end [of p] by (auto simp: readChar_def)

lemma readChar_c_at [read_simps]:
  "readChar_c StreamMessage c (stream_at p (d # s)) =
     (if d = c then Inr ((), stream_at (d # p) s) else Inl InvalidMessageException)"
  by (simp add: readChar_c_def readChar_at)

lemma readSpace_at [read_simps]:
  "readSpace StreamMessage (stream_at p (d # s)) =
     (if d = CHR '' '' then Inr ((), stream_at (d # p) s) else Inl InvalidMessageException)"
  by (simp add: readSpace_def readChar_c_at)

lemma readDelimiter_at [read_simps]:
  "readDelimiter StreamMessage (stream_at p (d # s)) =
     (if d = CHR 0x0A then Inr ((), stream_at (d # p) s) else Inl InvalidMessageException)"
  by (simp add: readDelimiter_def readChar_c_at)

lemma readCharEqual_at [read_simps]:
  "readCharEqual StreamMessage c (stream_at p (d # s)) =
     (if d = c then Inr (True, stream_at (d # p) s) else Inr (False, stream_at p (d # s)))"
  by (simp add: readCharEqual_def readChar_at)

lemma checkIfOver_at [read_simps]:
  "checkIfOver StreamMessage (stream_at p (d # s)) = Inr (d = CHR 0x0A, stream_at p (d # s))"
  by (simp add: checkIfOver_def readChar_at)

lemma readMessageId_at [read_simps]:
  "readMessageId StreamMessage code (stream_at p (code @ s)) = Inr ((), stream_at (rev code @ p) s)"
  by (induction code arbitrary: p) (simp_all add: readChar_at)

lemma readString_at:
  assumes "\<forall>c \<in> set xs. \<not> is_sep c" and "length xs \<le> n" and "is_sep c \<or> length xs = n"
  shows "readString StreamMessage n (stream_at p (xs @ c # s)) = Inr (xs, stream_at (rev xs @ p) (c # s))"
  using assms
proof (induction xs arbitrary: n p)
  case Nil
  then show ?case by (cases n) (auto simp: is_sep_def)
next
  case (Cons x xs)
  then obtain m where "n = Suc m" by (cases n) auto
  with Cons show ?case by (simp add: is_sep_def)
qed

lemma readString_step [read_simps]:
  "readString StreamMessage (Suc n) (stream_at p (c # s)) =
     (if is_sep c then Inr ([], stream_at p (c # s))
      else bindR (readString StreamMessage n (stream_at (c # p) s)) (\<lambda>str b. Inr (c # str, b)))"
  by (auto simp: is_sep_def)

lemma readFile_loop_at:
  "readFile_loop StreamMessage (length xs) (stream_at p (xs @ s)) = Inr (xs, stream_at (rev xs @ p) s)"
  by (induction xs arbitrary: p) simp_all

lemma readFile_at:
  assumes "unat k = length xs" and "length xs \<le> 10000000"
  shows "readFile StreamMessage k (stream_at p (xs @ s)) = Inr (xs, stream_at (rev xs @ p) s)"
  using assms by (simp add: readFile_def config_defs readFile_loop_at)

text \<open>A field that is a number printed without zeros on the left.\<close>

lemma to_string_no_sep: "c \<in> set (to_string w) \<Longrightarrow> \<not> is_sep c"
  by (simp add: to_string_digits)

lemma length_to_string_le: "unat w < 10 ^ k \<Longrightarrow> 0 < k \<Longrightarrow> length (to_string w) \<le> k"
  by (simp add: to_string_def length_nat_str_le)

lemma length_to_string_gt: "10 ^ k \<le> unat w \<Longrightarrow> k < length (to_string w)"
  by (simp add: to_string_def length_nat_str_ge)

lemma readNumber_at:
  assumes "unat w < 10 ^ n" and "0 < n" and "is_sep c"
  shows "readNumber StreamMessage n (stream_at p (to_string w @ c # s)) =
     Inr (w, stream_at (rev (to_string w) @ p) (c # s))"
  using assms
  by (simp add: readNumber_def readString_at to_string_no_sep length_to_string_le)

lemma readAuctionValue_at:
  assumes "unat v < 10 ^ 6" and "v \<noteq> 0" and "is_sep c"
  shows "readAuctionValue StreamMessage (stream_at p (to_string v @ c # s)) =
     Inr (v, stream_at (rev (to_string v) @ p) (c # s))"
  using assms
  by (simp add: readAuctionValue_def config_defs readString_at to_string_no_sep length_to_string_le)

lemma readAuctionValue_zero:
  assumes "is_sep c"
  shows "readAuctionValue StreamMessage (stream_at p (to_string 0 @ c # s)) = Inl InvalidMessageException"
  using assms
  by (simp add: readAuctionValue_def config_defs readString_at to_string_no_sep length_to_string_le)

text \<open>
  A user id on the wire has no zeros on the left. It is read back exactly when it has six digits;
  a smaller one is refused.
\<close>

lemma to_string_uid:
  assumes "10 ^ 5 \<le> unat uid" and "unat uid < 10 ^ 6"
  shows "to_string uid = pad0 6 (unat uid)"
  using pad0_full [of 5 "unat uid"] assms by (simp add: to_string_def)

lemma readUserId_at:
  assumes "10 ^ 5 \<le> unat uid" and "unat uid < 10 ^ 6"
  shows "readUserId StreamMessage (stream_at p (to_string uid @ c # s)) =
     Inr (uid, stream_at (rev (to_string uid) @ p) (c # s))"
proof -
  have "length (to_string uid) = 6" using assms by (simp add: to_string_uid length_pad0)
  moreover have "convert_user_id (to_string uid) = Inr uid"
    using assms by (simp add: to_string_uid convert_user_id_pad0)
  ultimately show ?thesis
    by (simp add: readUserId_def config_defs readString_at to_string_no_sep)
qed

lemma readUserId_short:
  assumes "unat uid < 10 ^ 5" and "is_sep c"
  shows "readUserId StreamMessage (stream_at p (to_string uid @ c # s)) = Inl InvalidMessageException"
proof -
  have "length (to_string uid) \<le> 5" using assms by (simp add: length_to_string_le)
  then have "\<not> is_uid (to_string uid)" and "length (to_string uid) \<le> 6" by (auto simp: is_uid_def)
  then show ?thesis
    using assms
    by (simp add: readUserId_def config_defs readString_at to_string_no_sep convert_user_id_eq)
qed

lemma readAuctionId_at:
  assumes "unat aid < 10 ^ 3"
  shows "readAuctionId StreamMessage (stream_at p (convert_auction_id_to_str aid @ c # s)) =
     Inr (aid, stream_at (rev (convert_auction_id_to_str aid) @ p) (c # s))"
proof -
  have "\<forall>d \<in> set (pad0 3 (unat aid)). \<not> is_sep d" by (auto dest: pad0_digits)
  then show ?thesis
    using assms
    by (simp add: readAuctionId_def config_defs readString_at convert_auction_id_to_str_eq length_pad0
        convert_auction_id_pad0)
qed

lemma readPassword_at:
  assumes "is_password pw"
  shows "readPassword StreamMessage (stream_at p (pw @ c # s)) = Inr (pw, stream_at (rev pw @ p) (c # s))"
  using assms
  by (simp add: readPassword_def config_defs readString_at is_password_def convert_password_eq)

lemma readString_digits:
  assumes "digits_of_length n xs"
  shows "readString StreamMessage n (stream_at p (xs @ c # s)) = Inr (xs, stream_at (rev xs @ p) (c # s))"
  using assms by (intro readString_at) (auto simp: digits_of_length_def)

lemma readDate_at:
  assumes "wf_Datetime d"
  shows "readDate StreamMessage (stream_at p (convert_date_to_str d @ c # s)) =
     Inr (d, stream_at (rev (convert_date_to_str d) @ p) (c # s))"
  using assms
  by (simp add: wf_Datetime_def readDate_def convert_date_to_str_def readString_digits readChar_c_at)

end
