(* ===== verification/Messages_Client.thy ===== *)
theory Messages_Client
  imports Protocol_Read
begin

text \<open>
  shared/protocol.cpp, the requests a client sends: one record per message class, its
  buildMessage and its readMessage. The server has read the three letters of the code before it
  calls readMessage. For each request: reading over any adapter agrees with reading over a
  stream, and what buildMessage prints is read back.
\<close>

section \<open>Protocol codes (shared/protocol.hpp)\<close>

definition CODE_LOGIN_USER :: string where "CODE_LOGIN_USER = ''LIN''"
definition CODE_LOGIN_SERVER :: string where "CODE_LOGIN_SERVER = ''RLI''"
definition CODE_LOGOUT_USER :: string where "CODE_LOGOUT_USER = ''LOU''"
definition CODE_LOGOUT_SERVER :: string where "CODE_LOGOUT_SERVER = ''RLO''"
definition CODE_UNREGISTER_USER :: string where "CODE_UNREGISTER_USER = ''UNR''"
definition CODE_UNREGISTER_SERVER :: string where "CODE_UNREGISTER_SERVER = ''RUR''"
definition CODE_LIST_AUC_USER :: string where "CODE_LIST_AUC_USER = ''LMA''"
definition CODE_LIST_AUC_SERVER :: string where "CODE_LIST_AUC_SERVER = ''RMA''"
definition CODE_LIST_MYB_USER :: string where "CODE_LIST_MYB_USER = ''LMB''"
definition CODE_LIST_MYB_SERVER :: string where "CODE_LIST_MYB_SERVER = ''RMB''"
definition CODE_LIST_ALLAUC_USER :: string where "CODE_LIST_ALLAUC_USER = ''LST''"
definition CODE_LIST_ALLAUC_SERVER :: string where "CODE_LIST_ALLAUC_SERVER = ''RLS''"
definition CODE_SHOWREC_USER :: string where "CODE_SHOWREC_USER = ''SRC''"
definition CODE_SHOWREC_SERVER :: string where "CODE_SHOWREC_SERVER = ''RRC''"
definition CODE_OPEN_AUC_CLIENT :: string where "CODE_OPEN_AUC_CLIENT = ''OPA''"
definition CODE_OPEN_AUC_SERVER :: string where "CODE_OPEN_AUC_SERVER = ''ROA''"
definition CODE_CLOSE_AUC_CLIENT :: string where "CODE_CLOSE_AUC_CLIENT = ''CLS''"
definition CODE_CLOSE_AUC_SERVER :: string where "CODE_CLOSE_AUC_SERVER = ''RCL''"
definition CODE_SHOW_ASSET_CLIENT :: string where "CODE_SHOW_ASSET_CLIENT = ''SAS''"
definition CODE_SHOW_ASSET_SERVER :: string where "CODE_SHOW_ASSET_SERVER = ''RSA''"
definition CODE_BID_CLIENT :: string where "CODE_BID_CLIENT = ''BID''"
definition CODE_BID_SERVER :: string where "CODE_BID_SERVER = ''RBD''"
definition CODE_ERROR :: string where "CODE_ERROR = ''ERR''"

lemmas code_defs =
  CODE_LOGIN_USER_def CODE_LOGIN_SERVER_def CODE_LOGOUT_USER_def CODE_LOGOUT_SERVER_def
  CODE_UNREGISTER_USER_def CODE_UNREGISTER_SERVER_def CODE_LIST_AUC_USER_def
  CODE_LIST_AUC_SERVER_def CODE_LIST_MYB_USER_def CODE_LIST_MYB_SERVER_def
  CODE_LIST_ALLAUC_USER_def CODE_LIST_ALLAUC_SERVER_def CODE_SHOWREC_USER_def
  CODE_SHOWREC_SERVER_def CODE_OPEN_AUC_CLIENT_def CODE_OPEN_AUC_SERVER_def
  CODE_CLOSE_AUC_CLIENT_def CODE_CLOSE_AUC_SERVER_def CODE_SHOW_ASSET_CLIENT_def
  CODE_SHOW_ASSET_SERVER_def CODE_BID_CLIENT_def CODE_BID_SERVER_def CODE_ERROR_def

text \<open>std::endl.\<close>

definition endl :: string where
  "endl = [CHR 0x0A]"

section \<open>Login, logout, unregister\<close>

record ClientLoginUser =
  lin_user_id :: uint32
  lin_password :: string

definition ClientLoginUser_buildMessage :: "ClientLoginUser \<Rightarrow> string" where
  "ClientLoginUser_buildMessage m =
     CODE_LOGIN_USER @ '' '' @ to_string (lin_user_id m) @ '' '' @ lin_password m @ endl"

definition ClientLoginUser_readMessage :: "'b MessageAdapter \<Rightarrow> 'b \<Rightarrow> (ClientLoginUser, 'b) read_result" where
  "ClientLoginUser_readMessage A b =
     bindR (readSpace A b) (\<lambda>_ b.
     bindR (readUserId A b) (\<lambda>user_id b.
     bindR (readSpace A b) (\<lambda>_ b.
     bindR (readPassword A b) (\<lambda>password b.
     bindR (readDelimiter A b) (\<lambda>_ b.
     Inr (\<lparr>lin_user_id = user_id, lin_password = password\<rparr>, b))))))"

record ClientLogout =
  lou_user_id :: uint32
  lou_password :: string

definition ClientLogout_buildMessage :: "ClientLogout \<Rightarrow> string" where
  "ClientLogout_buildMessage m =
     CODE_LOGOUT_USER @ '' '' @ to_string (lou_user_id m) @ '' '' @ lou_password m @ endl"

definition ClientLogout_readMessage :: "'b MessageAdapter \<Rightarrow> 'b \<Rightarrow> (ClientLogout, 'b) read_result" where
  "ClientLogout_readMessage A b =
     bindR (readSpace A b) (\<lambda>_ b.
     bindR (readUserId A b) (\<lambda>user_id b.
     bindR (readSpace A b) (\<lambda>_ b.
     bindR (readPassword A b) (\<lambda>password b.
     bindR (readDelimiter A b) (\<lambda>_ b.
     Inr (\<lparr>lou_user_id = user_id, lou_password = password\<rparr>, b))))))"

record ClientUnregister =
  unr_user_id :: uint32
  unr_password :: string

definition ClientUnregister_buildMessage :: "ClientUnregister \<Rightarrow> string" where
  "ClientUnregister_buildMessage m =
     CODE_UNREGISTER_USER @ '' '' @ to_string (unr_user_id m) @ '' '' @ unr_password m @ endl"

definition ClientUnregister_readMessage :: "'b MessageAdapter \<Rightarrow> 'b \<Rightarrow> (ClientUnregister, 'b) read_result" where
  "ClientUnregister_readMessage A b =
     bindR (readSpace A b) (\<lambda>_ b.
     bindR (readUserId A b) (\<lambda>user_id b.
     bindR (readSpace A b) (\<lambda>_ b.
     bindR (readPassword A b) (\<lambda>password b.
     bindR (readDelimiter A b) (\<lambda>_ b.
     Inr (\<lparr>unr_user_id = user_id, unr_password = password\<rparr>, b))))))"

section \<open>Lists and records\<close>

record ClientListStartedAuctions =
  lma_user_id :: uint32

definition ClientListStartedAuctions_buildMessage :: "ClientListStartedAuctions \<Rightarrow> string" where
  "ClientListStartedAuctions_buildMessage m =
     CODE_LIST_AUC_USER @ '' '' @ to_string (lma_user_id m) @ endl"

definition ClientListStartedAuctions_readMessage ::
    "'b MessageAdapter \<Rightarrow> 'b \<Rightarrow> (ClientListStartedAuctions, 'b) read_result" where
  "ClientListStartedAuctions_readMessage A b =
     bindR (readSpace A b) (\<lambda>_ b.
     bindR (readUserId A b) (\<lambda>user_id b.
     bindR (readDelimiter A b) (\<lambda>_ b.
     Inr (\<lparr>lma_user_id = user_id\<rparr>, b))))"

record ClientListBiddedAuctions =
  lmb_user_id :: uint32

definition ClientListBiddedAuctions_buildMessage :: "ClientListBiddedAuctions \<Rightarrow> string" where
  "ClientListBiddedAuctions_buildMessage m =
     CODE_LIST_MYB_USER @ '' '' @ to_string (lmb_user_id m) @ endl"

definition ClientListBiddedAuctions_readMessage ::
    "'b MessageAdapter \<Rightarrow> 'b \<Rightarrow> (ClientListBiddedAuctions, 'b) read_result" where
  "ClientListBiddedAuctions_readMessage A b =
     bindR (readSpace A b) (\<lambda>_ b.
     bindR (readUserId A b) (\<lambda>user_id b.
     bindR (readDelimiter A b) (\<lambda>_ b.
     Inr (\<lparr>lmb_user_id = user_id\<rparr>, b))))"

text \<open>ClientListAllAuctions has no fields.\<close>

definition ClientListAllAuctions_buildMessage :: string where
  "ClientListAllAuctions_buildMessage = CODE_LIST_ALLAUC_USER @ endl"

definition ClientListAllAuctions_readMessage :: "'b MessageAdapter \<Rightarrow> 'b \<Rightarrow> (unit, 'b) read_result" where
  "ClientListAllAuctions_readMessage A b = readDelimiter A b"

record ClientShowRecord =
  src_auction_id :: uint32

definition ClientShowRecord_buildMessage :: "ClientShowRecord \<Rightarrow> string" where
  "ClientShowRecord_buildMessage m =
     CODE_SHOWREC_USER @ '' '' @ sprintf_0d 3 (sint (src_auction_id m)) @ endl"

definition ClientShowRecord_readMessage :: "'b MessageAdapter \<Rightarrow> 'b \<Rightarrow> (ClientShowRecord, 'b) read_result" where
  "ClientShowRecord_readMessage A b =
     bindR (readSpace A b) (\<lambda>_ b.
     bindR (readAuctionId A b) (\<lambda>auction_id b.
     bindR (readDelimiter A b) (\<lambda>_ b.
     Inr (\<lparr>src_auction_id = auction_id\<rparr>, b))))"

section \<open>Open, close, show asset, bid\<close>

record ClientOpenAuction =
  opa_user_id :: uint32
  opa_password :: string
  opa_name :: string
  opa_start_value :: uint32
  opa_timeactive :: uint32
  opa_assetf_name :: string
  opa_Fsize :: "64 word"
  opa_fdata :: string

definition ClientOpenAuction_buildMessage :: "ClientOpenAuction \<Rightarrow> string" where
  "ClientOpenAuction_buildMessage m =
     CODE_OPEN_AUC_CLIENT @ '' '' @ to_string (opa_user_id m) @ '' '' @ opa_password m @ '' '' @ opa_name m @
     '' '' @ to_string (opa_start_value m) @ '' '' @ to_string (opa_timeactive m) @ '' '' @ opa_assetf_name m @
     '' '' @ nat_str (unat (opa_Fsize m)) @ '' '' @ opa_fdata m @ endl"

text \<open>\<open>(size_t) stol(readString(buffer, MAX_FILE_SIZE_LENGTH))\<close>.\<close>

definition readSize :: "'b MessageAdapter \<Rightarrow> 'b \<Rightarrow> (64 word, 'b) read_result" where
  "readSize A b =
     bindR (readString A MAX_FILE_SIZE_LENGTH b)
       (\<lambda>str b. liftR (bindE (stol str) (\<lambda>v. Inr (word_of_int v))) b)"

definition ClientOpenAuction_readMessage :: "'b MessageAdapter \<Rightarrow> 'b \<Rightarrow> (ClientOpenAuction, 'b) read_result" where
  "ClientOpenAuction_readMessage A b =
     bindR (readSpace A b) (\<lambda>_ b.
     bindR (readUserId A b) (\<lambda>user_id b.
     bindR (readSpace A b) (\<lambda>_ b.
     bindR (readPassword A b) (\<lambda>password b.
     bindR (readSpace A b) (\<lambda>_ b.
     bindR (readString A MAX_AUCTION_NAME_SIZE b) (\<lambda>name b.
     bindR (readSpace A b) (\<lambda>_ b.
     bindR (readAuctionValue A b) (\<lambda>start_value b.
     bindR (readSpace A b) (\<lambda>_ b.
     bindR (readNumber A MAX_LENGTH_TIMEACTIVE b) (\<lambda>timeactive b.
     bindR (readSpace A b) (\<lambda>_ b.
     bindR (readString A MAX_FILENAME_SIZE b) (\<lambda>assetf_name b.
     bindR (readSpace A b) (\<lambda>_ b.
     bindR (readSize A b) (\<lambda>fsize b.
     bindR (readSpace A b) (\<lambda>_ b.
     bindR (readFile A (ucast fsize) b) (\<lambda>fdata b.
     bindR (readDelimiter A b) (\<lambda>_ b.
     Inr (\<lparr>opa_user_id = user_id, opa_password = password, opa_name = name,
           opa_start_value = start_value, opa_timeactive = timeactive,
           opa_assetf_name = assetf_name, opa_Fsize = fsize, opa_fdata = fdata\<rparr>, b))))))))))))))))))"

record ClientCloseAuction =
  cls_user_id :: uint32
  cls_password :: string
  cls_auction_id :: uint32

definition ClientCloseAuction_buildMessage :: "ClientCloseAuction \<Rightarrow> string" where
  "ClientCloseAuction_buildMessage m =
     CODE_CLOSE_AUC_CLIENT @ '' '' @ to_string (cls_user_id m) @ '' '' @ cls_password m @ '' '' @
     sprintf_0d 3 (sint (cls_auction_id m)) @ endl"

definition ClientCloseAuction_readMessage :: "'b MessageAdapter \<Rightarrow> 'b \<Rightarrow> (ClientCloseAuction, 'b) read_result" where
  "ClientCloseAuction_readMessage A b =
     bindR (readSpace A b) (\<lambda>_ b.
     bindR (readUserId A b) (\<lambda>user_id b.
     bindR (readSpace A b) (\<lambda>_ b.
     bindR (readPassword A b) (\<lambda>password b.
     bindR (readSpace A b) (\<lambda>_ b.
     bindR (readAuctionId A b) (\<lambda>auction_id b.
     bindR (readDelimiter A b) (\<lambda>_ b.
     Inr (\<lparr>cls_user_id = user_id, cls_password = password, cls_auction_id = auction_id\<rparr>, b))))))))"

record ClientShowAsset =
  sas_auction_id :: uint32

definition ClientShowAsset_buildMessage :: "ClientShowAsset \<Rightarrow> string" where
  "ClientShowAsset_buildMessage m =
     CODE_SHOW_ASSET_CLIENT @ '' '' @ sprintf_0d 3 (sint (sas_auction_id m)) @ endl"

definition ClientShowAsset_readMessage :: "'b MessageAdapter \<Rightarrow> 'b \<Rightarrow> (ClientShowAsset, 'b) read_result" where
  "ClientShowAsset_readMessage A b =
     bindR (readSpace A b) (\<lambda>_ b.
     bindR (readAuctionId A b) (\<lambda>auction_id b.
     bindR (readDelimiter A b) (\<lambda>_ b.
     Inr (\<lparr>sas_auction_id = auction_id\<rparr>, b))))"

record ClientBid =
  bid_user_id :: uint32
  bid_password :: string
  bid_auction_id :: uint32
  bid_amount :: uint32

definition ClientBid_buildMessage :: "ClientBid \<Rightarrow> string" where
  "ClientBid_buildMessage m =
     CODE_BID_CLIENT @ '' '' @ to_string (bid_user_id m) @ '' '' @ bid_password m @ '' '' @
     sprintf_0d 3 (sint (bid_auction_id m)) @ '' '' @ to_string (bid_amount m) @ endl"

definition ClientBid_readMessage :: "'b MessageAdapter \<Rightarrow> 'b \<Rightarrow> (ClientBid, 'b) read_result" where
  "ClientBid_readMessage A b =
     bindR (readSpace A b) (\<lambda>_ b.
     bindR (readUserId A b) (\<lambda>user_id b.
     bindR (readSpace A b) (\<lambda>_ b.
     bindR (readPassword A b) (\<lambda>password b.
     bindR (readSpace A b) (\<lambda>_ b.
     bindR (readAuctionId A b) (\<lambda>auction_id b.
     bindR (readSpace A b) (\<lambda>_ b.
     bindR (readAuctionValue A b) (\<lambda>value b.
     bindR (readDelimiter A b) (\<lambda>_ b.
     Inr (\<lparr>bid_user_id = user_id, bid_password = password, bid_auction_id = auction_id,
           bid_amount = value\<rparr>, b))))))))))"

section \<open>Independence of the adapter\<close>

context message_adapter
begin

lemma ClientLoginUser_agrees:
  "valid b \<Longrightarrow> agrees valid rest (ClientLoginUser_readMessage A b) (ClientLoginUser_readMessage StreamMessage (stream_at p (rest b)))"
  unfolding ClientLoginUser_readMessage_def by (intro read_agrees)

lemma ClientLogout_agrees:
  "valid b \<Longrightarrow> agrees valid rest (ClientLogout_readMessage A b) (ClientLogout_readMessage StreamMessage (stream_at p (rest b)))"
  unfolding ClientLogout_readMessage_def by (intro read_agrees)

lemma ClientUnregister_agrees:
  "valid b \<Longrightarrow> agrees valid rest (ClientUnregister_readMessage A b) (ClientUnregister_readMessage StreamMessage (stream_at p (rest b)))"
  unfolding ClientUnregister_readMessage_def by (intro read_agrees)

lemma ClientListStartedAuctions_agrees:
  "valid b \<Longrightarrow> agrees valid rest (ClientListStartedAuctions_readMessage A b)
     (ClientListStartedAuctions_readMessage StreamMessage (stream_at p (rest b)))"
  unfolding ClientListStartedAuctions_readMessage_def by (intro read_agrees)

lemma ClientListBiddedAuctions_agrees:
  "valid b \<Longrightarrow> agrees valid rest (ClientListBiddedAuctions_readMessage A b)
     (ClientListBiddedAuctions_readMessage StreamMessage (stream_at p (rest b)))"
  unfolding ClientListBiddedAuctions_readMessage_def by (intro read_agrees)

lemma ClientListAllAuctions_agrees:
  "valid b \<Longrightarrow> agrees valid rest (ClientListAllAuctions_readMessage A b)
     (ClientListAllAuctions_readMessage StreamMessage (stream_at p (rest b)))"
  unfolding ClientListAllAuctions_readMessage_def by (intro read_agrees)

lemma ClientShowRecord_agrees:
  "valid b \<Longrightarrow> agrees valid rest (ClientShowRecord_readMessage A b) (ClientShowRecord_readMessage StreamMessage (stream_at p (rest b)))"
  unfolding ClientShowRecord_readMessage_def by (intro read_agrees)

lemma readSize_agrees:
  "valid b \<Longrightarrow> agrees valid rest (readSize A b) (readSize StreamMessage (stream_at p (rest b)))"
  unfolding readSize_def by (intro read_agrees)

lemma ClientOpenAuction_agrees:
  "valid b \<Longrightarrow> agrees valid rest (ClientOpenAuction_readMessage A b) (ClientOpenAuction_readMessage StreamMessage (stream_at p (rest b)))"
  unfolding ClientOpenAuction_readMessage_def by (intro read_agrees readSize_agrees)

lemma ClientCloseAuction_agrees:
  "valid b \<Longrightarrow> agrees valid rest (ClientCloseAuction_readMessage A b) (ClientCloseAuction_readMessage StreamMessage (stream_at p (rest b)))"
  unfolding ClientCloseAuction_readMessage_def by (intro read_agrees)

lemma ClientShowAsset_agrees:
  "valid b \<Longrightarrow> agrees valid rest (ClientShowAsset_readMessage A b) (ClientShowAsset_readMessage StreamMessage (stream_at p (rest b)))"
  unfolding ClientShowAsset_readMessage_def by (intro read_agrees)

lemma ClientBid_agrees:
  "valid b \<Longrightarrow> agrees valid rest (ClientBid_readMessage A b) (ClientBid_readMessage StreamMessage (stream_at p (rest b)))"
  unfolding ClientBid_readMessage_def by (intro read_agrees)

end

section \<open>What is built is read back\<close>

text \<open>A user id as it goes over the wire: six digits, the first one not 0.\<close>

definition wire_uid :: "uint32 \<Rightarrow> bool" where
  "wire_uid uid \<longleftrightarrow> 10 ^ 5 \<le> unat uid \<and> unat uid < 10 ^ 6"

definition no_sep :: "string \<Rightarrow> bool" where
  "no_sep s \<longleftrightarrow> (\<forall>c \<in> set s. \<not> is_sep c)"

lemma is_sep_consts [simp]: "is_sep (CHR '' '')" "is_sep (CHR 0x0A)"
  by (simp_all add: is_sep_def)

lemma readSize_at:
  assumes "unat w < 10 ^ 8" and "is_sep c"
  shows "readSize StreamMessage (stream_at p (nat_str (unat w) @ c # s)) =
     Inr (w, stream_at (rev (nat_str (unat w)) @ p) (c # s))"
proof -
  have "\<forall>d \<in> set (nat_str (unat w)). \<not> is_sep d" by (auto dest: nat_str_digits)
  moreover have "unat w < 2 ^ 63" using assms by simp
  ultimately show ?thesis
    using assms by (simp add: readSize_def config_defs readString_at length_nat_str_le stol_nat_str)
qed

lemmas message_at =
  readUserId_at readPassword_at readAuctionId_at readAuctionValue_at readNumber_at readString_at
  readSpace_at readDelimiter_at

lemma uid_password_at:
  assumes "wire_uid uid" and "is_password pw"
  shows "readUserId StreamMessage (stream_at p (to_string uid @ c # s)) =
       Inr (uid, stream_at (rev (to_string uid) @ p) (c # s))"
    and "readPassword StreamMessage (stream_at p (pw @ c # s)) = Inr (pw, stream_at (rev pw @ p) (c # s))"
  using assms by (simp_all add: wire_uid_def readUserId_at readPassword_at)

lemma aid_at:
  "unat aid < 10 ^ 3 \<Longrightarrow>
   readAuctionId StreamMessage (stream_at p (sprintf_0d 3 (sint aid) @ c # s)) =
     Inr (aid, stream_at (rev (sprintf_0d 3 (sint aid)) @ p) (c # s))"
  using readAuctionId_at [of aid p c s] by (simp add: convert_auction_id_to_str_def)

lemma ClientLoginUser_read_build:
  assumes "wire_uid (lin_user_id m)" and "is_password (lin_password m)"
  shows "result (ClientLoginUser_readMessage StreamMessage (stream_at p (drop 3 (ClientLoginUser_buildMessage m)))) = Inr m"
  using assms
  by (simp add: ClientLoginUser_readMessage_def ClientLoginUser_buildMessage_def code_defs endl_def
      readSpace_at readDelimiter_at uid_password_at)

lemma ClientLogout_read_build:
  assumes "wire_uid (lou_user_id m)" and "is_password (lou_password m)"
  shows "result (ClientLogout_readMessage StreamMessage (stream_at p (drop 3 (ClientLogout_buildMessage m)))) = Inr m"
  using assms
  by (simp add: ClientLogout_readMessage_def ClientLogout_buildMessage_def code_defs endl_def
      readSpace_at readDelimiter_at uid_password_at)

lemma ClientUnregister_read_build:
  assumes "wire_uid (unr_user_id m)" and "is_password (unr_password m)"
  shows "result (ClientUnregister_readMessage StreamMessage (stream_at p (drop 3 (ClientUnregister_buildMessage m)))) = Inr m"
  using assms
  by (simp add: ClientUnregister_readMessage_def ClientUnregister_buildMessage_def code_defs endl_def
      readSpace_at readDelimiter_at uid_password_at)

lemma ClientListStartedAuctions_read_build:
  assumes "wire_uid (lma_user_id m)"
  shows "result (ClientListStartedAuctions_readMessage StreamMessage
     (stream_at p (drop 3 (ClientListStartedAuctions_buildMessage m)))) = Inr m"
  using assms
  by (simp add: ClientListStartedAuctions_readMessage_def ClientListStartedAuctions_buildMessage_def
      code_defs endl_def readSpace_at readDelimiter_at readUserId_at wire_uid_def)

lemma ClientListBiddedAuctions_read_build:
  assumes "wire_uid (lmb_user_id m)"
  shows "result (ClientListBiddedAuctions_readMessage StreamMessage
     (stream_at p (drop 3 (ClientListBiddedAuctions_buildMessage m)))) = Inr m"
  using assms
  by (simp add: ClientListBiddedAuctions_readMessage_def ClientListBiddedAuctions_buildMessage_def
      code_defs endl_def readSpace_at readDelimiter_at readUserId_at wire_uid_def)

lemma ClientListAllAuctions_read_build:
  "result (ClientListAllAuctions_readMessage StreamMessage
     (stream_at p (drop 3 ClientListAllAuctions_buildMessage))) = Inr ()"
  by (simp add: ClientListAllAuctions_readMessage_def ClientListAllAuctions_buildMessage_def
      code_defs endl_def readDelimiter_at)

lemma ClientShowRecord_read_build:
  assumes "unat (src_auction_id m) < 10 ^ 3"
  shows "result (ClientShowRecord_readMessage StreamMessage (stream_at p (drop 3 (ClientShowRecord_buildMessage m)))) = Inr m"
  using assms
  by (simp add: ClientShowRecord_readMessage_def ClientShowRecord_buildMessage_def
      code_defs endl_def readSpace_at readDelimiter_at aid_at del: sprintf_0d_uint)

lemma ClientShowAsset_read_build:
  assumes "unat (sas_auction_id m) < 10 ^ 3"
  shows "result (ClientShowAsset_readMessage StreamMessage (stream_at p (drop 3 (ClientShowAsset_buildMessage m)))) = Inr m"
  using assms
  by (simp add: ClientShowAsset_readMessage_def ClientShowAsset_buildMessage_def
      code_defs endl_def readSpace_at readDelimiter_at aid_at)

lemma ClientCloseAuction_read_build:
  assumes "wire_uid (cls_user_id m)" and "is_password (cls_password m)" and "unat (cls_auction_id m) < 10 ^ 3"
  shows "result (ClientCloseAuction_readMessage StreamMessage (stream_at p (drop 3 (ClientCloseAuction_buildMessage m)))) = Inr m"
  using assms
  by (simp add: ClientCloseAuction_readMessage_def ClientCloseAuction_buildMessage_def
      code_defs endl_def readSpace_at readDelimiter_at uid_password_at aid_at)

lemma ClientBid_read_build:
  assumes "wire_uid (bid_user_id m)" and "is_password (bid_password m)" and "unat (bid_auction_id m) < 10 ^ 3"
    and "0 < unat (bid_amount m)" and "unat (bid_amount m) < 10 ^ 6"
  shows "result (ClientBid_readMessage StreamMessage (stream_at p (drop 3 (ClientBid_buildMessage m)))) = Inr m"
proof -
  have "bid_amount m \<noteq> 0" using assms(4) by auto
  then show ?thesis
    using assms
    by (simp add: ClientBid_readMessage_def ClientBid_buildMessage_def code_defs endl_def
        readSpace_at readDelimiter_at uid_password_at aid_at readAuctionValue_at)
qed

lemma ClientOpenAuction_read_build:
  assumes "wire_uid (opa_user_id m)" and "is_password (opa_password m)"
    and "no_sep (opa_name m)" and "length (opa_name m) \<le> 10"
    and "0 < unat (opa_start_value m)" and "unat (opa_start_value m) < 10 ^ 6"
    and "unat (opa_timeactive m) < 10 ^ 5"
    and "no_sep (opa_assetf_name m)" and "length (opa_assetf_name m) \<le> 24"
    and "unat (opa_Fsize m) = length (opa_fdata m)" and "length (opa_fdata m) \<le> 10000000"
  shows "result (ClientOpenAuction_readMessage StreamMessage (stream_at p (drop 3 (ClientOpenAuction_buildMessage m)))) = Inr m"
proof -
  have sv: "opa_start_value m \<noteq> 0" using assms(5) by auto
  have fs: "unat (opa_Fsize m) < 10 ^ 8" using assms(10,11) by simp
  have fsize: "unat (ucast (opa_Fsize m) :: uint32) = length (opa_fdata m)"
    using assms(10,11) by (simp add: unsigned_ucast_eq take_bit_nat_eq_self_iff)
  show ?thesis
    using assms(1-9) sv fs readFile_at [OF fsize assms(11), of _ "[CHR 0x0A]"]
    by (simp add: ClientOpenAuction_readMessage_def ClientOpenAuction_buildMessage_def code_defs endl_def
        config_defs readSpace_at readDelimiter_at uid_password_at no_sep_def readString_at
        readAuctionValue_at readNumber_at readSize_at)
qed

end
