(* ===== verification/Messages_Server.thy ===== *)
theory Messages_Server
  imports Messages_Client
begin

text \<open>
  shared/protocol.cpp, the answers of the server: the status of each answer with the letters it is
  printed as, buildMessage, and readMessage, which the client runs. readMessage changes the message
  object it is called on, so it takes the object's fields before the call; what it does not read
  keeps its value. The two readers with a loop over the input are partial functions; over an
  adapter that keeps its contract they return, because every round consumes a character.
\<close>

section \<open>Readers with a loop\<close>

text \<open>A reader that may not return is \<open>None\<close> there.\<close>

definition bindO ::
    "('a, 'b) read_result option \<Rightarrow> ('a \<Rightarrow> 'b \<Rightarrow> ('c, 'b) read_result option) \<Rightarrow> ('c, 'b) read_result option" where
  "bindO m f =
     (case m of None \<Rightarrow> None | Some (Inl e) \<Rightarrow> Some (Inl e) | Some (Inr (x, b)) \<Rightarrow> f x b)"

lemma bindO_simps [simp]:
  "bindO None f = None"
  "bindO (Some (Inl e)) f = Some (Inl e)"
  "bindO (Some (Inr (x, b))) f = f x b"
  by (simp_all add: bindO_def)

lemma bindO_mono [partial_function_mono]:
  assumes "\<And>x b. mono_option (\<lambda>f. g f x b)"
  shows "mono_option (\<lambda>f. bindO (Some m) (\<lambda>x b. g f x b))"
  using assms by (cases m) (auto simp: monotone_def flat_ord_def, blast)

text \<open>\<open>while ((auc = readAuctionAndState(buffer)).length() > 0) auctions.push_back(auc);\<close>\<close>

partial_function (option) readAuctions ::
    "'b MessageAdapter \<Rightarrow> string list \<Rightarrow> 'b \<Rightarrow> (string list, 'b) read_result option" where
  "readAuctions A auctions b =
     bindO (Some (readAuctionAndState A b)) (\<lambda>auc b.
       if length auc > 0 then readAuctions A (auctions @ [auc]) b
       else Some (Inr (auctions, b)))"

definition readBid :: "'b MessageAdapter \<Rightarrow> 'b \<Rightarrow> (Bid, 'b) read_result" where
  "readBid A b =
     bindR (readSpace A b) (\<lambda>_ b.
     bindR (readUserId A b) (\<lambda>uid b.
     bindR (readSpace A b) (\<lambda>_ b.
     bindR (readNumber A MAX_AUCTION_VALUE_SIZE b) (\<lambda>v b.
     bindR (readSpace A b) (\<lambda>_ b.
     bindR (readDate A b) (\<lambda>d b.
     bindR (readSpace A b) (\<lambda>_ b.
     bindR (readNumber A MAX_LENGTH_TIMEACTIVE b) (\<lambda>s b.
     Inr (\<lparr>bidder_UID = uid, bid_value = v, bid_date_time = d, bid_sec_time = s\<rparr>, b)))))))))"

text \<open>\<open>while (readCharEqual(buffer, 'B')) { ...; if (!readCharEqual(buffer, ' ')) break; }\<close>\<close>

partial_function (option) readBids ::
    "'b MessageAdapter \<Rightarrow> Bid list \<Rightarrow> 'b \<Rightarrow> (Bid list, 'b) read_result option" where
  "readBids A bids b =
     bindO (Some (readCharEqual A (CHR ''B'') b)) (\<lambda>more b.
       if \<not> more then Some (Inr (bids, b))
       else
         bindO (Some (readBid A b)) (\<lambda>bid b.
         bindO (Some (readCharEqual A (CHR '' '') b)) (\<lambda>skip b.
           if \<not> skip then Some (Inr (bids @ [bid], b))
           else readBids A (bids @ [bid]) b)))"

section \<open>Login, logout, unregister\<close>

datatype ServerLoginUser_status = Login_OK | Login_NOK | Login_REG | Login_ERR

definition ServerLoginUser_buildMessage :: "ServerLoginUser_status \<Rightarrow> exn + string" where
  "ServerLoginUser_buildMessage status =
     Inr (CODE_LOGIN_SERVER @ '' '' @
       (case status of Login_OK \<Rightarrow> ''OK'' | Login_NOK \<Rightarrow> ''NOK'' | Login_REG \<Rightarrow> ''REG'' | Login_ERR \<Rightarrow> ''ERR'') @
       endl)"

definition ServerLoginUser_readMessage :: "'b MessageAdapter \<Rightarrow> 'b \<Rightarrow> (ServerLoginUser_status, 'b) read_result" where
  "ServerLoginUser_readMessage A b =
     bindR (readMessageId A CODE_LOGIN_SERVER b) (\<lambda>_ b.
     bindR (readSpace A b) (\<lambda>_ b.
     bindR (readString A MAX_STATUS_SIZE b) (\<lambda>status_str b.
     bindR (liftR (if status_str = ''OK'' then Inr Login_OK
        else if status_str = ''NOK'' then Inr Login_NOK
        else if status_str = ''REG'' then Inr Login_REG
        else if status_str = ''ERR'' then Inr Login_ERR
        else Inl InvalidMessageException) b) (\<lambda>status b.
     bindR (readDelimiter A b) (\<lambda>_ b. Inr (status, b))))))"

datatype ServerLogout_status = Logout_OK | Logout_NOK | Logout_UNR | Logout_ERR

definition ServerLogout_buildMessage :: "ServerLogout_status \<Rightarrow> exn + string" where
  "ServerLogout_buildMessage status =
     Inr (CODE_LOGOUT_SERVER @ '' '' @
       (case status of Logout_OK \<Rightarrow> ''OK'' | Logout_NOK \<Rightarrow> ''NOK'' | Logout_UNR \<Rightarrow> ''UNR'' | Logout_ERR \<Rightarrow> ''ERR'') @
       endl)"

definition ServerLogout_readMessage :: "'b MessageAdapter \<Rightarrow> 'b \<Rightarrow> (ServerLogout_status, 'b) read_result" where
  "ServerLogout_readMessage A b =
     bindR (readMessageId A CODE_LOGOUT_SERVER b) (\<lambda>_ b.
     bindR (readSpace A b) (\<lambda>_ b.
     bindR (readString A MAX_STATUS_SIZE b) (\<lambda>status_str b.
     bindR (liftR (if status_str = ''OK'' then Inr Logout_OK
        else if status_str = ''NOK'' then Inr Logout_NOK
        else if status_str = ''UNR'' then Inr Logout_UNR
        else if status_str = ''ERR'' then Inr Logout_ERR
        else Inl InvalidMessageException) b) (\<lambda>status b.
     bindR (readDelimiter A b) (\<lambda>_ b. Inr (status, b))))))"

datatype ServerUnregister_status = Unregister_OK | Unregister_NOK | Unregister_UNR | Unregister_ERR

definition ServerUnregister_buildMessage :: "ServerUnregister_status \<Rightarrow> exn + string" where
  "ServerUnregister_buildMessage status =
     Inr (CODE_UNREGISTER_SERVER @ '' '' @
       (case status of Unregister_OK \<Rightarrow> ''OK'' | Unregister_NOK \<Rightarrow> ''NOK''
        | Unregister_UNR \<Rightarrow> ''UNR'' | Unregister_ERR \<Rightarrow> ''ERR'') @
       endl)"

definition ServerUnregister_readMessage :: "'b MessageAdapter \<Rightarrow> 'b \<Rightarrow> (ServerUnregister_status, 'b) read_result" where
  "ServerUnregister_readMessage A b =
     bindR (readMessageId A CODE_UNREGISTER_SERVER b) (\<lambda>_ b.
     bindR (readSpace A b) (\<lambda>_ b.
     bindR (readString A MAX_STATUS_SIZE b) (\<lambda>status_str b.
     bindR (liftR (if status_str = ''OK'' then Inr Unregister_OK
        else if status_str = ''NOK'' then Inr Unregister_NOK
        else if status_str = ''UNR'' then Inr Unregister_UNR
        else if status_str = ''ERR'' then Inr Unregister_ERR
        else Inl InvalidMessageException) b) (\<lambda>status b.
     bindR (readDelimiter A b) (\<lambda>_ b. Inr (status, b))))))"

section \<open>The three lists\<close>

text \<open>\<open>for (std::string auction : auctions) buffer << " " << auction;\<close>\<close>

fun printAuctions :: "string list \<Rightarrow> string" where
  "printAuctions [] = []"
| "printAuctions (auction # auctions) = '' '' @ auction @ printAuctions auctions"

datatype ServerListStartedAuctions_status = Started_OK | Started_NOK | Started_NLG | Started_ERR

record ServerListStartedAuctions =
  rma_status :: ServerListStartedAuctions_status
  rma_auctions :: "string list"

definition ServerListStartedAuctions_buildMessage :: "ServerListStartedAuctions \<Rightarrow> exn + string" where
  "ServerListStartedAuctions_buildMessage m =
     Inr (CODE_LIST_AUC_SERVER @ '' '' @
       (case rma_status m of Started_OK \<Rightarrow> ''OK'' @ printAuctions (rma_auctions m)
        | Started_NOK \<Rightarrow> ''NOK'' | Started_NLG \<Rightarrow> ''NLG'' | Started_ERR \<Rightarrow> ''ERR'') @
       endl)"

definition ServerListStartedAuctions_readMessage ::
    "'b MessageAdapter \<Rightarrow> ServerListStartedAuctions \<Rightarrow> 'b \<Rightarrow> (ServerListStartedAuctions, 'b) read_result option" where
  "ServerListStartedAuctions_readMessage A m b =
     bindO (Some (readMessageId A CODE_LIST_AUC_SERVER b)) (\<lambda>_ b.
     bindO (Some (readSpace A b)) (\<lambda>_ b.
     bindO (Some (readString A MAX_STATUS_SIZE b)) (\<lambda>status_str b.
     bindO (if status_str = ''OK'' then
              bindO (readAuctions A (rma_auctions m) b) (\<lambda>aucs b.
                Some (Inr (m\<lparr>rma_auctions := aucs,
                            rma_status := (if length aucs = 0 then Started_ERR else Started_OK)\<rparr>, b)))
            else Some (liftR
              (if status_str = ''NOK'' then Inr (m\<lparr>rma_status := Started_NOK\<rparr>)
               else if status_str = ''NLG'' then Inr (m\<lparr>rma_status := Started_NLG\<rparr>)
               else if status_str = ''ERR'' then Inr (m\<lparr>rma_status := Started_ERR\<rparr>)
               else Inl InvalidMessageException) b)) (\<lambda>m b.
     bindO (Some (readDelimiter A b)) (\<lambda>_ b. Some (Inr (m, b)))))))"

datatype ServerListBiddedAuctions_status = Bidded_OK | Bidded_NOK | Bidded_NLG | Bidded_ERR

record ServerListBiddedAuctions =
  rmb_status :: ServerListBiddedAuctions_status
  rmb_auctions :: "string list"

definition ServerListBiddedAuctions_buildMessage :: "ServerListBiddedAuctions \<Rightarrow> exn + string" where
  "ServerListBiddedAuctions_buildMessage m =
     Inr (CODE_LIST_MYB_SERVER @ '' '' @
       (case rmb_status m of Bidded_OK \<Rightarrow> ''OK'' @ printAuctions (rmb_auctions m)
        | Bidded_NOK \<Rightarrow> ''NOK'' | Bidded_NLG \<Rightarrow> ''NLG'' | Bidded_ERR \<Rightarrow> ''ERR'') @
       endl)"

definition ServerListBiddedAuctions_readMessage ::
    "'b MessageAdapter \<Rightarrow> ServerListBiddedAuctions \<Rightarrow> 'b \<Rightarrow> (ServerListBiddedAuctions, 'b) read_result option" where
  "ServerListBiddedAuctions_readMessage A m b =
     bindO (Some (readMessageId A CODE_LIST_MYB_SERVER b)) (\<lambda>_ b.
     bindO (Some (readSpace A b)) (\<lambda>_ b.
     bindO (Some (readString A MAX_STATUS_SIZE b)) (\<lambda>status_str b.
     bindO (if status_str = ''OK'' then
              bindO (readAuctions A (rmb_auctions m) b) (\<lambda>aucs b.
                Some (Inr (m\<lparr>rmb_auctions := aucs,
                            rmb_status := (if length aucs = 0 then Bidded_ERR else Bidded_OK)\<rparr>, b)))
            else Some (liftR
              (if status_str = ''NOK'' then Inr (m\<lparr>rmb_status := Bidded_NOK\<rparr>)
               else if status_str = ''NLG'' then Inr (m\<lparr>rmb_status := Bidded_NLG\<rparr>)
               else if status_str = ''ERR'' then Inr (m\<lparr>rmb_status := Bidded_ERR\<rparr>)
               else Inl InvalidMessageException) b)) (\<lambda>m b.
     bindO (Some (readDelimiter A b)) (\<lambda>_ b. Some (Inr (m, b)))))))"

datatype ServerListAllAuctions_status = All_OK | All_NOK | All_ERR

record ServerListAllAuctions =
  rls_status :: ServerListAllAuctions_status
  rls_auctions :: "string list"

definition ServerListAllAuctions_buildMessage :: "ServerListAllAuctions \<Rightarrow> exn + string" where
  "ServerListAllAuctions_buildMessage m =
     Inr (CODE_LIST_ALLAUC_SERVER @ '' '' @
       (case rls_status m of All_OK \<Rightarrow> ''OK'' @ printAuctions (rls_auctions m)
        | All_NOK \<Rightarrow> ''NOK'' | All_ERR \<Rightarrow> ''ERR'') @
       endl)"

definition ServerListAllAuctions_readMessage ::
    "'b MessageAdapter \<Rightarrow> ServerListAllAuctions \<Rightarrow> 'b \<Rightarrow> (ServerListAllAuctions, 'b) read_result option" where
  "ServerListAllAuctions_readMessage A m b =
     bindO (Some (readMessageId A CODE_LIST_ALLAUC_SERVER b)) (\<lambda>_ b.
     bindO (Some (readSpace A b)) (\<lambda>_ b.
     bindO (Some (readString A MAX_STATUS_SIZE b)) (\<lambda>status_str b.
     bindO (if status_str = ''OK'' then
              bindO (readAuctions A (rls_auctions m) b) (\<lambda>aucs b.
                Some (Inr (m\<lparr>rls_auctions := aucs,
                            rls_status := (if length aucs = 0 then All_ERR else All_OK)\<rparr>, b)))
            else Some (liftR
              (if status_str = ''NOK'' then Inr (m\<lparr>rls_status := All_NOK\<rparr>)
               else if status_str = ''ERR'' then Inr (m\<lparr>rls_status := All_ERR\<rparr>)
               else Inl InvalidMessageException) b)) (\<lambda>m b.
     bindO (Some (readDelimiter A b)) (\<lambda>_ b. Some (Inr (m, b)))))))"

section \<open>Show record\<close>

datatype ServerShowRecord_status = Record_OK | Record_NOK | Record_ERR

record ServerShowRecord =
  rrc_status :: ServerShowRecord_status
  rrc_host_UID :: uint32
  rrc_auction_name :: string
  rrc_asset_fname :: string
  rrc_start_value :: uint32
  rrc_start_date_time :: Datetime
  rrc_timeactive :: uint32
  rrc_bids :: "Bid list"
  rrc_end_date_time :: Datetime
  rrc_end_sec_time :: uint32

fun printBids :: "Bid list \<Rightarrow> string" where
  "printBids [] = []"
| "printBids (bid # bids) =
     '' B '' @ to_string (bidder_UID bid) @ '' '' @ to_string (bid_value bid) @ '' '' @
     convert_date_to_str (bid_date_time bid) @ '' '' @ to_string (bid_sec_time bid) @ printBids bids"

definition ServerShowRecord_buildMessage :: "ServerShowRecord \<Rightarrow> exn + string" where
  "ServerShowRecord_buildMessage m =
     Inr (CODE_SHOWREC_SERVER @ '' '' @
       (case rrc_status m of
          Record_OK \<Rightarrow>
            ''OK '' @ to_string (rrc_host_UID m) @ '' '' @ rrc_auction_name m @ '' '' @ rrc_asset_fname m @
            '' '' @ to_string (rrc_start_value m) @ '' '' @ convert_date_to_str (rrc_start_date_time m) @
            '' '' @ to_string (rrc_timeactive m) @ printBids (rrc_bids m) @
            (if rrc_end_sec_time m > 0
             then '' E '' @ convert_date_to_str (rrc_end_date_time m) @ '' '' @ to_string (rrc_end_sec_time m)
             else [])
        | Record_NOK \<Rightarrow> ''NOK'' | Record_ERR \<Rightarrow> ''ERR'') @
       endl)"

text \<open>From the host to the time the auction stays active.\<close>

definition readRecordHead ::
    "'b MessageAdapter \<Rightarrow> ServerShowRecord \<Rightarrow> 'b \<Rightarrow> (ServerShowRecord, 'b) read_result" where
  "readRecordHead A m b =
     bindR (readSpace A b) (\<lambda>_ b.
     bindR (readUserId A b) (\<lambda>host b.
     bindR (readSpace A b) (\<lambda>_ b.
     bindR (readString A MAX_AUCTION_NAME_SIZE b) (\<lambda>name b.
     bindR (readSpace A b) (\<lambda>_ b.
     bindR (readString A MAX_FILENAME_SIZE b) (\<lambda>fname b.
     bindR (readSpace A b) (\<lambda>_ b.
     bindR (readAuctionValue A b) (\<lambda>value b.
     bindR (readSpace A b) (\<lambda>_ b.
     bindR (readDate A b) (\<lambda>date b.
     bindR (readSpace A b) (\<lambda>_ b.
     bindR (readNumber A MAX_TIMEACTIVE_SIZE b) (\<lambda>timeactive b.
     Inr (m\<lparr>rrc_status := Record_OK, rrc_host_UID := host, rrc_auction_name := name,
            rrc_asset_fname := fname, rrc_start_value := value, rrc_start_date_time := date,
            rrc_timeactive := timeactive\<rparr>, b)))))))))))))"

text \<open>The end of a closed auction.\<close>

definition readRecordEnd ::
    "'b MessageAdapter \<Rightarrow> ServerShowRecord \<Rightarrow> 'b \<Rightarrow> (ServerShowRecord, 'b) read_result" where
  "readRecordEnd A m b =
     bindR (readCharEqual A (CHR ''E'') b) (\<lambda>closed b.
     if \<not> closed then Inr (m, b)
     else
       bindR (readSpace A b) (\<lambda>_ b.
       bindR (readDate A b) (\<lambda>date b.
       bindR (readSpace A b) (\<lambda>_ b.
       bindR (readNumber A MAX_LENGTH_TIMEACTIVE b) (\<lambda>sec_time b.
       bindR (readDelimiter A b) (\<lambda>_ b.
       Inr (m\<lparr>rrc_end_date_time := date, rrc_end_sec_time := sec_time\<rparr>, b)))))))"

definition ServerShowRecord_readMessage ::
    "'b MessageAdapter \<Rightarrow> ServerShowRecord \<Rightarrow> 'b \<Rightarrow> (ServerShowRecord, 'b) read_result option" where
  "ServerShowRecord_readMessage A m b =
     bindO (Some (readMessageId A CODE_SHOWREC_SERVER b)) (\<lambda>_ b.
     bindO (Some (readSpace A b)) (\<lambda>_ b.
     bindO (Some (readString A MAX_STATUS_SIZE b)) (\<lambda>status_str b.
       if status_str = ''OK'' then
         bindO (Some (readRecordHead A m b)) (\<lambda>m b.
         bindO (Some (readCharEqual A (CHR '' '') b)) (\<lambda>more b.
         if \<not> more then Some (Inr (m, b))
         else
           bindO (readBids A (rrc_bids m) b) (\<lambda>bids b.
           Some (readRecordEnd A (m\<lparr>rrc_bids := bids\<rparr>) b))))
       else if status_str = ''NOK'' then
         Some (bindR (readDelimiter A b) (\<lambda>_ b. Inr (m\<lparr>rrc_status := Record_NOK\<rparr>, b)))
       else if status_str = ''ERR'' then
         Some (bindR (readDelimiter A b) (\<lambda>_ b. Inr (m\<lparr>rrc_status := Record_ERR\<rparr>, b)))
       else Some (Inl InvalidMessageException))))"

section \<open>Open, close, show asset, bid, error\<close>

datatype ServerOpenAuction_status = Open_OK | Open_NOK | Open_NLG | Open_ERR

record ServerOpenAuction =
  roa_status :: ServerOpenAuction_status
  roa_auction_id :: uint32

definition ServerOpenAuction_buildMessage :: "ServerOpenAuction \<Rightarrow> exn + string" where
  "ServerOpenAuction_buildMessage m =
     (case roa_status m of
        Open_OK \<Rightarrow> Inr (CODE_OPEN_AUC_SERVER @ '' '' @ ''OK '' @ sprintf_0d 3 (sint (roa_auction_id m)) @ endl)
      | Open_NOK \<Rightarrow> Inr (CODE_OPEN_AUC_SERVER @ '' '' @ ''NOK'' @ endl)
      | Open_ERR \<Rightarrow> Inr (CODE_OPEN_AUC_SERVER @ '' '' @ ''ERR'' @ endl)
      | Open_NLG \<Rightarrow> Inl MessageBuildingException)"

definition ServerOpenAuction_readMessage ::
    "'b MessageAdapter \<Rightarrow> ServerOpenAuction \<Rightarrow> 'b \<Rightarrow> (ServerOpenAuction, 'b) read_result" where
  "ServerOpenAuction_readMessage A m b =
     bindR (readMessageId A CODE_OPEN_AUC_SERVER b) (\<lambda>_ b.
     bindR (readSpace A b) (\<lambda>_ b.
     bindR (readString A MAX_STATUS_SIZE b) (\<lambda>status_str b.
       if status_str = ''OK'' then
         bindR (readSpace A b) (\<lambda>_ b.
         bindR (readAuctionId A b) (\<lambda>aid b.
         bindR (readDelimiter A b) (\<lambda>_ b.
         Inr (m\<lparr>roa_status := Open_OK, roa_auction_id := aid\<rparr>, b))))
       else if status_str = ''NOK'' then
         bindR (readDelimiter A b) (\<lambda>_ b. Inr (m\<lparr>roa_status := Open_NOK\<rparr>, b))
       else if status_str = ''ERR'' then
         bindR (readDelimiter A b) (\<lambda>_ b. Inr (m\<lparr>roa_status := Open_ERR\<rparr>, b))
       else Inl InvalidMessageException)))"

datatype ServerCloseAuction_status =
  Close_OK | Close_NLG | Close_EAU | Close_EOW | Close_END | Close_ERR | Close_NOK

definition ServerCloseAuction_buildMessage :: "ServerCloseAuction_status \<Rightarrow> exn + string" where
  "ServerCloseAuction_buildMessage status =
     Inr (CODE_CLOSE_AUC_SERVER @ '' '' @
       (case status of Close_OK \<Rightarrow> ''OK'' | Close_NLG \<Rightarrow> ''NLG'' | Close_EAU \<Rightarrow> ''EAU'' | Close_EOW \<Rightarrow> ''EOW''
        | Close_END \<Rightarrow> ''END'' | Close_NOK \<Rightarrow> ''NOK'' | Close_ERR \<Rightarrow> ''ERR'') @
       endl)"

definition ServerCloseAuction_readMessage :: "'b MessageAdapter \<Rightarrow> 'b \<Rightarrow> (ServerCloseAuction_status, 'b) read_result" where
  "ServerCloseAuction_readMessage A b =
     bindR (readMessageId A CODE_CLOSE_AUC_SERVER b) (\<lambda>_ b.
     bindR (readSpace A b) (\<lambda>_ b.
     bindR (readString A MAX_STATUS_SIZE b) (\<lambda>status_str b.
     bindR (readDelimiter A b) (\<lambda>_ b.
     liftR (if status_str = ''OK'' then Inr Close_OK
        else if status_str = ''NLG'' then Inr Close_NLG
        else if status_str = ''EAU'' then Inr Close_EAU
        else if status_str = ''EOW'' then Inr Close_EOW
        else if status_str = ''END'' then Inr Close_END
        else if status_str = ''NOK'' then Inr Close_NOK
        else if status_str = ''ERR'' then Inr Close_ERR
        else Inl InvalidMessageException) b))))"

datatype ServerShowAsset_status = Asset_OK | Asset_NOK | Asset_ERR

record ServerShowAsset =
  rsa_status :: ServerShowAsset_status
  rsa_fname :: string
  rsa_fsize :: "64 word"
  rsa_fdata :: string

definition ServerShowAsset_buildMessage :: "ServerShowAsset \<Rightarrow> exn + string" where
  "ServerShowAsset_buildMessage m =
     Inr (CODE_SHOW_ASSET_SERVER @ '' '' @
       (case rsa_status m of
          Asset_OK \<Rightarrow> ''OK '' @ rsa_fname m @ '' '' @ nat_str (unat (rsa_fsize m)) @ '' '' @ rsa_fdata m
        | Asset_NOK \<Rightarrow> ''NOK'' | Asset_ERR \<Rightarrow> ''ERR'') @
       endl)"

definition ServerShowAsset_readMessage ::
    "'b MessageAdapter \<Rightarrow> ServerShowAsset \<Rightarrow> 'b \<Rightarrow> (ServerShowAsset, 'b) read_result" where
  "ServerShowAsset_readMessage A m b =
     bindR (readMessageId A CODE_SHOW_ASSET_SERVER b) (\<lambda>_ b.
     bindR (readSpace A b) (\<lambda>_ b.
     bindR (readString A MAX_STATUS_SIZE b) (\<lambda>status_str b.
       if status_str = ''OK'' then
         bindR (readSpace A b) (\<lambda>_ b.
         bindR (readString A MAX_FILENAME_SIZE b) (\<lambda>fname b.
         bindR (readSpace A b) (\<lambda>_ b.
         bindR (readSize A b) (\<lambda>fsize b.
         bindR (readSpace A b) (\<lambda>_ b.
         bindR (readFile A (ucast fsize) b) (\<lambda>fdata b.
         bindR (readDelimiter A b) (\<lambda>_ b.
         Inr (m\<lparr>rsa_status := Asset_OK, rsa_fname := fname, rsa_fsize := fsize, rsa_fdata := fdata\<rparr>, b))))))))
       else if status_str = ''NOK'' then
         bindR (readDelimiter A b) (\<lambda>_ b. Inr (m\<lparr>rsa_status := Asset_NOK\<rparr>, b))
       else if status_str = ''ERR'' then
         bindR (readDelimiter A b) (\<lambda>_ b. Inr (m\<lparr>rsa_status := Asset_ERR\<rparr>, b))
       else Inl InvalidMessageException)))"

datatype ServerBid_status = Bid_NOK | Bid_NLG | Bid_ACC | Bid_REF | Bid_ILG | Bid_ERR

definition ServerBid_buildMessage :: "ServerBid_status \<Rightarrow> exn + string" where
  "ServerBid_buildMessage status =
     Inr (CODE_BID_SERVER @ '' '' @
       (case status of Bid_NOK \<Rightarrow> ''NOK'' | Bid_NLG \<Rightarrow> ''NLG'' | Bid_ACC \<Rightarrow> ''ACC'' | Bid_REF \<Rightarrow> ''REF''
        | Bid_ILG \<Rightarrow> ''ILG'' | Bid_ERR \<Rightarrow> ''ERR'') @
       endl)"

definition ServerBid_readMessage :: "'b MessageAdapter \<Rightarrow> 'b \<Rightarrow> (ServerBid_status, 'b) read_result" where
  "ServerBid_readMessage A b =
     bindR (readMessageId A CODE_BID_SERVER b) (\<lambda>_ b.
     bindR (readSpace A b) (\<lambda>_ b.
     bindR (readString A MAX_STATUS_SIZE b) (\<lambda>status_str b.
     bindR (liftR (if status_str = ''NOK'' then Inr Bid_NOK
        else if status_str = ''NLG'' then Inr Bid_NLG
        else if status_str = ''ACC'' then Inr Bid_ACC
        else if status_str = ''REF'' then Inr Bid_REF
        else if status_str = ''ILG'' then Inr Bid_ILG
        else if status_str = ''ERR'' then Inr Bid_ERR
        else Inl InvalidMessageException) b) (\<lambda>status b.
     bindR (readDelimiter A b) (\<lambda>_ b. Inr (status, b))))))"

definition ServerError_buildMessage :: string where
  "ServerError_buildMessage = CODE_ERROR @ endl"

definition ServerError_readMessage :: "'b MessageAdapter \<Rightarrow> 'b \<Rightarrow> (unit, 'b) read_result" where
  "ServerError_readMessage A b = Inr ((), b)"

text \<open>Message objects before they are filled: what the code leaves unset has some value here.\<close>

definition no_date :: Datetime where
  "no_date = \<lparr>year = [], month = [], day = [], hours = [], minutes = [], seconds = []\<rparr>"

definition no_record :: "ServerShowRecord_status \<Rightarrow> ServerShowRecord" where
  "no_record status =
     \<lparr>rrc_status = status, rrc_host_UID = 0, rrc_auction_name = [], rrc_asset_fname = [], rrc_start_value = 0,
      rrc_start_date_time = no_date, rrc_timeactive = 0, rrc_bids = [], rrc_end_date_time = no_date,
      rrc_end_sec_time = 0\<rparr>"

definition no_asset :: "ServerShowAsset_status \<Rightarrow> ServerShowAsset" where
  "no_asset status = \<lparr>rsa_status = status, rsa_fname = [], rsa_fsize = 0, rsa_fdata = []\<rparr>"

section \<open>Independence of the adapter, and the loops return\<close>

text \<open>
  \<open>shrinks k s r\<close>: a reader over a stream with text \<open>s\<close> that succeeds leaves at least \<open>k\<close>
  characters fewer.
\<close>

definition shrinks :: "nat \<Rightarrow> string \<Rightarrow> ('a, stream) read_result \<Rightarrow> bool" where
  "shrinks k s r =
     (case r of Inl _ \<Rightarrow> True | Inr (_, b) \<Rightarrow> stream_good b \<and> length (st_left b) + k \<le> length s)"

lemma shrinks_Inl [intro!]: "shrinks k s (Inl e)"
  by (simp add: shrinks_def)

lemma shrinks_Inr [intro!]: "shrinks 0 s (Inr (x, stream_at p s))"
  by (simp add: shrinks_def)

lemma shrinks_liftR: "shrinks 0 s (liftR m (stream_at p s))"
  by (cases m) auto

lemma shrinksD:
  assumes "shrinks k s (Inr (x, b))"
  obtains p' s' where "b = stream_at p' s'" and "length s' + k \<le> length s"
  using assms stream_good_eq [of b] by (auto simp: shrinks_def)

lemma shrinks_bindR:
  assumes "shrinks 0 s m" and "\<And>x p' s'. length s' \<le> length s \<Longrightarrow> shrinks 0 s' (f x (stream_at p' s'))"
  shows "shrinks 0 s (bindR m f)"
proof (cases m)
  case (Inr r)
  obtain x b where r: "r = (x, b)" by fastforce
  obtain p' s' where b: "b = stream_at p' s'" "length s' + 0 \<le> length s"
    using assms(1) Inr r by (auto elim: shrinksD)
  then have "shrinks 0 s' (f x (stream_at p' s'))" by (intro assms(2)) simp
  with r b Inr show ?thesis by (auto simp: shrinks_def split: sum.splits)
qed (simp add: shrinks_Inl)

lemma shrinks_if: "shrinks k s r \<Longrightarrow> shrinks k s r' \<Longrightarrow> shrinks k s (if c then r else r')"
  by simp

lemma shrinks_readString: "shrinks 0 s (readString StreamMessage n (stream_at p s))"
proof (induction n arbitrary: p s)
  case (Suc n)
  show ?case
  proof (cases s)
    case Nil
    then show ?thesis using stream_get_end [of p] by auto
  next
    case (Cons c cs)
    show ?thesis using Suc.IH [of cs "c # p"] Cons
      by (auto simp: shrinks_def bindR_def split: sum.splits)
  qed
qed auto

lemma shrinks_readChar_c: "shrinks 0 s (readChar_c StreamMessage c (stream_at p s))"
  by (cases s) (auto simp: readChar_c_def readChar_at readChar_end shrinks_def)

lemma shrinks_read:
  "shrinks 0 s (readSpace StreamMessage (stream_at p s))"
  "shrinks 0 s (readUserId StreamMessage (stream_at p s))"
  "shrinks 0 s (readNumber StreamMessage n (stream_at p s))"
  "shrinks 0 s (readDate StreamMessage (stream_at p s))"
  unfolding readSpace_def readUserId_def readNumber_def readDate_def
  by (intro shrinks_bindR shrinks_readString shrinks_readChar_c shrinks_liftR shrinks_Inr)+

lemma shrinks_readBid: "shrinks 0 s (readBid StreamMessage (stream_at p s))"
  unfolding readBid_def by (intro shrinks_bindR shrinks_read shrinks_Inr)

text \<open>\<open>agrees\<close> for readers with a loop; both sides return.\<close>

definition agreesO ::
    "('b \<Rightarrow> bool) \<Rightarrow> ('b \<Rightarrow> string) \<Rightarrow> ('a, 'b) read_result option \<Rightarrow> ('a, stream) read_result option \<Rightarrow> bool" where
  "agreesO valid rest ro so \<longleftrightarrow> (\<exists>r s. ro = Some r \<and> so = Some s \<and> agrees valid rest r s)"

lemma agreesO_Some: "agrees valid rest r s \<Longrightarrow> agreesO valid rest (Some r) (Some s)"
  by (simp add: agreesO_def)

lemma agreesO_if:
  "(c \<Longrightarrow> agreesO valid rest r s) \<Longrightarrow> (\<not> c \<Longrightarrow> agreesO valid rest r' s') \<Longrightarrow>
   agreesO valid rest (if c then r else r') (if c then s else s')"
  by simp

lemma agreesO_bindO:
  assumes "agreesO valid rest m s"
    and "\<And>x b p. valid b \<Longrightarrow> agreesO valid rest (f x b) (g x (stream_at p (rest b)))"
  shows "agreesO valid rest (bindO m f) (bindO s g)"
proof -
  obtain r q where m: "m = Some r" "s = Some q" "agrees valid rest r q"
    using assms(1) by (auto simp: agreesO_def)
  show ?thesis
  proof (cases r)
    case (Inl e)
    with m show ?thesis by (auto simp: agrees_def agreesO_def)
  next
    case (Inr y)
    with m obtain x b p where "y = (x, b)" "valid b" "q = Inr (x, stream_at p (rest b))"
      by (cases y) (auto simp: agrees_def)
    with m Inr assms(2) show ?thesis by simp
  qed
qed

lemma agreesO_result:
  "agreesO valid rest ro so \<Longrightarrow> map_option result ro = map_option result so \<and> ro \<noteq> None"
  by (auto simp: agreesO_def dest: agrees_result)

lemma readAuctionAndState_shrinks:
  assumes "readAuctionAndState StreamMessage (stream_at p s) = Inr (auc, b)" and "auc \<noteq> []"
  shows "\<exists>p' s'. b = stream_at p' s' \<and> length s' < length s"
proof (cases s)
  case Nil
  with assms(1) show ?thesis
    by (simp add: readAuctionAndState_def checkIfOver_def readChar_end)
next
  case (Cons c cs)
  have tail: "shrinks 0 cs
     (bindR (readString StreamMessage AUCTION_ID_SIZE (stream_at (c # p) cs)) (\<lambda>auction_str b.
      bindR (readSpace StreamMessage b) (\<lambda>_ b.
      bindR (readString StreamMessage 1 b) (\<lambda>state_str b. Inr (h auction_str state_str, b)))))" for h
    by (intro shrinks_bindR shrinks_readString shrinks_read shrinks_Inr)
  have sp: "c = CHR '' ''" using assms Cons
    by (auto simp: readAuctionAndState_def checkIfOver_at readSpace_at split: if_splits)
  then have "shrinks 0 cs (Inr (auc, b))"
    using assms Cons tail [of "\<lambda>a st. ''AID: '' @ a @ '' --- STATUS: '' @
      (if st = ''1'' then ''ACTIVE'' else if st = ''0'' then ''OVER'' else st)"]
    by (simp add: readAuctionAndState_def checkIfOver_at readSpace_at Let_def)
  then obtain p' s' where b: "b = stream_at p' s'" "length s' + 0 \<le> length cs" by (rule shrinksD)
  then have "length s' < length s" using Cons by simp
  with b show ?thesis by blast
qed

lemma readCharEqual_shrinks:
  assumes "readCharEqual StreamMessage c (stream_at p s) = Inr (x, stream_at p' s')"
  shows "length s' + (if x then 1 else 0) \<le> length s"
proof (cases s)
  case Nil
  with assms show ?thesis by (simp add: readCharEqual_def readChar_end)
next
  case (Cons d ds)
  with assms show ?thesis
    by (auto simp: readCharEqual_at split: if_splits)
qed

lemma agreesO_bindO_Some:
  assumes "agrees valid rest m s"
    and "\<And>x b p. valid b \<Longrightarrow> s = Inr (x, stream_at p (rest b)) \<Longrightarrow>
      agreesO valid rest (f x b) (g x (stream_at p (rest b)))"
  shows "agreesO valid rest (bindO (Some m) f) (bindO (Some s) g)"
proof (cases m)
  case (Inl e)
  with assms(1) show ?thesis by (simp add: agrees_def agreesO_def)
next
  case (Inr y)
  with assms(1) obtain x b p where "y = (x, b)" "valid b" "s = Inr (x, stream_at p (rest b))"
    by (cases y) (auto simp: agrees_def)
  with Inr assms(2) show ?thesis by simp
qed

context message_adapter
begin

lemma readAuctions_agrees:
  "valid b \<Longrightarrow> agreesO valid rest (readAuctions A auctions b) (readAuctions StreamMessage auctions (stream_at p (rest b)))"
proof (induction "length (rest b)" arbitrary: b p auctions rule: less_induct)
  case less
  show ?case
  proof (subst (1 2) readAuctions.simps, rule agreesO_bindO_Some [OF readAuctionAndState_agrees [OF less.prems]])
    fix auc b' p'
    assume v: "valid b'"
      and st: "readAuctionAndState StreamMessage (stream_at p (rest b)) = Inr (auc, stream_at p' (rest b'))"
    have "length (rest b') < length (rest b)" if "length auc > 0"
      using readAuctionAndState_shrinks [OF st] that by (metis length_greater_0_conv st_left_at)
    then show "agreesO valid rest
        (if length auc > 0 then readAuctions A (auctions @ [auc]) b' else Some (Inr (auctions, b')))
        (if length auc > 0 then readAuctions StreamMessage (auctions @ [auc]) (stream_at p' (rest b'))
         else Some (Inr (auctions, stream_at p' (rest b'))))"
      using less.hyps [of b' "auctions @ [auc]" p'] v by (intro agreesO_if agreesO_Some agrees_Inr) auto
  qed
qed

lemma readBid_agrees:
  "valid b \<Longrightarrow> agrees valid rest (readBid A b) (readBid StreamMessage (stream_at p (rest b)))"
  unfolding readBid_def by (intro read_agrees)

lemma readBids_agrees:
  "valid b \<Longrightarrow> agreesO valid rest (readBids A bids b) (readBids StreamMessage bids (stream_at p (rest b)))"
proof (induction "length (rest b)" arbitrary: b p bids rule: less_induct)
  case less
  show ?case
  proof (subst (1 2) readBids.simps,
      rule agreesO_bindO_Some [OF readCharEqual_agrees [OF less.prems]], rule agreesO_if)
    fix more b1 p1
    assume v1: "valid b1" and "\<not> \<not> more"
      and "readCharEqual StreamMessage (CHR ''B'') (stream_at p (rest b)) = Inr (more, stream_at p1 (rest b1))"
    then have l1: "length (rest b1) < length (rest b)" by (auto dest: readCharEqual_shrinks)
    show "agreesO valid rest
        (bindO (Some (readBid A b1)) (\<lambda>bid b. bindO (Some (readCharEqual A (CHR '' '') b)) (\<lambda>skip b.
           if \<not> skip then Some (Inr (bids @ [bid], b)) else readBids A (bids @ [bid]) b)))
        (bindO (Some (readBid StreamMessage (stream_at p1 (rest b1)))) (\<lambda>bid b.
           bindO (Some (readCharEqual StreamMessage (CHR '' '') b)) (\<lambda>skip b.
           if \<not> skip then Some (Inr (bids @ [bid], b)) else readBids StreamMessage (bids @ [bid]) b)))"
    proof (rule agreesO_bindO_Some [OF readBid_agrees [OF v1]],
        rule agreesO_bindO_Some [OF readCharEqual_agrees], assumption)
      fix bid b2 p2 skip b3 p3
      assume "readBid StreamMessage (stream_at p1 (rest b1)) = Inr (bid, stream_at p2 (rest b2))"
        and "readCharEqual StreamMessage (CHR '' '') (stream_at p2 (rest b2)) = Inr (skip, stream_at p3 (rest b3))"
        and v3: "valid b3"
      then have "length (rest b2) \<le> length (rest b1)" and "length (rest b3) \<le> length (rest b2)"
        using shrinks_readBid [of "rest b1" p1] by (auto simp: shrinks_def dest: readCharEqual_shrinks)
      with l1 v3 show "agreesO valid rest
          (if \<not> skip then Some (Inr (bids @ [bid], b3)) else readBids A (bids @ [bid]) b3)
          (if \<not> skip then Some (Inr (bids @ [bid], stream_at p3 (rest b3)))
           else readBids StreamMessage (bids @ [bid]) (stream_at p3 (rest b3)))"
        by (intro agreesO_if agreesO_Some agrees_Inr less.hyps) auto
    qed
  qed (auto intro: agreesO_Some agrees_Inr)
qed

text \<open>The answers.\<close>

lemma readRecordHead_agrees:
  "valid b \<Longrightarrow> agrees valid rest (readRecordHead A m b) (readRecordHead StreamMessage m (stream_at p (rest b)))"
  unfolding readRecordHead_def by (intro read_agrees)

lemma readRecordEnd_agrees:
  "valid b \<Longrightarrow> agrees valid rest (readRecordEnd A m b) (readRecordEnd StreamMessage m (stream_at p (rest b)))"
  unfolding readRecordEnd_def by (intro read_agrees)

lemmas readO_agrees =
  agreesO_bindO agreesO_if agreesO_Some read_agrees readAuctions_agrees readBids_agrees
  readRecordHead_agrees readRecordEnd_agrees

lemma ServerListStartedAuctions_agrees:
  "valid b \<Longrightarrow> agreesO valid rest (ServerListStartedAuctions_readMessage A m b)
     (ServerListStartedAuctions_readMessage StreamMessage m (stream_at p (rest b)))"
  unfolding ServerListStartedAuctions_readMessage_def by (intro readO_agrees)

lemma ServerListBiddedAuctions_agrees:
  "valid b \<Longrightarrow> agreesO valid rest (ServerListBiddedAuctions_readMessage A m b)
     (ServerListBiddedAuctions_readMessage StreamMessage m (stream_at p (rest b)))"
  unfolding ServerListBiddedAuctions_readMessage_def by (intro readO_agrees)

lemma ServerListAllAuctions_agrees:
  "valid b \<Longrightarrow> agreesO valid rest (ServerListAllAuctions_readMessage A m b)
     (ServerListAllAuctions_readMessage StreamMessage m (stream_at p (rest b)))"
  unfolding ServerListAllAuctions_readMessage_def by (intro readO_agrees)

lemma ServerShowRecord_agrees:
  "valid b \<Longrightarrow> agreesO valid rest (ServerShowRecord_readMessage A m b)
     (ServerShowRecord_readMessage StreamMessage m (stream_at p (rest b)))"
  unfolding ServerShowRecord_readMessage_def by (intro readO_agrees)

lemma ServerLoginUser_agrees:
  "valid b \<Longrightarrow> agrees valid rest (ServerLoginUser_readMessage A b) (ServerLoginUser_readMessage StreamMessage (stream_at p (rest b)))"
  unfolding ServerLoginUser_readMessage_def by (intro read_agrees)

lemma ServerLogout_agrees:
  "valid b \<Longrightarrow> agrees valid rest (ServerLogout_readMessage A b) (ServerLogout_readMessage StreamMessage (stream_at p (rest b)))"
  unfolding ServerLogout_readMessage_def by (intro read_agrees)

lemma ServerUnregister_agrees:
  "valid b \<Longrightarrow> agrees valid rest (ServerUnregister_readMessage A b) (ServerUnregister_readMessage StreamMessage (stream_at p (rest b)))"
  unfolding ServerUnregister_readMessage_def by (intro read_agrees)

lemma ServerCloseAuction_agrees:
  "valid b \<Longrightarrow> agrees valid rest (ServerCloseAuction_readMessage A b) (ServerCloseAuction_readMessage StreamMessage (stream_at p (rest b)))"
  unfolding ServerCloseAuction_readMessage_def by (intro read_agrees)

lemma ServerBid_agrees:
  "valid b \<Longrightarrow> agrees valid rest (ServerBid_readMessage A b) (ServerBid_readMessage StreamMessage (stream_at p (rest b)))"
  unfolding ServerBid_readMessage_def by (intro read_agrees)

lemma ServerOpenAuction_agrees:
  "valid b \<Longrightarrow> agrees valid rest (ServerOpenAuction_readMessage A m b)
     (ServerOpenAuction_readMessage StreamMessage m (stream_at p (rest b)))"
  unfolding ServerOpenAuction_readMessage_def by (intro read_agrees)

lemma ServerShowAsset_agrees:
  "valid b \<Longrightarrow> agrees valid rest (ServerShowAsset_readMessage A m b)
     (ServerShowAsset_readMessage StreamMessage m (stream_at p (rest b)))"
  unfolding ServerShowAsset_readMessage_def by (intro read_agrees readSize_agrees)

end

section \<open>What the server builds, the client reads\<close>

text \<open>The answers that are a status.\<close>

lemma ServerLoginUser_read_build:
  "bindE (ServerLoginUser_buildMessage st) (\<lambda>s. result (ServerLoginUser_readMessage StreamMessage (stream_of s))) = Inr st"
  by (induct st; code_simp)

lemma ServerLogout_read_build:
  "bindE (ServerLogout_buildMessage st) (\<lambda>s. result (ServerLogout_readMessage StreamMessage (stream_of s))) = Inr st"
  by (induct st; code_simp)

lemma ServerUnregister_read_build:
  "bindE (ServerUnregister_buildMessage st) (\<lambda>s. result (ServerUnregister_readMessage StreamMessage (stream_of s))) = Inr st"
  by (induct st; code_simp)

lemma ServerCloseAuction_read_build:
  "bindE (ServerCloseAuction_buildMessage st) (\<lambda>s. result (ServerCloseAuction_readMessage StreamMessage (stream_of s))) = Inr st"
  by (induct st; code_simp)

lemma ServerBid_read_build:
  "bindE (ServerBid_buildMessage st) (\<lambda>s. result (ServerBid_readMessage StreamMessage (stream_of s))) = Inr st"
  by (induct st; code_simp)

lemma readStatus_at:
  assumes "no_sep xs" and "length xs \<le> 3" and "is_sep c"
  shows "readString StreamMessage MAX_STATUS_SIZE (stream_at p (xs @ c # s)) = Inr (xs, stream_at (rev xs @ p) (c # s))"
  using assms by (intro readString_at) (auto simp: config_defs no_sep_def)

lemma status_no_sep [simp]:
  "no_sep ''OK''" "no_sep ''NOK''" "no_sep ''ERR''" "no_sep ''NLG''"
  by (simp_all add: no_sep_def is_sep_def)

lemmas readStatus_OK = readStatus_at [of "''OK''", simplified]
lemmas readStatus_NOK = readStatus_at [of "''NOK''", simplified]
lemmas readStatus_ERR = readStatus_at [of "''ERR''", simplified]
lemmas readStatus_NLG = readStatus_at [of "''NLG''", simplified]

text \<open>
  A list entry as the server sends it, the auction's three digits and 1 or 0 for its state, and the
  line the client makes of it.
\<close>

definition list_entry :: "string \<times> bool \<Rightarrow> string" where
  "list_entry e = fst e @ '' '' @ (if snd e then ''1'' else ''0'')"

definition shown_entry :: "string \<times> bool \<Rightarrow> string" where
  "shown_entry e = ''AID: '' @ fst e @ '' --- STATUS: '' @ (if snd e then ''ACTIVE'' else ''OVER'')"

lemma readAuctionAndState_entry:
  assumes "is_aid (fst e)" and "is_sep c"
  shows "readAuctionAndState StreamMessage (stream_at p ('' '' @ list_entry e @ c # s)) =
     Inr (shown_entry e, stream_at (rev ('' '' @ list_entry e) @ p) (c # s))"
proof -
  have aid: "readString StreamMessage AUCTION_ID_SIZE (stream_at q (fst e @ d # t)) =
      Inr (fst e, stream_at (rev (fst e) @ q) (d # t))" for q d t
    using assms(1) by (intro readString_at) (auto simp: is_aid_def config_defs)
  have state: "readString StreamMessage (Suc 0) (stream_at q (d # c # t)) = Inr ([d], stream_at (d # q) (c # t))"
    if "\<not> is_sep d" for q d t
    using that by (simp add: readString_step del: readString.simps(2))
  show ?thesis
    using aid state [of "CHR ''0''"] state [of "CHR ''1''"]
    by (cases "snd e")
      (simp_all add: readAuctionAndState_def list_entry_def shown_entry_def checkIfOver_at readSpace_at is_sep_def)
qed

lemma readAuctions_entries:
  assumes "\<forall>e \<in> set es. is_aid (fst e)"
  shows "\<exists>p'. readAuctions StreamMessage acc (stream_at p (printAuctions (map list_entry es) @ endl)) =
     Some (Inr (acc @ map shown_entry es, stream_at p' endl))"
  using assms
proof (induction es arbitrary: acc p)
  case Nil
  then show ?case
    by (subst readAuctions.simps) (simp add: endl_def readAuctionAndState_def checkIfOver_at)
next
  case (Cons e es)
  obtain c s where rest: "printAuctions (map list_entry es) @ endl = c # s" and c: "is_sep c"
    by (cases es) (auto simp: endl_def)
  have "readAuctionAndState StreamMessage
      (stream_at p (printAuctions (map list_entry (e # es)) @ endl)) =
      Inr (shown_entry e, stream_at (rev ('' '' @ list_entry e) @ p) (printAuctions (map list_entry es) @ endl))"
    using readAuctionAndState_entry [of e c p s] Cons.prems c rest by simp
  moreover have "length (shown_entry e) > 0" by (simp add: shown_entry_def)
  ultimately show ?case
    using Cons.IH [of "acc @ [shown_entry e]" "rev ('' '' @ list_entry e) @ p"] Cons.prems
    by (subst readAuctions.simps) simp
qed

lemma printAuctions_text:
  assumes "\<forall>e \<in> set es. is_aid (fst e)"
  obtains c t p' where "is_sep c" and "printAuctions (map list_entry es) @ endl = c # t"
    and "readAuctions StreamMessage [] (stream_at p (c # t)) = Some (Inr (map shown_entry es, stream_at p' endl))"
proof -
  obtain c t where "printAuctions (map list_entry es) @ endl = c # t" "is_sep c"
    by (cases es) (auto simp: endl_def)
  then show thesis using that readAuctions_entries [OF assms, of "[]" p] by (metis append_Nil)
qed

lemma ServerListStartedAuctions_read_build:
  assumes "\<forall>e \<in> set es. is_aid (fst e)" and "rma_auctions m = []"
    and "ServerListStartedAuctions_buildMessage \<lparr>rma_status = Started_OK, rma_auctions = map list_entry es\<rparr> = Inr s"
  shows "map_option result (ServerListStartedAuctions_readMessage StreamMessage m (stream_of s)) =
     Some (Inr \<lparr>rma_status = (if es = [] then Started_ERR else Started_OK), rma_auctions = map shown_entry es\<rparr>)"
proof -
  obtain c t p' where c: "is_sep c" and rest: "printAuctions (map list_entry es) @ endl = c # t"
    and r: "readAuctions StreamMessage [] (stream_at (''KO AMR'') (c # t)) =
      Some (Inr (map shown_entry es, stream_at p' endl))"
    using printAuctions_text [OF assms(1), of "''KO AMR''"] by blast
  have s: "s = CODE_LIST_AUC_SERVER @ CHR '' '' # ''OK'' @ c # t"
    using assms(3) by (simp add: ServerListStartedAuctions_buildMessage_def rest [symmetric])
  show ?thesis
    using assms(2) c r
    by (simp add: ServerListStartedAuctions_readMessage_def s stream_of_def readChar_at readSpace_at
        readStatus_OK code_defs endl_def readDelimiter_at)
qed

lemma ServerListBiddedAuctions_read_build:
  assumes "\<forall>e \<in> set es. is_aid (fst e)" and "rmb_auctions m = []"
    and "ServerListBiddedAuctions_buildMessage \<lparr>rmb_status = Bidded_OK, rmb_auctions = map list_entry es\<rparr> = Inr s"
  shows "map_option result (ServerListBiddedAuctions_readMessage StreamMessage m (stream_of s)) =
     Some (Inr \<lparr>rmb_status = (if es = [] then Bidded_ERR else Bidded_OK), rmb_auctions = map shown_entry es\<rparr>)"
proof -
  obtain c t p' where c: "is_sep c" and rest: "printAuctions (map list_entry es) @ endl = c # t"
    and r: "readAuctions StreamMessage [] (stream_at (''KO BMR'') (c # t)) =
      Some (Inr (map shown_entry es, stream_at p' endl))"
    using printAuctions_text [OF assms(1), of "''KO BMR''"] by blast
  have s: "s = CODE_LIST_MYB_SERVER @ CHR '' '' # ''OK'' @ c # t"
    using assms(3) by (simp add: ServerListBiddedAuctions_buildMessage_def rest [symmetric])
  show ?thesis
    using assms(2) c r
    by (simp add: ServerListBiddedAuctions_readMessage_def s stream_of_def readChar_at readSpace_at
        readStatus_OK code_defs endl_def readDelimiter_at)
qed

lemma ServerListAllAuctions_read_build:
  assumes "\<forall>e \<in> set es. is_aid (fst e)" and "rls_auctions m = []"
    and "ServerListAllAuctions_buildMessage \<lparr>rls_status = All_OK, rls_auctions = map list_entry es\<rparr> = Inr s"
  shows "map_option result (ServerListAllAuctions_readMessage StreamMessage m (stream_of s)) =
     Some (Inr \<lparr>rls_status = (if es = [] then All_ERR else All_OK), rls_auctions = map shown_entry es\<rparr>)"
proof -
  obtain c t p' where c: "is_sep c" and rest: "printAuctions (map list_entry es) @ endl = c # t"
    and r: "readAuctions StreamMessage [] (stream_at (''KO SLR'') (c # t)) =
      Some (Inr (map shown_entry es, stream_at p' endl))"
    using printAuctions_text [OF assms(1), of "''KO SLR''"] by blast
  have s: "s = CODE_LIST_ALLAUC_SERVER @ CHR '' '' # ''OK'' @ c # t"
    using assms(3) by (simp add: ServerListAllAuctions_buildMessage_def rest [symmetric])
  show ?thesis
    using assms(2) c r
    by (simp add: ServerListAllAuctions_readMessage_def s stream_of_def readChar_at readSpace_at
        readStatus_OK code_defs endl_def readDelimiter_at)
qed

text \<open>
  The answer to an open request: every status but NLG, which has no text.
\<close>

lemma ServerOpenAuction_read_build:
  assumes "ServerOpenAuction_buildMessage m = Inr s" and "unat (roa_auction_id m) < 10 ^ 3"
    and "roa_status m \<noteq> Open_OK \<Longrightarrow> roa_auction_id m0 = roa_auction_id m"
  shows "result (ServerOpenAuction_readMessage StreamMessage m0 (stream_of s)) = Inr m"
  using assms
  by (cases "roa_status m"; cases m)
    (auto simp: ServerOpenAuction_buildMessage_def ServerOpenAuction_readMessage_def stream_of_def endl_def
      readChar_at readSpace_at readDelimiter_at code_defs readStatus_OK readStatus_NOK readStatus_ERR aid_at)

lemma ServerOpenAuction_NLG:
  "roa_status m = Open_NLG \<Longrightarrow> ServerOpenAuction_buildMessage m = Inl MessageBuildingException"
  by (simp add: ServerOpenAuction_buildMessage_def)

lemma ServerShowAsset_read_build:
  assumes "rsa_status m = Asset_OK" and "ServerShowAsset_buildMessage m = Inr s"
    and "no_sep (rsa_fname m)" and "length (rsa_fname m) \<le> 24"
    and "unat (rsa_fsize m) = length (rsa_fdata m)" and "length (rsa_fdata m) \<le> 10000000"
  shows "result (ServerShowAsset_readMessage StreamMessage m0 (stream_of s)) = Inr m"
proof -
  have fs: "unat (rsa_fsize m) < 10 ^ 8" using assms(5,6) by simp
  have fsize: "unat (ucast (rsa_fsize m) :: uint32) = length (rsa_fdata m)"
    using assms(5,6) by (simp add: unsigned_ucast_eq take_bit_nat_eq_self_iff)
  have s: "s = ''RSA OK '' @ rsa_fname m @ CHR '' '' # nat_str (unat (rsa_fsize m)) @ CHR '' '' # rsa_fdata m @ endl"
    using assms(1,2) by (simp add: ServerShowAsset_buildMessage_def code_defs)
  have "m0\<lparr>rsa_status := Asset_OK, rsa_fname := rsa_fname m, rsa_fsize := rsa_fsize m, rsa_fdata := rsa_fdata m\<rparr> = m"
    using assms(1) by (cases m; cases m0) simp
  then show ?thesis
    using assms(3,4) fs readFile_at [OF fsize assms(6), of _ "[CHR 0x0A]"]
    by (simp add: ServerShowAsset_readMessage_def s stream_of_def endl_def readChar_at readSpace_at readDelimiter_at
        code_defs readStatus_OK readString_at no_sep_def MAX_FILENAME_SIZE_def readSize_at [where w = "rsa_fsize m"])
qed

text \<open>Bids and records that fit the fields of the protocol.\<close>

definition wire_bid :: "Bid \<Rightarrow> bool" where
  "wire_bid bid \<longleftrightarrow>
     wire_uid (bidder_UID bid) \<and> unat (bid_value bid) < 10 ^ 6 \<and> wf_Datetime (bid_date_time bid) \<and>
     unat (bid_sec_time bid) < 10 ^ 5"

definition wire_record :: "ServerShowRecord \<Rightarrow> bool" where
  "wire_record m \<longleftrightarrow>
     wire_uid (rrc_host_UID m) \<and> no_sep (rrc_auction_name m) \<and> length (rrc_auction_name m) \<le> 10 \<and>
     no_sep (rrc_asset_fname m) \<and> length (rrc_asset_fname m) \<le> 24 \<and>
     rrc_start_value m \<noteq> 0 \<and> unat (rrc_start_value m) < 10 ^ 6 \<and> wf_Datetime (rrc_start_date_time m) \<and>
     unat (rrc_timeactive m) < 10 ^ 6 \<and> (\<forall>bid \<in> set (rrc_bids m). wire_bid bid) \<and>
     (rrc_end_sec_time m > 0 \<longrightarrow> wf_Datetime (rrc_end_date_time m) \<and> unat (rrc_end_sec_time m) < 10 ^ 5)"

lemma readBid_at:
  assumes "wire_bid bid" and "is_sep c"
  shows "\<exists>p'. readBid StreamMessage (stream_at p ('' '' @ to_string (bidder_UID bid) @ '' '' @
       to_string (bid_value bid) @ '' '' @ convert_date_to_str (bid_date_time bid) @ '' '' @
       to_string (bid_sec_time bid) @ c # s)) = Inr (bid, stream_at p' (c # s))"
  using assms
  by (cases bid)
    (simp add: readBid_def wire_bid_def wire_uid_def readSpace_at readUserId_at readNumber_at
      readDate_at config_defs)

lemma printBids_sep: "is_sep c \<Longrightarrow> \<exists>d t. printBids bids @ c # s = d # t \<and> is_sep d"
  by (cases bids) auto

lemma readBids_none: "d \<noteq> CHR ''B'' \<Longrightarrow> readBids StreamMessage acc (stream_at p (d # t)) = Some (Inr (acc, stream_at p (d # t)))"
  by (subst readBids.simps) (simp add: readCharEqual_at)

text \<open>The loop over the bids, entered after the space before the first B.\<close>

lemma readBids_at:
  assumes "\<forall>bid \<in> set bids. wire_bid bid" and "bids \<noteq> []"
    and "c = CHR 0x0A \<or> c = CHR '' '' \<and> (\<exists>d t. s = d # t \<and> d \<noteq> CHR ''B'')"
  shows "\<exists>p'. readBids StreamMessage acc (stream_at p (tl (printBids bids) @ c # s)) =
     Some (Inr (acc @ bids, stream_at p' (if c = CHR 0x0A then c # s else s)))"
  using assms(1,2)
proof (induction bids arbitrary: acc p)
  case (Cons bid bids)
  have c: "is_sep c" using assms(3) by (auto simp: is_sep_def)
  obtain d t where dt: "printBids bids @ c # s = d # t" "is_sep d" using printBids_sep [OF c] by blast
  obtain p1 where rb: "readBid StreamMessage (stream_at (CHR ''B'' # p) ('' '' @ to_string (bidder_UID bid) @ '' '' @
       to_string (bid_value bid) @ '' '' @ convert_date_to_str (bid_date_time bid) @ '' '' @
       to_string (bid_sec_time bid) @ d # t)) = Inr (bid, stream_at p1 (d # t))"
    using readBid_at [of bid d "CHR ''B'' # p" t] Cons.prems dt by auto
  have step: "readBids StreamMessage acc (stream_at p (tl (printBids (bid # bids)) @ c # s)) =
      (if d = CHR '' '' then readBids StreamMessage (acc @ [bid]) (stream_at (d # p1) t)
       else Some (Inr (acc @ [bid], stream_at p1 (d # t))))"
    using rb dt(1) by (subst readBids.simps) (simp add: readCharEqual_at)
  show ?case
  proof (cases "bids = []")
    case True
    then show ?thesis using assms(3) step dt by (auto simp: readBids_none)
  next
    case False
    then obtain u where "printBids bids = CHR '' '' # u" by (cases bids) auto
    then have "d = CHR '' ''" "t = tl (printBids bids) @ c # s" using dt by auto
    then show ?thesis
      using Cons.IH [of "acc @ [bid]" "d # p1"] Cons.prems False step by simp
  qed
qed simp

lemma readRecordHead_at:
  assumes "wire_record m" and "is_sep c"
  shows "\<exists>p'. readRecordHead StreamMessage m0 (stream_at p ('' '' @ to_string (rrc_host_UID m) @ '' '' @
       rrc_auction_name m @ '' '' @ rrc_asset_fname m @ '' '' @ to_string (rrc_start_value m) @ '' '' @
       convert_date_to_str (rrc_start_date_time m) @ '' '' @ to_string (rrc_timeactive m) @ c # s)) =
     Inr (m0\<lparr>rrc_status := Record_OK, rrc_host_UID := rrc_host_UID m, rrc_auction_name := rrc_auction_name m,
             rrc_asset_fname := rrc_asset_fname m, rrc_start_value := rrc_start_value m,
             rrc_start_date_time := rrc_start_date_time m, rrc_timeactive := rrc_timeactive m\<rparr>,
          stream_at p' (c # s))"
  using assms
  by (simp add: readRecordHead_def wire_record_def wire_uid_def no_sep_def config_defs readSpace_at
      readUserId_at readString_at readAuctionValue_at readDate_at readNumber_at)

definition record_end_text :: "ServerShowRecord \<Rightarrow> string" where
  "record_end_text m =
     (if rrc_end_sec_time m > 0
      then ''E '' @ convert_date_to_str (rrc_end_date_time m) @ '' '' @ to_string (rrc_end_sec_time m) @ endl
      else endl)"

lemma readRecordEnd_at:
  assumes "wire_record m"
  shows "\<exists>b. readRecordEnd StreamMessage m0 (stream_at p (record_end_text m)) =
     Inr (if rrc_end_sec_time m > 0
          then m0\<lparr>rrc_end_date_time := rrc_end_date_time m, rrc_end_sec_time := rrc_end_sec_time m\<rparr>
          else m0, b)"
  using assms
  by (auto simp: readRecordEnd_def record_end_text_def wire_record_def endl_def config_defs readCharEqual_at
      readSpace_at readDate_at readNumber_at readDelimiter_at)

text \<open>What follows the head: the bids and the end.\<close>

lemma readRecord_tail:
  assumes "wire_record m" and "rrc_bids m0 = []"
  shows "\<exists>b. bindO (Some (readCharEqual StreamMessage (CHR '' '')
       (stream_at p (printBids (rrc_bids m) @ (if rrc_end_sec_time m > 0 then '' '' else []) @ record_end_text m)))) (\<lambda>more b.
      if \<not> more then Some (Inr (m0, b))
      else bindO (readBids StreamMessage (rrc_bids m0) b) (\<lambda>bids b.
           Some (readRecordEnd StreamMessage (m0\<lparr>rrc_bids := bids\<rparr>) b)))
     = Some (Inr (if rrc_end_sec_time m > 0
          then m0\<lparr>rrc_bids := rrc_bids m, rrc_end_date_time := rrc_end_date_time m, rrc_end_sec_time := rrc_end_sec_time m\<rparr>
          else m0\<lparr>rrc_bids := rrc_bids m\<rparr>, b))"
proof (cases "rrc_bids m = []")
  case True
  have m0: "m0\<lparr>rrc_bids := []\<rparr> = m0" using assms(2) by (cases m0) simp
  obtain t where e: "rrc_end_sec_time m > 0 \<Longrightarrow> record_end_text m = CHR ''E'' # t" by (simp add: record_end_text_def)
  show ?thesis
  proof (cases "rrc_end_sec_time m > 0")
    case True
    then show ?thesis
      using \<open>rrc_bids m = []\<close> readRecordEnd_at [OF assms(1), of "m0\<lparr>rrc_bids := []\<rparr>" "CHR '' '' # p"] e assms(2)
      by (auto simp: readCharEqual_at readBids_none)
  next
    case False
    then show ?thesis
      using \<open>rrc_bids m = []\<close> m0 by (auto simp: readCharEqual_at record_end_text_def endl_def)
  qed
next
  case False
  then obtain u where u: "printBids (rrc_bids m) = CHR '' '' # u" by (cases "rrc_bids m") auto
  have wb: "\<forall>bid \<in> set (rrc_bids m). wire_bid bid" using assms(1) by (simp add: wire_record_def)
  have "\<exists>p'. readBids StreamMessage [] (stream_at (CHR '' '' # p)
      (u @ (if rrc_end_sec_time m > 0 then '' '' else []) @ record_end_text m)) =
      Some (Inr (rrc_bids m, stream_at p' (record_end_text m)))"
  proof (cases "rrc_end_sec_time m > 0")
    case True
    obtain t where "record_end_text m = CHR ''E'' # t" using True by (simp add: record_end_text_def)
    then show ?thesis
      using readBids_at [OF wb False, of "CHR '' ''" "record_end_text m" "[]" "CHR '' '' # p"] u True by simp
  next
    case False
    then show ?thesis
      using readBids_at [OF wb \<open>rrc_bids m \<noteq> []\<close>, of "CHR 0x0A" "[]" "[]" "CHR '' '' # p"] u
      by (simp add: record_end_text_def endl_def)
  qed
  then obtain p' where "readBids StreamMessage [] (stream_at (CHR '' '' # p)
      (u @ (if rrc_end_sec_time m > 0 then '' '' else []) @ record_end_text m)) =
      Some (Inr (rrc_bids m, stream_at p' (record_end_text m)))" by blast
  then show ?thesis
    using readRecordEnd_at [OF assms(1), of "m0\<lparr>rrc_bids := rrc_bids m\<rparr>" p'] u assms(2)
    by (auto simp: readCharEqual_at)
qed

text \<open>
  A whole record. An object that has never been read into has no bids and end time 0; the end of a
  record that is still active is not printed, so the reader keeps the object's.
\<close>

lemma ServerShowRecord_read_build:
  assumes "rrc_status m = Record_OK" and "wire_record m" and "ServerShowRecord_buildMessage m = Inr s"
    and "rrc_bids m0 = []" and "rrc_end_sec_time m0 = 0"
    and "rrc_end_sec_time m = 0 \<Longrightarrow> rrc_end_date_time m0 = rrc_end_date_time m"
  shows "map_option result (ServerShowRecord_readMessage StreamMessage m0 (stream_of s)) = Some (Inr m)"
proof -
  let ?tail = "printBids (rrc_bids m) @ (if rrc_end_sec_time m > 0 then '' '' else []) @ record_end_text m"
  let ?m1 = "m0\<lparr>rrc_status := Record_OK, rrc_host_UID := rrc_host_UID m, rrc_auction_name := rrc_auction_name m,
      rrc_asset_fname := rrc_asset_fname m, rrc_start_value := rrc_start_value m,
      rrc_start_date_time := rrc_start_date_time m, rrc_timeactive := rrc_timeactive m\<rparr>"
  obtain c t where tail: "?tail = c # t" and c: "is_sep c"
    by (cases "rrc_bids m"; cases "rrc_end_sec_time m > 0") (auto simp: record_end_text_def endl_def)
  let ?head = "to_string (rrc_host_UID m) @ '' '' @
       rrc_auction_name m @ '' '' @ rrc_asset_fname m @ '' '' @ to_string (rrc_start_value m) @ '' '' @
       convert_date_to_str (rrc_start_date_time m) @ '' '' @ to_string (rrc_timeactive m)"
  have s: "s = ''RRC OK '' @ ?head @ ?tail"
    using assms(1,3)
    by (cases "rrc_end_sec_time m > 0")
      (auto simp: ServerShowRecord_buildMessage_def code_defs record_end_text_def)
  obtain p1 where h: "readRecordHead StreamMessage m0 (stream_at (''KO CRR'') ('' '' @ ?head @ c # t)) =
      Inr (?m1, stream_at p1 (c # t))"
    using readRecordHead_at [OF assms(2) c, of m0 "''KO CRR''" t] by auto
  have m: "(if rrc_end_sec_time m > 0
       then ?m1\<lparr>rrc_bids := rrc_bids m, rrc_end_date_time := rrc_end_date_time m, rrc_end_sec_time := rrc_end_sec_time m\<rparr>
       else ?m1\<lparr>rrc_bids := rrc_bids m\<rparr>) = m"
    using assms(1,4-6)
    by (cases "rrc_end_sec_time m = 0") (auto intro!: ServerShowRecord.equality simp: word_neq_0_conv [symmetric])
  have "rrc_bids ?m1 = []" using assms(4) by simp
  from readRecord_tail [OF assms(2) this, of p1, unfolded tail m]
  obtain b where b: "bindO (Some (readCharEqual StreamMessage (CHR '' '') (stream_at p1 (c # t)))) (\<lambda>more b.
      if \<not> more then Some (Inr (?m1, b))
      else bindO (readBids StreamMessage (rrc_bids ?m1) b) (\<lambda>bids b.
           Some (readRecordEnd StreamMessage (?m1\<lparr>rrc_bids := bids\<rparr>) b))) = Some (Inr (m, b))"
    by blast
  show ?thesis
    unfolding ServerShowRecord_readMessage_def s tail stream_of_def
    using h b
    by (simp add: readChar_at readSpace_at code_defs readStatus_OK)
qed

end
