(* ===== verification/Handlers.thy ===== *)
theory Handlers
  imports Database_Api Messages_Server
begin

text \<open>
  server/handlers.cpp: the request handlers. Each reads the rest of the request from the adapter,
  calls the database, turns its value or its exception into the status of the answer, and sends
  the answer. The catch clauses are in the code's order. A handler's value is what it hands to the
  socket, \<open>None\<close> where it returns without an answer; the messages printed to the terminal are left
  out. The two variables a handler may send without having set them are made explicit: the status of
  CloseAuctionRequest, and a date that sscanf could not read.
\<close>

section \<open>Sending\<close>

text \<open>
  send_udp_message and send_tcp_message: the message is built, which may throw, and goes to the
  socket. The handlers call them after their try block.
\<close>

definition send_message :: "exn + string \<Rightarrow> (string option, world) prog" where
  "send_message built = bindP (liftP built) (\<lambda>bytes. ret (Some bytes))"

text \<open>\<open>None\<close>: the handler has returned from a catch clause.\<close>

definition answer :: "('m \<Rightarrow> exn + string) \<Rightarrow> 'm option \<Rightarrow> (string option, world) prog" where
  "answer build out = (case out of None \<Rightarrow> ret None | Some m \<Rightarrow> send_message (build m))"

section \<open>Login, logout, unregister\<close>

definition LoginRequest_handle :: "'b MessageAdapter \<Rightarrow> 'b \<Rightarrow> (string option, world) prog" where
  "LoginRequest_handle A message =
     bindP (try_catch
       (bindP (liftP (result (ClientLoginUser_readMessage A message))) (\<lambda>message_in.
        bindP (LoginUser (to_string (lin_user_id message_in)) (lin_password message_in)) (\<lambda>res.
        if res = DB_LOGIN_NOK then ret (Some Login_NOK)
        else if res = DB_LOGIN_OK then ret (Some Login_OK)
        else if res = DB_LOGIN_REGISTER then ret (Some Login_REG)
        else throw InvalidMessageException)))
       (\<lambda>e. if e = InvalidMessageException then ret (Some Login_ERR) else ret None))
     (answer ServerLoginUser_buildMessage)"

definition LogoutRequest_handle :: "'b MessageAdapter \<Rightarrow> 'b \<Rightarrow> (string option, world) prog" where
  "LogoutRequest_handle A message =
     bindP (try_catch
       (bindP (liftP (result (ClientLogout_readMessage A message))) (\<lambda>message_in.
        bindP (Logout (to_string (lou_user_id message_in)) (lou_password message_in)) (\<lambda>res.
        if res = DB_LOGOUT_UNREGISTERED then ret (Some Logout_UNR)
        else if res = DB_LOGOUT_OK then ret (Some Logout_OK)
        else if res = DB_LOGOUT_NOK then ret (Some Logout_NOK)
        else throw InvalidMessageException)))
       (\<lambda>e. if e = InvalidMessageException then ret (Some Logout_ERR) else ret None))
     (answer ServerLogout_buildMessage)"

definition UnregisterRequest_handle :: "'b MessageAdapter \<Rightarrow> 'b \<Rightarrow> (string option, world) prog" where
  "UnregisterRequest_handle A message =
     bindP (try_catch
       (bindP (liftP (result (ClientUnregister_readMessage A message))) (\<lambda>message_in.
        bindP (Unregister (to_string (unr_user_id message_in)) (unr_password message_in)) (\<lambda>res.
        if res = DB_UNREGISTER_UNKNOWN then ret (Some Unregister_UNR)
        else if res = DB_UNREGISTER_OK then ret (Some Unregister_OK)
        else if res = DB_UNREGISTER_NOK then ret (Some Unregister_NOK)
        else throw InvalidMessageException)))
       (\<lambda>e. if e = InvalidMessageException then ret (Some Unregister_ERR) else ret None))
     (answer ServerUnregister_buildMessage)"

section \<open>The three lists\<close>

text \<open>\<open>a.a_id + " " + std::to_string(state)\<close>.\<close>

definition auction_str :: "AuctionListing \<Rightarrow> string" where
  "auction_str a = al_a_id a @ '' '' @ to_string (if al_active a then 1 else 0)"

definition ListAllAuctionsRequest_handle :: "'b MessageAdapter \<Rightarrow> 'b \<Rightarrow> (string option, world) prog" where
  "ListAllAuctionsRequest_handle A message =
     bindP (try_catch
       (bindP (liftP (result (ClientListAllAuctions_readMessage A message))) (\<lambda>_.
        bindP Db_List (\<lambda>a_list.
        if length a_list = 0 then ret (Some \<lparr>rls_status = All_NOK, rls_auctions = []\<rparr>)
        else ret (Some \<lparr>rls_status = All_OK, rls_auctions = map auction_str a_list\<rparr>))))
       (\<lambda>e. if e = InvalidMessageException then ret (Some \<lparr>rls_status = All_ERR, rls_auctions = []\<rparr>)
            else ret None))
     (answer ServerListAllAuctions_buildMessage)"

definition ListBiddedAuctionsRequest_handle :: "'b MessageAdapter \<Rightarrow> 'b \<Rightarrow> (string option, world) prog" where
  "ListBiddedAuctionsRequest_handle A message =
     bindP (try_catch
       (bindP (liftP (result (ClientListBiddedAuctions_readMessage A message))) (\<lambda>message_in.
        bindP (MyBids (to_string (lmb_user_id message_in))) (\<lambda>a_list.
        bindP (getF (\<lambda>f. CheckUserLoggedIn f (to_string (lmb_user_id message_in)))) (\<lambda>logged.
        if logged \<noteq> 0 then ret (Some \<lparr>rmb_status = Bidded_NLG, rmb_auctions = []\<rparr>)
        else if length a_list = 0 then ret (Some \<lparr>rmb_status = Bidded_NOK, rmb_auctions = []\<rparr>)
        else ret (Some \<lparr>rmb_status = Bidded_OK, rmb_auctions = map auction_str a_list\<rparr>)))))
       (\<lambda>e. if e = InvalidMessageException then ret (Some \<lparr>rmb_status = Bidded_ERR, rmb_auctions = []\<rparr>)
            else ret None))
     (answer ServerListBiddedAuctions_buildMessage)"

definition ListStartedAuctionsRequest_handle :: "'b MessageAdapter \<Rightarrow> 'b \<Rightarrow> (string option, world) prog" where
  "ListStartedAuctionsRequest_handle A message =
     bindP (try_catch
       (bindP (liftP (result (ClientListStartedAuctions_readMessage A message))) (\<lambda>message_in.
        bindP (MyAuctions (to_string (lma_user_id message_in))) (\<lambda>a_list.
        bindP (getF (\<lambda>f. CheckUserLoggedIn f (to_string (lma_user_id message_in)))) (\<lambda>logged.
        if logged \<noteq> 0 then ret (Some \<lparr>rma_status = Started_NLG, rma_auctions = []\<rparr>)
        else if length a_list = 0 then ret (Some \<lparr>rma_status = Started_NOK, rma_auctions = []\<rparr>)
        else ret (Some \<lparr>rma_status = Started_OK, rma_auctions = map auction_str a_list\<rparr>)))))
       (\<lambda>e. if e = InvalidMessageException then ret (Some \<lparr>rma_status = Started_ERR, rma_auctions = []\<rparr>)
            else ret None))
     (answer ServerListStartedAuctions_buildMessage)"

section \<open>Show record\<close>

text \<open>Numbers and dates from the strings of the files.\<close>

definition stoi_u32 :: "string \<Rightarrow> (uint32, world) prog" where
  "stoi_u32 s = bindP (liftP (stoi s)) (\<lambda>v. ret (u32_of_int v))"

definition date_of_str :: "string \<Rightarrow> (Datetime, world) prog" where
  "date_of_str s = (case convert_str_to_date s of None \<Rightarrow> undef | Some d \<Rightarrow> ret d)"

fun record_bids :: "BidInfo list \<Rightarrow> Bid list \<Rightarrow> (Bid list, world) prog" where
  "record_bids [] out = ret out"
| "record_bids (b # bs) out =
     bindP (stoi_u32 (bi_user_id b)) (\<lambda>bidder.
     bindP (stoi_u32 (bi_value b)) (\<lambda>value.
     bindP (date_of_str (bi_current_date b)) (\<lambda>date.
     record_bids bs
       (out @ [\<lparr>bidder_UID = bidder, bid_value = value, bid_date_time = date, bid_sec_time = bi_time_passed b\<rparr>]))))"

definition record_message :: "AuctionRecord \<Rightarrow> (ServerShowRecord, world) prog" where
  "record_message record =
     bindP (stoi_u32 (ar_host_id record)) (\<lambda>host.
     bindP (stoi_u32 (ar_start_value record)) (\<lambda>value.
     bindP (date_of_str (ar_start_datetime record)) (\<lambda>date.
     bindP (stoi_u32 (ar_timeactive record)) (\<lambda>timeactive.
     bindP (record_bids (ar_list record) []) (\<lambda>bids.
     let m = (no_record Record_OK)\<lparr>rrc_host_UID := host, rrc_auction_name := ar_auction_name record,
           rrc_asset_fname := ar_asset_fname record, rrc_start_value := value, rrc_start_date_time := date,
           rrc_timeactive := timeactive, rrc_bids := bids\<rparr>
     in if ar_active record then ret m
        else bindP (date_of_str (ar_end_datetime record)) (\<lambda>end_date.
          ret (m\<lparr>rrc_end_date_time := end_date, rrc_end_sec_time := ar_end_timeelapsed record\<rparr>)))))))"

definition ShowRecordRequest_handle :: "'b MessageAdapter \<Rightarrow> 'b \<Rightarrow> (string option, world) prog" where
  "ShowRecordRequest_handle A message =
     bindP (try_catch
       (bindP (liftP (result (ClientShowRecord_readMessage A message))) (\<lambda>message_in.
        bindP (ShowRecord (convert_auction_id_to_str (src_auction_id message_in))) (\<lambda>record.
        bindP (record_message record) (\<lambda>m. ret (Some m)))))
       (\<lambda>e. if e = InvalidMessageException then ret (Some (no_record Record_ERR))
            else if e = AuctionNotFound then ret (Some (no_record Record_NOK))
            else ret None))
     (answer ServerShowRecord_buildMessage)"

section \<open>Open, close, show asset, bid\<close>

definition OpenAuctionRequest_handle :: "'b MessageAdapter \<Rightarrow> 'b \<Rightarrow> (string option, world) prog" where
  "OpenAuctionRequest_handle A message =
     bindP (try_catch
       (bindP (liftP (result (ClientOpenAuction_readMessage A message))) (\<lambda>m.
        bindP (Db_Open (convert_user_id_to_str (opa_user_id m)) (opa_name m) (opa_password m) (opa_assetf_name m)
          (to_string (opa_start_value m)) (to_string (opa_timeactive m)) (opa_Fsize m) (opa_fdata m)) (\<lambda>aid.
        if aid > 0 then ret (Some \<lparr>roa_status = Open_OK, roa_auction_id = u32_of_int aid\<rparr>)
        else if aid = DB_OPEN_NOT_LOGGED_IN then ret (Some \<lparr>roa_status = Open_NLG, roa_auction_id = 0\<rparr>)
        else ret (Some \<lparr>roa_status = Open_NOK, roa_auction_id = 0\<rparr>))))
       (\<lambda>e. if e = InvalidMessageException then ret (Some \<lparr>roa_status = Open_ERR, roa_auction_id = 0\<rparr>)
            else ret None))
     (answer ServerOpenAuction_buildMessage)"

text \<open>Where CloseAuction returns DB_CLOSE_NOK the status is sent without having been set.\<close>

definition CloseAuctionRequest_handle :: "'b MessageAdapter \<Rightarrow> 'b \<Rightarrow> (string option, world) prog" where
  "CloseAuctionRequest_handle A message =
     bindP (try_catch
       (bindP (liftP (result (ClientCloseAuction_readMessage A message))) (\<lambda>m.
        bindP (CloseAuction (convert_auction_id_to_str (cls_auction_id m)) (convert_user_id_to_str (cls_user_id m))
          (cls_password m)) (\<lambda>res.
        if res \<noteq> DB_CLOSE_NOK then ret (Some Close_OK) else undef)))
       (\<lambda>e. if e = UserDoesNotExist then ret (Some Close_NOK)
            else if e = IncorrectPassword then ret (Some Close_NOK)
            else if e = UserNotLoggedIn then ret (Some Close_NLG)
            else if e = AuctionNotFound then ret (Some Close_EAU)
            else if e = AuctionNotOwnedByUser then ret (Some Close_EOW)
            else if e = AuctionAlreadyClosed then ret (Some Close_END)
            else if e = InvalidMessageException then ret (Some Close_ERR)
            else ret None))
     (answer ServerCloseAuction_buildMessage)"

definition ShowAssetRequest_handle :: "'b MessageAdapter \<Rightarrow> 'b \<Rightarrow> (string option, world) prog" where
  "ShowAssetRequest_handle A message =
     bindP (try_catch
       (bindP (liftP (result (ClientShowAsset_readMessage A message))) (\<lambda>message_in.
        bindP (ShowAsset (convert_auction_id_to_str (sas_auction_id message_in))) (\<lambda>ast_info.
        ret (Some \<lparr>rsa_status = Asset_OK, rsa_fname = as_asset_fname ast_info, rsa_fsize = as_fsize ast_info,
          rsa_fdata = as_fdata ast_info\<rparr>))))
       (\<lambda>e. if e = AssetDoesNotExist then ret (Some (no_asset Asset_NOK))
            else if e = InvalidMessageException then ret (Some (no_asset Asset_ERR))
            else ret None))
     (answer ServerShowAsset_buildMessage)"

definition BidRequest_handle :: "'b MessageAdapter \<Rightarrow> 'b \<Rightarrow> (string option, world) prog" where
  "BidRequest_handle A message =
     bindP (try_catch
       (bindP (liftP (result (ClientBid_readMessage A message))) (\<lambda>m.
        bindP (Db_Bid (convert_user_id_to_str (bid_user_id m)) (bid_password m)
          (convert_auction_id_to_str (bid_auction_id m)) (to_string (bid_amount m))) (\<lambda>res.
        if res = DB_BID_NOK then ret (Some Bid_NOK) else ret (Some Bid_ACC))))
       (\<lambda>e. if e = AuctionAlreadyClosed then ret (Some Bid_NOK)
            else if e = UserNotLoggedIn then ret (Some Bid_NLG)
            else if e = AuctionNotFound then ret (Some Bid_NOK)
            else if e = LargerBidAlreadyExists then ret (Some Bid_REF)
            else if e = BidOnSelf then ret (Some Bid_ILG)
            else if e = InvalidMessageException then ret (Some Bid_ERR)
            else ret None))
     (answer ServerBid_buildMessage)"

section \<open>Wrong requests\<close>

definition WrongRequestUDP_handle :: "'b MessageAdapter \<Rightarrow> 'b \<Rightarrow> (string option, world) prog" where
  "WrongRequestUDP_handle A message = send_message (Inr ServerError_buildMessage)"

definition WrongRequestTCP_handle :: "'b MessageAdapter \<Rightarrow> 'b \<Rightarrow> (string option, world) prog" where
  "WrongRequestTCP_handle A message = send_message (Inr ServerError_buildMessage)"

end
