(* ===== verification/Server_Core.thy ===== *)
theory Server_Core
  imports Handlers
begin

text \<open>
  server/server.cpp: the request manager with its two tables of handlers, the call of a handler for
  a message, and the two loops that take messages from the sockets. A datagram or a connection is an
  event; what the system calls return is part of the event. A TCP connection is served by a child
  process that shares the tree and the semaphore with its parent, so that its run is one step of the
  shared state.
\<close>

section \<open>The handlers and their tables\<close>

datatype RequestHandler =
    LoginRequest
  | LogoutRequest
  | UnregisterRequest
  | ListAllAuctionsRequest
  | ListBiddedAuctionsRequest
  | ListStartedAuctionsRequest
  | ShowRecordRequest
  | OpenAuctionRequest
  | CloseAuctionRequest
  | ShowAssetRequest
  | BidRequest
  | WrongRequestUDP
  | WrongRequestTCP

fun protocol_code :: "RequestHandler \<Rightarrow> string" where
  "protocol_code LoginRequest = CODE_LOGIN_USER"
| "protocol_code LogoutRequest = CODE_LOGOUT_USER"
| "protocol_code UnregisterRequest = CODE_UNREGISTER_USER"
| "protocol_code ListAllAuctionsRequest = CODE_LIST_ALLAUC_USER"
| "protocol_code ListBiddedAuctionsRequest = CODE_LIST_MYB_USER"
| "protocol_code ListStartedAuctionsRequest = CODE_LIST_AUC_USER"
| "protocol_code ShowRecordRequest = CODE_SHOWREC_USER"
| "protocol_code OpenAuctionRequest = CODE_OPEN_AUC_CLIENT"
| "protocol_code CloseAuctionRequest = CODE_CLOSE_AUC_CLIENT"
| "protocol_code ShowAssetRequest = CODE_SHOW_ASSET_CLIENT"
| "protocol_code BidRequest = CODE_BID_CLIENT"
| "protocol_code WrongRequestUDP = CODE_ERROR"
| "protocol_code WrongRequestTCP = CODE_ERROR"

text \<open>The virtual method.\<close>

fun handle :: "RequestHandler \<Rightarrow> 'b MessageAdapter \<Rightarrow> 'b \<Rightarrow> (string option, world) prog" where
  "handle LoginRequest = LoginRequest_handle"
| "handle LogoutRequest = LogoutRequest_handle"
| "handle UnregisterRequest = UnregisterRequest_handle"
| "handle ListAllAuctionsRequest = ListAllAuctionsRequest_handle"
| "handle ListBiddedAuctionsRequest = ListBiddedAuctionsRequest_handle"
| "handle ListStartedAuctionsRequest = ListStartedAuctionsRequest_handle"
| "handle ShowRecordRequest = ShowRecordRequest_handle"
| "handle OpenAuctionRequest = OpenAuctionRequest_handle"
| "handle CloseAuctionRequest = CloseAuctionRequest_handle"
| "handle ShowAssetRequest = ShowAssetRequest_handle"
| "handle BidRequest = BidRequest_handle"
| "handle WrongRequestUDP = WrongRequestUDP_handle"
| "handle WrongRequestTCP = WrongRequestTCP_handle"

text \<open>std::unordered_map::insert leaves an entry that is there already.\<close>

definition map_insert :: "'k \<Rightarrow> 'v \<Rightarrow> ('k \<rightharpoonup> 'v) \<Rightarrow> ('k \<rightharpoonup> 'v)" where
  "map_insert k v m = (case m k of None \<Rightarrow> m(k \<mapsto> v) | Some _ \<Rightarrow> m)"

datatype message_type = TCP_MESSAGE | UDP_MESSAGE

record RequestManager =
  udp_handlers :: "string \<rightharpoonup> RequestHandler"
  tcp_handlers :: "string \<rightharpoonup> RequestHandler"

definition registerRequest :: "RequestHandler \<Rightarrow> message_type \<Rightarrow> RequestManager \<Rightarrow> RequestManager" where
  "registerRequest handler type manager =
     (if type = UDP_MESSAGE
      then manager\<lparr>udp_handlers := map_insert (protocol_code handler) handler (udp_handlers manager)\<rparr>
      else manager\<lparr>tcp_handlers := map_insert (protocol_code handler) handler (tcp_handlers manager)\<rparr>)"

definition registerRequestHandlers :: "RequestManager \<Rightarrow> RequestManager" where
  "registerRequestHandlers manager =
     fold (\<lambda>(handler, type). registerRequest handler type)
       [(LoginRequest, UDP_MESSAGE), (LogoutRequest, UDP_MESSAGE), (UnregisterRequest, UDP_MESSAGE),
        (ListAllAuctionsRequest, UDP_MESSAGE), (ListBiddedAuctionsRequest, UDP_MESSAGE),
        (ListStartedAuctionsRequest, UDP_MESSAGE), (ShowRecordRequest, UDP_MESSAGE),
        (OpenAuctionRequest, TCP_MESSAGE), (CloseAuctionRequest, TCP_MESSAGE),
        (ShowAssetRequest, TCP_MESSAGE), (BidRequest, TCP_MESSAGE),
        (WrongRequestUDP, TCP_MESSAGE), (WrongRequestTCP, TCP_MESSAGE)]
       manager"

definition RequestManager_new :: RequestManager where
  "RequestManager_new = \<lparr>udp_handlers = Map.empty, tcp_handlers = Map.empty\<rparr>"

definition requestManager :: RequestManager where
  "requestManager = registerRequestHandlers RequestManager_new"

text \<open>
  The code is read, the handler looked up. A code in no table stands for CODE_ERROR; where that is
  not in the table either, the end iterator is dereferenced.
\<close>

definition callHandlerRequest ::
    "RequestManager \<Rightarrow> 'b MessageAdapter \<Rightarrow> 'b \<Rightarrow> message_type \<Rightarrow> (string option, world) prog" where
  "callHandlerRequest manager A message type w =
     (case ma_getn A PROTOCOL_SIZE message of
        Inl e \<Rightarrow> (Throw e, w)
      | Inr (rec_proto_code, message) \<Rightarrow>
          (let handlers = (if type = UDP_MESSAGE then udp_handlers manager else tcp_handlers manager)
           in case (case handlers rec_proto_code of None \<Rightarrow> handlers CODE_ERROR | Some h \<Rightarrow> Some h) of
                None \<Rightarrow> (Undef, w)
              | Some h \<Rightarrow> handle h A message w))"

section \<open>Messages from the sockets\<close>

text \<open>
  What a recvfrom finds: a datagram, or a failure, with the value of sig_int at that moment. The
  call asks for SOCKET_BUFFER_LEN bytes, and the rest of a longer datagram is lost.
\<close>

datatype udp_event = Datagram string | Recv_failed bool

text \<open>One round of the UDP server: it goes on, ends the process, or leaves the defined behaviour.\<close>

datatype udp_round = Replied "string option" | Caught exn | Failed | Terminated | Stuck | Broken

definition wait_for_udp_message :: "RequestManager \<Rightarrow> udp_event \<Rightarrow> world \<Rightarrow> udp_round \<times> world" where
  "wait_for_udp_message manager ev w =
     (case ev of
        Recv_failed sig_int \<Rightarrow> (if sig_int then Terminated else Failed, w)
      | Datagram d \<Rightarrow>
          (case callHandlerRequest manager StreamMessage (stream_of (take SOCKET_BUFFER_LEN d)) UDP_MESSAGE w of
             (Ret reply, w') \<Rightarrow> (Replied reply, w')
           | (Throw e, w') \<Rightarrow> (Caught e, w')
           | (Block, w') \<Rightarrow> (Stuck, w')
           | (Undef, w') \<Rightarrow> (Broken, w')))"

text \<open>
  The loop of processUDP. Every exception there is one of std::exception, whose clauses leave the
  count of trials alone, so that the loop only ends with the process.
\<close>

fun processUDP :: "RequestManager \<Rightarrow> udp_event list \<Rightarrow> world \<Rightarrow> udp_round list \<times> world" where
  "processUDP manager [] w = ([], w)"
| "processUDP manager (ev # evs) w =
     (case wait_for_udp_message manager ev w of
        (r, w') \<Rightarrow>
          if r \<in> {Terminated, Stuck, Broken} then ([r], w')
          else (case processUDP manager evs w' of (rs, w'') \<Rightarrow> (r # rs, w'')))"

text \<open>
  The child that serves one connection: what it sends, and how it exits. An exception of the handler
  is caught and ends the child; \<open>fallback\<close> and the chunks are those of TcpMessage.
\<close>

datatype child_exit = EXIT_SUCCESS "string option" | EXIT_FAILURE | Child_stuck | Child_broken

definition processTCPChild :: "RequestManager \<Rightarrow> char \<Rightarrow> string list \<Rightarrow> world \<Rightarrow> child_exit \<times> world" where
  "processTCPChild manager fallback chunks w =
     (case callHandlerRequest manager TcpMessage (TcpMessage_new fallback chunks) TCP_MESSAGE w of
        (Ret reply, w') \<Rightarrow> (EXIT_SUCCESS reply, w')
      | (Throw e, w') \<Rightarrow> (EXIT_FAILURE, w')
      | (Block, w') \<Rightarrow> (Child_stuck, w')
      | (Undef, w') \<Rightarrow> (Child_broken, w'))"

section \<open>The tables\<close>

lemma map_insert_apply [simp]:
  "map_insert k v m k' = (if k' = k then Some (case m k of None \<Rightarrow> v | Some v' \<Rightarrow> v') else m k')"
  by (simp add: map_insert_def split: option.splits)

lemma udp_table:
  "udp_handlers requestManager c =
     (if c = ''LIN'' then Some LoginRequest else if c = ''LOU'' then Some LogoutRequest
      else if c = ''UNR'' then Some UnregisterRequest else if c = ''LST'' then Some ListAllAuctionsRequest
      else if c = ''LMB'' then Some ListBiddedAuctionsRequest
      else if c = ''LMA'' then Some ListStartedAuctionsRequest
      else if c = ''SRC'' then Some ShowRecordRequest else None)"
  by (simp add: requestManager_def registerRequestHandlers_def registerRequest_def RequestManager_new_def code_defs)

lemma tcp_table:
  "tcp_handlers requestManager c =
     (if c = ''OPA'' then Some OpenAuctionRequest else if c = ''CLS'' then Some CloseAuctionRequest
      else if c = ''SAS'' then Some ShowAssetRequest else if c = ''BID'' then Some BidRequest
      else if c = ''ERR'' then Some WrongRequestUDP else None)"
  by (simp add: requestManager_def registerRequestHandlers_def registerRequest_def RequestManager_new_def code_defs)

end
