(* ===== verification/Service.thy ===== *)
theory Service
  imports Records Server_Core
begin

text \<open>
  What the database promises the request handlers, as an interface: a call made for a well-formed
  request keeps the invariant of the server's state, whatever it returns or throws, and a guarded
  call does nothing but wait while nobody has posted the semaphore. The handlers are clients of that
  interface. Every request the database serves is shown to be an instance, so that the rounds of the
  server keep the invariant for every sequence of bytes a client may send.
\<close>

section \<open>The invariant of the server's state\<close>

definition server_inv :: "world \<Rightarrow> bool" where
  "server_inv w \<longleftrightarrow> store_inv (wfs w) \<and> clock_ok w \<and> wsem w \<le> SEM_VALUE_MAX"

lemma server_invD:
  assumes "server_inv w"
  shows "store_inv (wfs w)" and "clock_ok w" and "wsem w \<le> SEM_VALUE_MAX" and "users_inv (wfs w)"
    and "closed_fs (wfs w)"
  using assms store_invD(1,2) [of "wfs w"] by (simp_all add: server_inv_def)

lemma server_inv_sem: "server_inv w \<Longrightarrow> wsem w \<noteq> 0 \<Longrightarrow> sem_ok w"
  by (simp add: server_inv_def sem_ok_def)

lemma server_inv_upd:
  assumes "server_inv w"
  shows "server_inv (w\<lparr>wcalls := n\<rparr>)"
    and "k \<le> wsem w \<Longrightarrow> server_inv (w\<lparr>wsem := k\<rparr>)"
    and "store_inv f \<Longrightarrow> server_inv (w\<lparr>wfs := f\<rparr>)"
  using assms by (auto simp: server_inv_def clock_ok_def)

lemma store_inv_user_step:
  assumes "store_inv f" and "user_step u f f'"
  shows "store_inv f'"
proof (rule store_invI)
  have au: "in_auctions p \<Longrightarrow> look f' p = look f p" for p
    using assms(2) by (simp add: user_step_def)
  have bid: "in_auctions (bidsP a @ [c])" "in_auctions (noendP a)" for a c
    by (simp_all add: in_auctions_def auction_paths)
  have ho: "look f' (hostedP v @ [c]) = look f (hostedP v @ [c])"
    "look f' (biddedP v @ [c]) = look f (biddedP v @ [c])" for v c
    using assms(2) by (simp_all add: user_step_def)
  show "users_inv f'" using assms(2) by (simp add: user_step_def)
  show "is_aid a \<and> auction_inv f' a" if "look f' (auctionP a) \<noteq> None" for a
    using that store_invD(3,4) [OF assms(1), of a]
    by (simp add: au bid auction_inv_def dir_at_def)
  show "entry_inv f' (hostedP v) c" if "is_uid v" "look f' (hostedP v @ [c]) \<noteq> None" for v c
    using store_inv_hosted [OF assms(1) that(1), of c] that(2) by (simp add: ho entry_inv_def au)
  show "entry_inv f' (biddedP v) c" if "is_uid v" "look f' (biddedP v @ [c]) \<noteq> None" for v c
    using store_inv_bidded [OF assms(1) that(1), of c] that(2) by (simp add: ho entry_inv_def au)
qed

lemma store_inv_fresh: "store_inv fresh_fs"
proof (rule store_invI [OF users_inv_fresh])
  have none: "look fresh_fs p = None" if "length p \<ge> 3" and "hd p = ''ASDIR''" for p
    using that by (cases p) (auto simp: look_def fresh_fs_def outer_def)
  show "is_aid a \<and> auction_inv fresh_fs a" if "look fresh_fs (auctionP a) \<noteq> None" for a
    using that none [of "auctionP a"] by (simp add: auction_paths)
  show "entry_inv fresh_fs (hostedP u) c" if "look fresh_fs (hostedP u @ [c]) \<noteq> None" for u c
    using that none [of "hostedP u @ [c]"] by (simp add: user_paths)
  show "entry_inv fresh_fs (biddedP u) c" if "look fresh_fs (biddedP u @ [c]) \<noteq> None" for u c
    using that none [of "biddedP u @ [c]"] by (simp add: user_paths)
qed

section \<open>Programs that keep it\<close>

abbreviation keeps :: "('a, world) prog \<Rightarrow> bool" where
  "keeps \<equiv> preserves server_inv"

lemmas keepsI = preservesI [of server_inv]
lemmas keepsD = preservesD [of server_inv]
lemmas keeps_bindP = preserves_bindP [of server_inv]
lemmas keeps_liftP_bindP = preserves_liftP_bindP [of _ server_inv]
lemmas keeps_try_catch = preserves_try_catch [of server_inv]
lemmas keeps_if = preserves_if [of _ server_inv]

lemma keeps_world [simp, intro]: "keeps (getF g)" "keeps (getE h)" "keeps sys_time"
  by (auto simp: preserves_def getF_def getE_def sys_time_def server_inv_upd split: sum.splits)

lemma keeps_post: "wsem w < SEM_VALUE_MAX \<Longrightarrow> server_inv w \<Longrightarrow> server_inv (snd (post_ret x w))"
  by (simp add: prog_simps server_inv_def clock_ok_def)

lemma keeps_answer [simp, intro]: "keeps (answer build out)"
  by (cases out) (auto simp: answer_def send_message_def intro: keeps_bindP)

section \<open>The interface\<close>

locale store_request =
  fixes call :: "'m \<Rightarrow> ('a, world) prog"
    and valid_message :: "'m \<Rightarrow> bool"
  assumes keeps_call: "valid_message m \<Longrightarrow> keeps (call m)"

text \<open>A guarded call starts with the semaphore: it waits, and does nothing, while nobody posts.\<close>

locale guarded_request = store_request +
  assumes waits: "wsem w = 0 \<Longrightarrow> call m w = (Block, w)"

text \<open>
  A request handler: what was read is handed to the call, \<open>use\<close> makes the answer of its value, \<open>clauses\<close>
  are the catch clauses, \<open>build\<close> the message.
\<close>

definition request_handler ::
    "('m \<Rightarrow> ('a, world) prog) \<Rightarrow> (exn + 'm) \<Rightarrow> ('m \<Rightarrow> 'a \<Rightarrow> ('s option, world) prog) \<Rightarrow>
     (exn \<Rightarrow> ('s option, world) prog) \<Rightarrow> ('s \<Rightarrow> exn + string) \<Rightarrow> (string option, world) prog" where
  "request_handler call r use clauses build =
     bindP (try_catch (bindP (liftP r) (\<lambda>m. bindP (call m) (use m))) clauses) (answer build)"

context store_request
begin

lemma handler_keeps:
  assumes "\<And>m. r = Inr m \<Longrightarrow> valid_message m" and "\<And>m x. keeps (use m x)" and "\<And>e. keeps (clauses e)"
  shows "keeps (request_handler call r use clauses build)"
  unfolding request_handler_def
  by (intro keeps_bindP keeps_try_catch keeps_liftP_bindP assms keeps_call keeps_answer) simp_all

text \<open>A request that cannot be read is answered without the database.\<close>

lemma handler_unread: "request_handler call (Inl e) use clauses build w = bindP (clauses e) (answer build) w"
  by (simp add: request_handler_def bindP_def try_catch_def)

lemma handler_returns:
  assumes "call m w = (Ret x, w')" and "use m x w' = (Ret out, w'')"
  shows "request_handler call (Inr m) use clauses build w = answer build out w''"
  using assms by (simp add: request_handler_def bindP_def try_catch_def)

lemma handler_catches:
  assumes "call m w = (Throw e, w')"
  shows "request_handler call (Inr m) use clauses build w = bindP (clauses e) (answer build) w'"
  using assms by (simp add: request_handler_def bindP_def try_catch_def)

end

context guarded_request
begin

lemma handler_waits:
  assumes "wsem w = 0"
  shows "request_handler call (Inr m) use clauses build w = (Block, w)"
  using waits [OF assms, of m] by (simp add: request_handler_def bindP_def try_catch_def)

end

end
