(* ===== verification/Requests.thy ===== *)
theory Requests
  imports Service
begin

text \<open>
  The requests of the server as instances of the interface of Service: what reading a request
  guarantees, that the call made for it keeps the invariant, and that it waits on the semaphore
  first. The list of all auctions is the one request that does not wait.
\<close>

section \<open>What reading guarantees\<close>

lemma uid_of_wire:
  assumes "0 < unat uid" and "unat uid < 10 ^ 6"
  shows "is_uid (convert_user_id_to_str uid)"
  using assms is_uid_pad0 [OF assms] by (simp add: convert_user_id_to_str_eq)

lemma liftR_eq_Inr_iff: "liftR m b = Inr (x, b') \<longleftrightarrow> m = Inr x \<and> b' = b"
  by (cases m) auto

lemma read_user: "readUserId A b = Inr (uid, b') \<Longrightarrow> is_uid (convert_user_id_to_str uid)"
  using convert_user_id_bound uid_of_wire
  by (fastforce simp: readUserId_def bindR_eq_Inr_iff liftR_eq_Inr_iff)

lemma read_auction:
  assumes "readAuctionId A b = Inr (aid, b')"
  shows "is_aid (convert_auction_id_to_str aid)"
proof -
  have "unat aid < 10 ^ 3"
    using assms convert_auction_id_bound
    by (fastforce simp: readAuctionId_def bindR_eq_Inr_iff liftR_eq_Inr_iff)
  then show ?thesis using is_aid_pad0 [of "unat aid"] by (simp add: convert_auction_id_to_str_eq)
qed

lemma read_password: "readPassword A b = Inr (pw, b') \<Longrightarrow> is_password pw"
  by (auto simp: readPassword_def bindR_eq_Inr_iff liftR_eq_Inr_iff convert_password_eq split: if_splits)

lemma read_value: "readAuctionValue A b = Inr (v, b') \<Longrightarrow> v \<noteq> 0"
  by (auto simp: readAuctionValue_def bindR_eq_Inr_iff liftR_eq_Inr_iff convert_auction_value_def
      bindE_eq_Inr_iff Let_def split: if_splits)

lemma result_Inr: "result r = Inr m \<longleftrightarrow> (\<exists>b. r = Inr (m, b))"
  by (auto simp: result_def split: sum.splits prod.splits)

lemmas request_reads = result_Inr bindR_eq_Inr_iff

definition login_message :: "ClientLoginUser \<Rightarrow> bool" where
  "login_message m \<longleftrightarrow> is_password (lin_password m)"

definition logout_message :: "ClientLogout \<Rightarrow> bool" where
  "logout_message m \<longleftrightarrow> is_password (lou_password m)"

definition unregister_message :: "ClientUnregister \<Rightarrow> bool" where
  "unregister_message m \<longleftrightarrow> is_password (unr_password m)"

definition record_request :: "ClientShowRecord \<Rightarrow> bool" where
  "record_request m \<longleftrightarrow> is_aid (convert_auction_id_to_str (src_auction_id m))"

definition close_message :: "ClientCloseAuction \<Rightarrow> bool" where
  "close_message m \<longleftrightarrow> is_uid (convert_user_id_to_str (cls_user_id m)) \<and>
     is_aid (convert_auction_id_to_str (cls_auction_id m)) \<and> is_password (cls_password m)"

definition bid_message :: "ClientBid \<Rightarrow> bool" where
  "bid_message m \<longleftrightarrow> is_uid (convert_user_id_to_str (bid_user_id m)) \<and>
     is_aid (convert_auction_id_to_str (bid_auction_id m)) \<and> is_password (bid_password m) \<and> bid_amount m \<noteq> 0"

lemma request_messages:
  "result (ClientLoginUser_readMessage A b) = Inr m1 \<Longrightarrow> login_message m1"
  "result (ClientLogout_readMessage A b) = Inr m2 \<Longrightarrow> logout_message m2"
  "result (ClientUnregister_readMessage A b) = Inr m3 \<Longrightarrow> unregister_message m3"
  "result (ClientShowRecord_readMessage A b) = Inr m4 \<Longrightarrow> record_request m4"
  "result (ClientCloseAuction_readMessage A b) = Inr m5 \<Longrightarrow> close_message m5"
  "result (ClientBid_readMessage A b) = Inr m6 \<Longrightarrow> bid_message m6"
  by (auto simp: request_reads ClientLoginUser_readMessage_def ClientLogout_readMessage_def
      ClientUnregister_readMessage_def ClientShowRecord_readMessage_def ClientCloseAuction_readMessage_def
      ClientBid_readMessage_def login_message_def logout_message_def unregister_message_def
      record_request_def close_message_def bid_message_def dest: read_user read_auction read_password read_value)

section \<open>The calls keep the invariant\<close>

lemma keeps_guarded:
  assumes "\<And>w. wsem w = 0 \<Longrightarrow> m w = (Block, w)" and "\<And>w. server_inv w \<Longrightarrow> sem_ok w \<Longrightarrow> server_inv (snd (m w))"
  shows "keeps m"
proof (rule keepsI)
  fix w assume w: "server_inv w"
  then show "server_inv (snd (m w))"
    using assms(1) [of w] assms(2) [OF w] server_inv_sem [OF w] by (cases "wsem w = 0") simp_all
qed

lemma waits_first:
  assumes "wsem w = 0"
  shows "LoginUser u pw w = (Block, w)" and "Logout u pw w = (Block, w)" and "Unregister u pw w = (Block, w)"
    and "Db_Open u n pw fn sv ta fs d w = (Block, w)" and "CloseAuction a u pw w = (Block, w)"
    and "MyAuctions u w = (Block, w)" and "MyBids u w = (Block, w)"
    and "Db_Bid u pw a v w = (Block, w)" and "ShowRecord a w = (Block, w)"
  using assms
  by (simp_all add: LoginUser_def Logout_def Unregister_def Db_Open_def CloseAuction_def MyAuctions_def
      MyBids_def Db_Bid_def ShowRecord_def prog_simps)

lemma keeps_runs_account:
  assumes "server_inv w" and "runs_account u spec m w"
  shows "server_inv (snd (m w))"
  using assms store_inv_user_step server_inv_upd(3) by (auto simp: runs_account_def server_inv_def clock_ok_def)

lemma keeps_account_calls:
  assumes "is_password pw"
  shows "keeps (LoginUser u pw)" and "keeps (Logout u pw)" and "keeps (Unregister u pw)"
proof -
  have "server_inv (snd (LoginUser u pw w))" and "server_inv (snd (Logout u pw w))"
    and "server_inv (snd (Unregister u pw w))" if w: "server_inv w" "sem_ok w" for w
  proof -
    note run = LoginUser_runs Logout_runs Unregister_runs
    note i = server_invD(4) [OF w(1)]
    show "server_inv (snd (LoginUser u pw w))"
      using w LoginUser_not_uid [of u w pw] keeps_runs_account [OF w(1) LoginUser_runs [OF i _ assms w(2)]]
      by (cases "is_uid u") simp_all
    show "server_inv (snd (Logout u pw w))"
      using w Logout_invalid [of u pw w] keeps_runs_account [OF w(1) Logout_runs [OF i _ assms w(2)]]
      by (cases "is_uid u") simp_all
    show "server_inv (snd (Unregister u pw w))"
      using w Unregister_invalid [of u pw w] keeps_runs_account [OF w(1) Unregister_runs [OF i _ assms w(2)]]
      by (cases "is_uid u") simp_all
  qed
  then show "keeps (LoginUser u pw)" "keeps (Logout u pw)" "keeps (Unregister u pw)"
    by (simp_all add: keeps_guarded waits_first)
qed

lemma closed_now_inv:
  assumes "server_inv w" and "look (wfs w) (auctionP a) \<noteq> None" and "\<not> ended (wfs w) a"
  shows "store_inv (closed_now a w)"
  using assms close_stepD(1) [OF close_step_closed_now] server_invD by blast

lemma ended_closed_now [simp]: "is_aid a \<Longrightarrow> ended (closed_now a w) a"
  by (simp add: closed_now_def ended_def fs_simps)

lemma closed_now_later:
  assumes "server_inv w" and "look (wfs w) (auctionP a) \<noteq> None" and "\<not> ended (wfs w) a" and "k \<le> wsem w"
  shows "server_inv (w\<lparr>wsem := k, wcalls := n', wfs := closed_now a (w\<lparr>wcalls := n\<rparr>)\<rparr>)"
    and "server_inv (w\<lparr>wcalls := n', wfs := closed_now a (w\<lparr>wcalls := n\<rparr>)\<rparr>)"
  using closed_now_inv [OF server_inv_upd(1) [OF assms(1), of n], of a] assms
  by (auto simp: server_inv_def clock_ok_def)

section \<open>Auctions\<close>

lemma ShowRecord_known:
  assumes "server_inv w" and "sem_ok w" and "is_aid a" and "look (wfs w) (auctionP a) \<noteq> None"
  shows "\<exists>f' n. ShowRecord a w = (Ret (record_of f' a), w\<lparr>wcalls := n, wfs := f'\<rparr>) \<and> store_inv f' \<and>
      (ended f' a \<longleftrightarrow> ended (wfs w) a \<or> time_over (wfs w) a (wclock w (wcalls w))) \<and>
      (\<forall>p. p \<noteq> endP a \<longrightarrow> look f' p = look (wfs w) p)"
proof (cases "ended (wfs w) a \<or> \<not> time_over (wfs w) a (wclock w (wcalls w))")
  case True
  then show ?thesis
    using ShowRecord_kept [OF server_invD(1) [OF assms(1)] assms(2,4)] server_invD(1) [OF assms(1)]
    by (intro exI [of _ "wfs w"] exI [of _ "Suc (wcalls w)"]) auto
next
  case False
  let ?w = "w\<lparr>wcalls := Suc (wcalls w)\<rparr>"
  have w: "server_inv ?w" by (rule server_inv_upd(1) [OF assms(1)])
  have "look (closed_now a ?w) p = look (wfs w) p" if "p \<noteq> endP a" for p
    using that assms(3) by (simp add: closed_now_def fs_simps)
  then show ?thesis
    using ShowRecord_closes [OF server_invD(1,2) [OF assms(1)] assms(2,4)] closed_now_inv [OF w, of a] assms(4) False
    by (intro exI [of _ "closed_now a ?w"] exI [of _ "Suc (Suc (Suc (wcalls w)))"]) auto
qed

lemma keeps_records:
  shows "is_aid a \<Longrightarrow> keeps (ShowRecord a)" and "keeps (ShowAsset a)"
proof -
  have "server_inv (snd (ShowRecord a w))" if a: "is_aid a" and w: "server_inv w" "sem_ok w" for w
  proof (cases "look (wfs w) (auctionP a) = None")
    case True
    then show ?thesis using ShowRecord_unknown [OF server_invD(1) [OF w(1)] w(2) a] w by simp
  next
    case there: False
    show ?thesis
    proof (cases "ended (wfs w) a \<or> \<not> time_over (wfs w) a (wclock w (wcalls w))")
      case True
      then show ?thesis
        using ShowRecord_kept [OF server_invD(1) [OF w(1)] w(2) there] server_inv_upd(1) [OF w(1)] by simp
    next
      case False
      then show ?thesis
        using ShowRecord_closes [OF server_invD(1,2) [OF w(1)] w(2) there] closed_now_later(2) [OF w(1) there _ order_refl] by auto
    qed
  qed
  then show "is_aid a \<Longrightarrow> keeps (ShowRecord a)" by (simp add: keeps_guarded waits_first)
  have "server_inv (snd (ShowAsset a w))" if w: "server_inv w" for w
    using w by (auto simp: ShowAsset_def prog_simps server_inv_def clock_ok_def split: sum.splits)
  then show "keeps (ShowAsset a)" by (rule keepsI)
qed

lemma keeps_lists:
  shows "keeps (MyAuctions (to_string uid))" and "keeps (MyBids (to_string uid))" and "keeps Db_List"
proof -
  let ?u = "to_string uid"
  have "server_inv (snd (MyAuctions ?u w)) \<and> server_inv (snd (MyBids ?u w))" if w: "server_inv w" "sem_ok w" for w
  proof (cases "look (wfs w) (userP ?u) = None")
    case True
    then show ?thesis
      using MyAuctions_unknown [OF server_invD(1) [OF w(1)] w(2) clean_to_string, of uid] server_inv_upd(2) [OF w(1)] by simp
  next
    case False
    note u = users_invD(6) [OF server_invD(4) [OF w(1)] False] False
    show ?thesis
      using MyAuctions_run [OF server_invD(1,2) [OF w(1)] w(2) u] MyBids_run [OF server_invD(1,2) [OF w(1)] w(2) u] w(1)
      by (auto simp: server_inv_def clock_ok_def dest: closed_thoseD)
  qed
  then show "keeps (MyAuctions ?u)" "keeps (MyBids ?u)" by (simp_all add: keeps_guarded waits_first)
  have "server_inv (snd (Db_List w))" if w: "server_inv w" for w
  proof -
    obtain L f' n where eq: "Db_List w = post_ret L (w\<lparr>wfs := f', wcalls := n\<rparr>)" and f': "store_inv f'"
      using Db_List_post [OF server_invD(1,2) [OF w]] closed_thoseD by blast
    then show ?thesis
      using w by (auto simp: post_ret_def bindP_def semaphore_post_def server_inv_def clock_ok_def)
  qed
  then show "keeps Db_List" by (rule keepsI)
qed

lemma account_cases:
  obtains (out) "\<not> acc_logged_in (account f u)"
  | (wrong) "acc_logged_in (account f u)" "acc_password (account f u) \<noteq> Some pw"
  | (in_) "account f u = \<lparr>acc_password = Some pw, acc_logged_in = True\<rparr>"
  by (cases "account f u") auto

lemma keeps_open:
  assumes "good_opening x" and "is_password pw"
  shows "keeps (open_auction pw x fsize)"
proof -
  have "server_inv (snd (open_auction pw x fsize w))" if w: "server_inv w" "sem_ok w" for w
  proof -
    note i = server_invD [OF w(1)]
    have u: "is_uid (op_user x)" using assms(1) by (simp add: good_opening_def)
    note refused = Db_Open_refused [OF i(1) w(2) u assms(2), of fsize]
    show ?thesis
    proof (cases "next_id (auction_ids (wfs w)) \<le> 999")
      case False
      then show ?thesis using w refused by (cases "acc_logged_in (account (wfs w) (op_user x))") simp_all
    next
      case True
      let ?n = "next_id (auction_ids (wfs w))"
      show ?thesis
      proof (cases rule: account_cases [where f = "wfs w" and u = "op_user x" and pw = pw])
        case in_
        have "look (wfs w) (userP (op_user x)) \<noteq> None" using account_facts [OF i(1) u in_] by simp
        moreover have "is_aid (pad0 3 ?n)" "look (wfs w) (auctionP (pad0 3 ?n)) = None"
          using next_id_fresh [OF True] auction_ids_props(2) [OF i(1)] in_auction_ids [OF i(5)] by blast+
        moreover have "wclock w n < 2 ^ 32" for n using i(2) by (simp add: clock_ok_def)
        ultimately have "store_inv (with_auction (pad0 3 ?n) x (format_tm (gmtime (wclock w (wcalls w))))
            (wclock w (Suc (wcalls w))) (wfs w))"
          using i(1) assms(1) by (intro store_inv_with_auction) (simp_all add: clock_date_words)
        then show ?thesis
          using Db_Open_run [OF i(1,2) w(2) assms(1) in_ refl True, of fsize] w(1)
          by (simp add: server_inv_def clock_ok_def)
      qed (use w refused in simp_all)
    qed
  qed
  then show ?thesis by (intro keeps_guarded) (simp_all add: open_auction_def waits_first)
qed

lemma keeps_close:
  assumes "is_uid u" and "is_aid a" and "is_password pw"
  shows "keeps (CloseAuction a u pw)"
proof -
  have "server_inv (snd (CloseAuction a u pw w))" if w: "server_inv w" "sem_ok w" for w
  proof -
    note i = server_invD [OF w(1)]
    note refused = CloseAuction_refused [OF i(1) w(2) assms(1,3,2)]
    show ?thesis
    proof (cases rule: account_cases [where f = "wfs w" and u = u and pw = pw])
      case in_
      show ?thesis
      proof (cases "may_close (wfs w) u pw a")
        case True
        note run = CloseAuction_run [OF i(1,2) w(2) assms(1) True]
        note there = may_close_facts(9) [OF i(1) assms(1) True]
        show ?thesis
        proof (cases "ended (wfs w) a")
          case True
          then show ?thesis using run(3) server_inv_upd(1) [OF server_inv_upd(2) [OF w(1)]] by simp
        next
          case False
          then show ?thesis
            using run(1,2) closed_now_later(2) [OF w(1) there False order_refl]
            by (cases "time_over (wfs w) a (wclock w (wcalls w))") simp_all
        qed
      next
        case False
        then show ?thesis
          using w in_ refused(4,5) by (cases "a \<in> set (auction_ids (wfs w))") (simp_all add: may_close_def)
      qed
    next
      case out
      then show ?thesis using w refused(1,2) by (cases "look (wfs w) (userP u) = None") simp_all
    qed (use w refused(3) in simp_all)
  qed
  then show ?thesis by (intro keeps_guarded) (simp_all add: waits_first)
qed

lemma keeps_bid:
  assumes "is_uid u" and "is_aid a" and "is_password pw" and "v \<noteq> 0"
  shows "keeps (Db_Bid u pw a (to_string v))"
proof -
  have "server_inv (snd (Db_Bid u pw a (to_string v) w))" if w: "server_inv w" "sem_ok w" for w
  proof -
    note i = server_invD [OF w(1)]
    note refused = Db_Bid_refused [OF i(1) w(2) assms(1,3,2), of "to_string v"]
    show ?thesis
    proof (cases rule: account_cases [where f = "wfs w" and u = u and pw = pw])
      case in_
      show ?thesis
      proof (cases "may_bid (wfs w) u pw a")
        case True
        note there = may_bid_facts(7,8) [OF i(1) assms(1) True]
        have clk: "wclock w n < 2 ^ 32" for n using i(2) by (simp add: clock_ok_def)
        show ?thesis
        proof (cases "ended (wfs w) a")
          case True
          then show ?thesis using refused(5) [OF \<open>may_bid _ _ _ _\<close>] w by simp
        next
          case open_: False
          show ?thesis
          proof (cases "time_over (wfs w) a (wclock w (wcalls w))")
            case over: True
            then show ?thesis
              using Db_Bid_expired [OF i(1,2) w(2) assms(1) True open_ over] closed_now_later(1) [OF w(1) there(1) open_] by simp
          next
            case False
            note run = Db_Bid_run [OF i(1,2) w(2) assms(1) True assms(4) open_ False]
            show ?thesis
            proof (cases "outbids (wfs w) a v")
              case ob: True
              have "store_inv (bid_store u a v w)"
                unfolding bid_store_def
                using store_inv_with_bid(1) [OF i(1) assms(1) there(2,1) outbids_new [OF ob] clock_date_words [OF clk]] .
              then show ?thesis using run(1) [OF ob] w(1) by (simp add: server_inv_def clock_ok_def)
            qed (use run(2) server_inv_upd(1) [OF w(1)] in simp)
          qed
        qed
      next
        case False
        then show ?thesis
          using w in_ refused(3,4) by (cases "a \<in> set (auction_ids (wfs w))") (simp_all add: may_bid_def)
      qed
    qed (use w refused(1,2) in simp_all)
  qed
  then show ?thesis by (intro keeps_guarded) (simp_all add: waits_first)
qed

section \<open>Every request is an instance of the interface\<close>

interpretation login: guarded_request
  "\<lambda>m. LoginUser (to_string (lin_user_id m)) (lin_password m)" login_message
  by unfold_locales (simp_all add: login_message_def keeps_account_calls waits_first)

interpretation logout: guarded_request
  "\<lambda>m. Logout (to_string (lou_user_id m)) (lou_password m)" logout_message
  by unfold_locales (simp_all add: logout_message_def keeps_account_calls waits_first)

interpretation unregister: guarded_request
  "\<lambda>m. Unregister (to_string (unr_user_id m)) (unr_password m)" unregister_message
  by unfold_locales (simp_all add: unregister_message_def keeps_account_calls waits_first)

interpretation started: guarded_request
  "\<lambda>m. MyAuctions (to_string (lma_user_id m))" "\<lambda>_. True"
  by unfold_locales (simp_all add: keeps_lists waits_first)

interpretation bidded: guarded_request
  "\<lambda>m. MyBids (to_string (lmb_user_id m))" "\<lambda>_. True"
  by unfold_locales (simp_all add: keeps_lists waits_first)

interpretation all_auctions: store_request "\<lambda>_. Db_List" "\<lambda>_. True"
  by unfold_locales (simp add: keeps_lists)

interpretation show_record: guarded_request
  "\<lambda>m. ShowRecord (convert_auction_id_to_str (src_auction_id m))" record_request
  by unfold_locales (simp_all add: record_request_def keeps_records waits_first)

interpretation show_asset: store_request
  "\<lambda>m. ShowAsset (convert_auction_id_to_str (sas_auction_id m))" "\<lambda>_. True"
  by unfold_locales (simp add: keeps_records)

interpretation close: guarded_request
  "\<lambda>m. CloseAuction (convert_auction_id_to_str (cls_auction_id m)) (convert_user_id_to_str (cls_user_id m)) (cls_password m)"
  close_message
  by unfold_locales (simp_all add: close_message_def keeps_close waits_first)

interpretation bid: guarded_request
  "\<lambda>m. Db_Bid (convert_user_id_to_str (bid_user_id m)) (bid_password m)
     (convert_auction_id_to_str (bid_auction_id m)) (to_string (bid_amount m))" bid_message
  by unfold_locales (simp_all add: bid_message_def keeps_bid waits_first)

text \<open>
  An auction is only opened safely where its names are words that a start file and a path can hold;
  the server does not check that itself.
\<close>

definition opening_of :: "ClientOpenAuction \<Rightarrow> open_request" where
  "opening_of m =
     \<lparr>op_user = convert_user_id_to_str (opa_user_id m), op_name = opa_name m, op_asset = opa_assetf_name m,
      op_start_value = opa_start_value m, op_timeactive = opa_timeactive m, op_data = opa_fdata m\<rparr>"

definition open_message :: "ClientOpenAuction \<Rightarrow> bool" where
  "open_message m \<longleftrightarrow> good_opening (opening_of m) \<and> is_password (opa_password m)"

lemma keeps_open_message:
  assumes "open_message m"
  shows "keeps (Db_Open (convert_user_id_to_str (opa_user_id m)) (opa_name m) (opa_password m) (opa_assetf_name m)
     (to_string (opa_start_value m)) (to_string (opa_timeactive m)) (opa_Fsize m) (opa_fdata m))"
proof -
  have "keeps (open_auction (opa_password m) (opening_of m) (opa_Fsize m))"
    using assms keeps_open by (simp add: open_message_def)
  then show ?thesis by (simp add: open_auction_def opening_of_def)
qed

interpretation open_: guarded_request
  "\<lambda>m. Db_Open (convert_user_id_to_str (opa_user_id m)) (opa_name m) (opa_password m) (opa_assetf_name m)
     (to_string (opa_start_value m)) (to_string (opa_timeactive m)) (opa_Fsize m) (opa_fdata m)" open_message
  by unfold_locales (simp_all add: keeps_open_message waits_first)

section \<open>The handlers\<close>

lemma keeps_parse [simp, intro]: "keeps (stoi_u32 s)" "keeps (date_of_str s)"
  by (auto simp: stoi_u32_def date_of_str_def intro: keeps_bindP split: option.splits)

lemma keeps_record_bids [simp, intro]: "keeps (record_bids bs out)"
  by (induction bs arbitrary: out) (auto intro: keeps_bindP)

lemma keeps_record_message [simp, intro]: "keeps (record_message record)"
  by (auto simp: record_message_def Let_def intro!: keeps_bindP keeps_if)

lemma udp_handlers_keep:
  "keeps (LoginRequest_handle A b)" "keeps (LogoutRequest_handle A b)" "keeps (UnregisterRequest_handle A b)"
  "keeps (ListAllAuctionsRequest_handle A b)" "keeps (ListBiddedAuctionsRequest_handle A b)"
  "keeps (ListStartedAuctionsRequest_handle A b)" "keeps (ShowRecordRequest_handle A b)"
  unfolding LoginRequest_handle_def LogoutRequest_handle_def UnregisterRequest_handle_def
    ListAllAuctionsRequest_handle_def ListBiddedAuctionsRequest_handle_def ListStartedAuctionsRequest_handle_def
    ShowRecordRequest_handle_def
  by (rule login.handler_keeps [unfolded request_handler_def] logout.handler_keeps [unfolded request_handler_def]
      unregister.handler_keeps [unfolded request_handler_def] all_auctions.handler_keeps [unfolded request_handler_def]
      bidded.handler_keeps [unfolded request_handler_def] started.handler_keeps [unfolded request_handler_def]
      show_record.handler_keeps [unfolded request_handler_def];
      auto dest: request_messages intro!: keeps_bindP keeps_if)+

lemma tcp_handlers_keep:
  "keeps (CloseAuctionRequest_handle A b)" "keeps (ShowAssetRequest_handle A b)" "keeps (BidRequest_handle A b)"
  unfolding CloseAuctionRequest_handle_def ShowAssetRequest_handle_def BidRequest_handle_def
  by (rule close.handler_keeps [unfolded request_handler_def] show_asset.handler_keeps [unfolded request_handler_def]
      bid.handler_keeps [unfolded request_handler_def];
      auto dest: request_messages intro!: keeps_bindP keeps_if)+

lemma open_handler_keeps:
  assumes "\<And>m. result (ClientOpenAuction_readMessage A b) = Inr m \<Longrightarrow> open_message m"
  shows "keeps (OpenAuctionRequest_handle A b)"
  unfolding OpenAuctionRequest_handle_def
  by (rule open_.handler_keeps [unfolded request_handler_def]) (auto intro!: keeps_if assms)

lemma wrong_handlers_keep: "keeps (WrongRequestUDP_handle A b)" "keeps (WrongRequestTCP_handle A b)"
  by (auto simp: WrongRequestUDP_handle_def WrongRequestTCP_handle_def send_message_def intro!: keeps_liftP_bindP)

end
