(* ===== verification/Example_Store.thy ===== *)
theory Example_Store
  imports Requests
begin

text \<open>
  A small store, built with the operations of the model: two users who are logged in, and a store in
  which the first of them has opened an auction. The theorems are applied to these.
\<close>

definition alice :: string where "alice = ''123456''"
definition bob :: string where "bob = ''234567''"
definition alice_pw :: string where "alice_pw = ''password''"
definition bob_pw :: string where "bob_pw = ''secret12''"

definition with_login :: "string \<Rightarrow> string \<Rightarrow> fs \<Rightarrow> fs" where
  "with_login u pw f = AList.update (loginP u) (File []) (AList.update (passP u) (File pw) (with_user_dir u f))"

lemma with_login_step:
  assumes "store_inv f" and "is_uid u" and "is_password pw" and "look f (userP u) = None"
  shows "user_step u f (with_login u pw f)"
    and "account (with_login u pw f) u = \<lparr>acc_password = Some pw, acc_logged_in = True\<rparr>"
    and "store_inv (with_login u pw f)"
    and "look (with_login u pw f) (userP u) = Some Dir"
proof -
  note i = store_invD(1) [OF assms(1)]
  note d = user_step_dir(1) [OF i assms(2,4)]
  have u: "look (with_user_dir u f) (userP u) \<noteq> None" by (simp add: look_with_user_dir assms(2))
  note r = user_step_register [OF users_inv_with_user_dir [OF i assms(2,4)] assms(2,3) u]
  show s: "user_step u f (with_login u pw f)" unfolding with_login_def by (rule user_step_trans [OF d r(1)])
  show "account (with_login u pw f) u = \<lparr>acc_password = Some pw, acc_logged_in = True\<rparr>"
    unfolding with_login_def by (rule r(2))
  show "store_inv (with_login u pw f)" by (rule store_inv_user_step [OF assms(1) s])
  show "look (with_login u pw f) (userP u) = Some Dir"
    by (simp add: with_login_def fs_simps look_with_user_dir assms(2))
qed

definition example_users :: fs where
  "example_users = with_login bob bob_pw (with_login alice alice_pw fresh_fs)"

lemma example_names [simp]: "is_uid alice" "is_uid bob" "is_password alice_pw" "is_password bob_pw" "alice \<noteq> bob" "bob \<noteq> alice"
  by code_simp+

lemma alice_step:
  "user_step alice fresh_fs (with_login alice alice_pw fresh_fs)"
  "account (with_login alice alice_pw fresh_fs) alice = \<lparr>acc_password = Some alice_pw, acc_logged_in = True\<rparr>"
  "store_inv (with_login alice alice_pw fresh_fs)"
  "look (with_login alice alice_pw fresh_fs) (userP alice) = Some Dir"
proof -
  have "look fresh_fs (userP alice) = None" by code_simp
  then show "user_step alice fresh_fs (with_login alice alice_pw fresh_fs)"
    "account (with_login alice alice_pw fresh_fs) alice = \<lparr>acc_password = Some alice_pw, acc_logged_in = True\<rparr>"
    "store_inv (with_login alice alice_pw fresh_fs)"
    "look (with_login alice alice_pw fresh_fs) (userP alice) = Some Dir"
    using with_login_step [OF store_inv_fresh, of alice alice_pw] by simp_all
qed

lemma bob_step:
  "user_step bob (with_login alice alice_pw fresh_fs) example_users"
  "account example_users bob = \<lparr>acc_password = Some bob_pw, acc_logged_in = True\<rparr>"
  "store_inv example_users"
  "look example_users (userP bob) = Some Dir"
proof -
  have "look (with_login alice alice_pw fresh_fs) (userP bob) = None" by code_simp
  then show "user_step bob (with_login alice alice_pw fresh_fs) example_users"
    "account example_users bob = \<lparr>acc_password = Some bob_pw, acc_logged_in = True\<rparr>"
    "store_inv example_users" "look example_users (userP bob) = Some Dir"
    using with_login_step [OF alice_step(3), of bob bob_pw] by (simp_all add: example_users_def)
qed

lemma example_users_facts:
  "store_inv example_users"
  "account example_users alice = \<lparr>acc_password = Some alice_pw, acc_logged_in = True\<rparr>"
  "account example_users bob = \<lparr>acc_password = Some bob_pw, acc_logged_in = True\<rparr>"
  "look example_users (userP alice) \<noteq> None" "look example_users (userP bob) \<noteq> None"
  "auction_ids example_users = []"
proof -
  show ids: "auction_ids example_users = []" by code_simp
  show st: "store_inv example_users" and "account example_users bob = \<lparr>acc_password = Some bob_pw, acc_logged_in = True\<rparr>"
    and "look example_users (userP bob) \<noteq> None"
    by (simp_all add: bob_step)
  show al: "account example_users alice = \<lparr>acc_password = Some alice_pw, acc_logged_in = True\<rparr>"
    using bob_step(1) alice_step(2) by (simp add: user_step_def)
  show "look example_users (userP alice) \<noteq> None" using account_facts(2) [OF st _ al] by simp
qed

definition piano :: open_request where
  "piano = \<lparr>op_user = alice, op_name = ''piano'', op_asset = ''piano.jpg'', op_start_value = 100,
     op_timeactive = 600, op_data = ''keys''\<rparr>"

lemma good_piano [simp]: "good_opening piano" "op_user piano = alice"
  by (simp_all add: piano_def good_opening_def good_name_def is_word_def isspace_def isprint_def clean_name_def NUL_def)

definition example_store :: fs where
  "example_store = with_auction ''001'' piano (format_tm (gmtime 1000)) 1000 example_users"

definition example_world :: "fs \<Rightarrow> nat \<Rightarrow> nat \<Rightarrow> world" where
  "example_world f sem t = \<lparr>wfs = f, wsem = sem, wclock = (\<lambda>_. t), wcalls = 0\<rparr>"

lemma example_world_sel [simp]:
  "wfs (example_world f sem t) = f" "wsem (example_world f sem t) = sem" "wclock (example_world f sem t) n = t"
  "wcalls (example_world f sem t) = 0"
  by (simp_all add: example_world_def)

lemma example_inv:
  assumes "store_inv f" and "t < 2 ^ 32" and "sem \<le> 2"
  shows "server_inv (example_world f sem t)" and "clock_ok (example_world f sem t)"
    and "0 < sem \<Longrightarrow> sem_ok (example_world f sem t)"
  using assms by (simp_all add: server_inv_def clock_ok_def sem_ok_def SEM_VALUE_MAX_def)

lemma example_aid [simp]: "is_aid ''001''"
  by code_simp

lemma example_new_auction:
  "look example_users (auctionP ''001'') = None" "date_words (format_tm (gmtime 1000))"
  using in_auction_ids [OF store_invD(2) [OF example_users_facts(1)], of "''001''"] example_users_facts(6)
  by (simp_all add: clock_date_words)

lemmas example_opened = example_users_facts(1) example_aid example_new_auction(1) good_piano(1)
  example_users_facts(4) [folded good_piano(2)] example_new_auction(2)

lemma example_store_inv: "store_inv example_store"
  unfolding example_store_def by (rule store_inv_with_auction [OF example_opened]) simp

lemma example_store_facts:
  "auction_ids example_store = [''001'']" "\<not> ended example_store ''001''"
  "look example_store (auctionP ''001'') \<noteq> None" "auction_inv example_store ''001''"
  "account example_store u = account example_users u"
  "look example_store (userP u) = look example_users (userP u)"
proof -
  note p = with_auction_props [OF example_opened, of 1000]
  note lk = look_with_auction [OF example_aid good_piano(1)]
  show i: "auction_ids example_store = [''001'']" "\<not> ended example_store ''001''"
    using p(1,5) example_users_facts(6) by (simp_all add: example_store_def)
  show l: "look example_store (auctionP ''001'') \<noteq> None"
    using in_auction_ids [OF store_invD(2) [OF example_store_inv], of "''001''"] i(1) by simp
  show "auction_inv example_store ''001''" by (rule store_invD(4) [OF example_store_inv l])
  show "account example_store u = account example_users u"
    by (simp add: account_def text_at_def example_store_def lk)
  show "look example_store (userP u) = look example_users (userP u)" by (simp add: example_store_def lk)
qed

lemma example_start:
  "start_of example_store ''001'' = \<lparr>st_user_id = alice, st_name = ''piano'', st_asset_fname = ''piano.jpg'',
     st_start_value = to_string 100, st_timeactive = to_string 600, st_current_date = format_tm (gmtime 1000),
     st_current_time = 1000\<rparr>"
  "timeactive_of example_store ''001'' = 600" "start_value_of example_store ''001'' = 100"
proof -
  show s: "start_of example_store ''001'' = \<lparr>st_user_id = alice, st_name = ''piano'', st_asset_fname = ''piano.jpg'',
     st_start_value = to_string 100, st_timeactive = to_string 600, st_current_date = format_tm (gmtime 1000),
     st_current_time = 1000\<rparr>"
    using with_auction_props(3) [OF example_opened, of 1000] by (simp add: example_store_def piano_def)
  show "timeactive_of example_store ''001'' = 600" "start_value_of example_store ''001'' = 100"
    by (simp_all add: timeactive_of_def start_value_of_def s u32_of_int_def)
qed

lemma example_lists:
  "hosted_ids example_store alice = [''001'']" "hosted_ids example_store bob = []" "bids example_store ''001'' = {}"
proof -
  have a: "hosted_ids example_users alice = []" and b: "hosted_ids example_users bob = []" by code_simp+
  show "hosted_ids example_store alice = [''001'']"
    using with_auction_props(2) [OF example_opened, of 1000] a by (simp add: example_store_def)
  have none: "look example_users (hostP bob x) = None" for x
    using listed_ids_props(2) [OF store_invD(2) [OF example_users_facts(1)], of "hostedP bob" x]
      store_inv_lists(1) [OF example_users_facts(1), of bob] b
    by (simp add: hosted_ids_def hostP_def)
  have "look example_store (hostP bob x) = None" for x
    by (simp add: example_store_def look_with_auction none)
  then have "x \<notin> set (hosted_ids example_store bob)" for x
    using listed_ids_props(2) [OF store_invD(2) [OF example_store_inv], of "hostedP bob" x]
      store_inv_lists(1) [OF example_store_inv, of bob]
    by (simp add: hosted_ids_def hostP_def)
  then show "hosted_ids example_store bob = []" by (meson last_in_set)
  note cl = store_invD(2) [OF example_users_facts(1)]
  have "look example_users (bidsP ''001'') = None"
    unfolding bidsP_def by (rule look_no_dir [OF cl _ example_new_auction(1)]) simp
  then have "look example_users (bidP ''001'' n) = None" for n
    unfolding bidP_def by (rule look_no_dir [OF cl, rotated]) simp
  then show "bids example_store ''001'' = {}" by (simp add: bids_def example_store_def look_with_auction)
qed

end
