(* ===== verification/Store_Theorems.thy ===== *)
theory Store_Theorems
  imports Example_Store
begin

text \<open>
  The properties of the database (server/database.cpp): what each method returns or throws and what
  it leaves in the store, on every branch that a well-formed store can take.
\<close>

section \<open>Opening an auction\<close>

text \<open>C6: An opening of the form good_opening, for a logged-in user with the right password, returns the next auction
  id, at most 999, and adds to the store exactly the auction's directory, its start file, its asset and the entry in the
  host's list; the new store is well-formed, the id was not in use, and the semaphore is given back. The store is
  well-formed before, the semaphore free and the clock below 2^32. The form: the name of the auction and that of the
  asset file are not empty, of at most 24 characters, all printable and none whitespace, the latter without a slash and
  not just one dot or two; the start value is below 10^6 and the duration from 1 to 99999.\<close>

theorem open_succeeds:
  assumes "store_inv (wfs w)" and "clock_ok w" and "sem_ok w" and "good_opening x"
    and "account (wfs w) (op_user x) = \<lparr>acc_password = Some pw, acc_logged_in = True\<rparr>"
    and "n = next_id (auction_ids (wfs w))" and "n \<le> 999"
    and "f' = with_auction (pad0 3 n) x (format_tm (gmtime (wclock w (wcalls w)))) (wclock w (Suc (wcalls w))) (wfs w)"
  shows "Db_Open (op_user x) (op_name x) pw (op_asset x) (to_string (op_start_value x)) (to_string (op_timeactive x))
      fsize (op_data x) w = (Ret (int n), w\<lparr>wcalls := Suc (Suc (wcalls w)), wfs := f'\<rparr>) \<and>
    store_inv f' \<and> pad0 3 n \<notin> set (auction_ids (wfs w)) \<and> auction_ids f' = auction_ids (wfs w) @ [pad0 3 n] \<and>
    hosted_ids f' (op_user x) = hosted_ids (wfs w) (op_user x) @ [pad0 3 n] \<and> \<not> ended f' (pad0 3 n)"
proof -
  note u = account_facts(2) [OF assms(1) _ assms(5)]
  have "is_uid (op_user x)" using assms(4) by (simp add: good_opening_def)
  note u = u [OF this]
  note id = next_id_fresh [of "auction_ids (wfs w)", folded assms(6), OF assms(7)]
  have new: "is_aid (pad0 3 n)" "pad0 3 n \<notin> set (auction_ids (wfs w))"
    using id auction_ids_props(2) [OF assms(1)] by blast+
  then have "look (wfs w) (auctionP (pad0 3 n)) = None"
    using in_auction_ids [OF store_invD(2) [OF assms(1)]] by blast
  note args = assms(1) new(1) this assms(4) u
  have clk: "wclock w k < 2 ^ 32" for k using assms(2) by (simp add: clock_ok_def)
  note props = with_auction_props [OF args clock_date_words [OF clk [of "wcalls w"]] clk [of "Suc (wcalls w)"], folded assms(8)]
  have "store_inv f'"
    unfolding assms(8) by (rule store_inv_with_auction [OF args clock_date_words [OF clk] clk])
  then show ?thesis
    using Db_Open_run [OF assms(1-7), of fsize] props new(2) by (simp add: open_auction_def assms(8))
qed

lemma open_succeeds_example:
  "\<exists>f'. Db_Open alice ''piano'' alice_pw ''piano.jpg'' (to_string 100) (to_string 600) 4 ''keys'' (example_world example_users 1 1000) =
     (Ret 1, (example_world example_users 1 1000)\<lparr>wcalls := 2, wfs := f'\<rparr>) \<and> auction_ids f' = [''001'']"
proof -
  let ?w = "example_world example_users 1 1000"
  have n: "1 = next_id (auction_ids (wfs ?w))" by (simp add: example_users_facts next_id_def)
  have pad: "pad0 3 1 = ''001''" by code_simp
  have args: "store_inv (wfs ?w)" "clock_ok ?w" "sem_ok ?w" "(1::nat) \<le> 999"
    "account (wfs ?w) (op_user piano) = \<lparr>acc_password = Some alice_pw, acc_logged_in = True\<rparr>"
    by (simp_all add: example_users_facts example_inv)
  show ?thesis
    using open_succeeds [OF args(1-3) good_piano(1) args(5) n args(4) refl, of 4, unfolded pad]
    by (simp add: piano_def numeral_2_eq_2 example_users_facts del: One_nat_def) blast
qed

text \<open>Opening an auction is refused, and nothing in the store changes: UserNotLoggedIn is thrown for a user
  who is not logged in, and DB_OPEN_CREATE_FAIL is returned for a wrong password or when the next id is above 999.\<close>

theorem open_refused:
  assumes "store_inv (wfs w)" and "sem_ok w" and "is_uid u" and "is_password pw"
    and "\<not> acc_logged_in (account (wfs w) u) \<or> acc_password (account (wfs w) u) \<noteq> Some pw \<or>
      next_id (auction_ids (wfs w)) > 999"
  shows "Db_Open u name pw fname (to_string sv) (to_string ta) fsize data w =
    (if acc_logged_in (account (wfs w) u) then Ret DB_OPEN_CREATE_FAIL else Throw UserNotLoggedIn, w)"
  using Db_Open_refused [OF assms(1,2), of "\<lparr>op_user = u, op_name = name, op_asset = fname, op_start_value = sv,
      op_timeactive = ta, op_data = data\<rparr>" pw fsize] assms(3-5)
  by (auto simp: open_auction_def)

lemma open_refused_example:
  "Db_Open bob ''piano'' alice_pw ''piano.jpg'' (to_string 100) (to_string 600) 4 ''keys'' (example_world example_users 1 1000) =
     (Ret DB_OPEN_CREATE_FAIL, example_world example_users 1 1000)"
proof -
  have "alice_pw \<noteq> bob_pw" by code_simp
  then show ?thesis
    using open_refused [of "example_world example_users 1 1000" bob alice_pw "''piano''" "''piano.jpg''" 100 600 4 "''keys''"]
    by (simp add: example_users_facts example_inv)
qed

text \<open>C30: What was put into an auction is what is taken out: the asset of an auction that a logged-in user with the right
  password has just opened is shown with the file name and the bytes given when it was opened. The opening has the form
  good_opening, so that the file name is a single printable word of at most 24 characters without a slash, not just
  one dot or two, the name of the auction a printable word of at most 24 characters, the start value is below 10^6
  and the duration from 1 to 99999; there is an id left, the store is well-formed, the semaphore free and the clock
  below 2^32.\<close>

theorem show_asset_of_opened:
  assumes "store_inv (wfs w)" and "clock_ok w" and "sem_ok w" and "good_opening x"
    and "account (wfs w) (op_user x) = \<lparr>acc_password = Some pw, acc_logged_in = True\<rparr>"
    and "next_id (auction_ids (wfs w)) \<le> 999"
  shows "\<exists>n w'. Db_Open (op_user x) (op_name x) pw (op_asset x) (to_string (op_start_value x))
      (to_string (op_timeactive x)) fsize (op_data x) w = (Ret (int n), w') \<and>
    ShowAsset (pad0 3 n) w' = (Ret \<lparr>as_asset_fname = op_asset x, as_fsize = word_of_nat (length (op_data x)),
      as_fdata = op_data x\<rparr>, w')"
proof -
  have uid: "is_uid (op_user x)" using assms(4) by (simp add: good_opening_def)
  note id = next_id_fresh [OF assms(6)]
  have new: "is_aid (pad0 3 (next_id (auction_ids (wfs w))))"
      "pad0 3 (next_id (auction_ids (wfs w))) \<notin> set (auction_ids (wfs w))"
    using id auction_ids_props(2) [OF assms(1)] by blast+
  then have "look (wfs w) (auctionP (pad0 3 (next_id (auction_ids (wfs w))))) = None"
    using in_auction_ids [OF store_invD(2) [OF assms(1)]] by blast
  note args = assms(1) new(1) this assms(4) account_facts(2) [OF assms(1) uid assms(5)]
  have clk: "wclock w k < 2 ^ 32" for k using assms(2) by (simp add: clock_ok_def)
  note shown = ShowAsset_opened [OF args clock_date_words [OF clk [of "wcalls w"]] clk [of "Suc (wcalls w)"]]
  show ?thesis
    using Db_Open_run [OF assms(1-5) refl assms(6), of fsize] assms(3)
    by (auto simp: open_auction_def sem_ok_def shown)
qed

lemma show_asset_of_opened_example:
  "\<exists>n w'. Db_Open alice ''piano'' alice_pw ''piano.jpg'' (to_string 100) (to_string 600) 4 ''keys'' (example_world example_users 1 1000) =
      (Ret (int n), w') \<and> ShowAsset (pad0 3 n) w' =
      (Ret \<lparr>as_asset_fname = ''piano.jpg'', as_fsize = 4, as_fdata = ''keys''\<rparr>, w')"
  using show_asset_of_opened [of "example_world example_users 1 1000" piano alice_pw 4]
  by (simp add: example_users_facts example_inv next_id_def) (simp add: piano_def)

section \<open>Bidding\<close>

text \<open>C5: A bid on a running auction by a user who may bid is accepted exactly when it is above every earlier
  bid, or above the start value where there is none; an accepted bid becomes the new highest bid, stored with its
  bidder, and a refused one throws LargerBidAlreadyExists and leaves the store as it was.\<close>

theorem bid_outcome:
  assumes "store_inv (wfs w)" and "clock_ok w" and "sem_ok w" and "is_uid u" and "may_bid (wfs w) u pw a"
    and "v \<noteq> 0" and "\<not> ended (wfs w) a" and "\<not> time_over (wfs w) a (wclock w (wcalls w))"
  shows "if (if bids (wfs w) a = {} then start_value_of (wfs w) a < v else \<forall>b \<in> bids (wfs w) a. b < v)
    then \<exists>f'. Db_Bid u pw a (to_string v) w =
        (Ret DB_BID_ACCEPT, w\<lparr>wcalls := Suc (Suc (Suc (wcalls w))), wfs := f'\<rparr>) \<and> store_inv f' \<and>
        bids f' a = insert v (bids (wfs w) a) \<and> bi_user_id (bid_of f' a v) = u
    else Db_Bid u pw a (to_string v) w = (Throw LargerBidAlreadyExists, w\<lparr>wcalls := Suc (wcalls w)\<rparr>)"
proof -
  note run = Db_Bid_run [OF assms]
  note may = may_bid_facts(8,7) [OF assms(1,4,5)]
  have clk: "wclock w k < 2 ^ 32" for k using assms(2) by (simp add: clock_ok_def)
  show ?thesis
  proof (cases "outbids (wfs w) a v")
    case True
    note st = store_inv_with_bid [OF assms(1,4) may outbids_new [OF True] clock_date_words [OF clk]]
    show ?thesis using True run(1) [OF True] st by (auto simp: bid_store_def outbids_def split: if_splits)
  next
    case False
    then show ?thesis using run(2) [OF False] by (auto simp: outbids_def split: if_splits)
  qed
qed

lemma example_may_bid:
  "may_bid example_store bob bob_pw ''001''" "\<not> time_over example_store ''001'' 1100" "time_over example_store ''001'' 2000"
  by (simp_all add: may_bid_def example_store_facts example_users_facts example_lists time_over_def example_start)

lemma bid_outcome_example:
  "(\<exists>f'. Db_Bid bob bob_pw ''001'' (to_string 150) (example_world example_store 1 1100) =
      (Ret DB_BID_ACCEPT, (example_world example_store 1 1100)\<lparr>wcalls := 3, wfs := f'\<rparr>) \<and> bids f' ''001'' = {150}) \<and>
   Db_Bid bob bob_pw ''001'' (to_string 100) (example_world example_store 1 1100) =
      (Throw LargerBidAlreadyExists, (example_world example_store 1 1100)\<lparr>wcalls := 1\<rparr>)"
proof -
  let ?w = "example_world example_store 1 1100"
  have args: "store_inv (wfs ?w)" "clock_ok ?w" "sem_ok ?w" "is_uid bob" "may_bid (wfs ?w) bob bob_pw ''001''"
    "\<not> ended (wfs ?w) ''001''" "\<not> time_over (wfs ?w) ''001'' (wclock ?w (wcalls ?w))"
    by (simp_all add: example_store_inv example_inv example_may_bid example_store_facts)
  show ?thesis
    using bid_outcome [OF args(1-5) _ args(6,7), of 150] bid_outcome [OF args(1-5) _ args(6,7), of 100]
    by (auto simp: example_lists example_start numeral_3_eq_3 word_less_nat_alt)
qed

text \<open>Bids that are refused leave the store and the semaphore as they were: UserNotLoggedIn for a user who is
  not logged in, DB_BID_NOK for a wrong password, AuctionNotFound for an unknown auction, BidOnSelf for the host's
  own auction, AuctionAlreadyClosed for an auction with an end file.\<close>

theorem bid_refused:
  assumes "store_inv (wfs w)" and "sem_ok w" and "is_uid u" and "is_password pw" and "is_aid a"
    and "\<not> may_bid (wfs w) u pw a \<or> ended (wfs w) a"
  shows "Db_Bid u pw a (to_string v) w =
    (if \<not> acc_logged_in (account (wfs w) u) then Throw UserNotLoggedIn
     else if acc_password (account (wfs w) u) \<noteq> Some pw then Ret DB_BID_NOK
     else if a \<notin> set (auction_ids (wfs w)) then Throw AuctionNotFound
     else if a \<in> set (hosted_ids (wfs w) u) then Throw BidOnSelf
     else Throw AuctionAlreadyClosed, w)"
proof (cases rule: account_cases [where f = "wfs w" and u = u and pw = pw])
  case in_
  then show ?thesis
    using Db_Bid_refused [OF assms(1-5), of "to_string v"] assms(6) by (auto simp: may_bid_def)
qed (use Db_Bid_refused(1,2) [OF assms(1-5), of "to_string v"] in simp_all)

lemma bid_refused_example:
  "Db_Bid alice alice_pw ''001'' (to_string 150) (example_world example_store 1 1100) =
     (Throw BidOnSelf, example_world example_store 1 1100)"
  using bid_refused [of "example_world example_store 1 1100" alice alice_pw "''001''" 150]
  by (simp add: example_store_inv example_inv may_bid_def example_store_facts example_users_facts example_lists)

text \<open>C39: A bid on an auction whose time is over closes the auction and throws AuctionAlreadyClosed, but the
  semaphore taken at the start of the method is not given back: its value is one less than before.\<close>

theorem bid_on_expired_keeps_semaphore:
  assumes "store_inv (wfs w)" and "clock_ok w" and "sem_ok w" and "is_uid u" and "may_bid (wfs w) u pw a"
    and "\<not> ended (wfs w) a" and "time_over (wfs w) a (wclock w (wcalls w))"
  shows "\<exists>w'. Db_Bid u pw a (to_string v) w = (Throw AuctionAlreadyClosed, w') \<and> ended (wfs w') a \<and>
    store_inv (wfs w') \<and> wsem w' + 1 = wsem w"
proof -
  let ?w = "w\<lparr>wcalls := Suc (wcalls w)\<rparr>"
  have w: "server_inv w" using assms(1-3) by (simp add: server_inv_def sem_ok_def)
  have "store_inv (closed_now a ?w)"
    using closed_now_inv [OF server_inv_upd(1) [OF w]] may_bid_facts(7) [OF assms(1,4,5)] assms(6) by simp
  then show ?thesis
    using Db_Bid_expired [OF assms, of v] sem_okD(1) [OF assms(3)] may_bid_facts(5) [OF assms(1,4,5)] by simp
qed

lemma bid_on_expired_keeps_semaphore_example:
  "\<exists>w'. Db_Bid bob bob_pw ''001'' (to_string 150) (example_world example_store 1 2000) = (Throw AuctionAlreadyClosed, w') \<and>
     wsem w' = 0"
  using bid_on_expired_keeps_semaphore [of "example_world example_store 1 2000" bob bob_pw "''001''" 150]
  by (auto simp: example_store_inv example_inv example_may_bid example_store_facts)

section \<open>Closing\<close>

text \<open>C7: The host closes a running auction with DB_CLOSE_OK; where its time is over it is closed all the same
  and AuctionAlreadyClosed thrown. Either way the auction has an end file afterwards, whose seconds never exceed
  the time the auction was to last, the store is well-formed and the semaphore is given back.\<close>

theorem close_outcome:
  assumes "store_inv (wfs w)" and "clock_ok w" and "sem_ok w" and "is_uid u" and "may_close (wfs w) u pw a"
    and "\<not> ended (wfs w) a"
  shows "\<exists>f' e. CloseAuction a u pw w =
      (if time_over (wfs w) a (wclock w (wcalls w)) then Throw AuctionAlreadyClosed else Ret DB_CLOSE_OK,
       w\<lparr>wcalls := Suc (Suc (Suc (wcalls w))), wfs := f'\<rparr>) \<and>
    store_inv f' \<and> GetEnd (end_path a) f' = Inr (Some e) \<and> en_end_time e \<le> timeactive_of (wfs w) a \<and>
    (\<forall>p. p \<noteq> endP a \<longrightarrow> look f' p = look (wfs w) p)"
proof -
  let ?w = "w\<lparr>wcalls := Suc (wcalls w)\<rparr>"
  let ?f = "closed_now a ?w"
  have w: "server_inv ?w" using assms(1-3) by (simp add: server_inv_def sem_ok_def clock_ok_def)
  note m = may_close_facts(9,7) [OF assms(1,4,5)]
  have inv: "store_inv ?f" using closed_now_inv [OF w] m(1) assms(6) by simp
  have clk: "wclock ?w (wcalls ?w) < 2 ^ 32" using assms(2) by (simp add: clock_ok_def)
  obtain e where e: "parse_end (closing_text (wfs ?w) a (wclock ?w (wcalls ?w)) (wclock ?w (Suc (wcalls ?w)))) = Inr (Some e)"
      "en_end_time e \<le> timeactive_of (wfs ?w) a"
    using closing_text_parse [OF clk, of "wfs ?w" a "wclock ?w (Suc (wcalls ?w))"] by blast
  have "GetEnd (end_path a) ?f = Inr (Some e)"
    using e(1) m(2) by (simp add: GetEnd_eq store_invD(2) [OF inv]) (simp add: closed_now_def fs_simps)
  moreover have "look ?f p = look (wfs w) p" if "p \<noteq> endP a" for p
    using that m(2) by (simp add: closed_now_def fs_simps)
  ultimately show ?thesis
    using CloseAuction_run(1,2) [OF assms(1-6)] inv e(2)
    by (intro exI [of _ ?f] exI [of _ e]) simp
qed

lemma close_outcome_example:
  "\<exists>f'. CloseAuction ''001'' alice alice_pw (example_world example_store 1 1100) =
     (Ret DB_CLOSE_OK, (example_world example_store 1 1100)\<lparr>wcalls := 3, wfs := f'\<rparr>) \<and> store_inv f'"
proof -
  let ?w = "example_world example_store 1 1100"
  have "may_close (wfs ?w) alice alice_pw ''001''"
    by (simp add: may_close_def example_store_facts example_users_facts example_lists)
  then show ?thesis
    using close_outcome [of ?w alice alice_pw "''001''"]
    by (auto simp: example_store_inv example_inv example_store_facts example_may_bid numeral_3_eq_3)
qed

text \<open>A close that is refused leaves the store and the semaphore as they were: UserDoesNotExist,
  UserNotLoggedIn, IncorrectPassword, AuctionNotFound and AuctionNotOwnedByUser, in this order of precedence.\<close>

theorem close_refused:
  assumes "store_inv (wfs w)" and "sem_ok w" and "is_uid u" and "is_password pw" and "is_aid a"
    and "\<not> may_close (wfs w) u pw a"
  shows "CloseAuction a u pw w =
    (Throw (if look (wfs w) (userP u) = None then UserDoesNotExist
      else if \<not> acc_logged_in (account (wfs w) u) then UserNotLoggedIn
      else if acc_password (account (wfs w) u) \<noteq> Some pw then IncorrectPassword
      else if a \<notin> set (auction_ids (wfs w)) then AuctionNotFound else AuctionNotOwnedByUser), w)"
proof (cases rule: account_cases [where f = "wfs w" and u = u and pw = pw])
  case in_
  then show ?thesis
    using CloseAuction_refused [OF assms(1-5)] assms(6) account_facts(2) [OF assms(1,3) in_] by (auto simp: may_close_def)
next
  case wrong
  then have "look (wfs w) (userP u) \<noteq> None"
    using account_no_dir(1) [OF store_invD(1) [OF assms(1)] assms(3)] by (cases "look (wfs w) (userP u)") simp_all
  then show ?thesis using wrong CloseAuction_refused(3) [OF assms(1-5)] by simp
qed (use CloseAuction_refused(1,2) [OF assms(1-5)] in simp)

lemma close_refused_example:
  "CloseAuction ''001'' bob bob_pw (example_world example_store 1 1100) =
     (Throw AuctionNotOwnedByUser, example_world example_store 1 1100)"
  using close_refused [of "example_world example_store 1 1100" bob bob_pw "''001''"]
  by (simp add: example_store_inv example_inv may_close_def example_store_facts example_users_facts example_lists)

text \<open>Closing an auction that is closed already is not noticed by the check meant for it, which looks for a
  file of another name: the close fails inside, with AuctionAlreadyClosed, and the semaphore is not given back.\<close>

theorem close_twice_keeps_semaphore:
  assumes "store_inv (wfs w)" and "clock_ok w" and "sem_ok w" and "is_uid u" and "may_close (wfs w) u pw a"
    and "ended (wfs w) a"
  shows "CloseAuction a u pw w = (Throw AuctionAlreadyClosed, w\<lparr>wsem := wsem w - 1, wcalls := Suc (Suc (Suc (wcalls w)))\<rparr>)"
  by (rule CloseAuction_run(3) [OF assms])

lemma close_twice_keeps_semaphore_example:
  "\<exists>f w'. ended f ''001'' \<and> CloseAuction ''001'' alice alice_pw (example_world f 1 1100) = (Throw AuctionAlreadyClosed, w') \<and> wsem w' = 0"
proof -
  let ?w = "example_world example_store 1 1100"
  let ?f = "closed_now ''001'' ?w"
  have "store_inv ?f"
    using closed_now_inv [of ?w "''001''"] by (simp add: example_store_inv example_inv example_store_facts)
  moreover have "may_close ?f alice alice_pw ''001''"
  proof -
    have "look ?f p = look example_store p" if "p \<noteq> endP ''001''" for p
      using that by (simp add: closed_now_def fs_simps)
    moreover have "close_step ''001'' example_store ?f"
      using close_step_closed_now [of ?w "''001''"] by (simp add: example_store_inv example_inv example_store_facts)
    then have "children ?f d = children example_store d" if "d \<noteq> auctionP ''001''" for d
      using that close_stepD(4) [OF _ example_store_inv example_store_facts(3)] by blast
    moreover have "auctionsP \<noteq> auctionP ''001''" by (simp add: auctionP_def)
    ultimately show ?thesis
      using example_users_facts(2) example_store_facts(1) example_store_facts(5) [of alice] example_lists(1)
      by (simp add: may_close_def account_def text_at_def auction_ids_def hosted_ids_def)
  qed
  ultimately have "CloseAuction ''001'' alice alice_pw (example_world ?f 1 1100) =
      (Throw AuctionAlreadyClosed, (example_world ?f 1 1100)\<lparr>wsem := 0, wcalls := 3\<rparr>)"
    using close_twice_keeps_semaphore [of "example_world ?f 1 1100" alice alice_pw "''001''"]
    by (simp add: example_inv numeral_3_eq_3)
  then show ?thesis by (intro exI [of _ ?f]) simp
qed

section \<open>Lists\<close>

text \<open>C10: The list of all auctions names every auction of the store once, in increasing order of its id, with the
  state it has in the store left behind. For each auction that had not ended there is a reading of the clock, made by
  the method between its start and its end, such that the auction is closed exactly if its time was over at that
  reading; nothing else in the store changes. The store is well-formed, the clock below 2^32 and the semaphore below its
  greatest value. The method posts the semaphore it never waited for.\<close>

theorem list_outcome:
  assumes "store_inv (wfs w)" and "clock_ok w" and "wsem w < SEM_VALUE_MAX"
  shows "\<exists>L f' n. Db_List w = (Ret L, w\<lparr>wfs := f', wcalls := n, wsem := Suc (wsem w)\<rparr>) \<and>
    mset (map al_a_id L) = mset (auction_ids (wfs w)) \<and>
    sorted_wrt (\<lambda>x y. CompareByAid x y = Inr True) L \<and>
    (\<forall>x \<in> set L. al_active x \<longleftrightarrow> \<not> ended f' (al_a_id x)) \<and>
    (\<forall>a \<in> set (auction_ids (wfs w)).
       if ended (wfs w) a then ended f' a
       else \<exists>m. wcalls w \<le> m \<and> m < n \<and> (ended f' a \<longleftrightarrow> time_over (wfs w) a (wclock w m))) \<and>
    (\<forall>p. (\<forall>a \<in> set (auction_ids (wfs w)). ended (wfs w) a \<or> p \<noteq> endP a) \<longrightarrow> look f' p = look (wfs w) p) \<and>
    store_inv f'"
proof -
  obtain L f' n where eq: "Db_List w = (Ret L, w\<lparr>wfs := f', wcalls := n, wsem := Suc (wsem w)\<rparr>)"
    and c: "closed_those (auction_ids (wfs w)) (wfs w) f' (readings w n)"
    and l: "listing_of (auction_ids (wfs w)) f' L"
    using Db_List_run [OF assms] by blast
  have "is_aid (al_a_id x)" if "x \<in> set L" for x
  proof -
    have "al_a_id x \<in> set (map al_a_id L)" using that by simp
    then have "al_a_id x \<in> set (auction_ids (wfs w))"
      using l by (metis listing_of_def mset_eq_setD)
    then show ?thesis by (rule auction_ids_props(2) [OF assms(1)])
  qed
  then have "sorted_wrt (\<lambda>x y. CompareByAid x y = Inr True) L"
    using l by (auto simp: listing_of_def CompareByAid_eq intro: sorted_wrt_mono_rel [of L id_less])
  moreover have "\<forall>a \<in> set (auction_ids (wfs w)). if ended (wfs w) a then ended f' a
      else \<exists>m. wcalls w \<le> m \<and> m < n \<and> (ended f' a \<longleftrightarrow> time_over (wfs w) a (wclock w m))"
    using c by (fastforce simp: closed_those_def looked_at_def readings_def split: if_splits)
  ultimately show ?thesis
    using eq c l by (intro exI [of _ L] exI [of _ f'] exI [of _ n]) (simp add: closed_those_def listing_of_def)
qed

lemma list_outcome_example:
  "\<exists>L w'. Db_List (example_world example_store 1 1100) = (Ret L, w') \<and> map al_a_id L = [''001''] \<and> wsem w' = 2"
proof -
  let ?w = "example_world example_store 1 1100"
  obtain L f' n where "Db_List ?w = (Ret L, ?w\<lparr>wfs := f', wcalls := n, wsem := Suc (wsem ?w)\<rparr>)"
    and "mset (map al_a_id L) = mset (auction_ids (wfs ?w))"
    using list_outcome [of ?w] by (auto simp: example_store_inv example_inv SEM_VALUE_MAX_def)
  then show ?thesis by (auto simp: example_store_facts simp del: mset_map)
qed

text \<open>The auctions a user hosts, and those a user has bid on, are listed like the list of all auctions: the
  entries of the user's directory, once each, in order, with their states; the semaphore is given back.\<close>

theorem my_lists_outcome:
  assumes "store_inv (wfs w)" and "clock_ok w" and "sem_ok w" and "is_uid u" and "look (wfs w) (userP u) \<noteq> None"
  shows "(\<exists>L f' n. MyAuctions u w = (Ret L, w\<lparr>wfs := f', wcalls := n\<rparr>) \<and> store_inv f' \<and>
      mset (map al_a_id L) = mset (hosted_ids (wfs w) u) \<and> sorted_wrt id_less L \<and>
      (\<forall>x \<in> set L. al_active x \<longleftrightarrow> \<not> ended f' (al_a_id x))) \<and>
    (\<exists>L f' n. MyBids u w = (Ret L, w\<lparr>wfs := f', wcalls := n\<rparr>) \<and> store_inv f' \<and>
      mset (map al_a_id L) = mset (bidded_ids (wfs w) u) \<and> sorted_wrt id_less L \<and>
      (\<forall>x \<in> set L. al_active x \<longleftrightarrow> \<not> ended f' (al_a_id x)))"
  using MyAuctions_run [OF assms] MyBids_run [OF assms] unfolding listing_of_def
  by (blast dest: closed_thoseD)

lemma my_lists_outcome_example:
  "\<exists>L w'. MyAuctions alice (example_world example_store 1 1100) = (Ret L, w') \<and> map al_a_id L = [''001'']"
proof -
  have "\<exists>L f' n. MyAuctions alice (example_world example_store 1 1100) =
      (Ret L, (example_world example_store 1 1100)\<lparr>wfs := f', wcalls := n\<rparr>) \<and>
      mset (map al_a_id L) = mset (hosted_ids example_store alice)"
    using my_lists_outcome [of "example_world example_store 1 1100" alice]
    by (auto simp: example_store_inv example_inv example_store_facts example_users_facts)
  then show ?thesis by (auto simp: example_lists simp del: mset_map)
qed

section \<open>Records\<close>

text \<open>C11: The record of an auction is its start file, its bids in increasing order of value, of which the fifty
  highest are shown, and its end file where it has one. An auction whose time is over is closed first, so that the
  record shown has an end. An unknown auction throws AuctionNotFound.\<close>

theorem show_record_outcome:
  assumes "store_inv (wfs w)" and "clock_ok w" and "sem_ok w" and "is_aid a"
  shows "if a \<notin> set (auction_ids (wfs w)) then ShowRecord a w = (Throw AuctionNotFound, w)
    else \<exists>f' n. ShowRecord a w = (Ret (record_of f' a), w\<lparr>wcalls := n, wfs := f'\<rparr>) \<and> store_inv f' \<and>
      (ended f' a \<longleftrightarrow> ended (wfs w) a \<or> time_over (wfs w) a (wclock w (wcalls w))) \<and>
      (\<forall>p. p \<noteq> endP a \<longrightarrow> look f' p = look (wfs w) p)"
proof (cases "look (wfs w) (auctionP a) = None")
  case True
  then show ?thesis
    using ShowRecord_unknown [OF assms(1,3,4)] in_auction_ids [OF store_invD(2) [OF assms(1)]] by simp
next
  case False
  have "server_inv w" using assms(1-3) by (simp add: server_inv_def sem_ok_def)
  then show ?thesis
    using ShowRecord_known [OF _ assms(3,4) False] in_auction_ids [OF store_invD(2) [OF assms(1)]] False by simp
qed

lemma show_record_outcome_example:
  "\<exists>r w'. ShowRecord ''001'' (example_world example_store 1 2000) = (Ret r, w') \<and> ended (wfs w') ''001'' \<and>
     ShowRecord ''002'' (example_world example_store 1 2000) = (Throw AuctionNotFound, example_world example_store 1 2000)"
proof -
  have "is_aid ''002''" by code_simp
  then show ?thesis
    using show_record_outcome [of "example_world example_store 1 2000" "''001''"]
      show_record_outcome [of "example_world example_store 1 2000" "''002''"]
    by (auto simp: example_store_inv example_inv example_store_facts example_may_bid)
qed

text \<open>A record never shows more than fifty bids, shows them in increasing order of value, and leaves out a bid
  only where every bid it shows is higher.\<close>

theorem record_shows_highest:
  assumes "store_inv f" and "a \<in> set (auction_ids f)"
  shows "length (ar_list (record_of f a)) = min 50 (card (bids f a)) \<and>
    sorted_wrt (\<lambda>x y. CompareByValue x y = Inr True) (ar_list (record_of f a)) \<and>
    (\<forall>u \<in> bids f a. \<forall>v \<in> bids f a. bid_of f a v \<notin> set (ar_list (record_of f a)) \<longrightarrow>
       bid_of f a u \<in> set (ar_list (record_of f a)) \<longrightarrow> v < u)"
proof -
  note l = auction_ids_props(3) [OF assms]
  show ?thesis
    using shown_bids_props [OF store_invD(4,2) [OF assms(1)]] l auction_ids_props(2) [OF assms] assms(1)
    by (simp add: record_of_def Let_def)
qed

lemma record_shows_highest_example: "length (ar_list (record_of example_store ''001'')) = 0"
  using record_shows_highest [OF example_store_inv, of "''001''"] by (simp add: example_store_facts example_lists)

end
