(* ===== verification/Server_Runs.thy ===== *)
theory Server_Runs
  imports Requests
begin

text \<open>
  The server as a whole: a round for any datagram keeps the invariant, so does a child process for
  any connection that does not open an auction under a bad name, and so do all the states the server
  can reach from its start by rounds and children in any order. What happens while the semaphore is
  not posted, and for a code the table does not know.
\<close>

section \<open>One message\<close>

lemma udp_message_keeps: "keeps (callHandlerRequest requestManager A message UDP_MESSAGE)"
proof (rule keepsI)
  fix w :: world
  assume w: "server_inv w"
  show "server_inv (snd (callHandlerRequest requestManager A message UDP_MESSAGE w))"
  proof (cases "ma_getn A PROTOCOL_SIZE message")
    case (Inr r)
    obtain c b where r: "r = (c, b)" by (cases r)
    show ?thesis
      using Inr r w udp_handlers_keep [of A b, THEN keepsD, OF w]
      by (simp add: callHandlerRequest_def Let_def udp_table CODE_ERROR_def)
  qed (simp add: callHandlerRequest_def w)
qed

text \<open>A TCP message that is no request to open an auction, or one with names that can be kept.\<close>

definition safe_connection :: "char \<Rightarrow> string list \<Rightarrow> bool" where
  "safe_connection fallback chunks \<longleftrightarrow>
     (case tcp_getn PROTOCOL_SIZE (TcpMessage_new fallback chunks) of
        Inl _ \<Rightarrow> True
      | Inr (c, b) \<Rightarrow> c = ''OPA'' \<longrightarrow>
          (case result (ClientOpenAuction_readMessage TcpMessage b) of Inl _ \<Rightarrow> True | Inr m \<Rightarrow> open_message m))"

lemma tcp_message_keeps:
  assumes "safe_connection fallback chunks"
  shows "keeps (callHandlerRequest requestManager TcpMessage (TcpMessage_new fallback chunks) TCP_MESSAGE)"
proof (rule keepsI)
  fix w :: world
  assume w: "server_inv w"
  show "server_inv (snd (callHandlerRequest requestManager TcpMessage (TcpMessage_new fallback chunks) TCP_MESSAGE w))"
  proof (cases "tcp_getn PROTOCOL_SIZE (TcpMessage_new fallback chunks)")
    case (Inr r)
    obtain c b where r: "r = (c, b)" by (cases r)
    have "server_inv (snd (OpenAuctionRequest_handle TcpMessage b w))" if "c = ''OPA''"
      using assms Inr r that w
      by (intro keepsD [OF open_handler_keeps]) (simp_all add: safe_connection_def)
    then show ?thesis
      using Inr r w tcp_handlers_keep [of TcpMessage b, THEN keepsD, OF w]
        wrong_handlers_keep [of TcpMessage b, THEN keepsD, OF w]
      by (simp add: callHandlerRequest_def Let_def tcp_table CODE_ERROR_def)
  qed (simp add: callHandlerRequest_def w)
qed

section \<open>Rounds and children\<close>

lemma udp_round_keeps:
  assumes "server_inv w"
  shows "server_inv (snd (wait_for_udp_message requestManager ev w))"
proof (cases ev)
  case (Datagram d)
  then show ?thesis
    using keepsD [OF udp_message_keeps assms, of StreamMessage "stream_of (take SOCKET_BUFFER_LEN d)"]
    by (auto simp: wait_for_udp_message_def split: prod.splits outcome.splits)
qed (simp add: wait_for_udp_message_def assms)

lemma child_keeps:
  assumes "server_inv w" and "safe_connection fallback chunks"
  shows "server_inv (snd (processTCPChild requestManager fallback chunks w))"
  using keepsD [OF tcp_message_keeps [OF assms(2)] assms(1)]
  by (auto simp: processTCPChild_def split: prod.splits outcome.splits)

lemma udp_run_keeps: "server_inv w \<Longrightarrow> server_inv (snd (processUDP requestManager evs w))"
proof (induction evs arbitrary: w)
  case (Cons ev evs)
  obtain r w' where r: "wait_for_udp_message requestManager ev w = (r, w')" by fastforce
  then have "server_inv w'" using udp_round_keeps [OF Cons.prems, of ev] by simp
  then show ?case using Cons.IH [of w'] r by (auto split: prod.splits)
qed simp

text \<open>
  What a started server can come to: rounds of the UDP process and children of the TCP process, in
  any order, each as one step.
\<close>

inductive server_reaches :: "world \<Rightarrow> world \<Rightarrow> bool" where
  started: "wfs w = [] \<Longrightarrow> CreateBaseDir True w = (Ret r, w') \<Longrightarrow> server_reaches w w'"
| datagram: "server_reaches w w' \<Longrightarrow> server_reaches w (snd (wait_for_udp_message requestManager ev w'))"
| connection: "server_reaches w w' \<Longrightarrow> safe_connection fallback chunks \<Longrightarrow>
    server_reaches w (snd (processTCPChild requestManager fallback chunks w'))"

inductive_cases server_reaches_startedE: "server_reaches w w'"

lemma server_reaches_inv:
  assumes "server_reaches w w'" and "clock_ok w"
  shows "server_inv w'"
  using assms
proof (induction rule: server_reaches.induct)
  case (started w r w')
  then show ?case
    using CreateBaseDir_fresh [of w] store_inv_fresh
    by (auto simp: server_inv_def clock_ok_def SEM_VALUE_MAX_def)
qed (simp_all add: udp_round_keeps child_keeps)

section \<open>While nobody posts\<close>

text \<open>How a round ends.\<close>

definition round_of :: "string option outcome \<times> world \<Rightarrow> udp_round \<times> world" where
  "round_of r =
     (case r of
        (Ret reply, w') \<Rightarrow> (Replied reply, w')
      | (Throw e, w') \<Rightarrow> (Caught e, w')
      | (Block, w') \<Rightarrow> (Stuck, w')
      | (Undef, w') \<Rightarrow> (Broken, w'))"

lemma round_of_simps [simp]:
  "round_of (Ret reply, w) = (Replied reply, w)" "round_of (Throw e, w) = (Caught e, w)"
  "round_of (Block, w) = (Stuck, w)" "round_of (Undef, w) = (Broken, w)"
  by (simp_all add: round_of_def)

text \<open>A datagram as the handler of its code sees it.\<close>

lemma udp_round:
  assumes "3 \<le> length d" and "length d \<le> 512" and "udp_handlers requestManager (take 3 d) = Some h"
  shows "wait_for_udp_message requestManager (Datagram d) w =
     round_of (handle h StreamMessage (stream_at (rev (take 3 d)) (drop 3 d)) w)"
  using assms
  by (simp add: wait_for_udp_message_def callHandlerRequest_def stream_of_def stream_getn_at config_defs Let_def
      round_of_def)

text \<open>A code of three characters that is in neither table.\<close>

lemma udp_unknown_code:
  assumes "3 \<le> length d" and "length d \<le> 512" and "udp_handlers requestManager (take 3 d) = None"
  shows "wait_for_udp_message requestManager (Datagram d) w = (Broken, w)"
  using assms
  by (simp add: wait_for_udp_message_def callHandlerRequest_def stream_of_def stream_getn_at config_defs Let_def
      udp_table CODE_ERROR_def split: if_splits)

section \<open>The requests a client sends\<close>

datatype udp_request =
    Q_login ClientLoginUser
  | Q_logout ClientLogout
  | Q_unregister ClientUnregister
  | Q_started ClientListStartedAuctions
  | Q_bidded ClientListBiddedAuctions
  | Q_all
  | Q_record ClientShowRecord

fun request_bytes :: "udp_request \<Rightarrow> string" where
  "request_bytes (Q_login m) = ClientLoginUser_buildMessage m"
| "request_bytes (Q_logout m) = ClientLogout_buildMessage m"
| "request_bytes (Q_unregister m) = ClientUnregister_buildMessage m"
| "request_bytes (Q_started m) = ClientListStartedAuctions_buildMessage m"
| "request_bytes (Q_bidded m) = ClientListBiddedAuctions_buildMessage m"
| "request_bytes Q_all = ClientListAllAuctions_buildMessage"
| "request_bytes (Q_record m) = ClientShowRecord_buildMessage m"

text \<open>A user id of six digits without a leading zero, a password, an auction id.\<close>

fun good_request :: "udp_request \<Rightarrow> bool" where
  "good_request (Q_login m) = (wire_uid (lin_user_id m) \<and> is_password (lin_password m))"
| "good_request (Q_logout m) = (wire_uid (lou_user_id m) \<and> is_password (lou_password m))"
| "good_request (Q_unregister m) = (wire_uid (unr_user_id m) \<and> is_password (unr_password m))"
| "good_request (Q_started m) = wire_uid (lma_user_id m)"
| "good_request (Q_bidded m) = wire_uid (lmb_user_id m)"
| "good_request Q_all = True"
| "good_request (Q_record m) = (unat (src_auction_id m) < 10 ^ 3)"

fun request_handler_of :: "udp_request \<Rightarrow> RequestHandler" where
  "request_handler_of (Q_login m) = LoginRequest"
| "request_handler_of (Q_logout m) = LogoutRequest"
| "request_handler_of (Q_unregister m) = UnregisterRequest"
| "request_handler_of (Q_started m) = ListStartedAuctionsRequest"
| "request_handler_of (Q_bidded m) = ListBiddedAuctionsRequest"
| "request_handler_of Q_all = ListAllAuctionsRequest"
| "request_handler_of (Q_record m) = ShowRecordRequest"

lemmas client_builds =
  ClientLoginUser_buildMessage_def ClientLogout_buildMessage_def ClientUnregister_buildMessage_def
  ClientListStartedAuctions_buildMessage_def ClientListBiddedAuctions_buildMessage_def
  ClientListAllAuctions_buildMessage_def ClientShowRecord_buildMessage_def

lemma request_fits:
  assumes "good_request q"
  shows "3 \<le> length (request_bytes q)" and "length (request_bytes q) \<le> 512"
proof -
  have l: "length (to_string v) \<le> 498" "length (to_string v) \<le> 507" for v
    using length_to_string [of v] by simp_all
  have a: "length (sprintf_0d 3 (sint aid)) = 3" if "unat aid < 10 ^ 3" for aid :: uint32
    using is_aid_pad0 [OF that] convert_auction_id_to_str_eq [OF that]
    by (simp add: is_aid_def convert_auction_id_to_str_def)
  show "3 \<le> length (request_bytes q)" by (cases q) (simp_all add: client_builds code_defs)
  show "length (request_bytes q) \<le> 512"
    using assms by (cases q) (simp_all add: client_builds code_defs endl_def is_password_def a l)
qed

lemma request_code: "udp_handlers requestManager (take 3 (request_bytes q)) = Some (request_handler_of q)"
  by (cases q) (simp_all add: client_builds code_defs udp_table)

text \<open>The round for a request is its handler on what follows the code.\<close>

lemma request_round:
  assumes "good_request q"
  shows "wait_for_udp_message requestManager (Datagram (request_bytes q)) w =
     round_of (handle (request_handler_of q) StreamMessage
       (stream_at (rev (take 3 (request_bytes q))) (drop 3 (request_bytes q))) w)"
  by (rule udp_round [OF request_fits [OF assms] request_code])

text \<open>The request list apart, a request sent while nobody posts leaves the server waiting.\<close>

lemma request_stuck:
  assumes "good_request q" and "q \<noteq> Q_all" and "wsem w = 0"
  shows "wait_for_udp_message requestManager (Datagram (request_bytes q)) w = (Stuck, w)"
  unfolding request_round [OF assms(1)]
  using assms
  by (cases q)
    (simp_all add: LoginRequest_handle_def LogoutRequest_handle_def UnregisterRequest_handle_def
      ListStartedAuctionsRequest_handle_def ListBiddedAuctionsRequest_handle_def ShowRecordRequest_handle_def
      ClientLoginUser_read_build ClientLogout_read_build ClientUnregister_read_build
      ClientListStartedAuctions_read_build ClientListBiddedAuctions_read_build ClientShowRecord_read_build
      login.handler_waits [unfolded request_handler_def] logout.handler_waits [unfolded request_handler_def]
      unregister.handler_waits [unfolded request_handler_def] started.handler_waits [unfolded request_handler_def]
      bidded.handler_waits [unfolded request_handler_def] show_record.handler_waits [unfolded request_handler_def])

end
