(* ===== verification/Tcp_Runs.thy ===== *)
theory Tcp_Runs
  imports Server_Runs
begin

text \<open>
  A connection is served as its bytes are, however the network splits them: what a child process
  does depends on the concatenation of what its reads find, and is what the handler does with a
  stream of these bytes. It follows from the contract of the adapters.
\<close>

section \<open>A handler sees only what reading gives\<close>

lemma tcp_handlers_result:
  "result (ClientOpenAuction_readMessage A b) = result (ClientOpenAuction_readMessage B c) \<Longrightarrow>
     OpenAuctionRequest_handle A b = OpenAuctionRequest_handle B c"
  "result (ClientCloseAuction_readMessage A b) = result (ClientCloseAuction_readMessage B c) \<Longrightarrow>
     CloseAuctionRequest_handle A b = CloseAuctionRequest_handle B c"
  "result (ClientShowAsset_readMessage A b) = result (ClientShowAsset_readMessage B c) \<Longrightarrow>
     ShowAssetRequest_handle A b = ShowAssetRequest_handle B c"
  "result (ClientBid_readMessage A b) = result (ClientBid_readMessage B c) \<Longrightarrow>
     BidRequest_handle A b = BidRequest_handle B c"
  by (simp_all add: OpenAuctionRequest_handle_def CloseAuctionRequest_handle_def ShowAssetRequest_handle_def
      BidRequest_handle_def)

lemma tcp_reads_as_stream:
  assumes "tcp_valid b"
  shows "OpenAuctionRequest_handle TcpMessage b = OpenAuctionRequest_handle StreamMessage (stream_at p (tcp_rest b))"
    and "CloseAuctionRequest_handle TcpMessage b = CloseAuctionRequest_handle StreamMessage (stream_at p (tcp_rest b))"
    and "ShowAssetRequest_handle TcpMessage b = ShowAssetRequest_handle StreamMessage (stream_at p (tcp_rest b))"
    and "BidRequest_handle TcpMessage b = BidRequest_handle StreamMessage (stream_at p (tcp_rest b))"
  by (rule tcp_handlers_result(1) [OF agrees_result [OF tcp_adapter.ClientOpenAuction_agrees [OF assms]]],
      rule tcp_handlers_result(2) [OF agrees_result [OF tcp_adapter.ClientCloseAuction_agrees [OF assms]]],
      rule tcp_handlers_result(3) [OF agrees_result [OF tcp_adapter.ClientShowAsset_agrees [OF assms]]],
      rule tcp_handlers_result(4) [OF agrees_result [OF tcp_adapter.ClientBid_agrees [OF assms]]])

section \<open>A connection as its bytes\<close>

text \<open>What the connection delivers: its chunks up to the first read that finds nothing or fails.\<close>

definition delivered :: "string list \<Rightarrow> string" where
  "delivered chunks = concat (takeWhile (\<lambda>c. c \<noteq> []) chunks)"

text \<open>How a child ends.\<close>

definition child_of :: "string option outcome \<times> world \<Rightarrow> child_exit \<times> world" where
  "child_of r =
     (case r of
        (Ret reply, w') \<Rightarrow> (EXIT_SUCCESS reply, w')
      | (Throw e, w') \<Rightarrow> (EXIT_FAILURE, w')
      | (Block, w') \<Rightarrow> (Child_stuck, w')
      | (Undef, w') \<Rightarrow> (Child_broken, w'))"

lemma child_of_simps [simp]:
  "child_of (Ret reply, w) = (EXIT_SUCCESS reply, w)" "child_of (Throw e, w) = (EXIT_FAILURE, w)"
  "child_of (Block, w) = (Child_stuck, w)" "child_of (Undef, w) = (Child_broken, w)"
  by (simp_all add: child_of_def)

definition serve_bytes :: "string \<Rightarrow> world \<Rightarrow> child_exit \<times> world" where
  "serve_bytes d w =
     (let b = stream_at [] (drop 3 d);
          code = take 3 d
      in child_of (if code = ''OPA'' then OpenAuctionRequest_handle StreamMessage b w
        else if code = ''CLS'' then CloseAuctionRequest_handle StreamMessage b w
        else if code = ''SAS'' then ShowAssetRequest_handle StreamMessage b w
        else if code = ''BID'' then BidRequest_handle StreamMessage b w
        else (Ret (Some ServerError_buildMessage), w)))"

lemma child_serves_bytes:
  assumes "3 \<le> length (delivered chunks)"
  shows "processTCPChild requestManager fallback chunks w = serve_bytes (delivered chunks) w"
proof -
  let ?m = "TcpMessage_new fallback chunks"
  have r: "tcp_rest ?m = delivered chunks" by (simp add: tcp_rest_def TcpMessage_new_def delivered_def)
  have "tcp_valid ?m" using assms r by (auto simp: tcp_valid_def TcpMessage_new_def)
  then obtain b where g: "tcp_getn PROTOCOL_SIZE ?m = Inr (take 3 (delivered chunks), b)"
    and b: "tcp_rest b = drop 3 (delivered chunks)" "tcp_valid b"
    using tcp_getn_some [of PROTOCOL_SIZE ?m] assms by (auto simp: r PROTOCOL_SIZE_def)
  note h = tcp_reads_as_stream [OF b(2), of "[]", unfolded b(1)]
  show ?thesis
    by (simp add: processTCPChild_def callHandlerRequest_def g Let_def tcp_table CODE_ERROR_def serve_bytes_def
        child_of_def WrongRequestUDP_handle_def send_message_def h)
qed

section \<open>The requests a client sends over a connection\<close>

datatype tcp_request =
    T_open ClientOpenAuction
  | T_close ClientCloseAuction
  | T_asset ClientShowAsset
  | T_bid ClientBid

fun tcp_bytes :: "tcp_request \<Rightarrow> string" where
  "tcp_bytes (T_open m) = ClientOpenAuction_buildMessage m"
| "tcp_bytes (T_close m) = ClientCloseAuction_buildMessage m"
| "tcp_bytes (T_asset m) = ClientShowAsset_buildMessage m"
| "tcp_bytes (T_bid m) = ClientBid_buildMessage m"

fun good_tcp :: "tcp_request \<Rightarrow> bool" where
  "good_tcp (T_open m) =
     (wire_uid (opa_user_id m) \<and> is_password (opa_password m) \<and> no_sep (opa_name m) \<and> length (opa_name m) \<le> 10 \<and>
      0 < unat (opa_start_value m) \<and> unat (opa_start_value m) < 10 ^ 6 \<and> unat (opa_timeactive m) < 10 ^ 5 \<and>
      no_sep (opa_assetf_name m) \<and> length (opa_assetf_name m) \<le> 24 \<and>
      unat (opa_Fsize m) = length (opa_fdata m) \<and> length (opa_fdata m) \<le> 10000000)"
| "good_tcp (T_close m) = (wire_uid (cls_user_id m) \<and> is_password (cls_password m) \<and> unat (cls_auction_id m) < 10 ^ 3)"
| "good_tcp (T_asset m) = (unat (sas_auction_id m) < 10 ^ 3)"
| "good_tcp (T_bid m) = (wire_uid (bid_user_id m) \<and> is_password (bid_password m) \<and> unat (bid_auction_id m) < 10 ^ 3 \<and>
     0 < unat (bid_amount m) \<and> unat (bid_amount m) < 10 ^ 6)"

lemmas tcp_builds =
  ClientOpenAuction_buildMessage_def ClientCloseAuction_buildMessage_def ClientShowAsset_buildMessage_def
  ClientBid_buildMessage_def

lemma tcp_request_length: "3 \<le> length (tcp_bytes q)"
  by (cases q) (simp_all add: tcp_builds code_defs)

text \<open>What a connection that carries a request runs, with the message read back.\<close>

fun request_run :: "tcp_request \<Rightarrow> (string option, world) prog" where
  "request_run (T_open m) = OpenAuctionRequest_handle StreamMessage (stream_at [] (drop 3 (ClientOpenAuction_buildMessage m)))"
| "request_run (T_close m) = CloseAuctionRequest_handle StreamMessage (stream_at [] (drop 3 (ClientCloseAuction_buildMessage m)))"
| "request_run (T_asset m) = ShowAssetRequest_handle StreamMessage (stream_at [] (drop 3 (ClientShowAsset_buildMessage m)))"
| "request_run (T_bid m) = BidRequest_handle StreamMessage (stream_at [] (drop 3 (ClientBid_buildMessage m)))"

lemma child_runs_request:
  assumes "delivered chunks = tcp_bytes q"
  shows "processTCPChild requestManager fallback chunks w = child_of (request_run q w)"
proof -
  have l: "3 \<le> length (delivered chunks)" using tcp_request_length [of q] assms by simp
  show ?thesis
    unfolding child_serves_bytes [OF l] assms
    by (cases q) (simp_all add: serve_bytes_def Let_def tcp_builds code_defs)
qed

text \<open>The child waits while nobody posts, except that it shows an asset's directory first.\<close>

lemma tcp_request_stuck:
  assumes "good_tcp q" and "delivered chunks = tcp_bytes q" and "wsem w = 0" and "\<nexists>m. q = T_asset m"
  shows "processTCPChild requestManager fallback chunks w = (Child_stuck, w)"
  unfolding child_runs_request [OF assms(2)]
  using assms
  by (cases q)
    (simp_all add: OpenAuctionRequest_handle_def CloseAuctionRequest_handle_def BidRequest_handle_def
      ClientOpenAuction_read_build ClientCloseAuction_read_build ClientBid_read_build
      open_.handler_waits [unfolded request_handler_def] close.handler_waits [unfolded request_handler_def]
      bid.handler_waits [unfolded request_handler_def])

end
