(* ===== verification/Protocol_Theorems.thy ===== *)
theory Protocol_Theorems
  imports Tcp_Runs
begin

text \<open>
  The properties of the protocol (shared/protocol.cpp, shared/utils.cpp, shared/verifications.cpp):
  what one side builds the other reads back, over either kind of message, and the conversions of ids
  and dates are inverse to each other.
\<close>

section \<open>Requests\<close>

text \<open>The requests a client sends over UDP with a user id of six digits that does not start with 0, a
  password of eight letters and digits, or an auction id below 1000, are read back by the server as they were built:
  login, logout, unregister, the three lists and the record.\<close>

theorem udp_requests_roundtrip:
  assumes "wire_uid uid" and "is_password pw" and "unat aid < 10 ^ 3"
  shows "result (ClientLoginUser_readMessage StreamMessage (stream_at p (drop 3
      (ClientLoginUser_buildMessage \<lparr>lin_user_id = uid, lin_password = pw\<rparr>)))) = Inr \<lparr>lin_user_id = uid, lin_password = pw\<rparr> \<and>
    result (ClientLogout_readMessage StreamMessage (stream_at p (drop 3
      (ClientLogout_buildMessage \<lparr>lou_user_id = uid, lou_password = pw\<rparr>)))) = Inr \<lparr>lou_user_id = uid, lou_password = pw\<rparr> \<and>
    result (ClientUnregister_readMessage StreamMessage (stream_at p (drop 3
      (ClientUnregister_buildMessage \<lparr>unr_user_id = uid, unr_password = pw\<rparr>)))) = Inr \<lparr>unr_user_id = uid, unr_password = pw\<rparr> \<and>
    result (ClientListStartedAuctions_readMessage StreamMessage (stream_at p (drop 3
      (ClientListStartedAuctions_buildMessage \<lparr>lma_user_id = uid\<rparr>)))) = Inr \<lparr>lma_user_id = uid\<rparr> \<and>
    result (ClientListBiddedAuctions_readMessage StreamMessage (stream_at p (drop 3
      (ClientListBiddedAuctions_buildMessage \<lparr>lmb_user_id = uid\<rparr>)))) = Inr \<lparr>lmb_user_id = uid\<rparr> \<and>
    result (ClientListAllAuctions_readMessage StreamMessage (stream_at p (drop 3 ClientListAllAuctions_buildMessage))) = Inr () \<and>
    result (ClientShowRecord_readMessage StreamMessage (stream_at p (drop 3
      (ClientShowRecord_buildMessage \<lparr>src_auction_id = aid\<rparr>)))) = Inr \<lparr>src_auction_id = aid\<rparr>"
  using assms
  by (simp add: ClientLoginUser_read_build ClientLogout_read_build ClientUnregister_read_build
      ClientListStartedAuctions_read_build ClientListBiddedAuctions_read_build ClientListAllAuctions_read_build
      ClientShowRecord_read_build)

lemma udp_requests_roundtrip_example:
  "result (ClientLoginUser_readMessage StreamMessage (stream_at ''NIL''
     (drop 3 (ClientLoginUser_buildMessage \<lparr>lin_user_id = 123456, lin_password = ''password''\<rparr>)))) =
   Inr \<lparr>lin_user_id = 123456, lin_password = ''password''\<rparr>"
proof -
  have w: "wire_uid 123456" "is_password ''password''" "unat (1 :: uint32) < 10 ^ 3"
    by (simp add: wire_uid_def) (simp_all add: is_password_def isalnum_def isdigit_def)
  show ?thesis using udp_requests_roundtrip [OF w, of "''NIL''"] by blast
qed

text \<open>C28: A request over TCP is served in the same way however the network splits it into reads: if the reads
  deliver the bytes the client builds of a request to open, close, show the asset of or bid on an auction, the code of
  the request is read first, the child process runs the handler of that request on what is left of the connection,
  ending as the handler ends, and the handler reads the message back that the client built. The fields are those the
  protocol can carry: user ids of six digits that do not start with 0, passwords of eight letters or digits, auction
  ids below 1000, bids and start values from 1 to 999999, durations below 100000, names of auctions of at most 10 and
  of asset files of at most 24 characters, both without a space and a newline, and an asset of at most ten million
  bytes sent with its own size.\<close>

theorem tcp_requests_roundtrip:
  assumes "good_tcp q" and "delivered chunks = tcp_bytes q"
  shows "\<exists>b. tcp_getn PROTOCOL_SIZE (TcpMessage_new fallback chunks) = Inr (take 3 (tcp_bytes q), b) \<and>
    processTCPChild requestManager fallback chunks w = child_of
      (case q of
         T_open _ \<Rightarrow> OpenAuctionRequest_handle TcpMessage b w
       | T_close _ \<Rightarrow> CloseAuctionRequest_handle TcpMessage b w
       | T_asset _ \<Rightarrow> ShowAssetRequest_handle TcpMessage b w
       | T_bid _ \<Rightarrow> BidRequest_handle TcpMessage b w) \<and>
    (case q of
       T_open m \<Rightarrow> result (ClientOpenAuction_readMessage TcpMessage b) = Inr m
     | T_close m \<Rightarrow> result (ClientCloseAuction_readMessage TcpMessage b) = Inr m
     | T_asset m \<Rightarrow> result (ClientShowAsset_readMessage TcpMessage b) = Inr m
     | T_bid m \<Rightarrow> result (ClientBid_readMessage TcpMessage b) = Inr m)"
proof -
  let ?m = "TcpMessage_new fallback chunks"
  have r: "tcp_rest ?m = tcp_bytes q" using assms(2) by (simp add: tcp_rest_def TcpMessage_new_def delivered_def)
  have v: "tcp_valid ?m" using r tcp_request_length [of q] by (auto simp: tcp_valid_def TcpMessage_new_def)
  obtain b where g: "tcp_getn PROTOCOL_SIZE ?m = Inr (take 3 (tcp_bytes q), b)"
    and b: "tcp_rest b = drop 3 (tcp_bytes q)" "tcp_valid b"
    using tcp_getn_some [OF _ v, of PROTOCOL_SIZE] tcp_request_length [of q] by (auto simp: r PROTOCOL_SIZE_def)
  have run: "processTCPChild requestManager fallback chunks w = child_of
      (case q of
         T_open _ \<Rightarrow> OpenAuctionRequest_handle TcpMessage b w
       | T_close _ \<Rightarrow> CloseAuctionRequest_handle TcpMessage b w
       | T_asset _ \<Rightarrow> ShowAssetRequest_handle TcpMessage b w
       | T_bid _ \<Rightarrow> BidRequest_handle TcpMessage b w)"
    by (cases q) (simp_all add: processTCPChild_def callHandlerRequest_def g Let_def tcp_table child_of_def tcp_builds code_defs)
  show ?thesis
    using g run assms(1) b(1)
      agrees_result [OF tcp_adapter.ClientOpenAuction_agrees [OF b(2), of "[]"]]
      agrees_result [OF tcp_adapter.ClientCloseAuction_agrees [OF b(2), of "[]"]]
      agrees_result [OF tcp_adapter.ClientShowAsset_agrees [OF b(2), of "[]"]]
      agrees_result [OF tcp_adapter.ClientBid_agrees [OF b(2), of "[]"]]
    by (cases q) (simp_all add: ClientOpenAuction_read_build ClientCloseAuction_read_build
        ClientShowAsset_read_build ClientBid_read_build)
qed

lemma tcp_requests_roundtrip_example:
  "\<exists>m d b. ClientBid_buildMessage m = d \<and> bid_amount m = 150 \<and>
     tcp_getn 3 (TcpMessage_new NUL [take 8 d, drop 8 d, []]) = Inr (''BID'', b) \<and>
     (let w = \<lparr>wfs = [], wsem = 1, wclock = \<lambda>_. 0, wcalls = 0\<rparr>
      in processTCPChild requestManager NUL [take 8 d, drop 8 d, []] w = child_of (BidRequest_handle TcpMessage b w)) \<and>
     result (ClientBid_readMessage TcpMessage b) = Inr m"
proof -
  let ?w = "\<lparr>wfs = [], wsem = 1, wclock = \<lambda>_. 0, wcalls = 0\<rparr>"
  let ?m = "\<lparr>bid_user_id = 123456, bid_password = ''password'', bid_auction_id = 1, bid_amount = 150\<rparr>"
  let ?d = "ClientBid_buildMessage ?m"
  have g: "good_tcp (T_bid ?m)" by (simp add: wire_uid_def is_password_def isalnum_def isdigit_def)
  have c: "take 8 ?d \<noteq> []" "drop 8 ?d \<noteq> []" "take 3 ?d = ''BID''"
    by (simp_all add: ClientBid_buildMessage_def CODE_BID_CLIENT_def to_string_def drop_Cons')
  have d: "delivered [take 8 ?d, drop 8 ?d, []] = tcp_bytes (T_bid ?m)"
    using c(1,2) by (simp add: delivered_def)
  have "\<exists>b. tcp_getn 3 (TcpMessage_new NUL [take 8 ?d, drop 8 ?d, []]) = Inr (''BID'', b) \<and>
      processTCPChild requestManager NUL [take 8 ?d, drop 8 ?d, []] ?w = child_of (BidRequest_handle TcpMessage b ?w) \<and>
      result (ClientBid_readMessage TcpMessage b) = Inr ?m"
    using tcp_requests_roundtrip [OF g d, of NUL ?w] c(3) by (simp add: PROTOCOL_SIZE_def)
  then show ?thesis by (intro exI [of _ ?m] exI [of _ ?d]) (simp add: Let_def)
qed

text \<open>C12: How the network splits a connection into reads does not matter to the server: two connections whose reads
  deliver the same bytes, at least the three of a code, end their child processes in the same way and leave the same
  state, whatever the bytes are.\<close>

theorem split_is_irrelevant:
  assumes "delivered chunks = delivered chunks'" and "3 \<le> length (delivered chunks)"
  shows "processTCPChild requestManager fallback chunks w = processTCPChild requestManager fallback' chunks' w"
  using child_serves_bytes [OF assms(2)] child_serves_bytes [of chunks'] assms by simp

lemma split_is_irrelevant_example:
  "processTCPChild requestManager NUL [''SA'', ''S 0'', ''01'', endl, []] \<lparr>wfs = [], wsem = 1, wclock = \<lambda>_. 0, wcalls = 0\<rparr> =
     processTCPChild requestManager NUL [''SAS 001'' @ endl] \<lparr>wfs = [], wsem = 1, wclock = \<lambda>_. 0, wcalls = 0\<rparr>"
  by (rule split_is_irrelevant) (simp_all add: delivered_def endl_def)

section \<open>Answers\<close>

text \<open>C29: The record of an auction that fits the fields of the protocol is read back by the client as the server
  built it, with all its bids and, where the auction has ended after its first second, its end.\<close>

theorem record_roundtrip:
  assumes "rrc_status m = Record_OK" and "wire_record m" and "ServerShowRecord_buildMessage m = Inr s"
    and "rrc_end_sec_time m = 0 \<Longrightarrow> rrc_end_date_time m = rrc_end_date_time (no_record st)"
  shows "map_option result (ServerShowRecord_readMessage StreamMessage (no_record st) (stream_of s)) = Some (Inr m)"
  using ServerShowRecord_read_build [OF assms(1-3), of "no_record st"] assms(4) by (simp add: no_record_def)

lemma record_roundtrip_example:
  "\<exists>m s. rrc_bids m \<noteq> [] \<and> ServerShowRecord_buildMessage m = Inr s \<and>
     map_option result (ServerShowRecord_readMessage StreamMessage (no_record Record_ERR) (stream_of s)) = Some (Inr m)"
proof -
  let ?d = "\<lparr>year = ''2023'', month = ''12'', day = ''24'', hours = ''10'', minutes = ''05'', seconds = ''00''\<rparr>"
  let ?m = "(no_record Record_OK)\<lparr>rrc_host_UID := 123456, rrc_auction_name := ''piano'', rrc_asset_fname := ''piano.jpg'',
      rrc_start_value := 100, rrc_start_date_time := ?d, rrc_timeactive := 600,
      rrc_bids := [\<lparr>bidder_UID = 234567, bid_value = 150, bid_date_time = ?d, bid_sec_time = 20\<rparr>],
      rrc_end_date_time := ?d, rrc_end_sec_time := 500\<rparr>"
  have d: "wf_Datetime ?d" by (simp add: wf_Datetime_def digits_of_length_def isdigit_def)
  have "wire_record ?m"
    by (simp add: wire_record_def wire_bid_def d wire_uid_def no_sep_def is_sep_def word_less_nat_alt)
  moreover obtain s where s: "ServerShowRecord_buildMessage ?m = Inr s"
    by (auto simp: ServerShowRecord_buildMessage_def no_record_def)
  ultimately have "map_option result (ServerShowRecord_readMessage StreamMessage (no_record Record_ERR) (stream_of s)) = Some (Inr ?m)"
    by (intro record_roundtrip) (simp_all add: no_record_def)
  then show ?thesis using s by (intro exI [of _ ?m] exI [of _ s]) simp
qed

text \<open>The asset of an auction, of at most ten million bytes of any value, arrives at the client with its name, its
  size and its bytes, however the network splits the answer.\<close>

theorem asset_roundtrip:
  assumes "rsa_status m = Asset_OK" and "ServerShowAsset_buildMessage m = Inr s"
    and "no_sep (rsa_fname m)" and "length (rsa_fname m) \<le> 24"
    and "unat (rsa_fsize m) = length (rsa_fdata m)" and "length (rsa_fdata m) \<le> 10000000"
    and "delivered chunks = s"
  shows "result (ServerShowAsset_readMessage TcpMessage m0 (TcpMessage_new fallback chunks)) = Inr m"
proof -
  let ?b = "TcpMessage_new fallback chunks"
  have r: "tcp_rest ?b = s" using assms(7) by (simp add: tcp_rest_def TcpMessage_new_def delivered_def)
  have "s \<noteq> []" using assms(1,2) by (auto simp: ServerShowAsset_buildMessage_def code_defs)
  then have "tcp_valid ?b" using r by (auto simp: tcp_valid_def TcpMessage_new_def)
  from agrees_result [OF tcp_adapter.ServerShowAsset_agrees [OF this, of m0 "[]"]] show ?thesis
    using ServerShowAsset_read_build [OF assms(1-6), of m0] r by (simp add: stream_of_def)
qed

lemma asset_roundtrip_example:
  "\<exists>m s. rsa_fdata m = ''a b'' @ endl @ [NUL] \<and> ServerShowAsset_buildMessage m = Inr s \<and>
     result (ServerShowAsset_readMessage TcpMessage (no_asset Asset_ERR) (TcpMessage_new NUL [s])) = Inr m"
proof -
  let ?m = "\<lparr>rsa_status = Asset_OK, rsa_fname = ''x.txt'', rsa_fsize = 5, rsa_fdata = ''a b'' @ endl @ [NUL]\<rparr>"
  obtain s where s: "ServerShowAsset_buildMessage ?m = Inr s" and "s \<noteq> []"
    by (auto simp: ServerShowAsset_buildMessage_def code_defs)
  then have "result (ServerShowAsset_readMessage TcpMessage (no_asset Asset_ERR) (TcpMessage_new NUL [s])) = Inr ?m"
    by (intro asset_roundtrip [OF _ s]) (simp_all add: no_sep_def is_sep_def delivered_def endl_def)
  then show ?thesis using s by (intro exI [of _ ?m] exI [of _ s]) simp
qed

text \<open>A list of auctions with their states is read back entry by entry, each shown as ACTIVE or OVER, in the
  three answers that hold one. An empty list with the status OK is read as an error.\<close>

theorem lists_roundtrip:
  assumes "\<forall>e \<in> set es. is_aid (fst e)"
    and "ServerListStartedAuctions_buildMessage \<lparr>rma_status = Started_OK, rma_auctions = map list_entry es\<rparr> = Inr s1"
    and "ServerListBiddedAuctions_buildMessage \<lparr>rmb_status = Bidded_OK, rmb_auctions = map list_entry es\<rparr> = Inr s2"
    and "ServerListAllAuctions_buildMessage \<lparr>rls_status = All_OK, rls_auctions = map list_entry es\<rparr> = Inr s3"
  shows "map_option result (ServerListStartedAuctions_readMessage StreamMessage \<lparr>rma_status = st1, rma_auctions = []\<rparr> (stream_of s1)) =
      Some (Inr \<lparr>rma_status = (if es = [] then Started_ERR else Started_OK), rma_auctions = map shown_entry es\<rparr>) \<and>
    map_option result (ServerListBiddedAuctions_readMessage StreamMessage \<lparr>rmb_status = st2, rmb_auctions = []\<rparr> (stream_of s2)) =
      Some (Inr \<lparr>rmb_status = (if es = [] then Bidded_ERR else Bidded_OK), rmb_auctions = map shown_entry es\<rparr>) \<and>
    map_option result (ServerListAllAuctions_readMessage StreamMessage \<lparr>rls_status = st3, rls_auctions = []\<rparr> (stream_of s3)) =
      Some (Inr \<lparr>rls_status = (if es = [] then All_ERR else All_OK), rls_auctions = map shown_entry es\<rparr>)"
  using ServerListStartedAuctions_read_build [OF assms(1) _ assms(2), of "\<lparr>rma_status = st1, rma_auctions = []\<rparr>"]
    ServerListBiddedAuctions_read_build [OF assms(1) _ assms(3), of "\<lparr>rmb_status = st2, rmb_auctions = []\<rparr>"]
    ServerListAllAuctions_read_build [OF assms(1) _ assms(4), of "\<lparr>rls_status = st3, rls_auctions = []\<rparr>"]
  by simp

lemma lists_roundtrip_example:
  "map_option result (ServerListAllAuctions_readMessage StreamMessage \<lparr>rls_status = All_ERR, rls_auctions = []\<rparr>
     (stream_of (''RLS OK 001 1 002 0'' @ endl))) =
   Some (Inr \<lparr>rls_status = All_OK, rls_auctions = [''AID: 001 --- STATUS: ACTIVE'', ''AID: 002 --- STATUS: OVER'']\<rparr>)"
proof -
  let ?es = "[(''001'', True), (''002'', False)]"
  have e: "\<forall>e \<in> set ?es. is_aid (fst e)" by code_simp
  obtain s1 where s1: "ServerListStartedAuctions_buildMessage \<lparr>rma_status = Started_OK, rma_auctions = map list_entry ?es\<rparr> = Inr s1"
    by (simp add: ServerListStartedAuctions_buildMessage_def)
  obtain s2 where s2: "ServerListBiddedAuctions_buildMessage \<lparr>rmb_status = Bidded_OK, rmb_auctions = map list_entry ?es\<rparr> = Inr s2"
    by (simp add: ServerListBiddedAuctions_buildMessage_def)
  have s3: "ServerListAllAuctions_buildMessage \<lparr>rls_status = All_OK, rls_auctions = map list_entry ?es\<rparr> =
      Inr (''RLS OK 001 1 002 0'' @ endl)"
    by code_simp
  show ?thesis using lists_roundtrip [OF e s1 s2 s3, of _ _ All_ERR] by (simp add: shown_entry_def)
qed

section \<open>Conversions\<close>

text \<open>A user id is accepted exactly when it is six digits and not all zero, an auction id when it is three
  digits; both are converted without loss, so that writing the number back with the padding gives the same string.\<close>

theorem ids_roundtrip:
  "((\<exists>uid. convert_user_id s = Inr uid) \<longleftrightarrow> length s = 6 \<and> s \<noteq> ''000000'' \<and> list_all isdigit s) \<and>
   ((\<exists>aid. convert_auction_id s = Inr aid) \<longleftrightarrow> length s = 3 \<and> list_all isdigit s) \<and>
   (\<forall>uid. convert_user_id s = Inr uid \<longrightarrow> convert_user_id_to_str uid = s \<and> unat uid < 10 ^ 6) \<and>
   (\<forall>aid. convert_auction_id s = Inr aid \<longrightarrow> convert_auction_id_to_str aid = s \<and> unat aid < 10 ^ 3)"
  using convert_user_id_roundtrip [of s] convert_auction_id_roundtrip [of s]
    convert_user_id_bound [of s] convert_auction_id_bound [of s]
  by (auto simp: convert_user_id_eq convert_auction_id_eq is_uid_def is_aid_def list_all_iff)

lemma ids_roundtrip_example: "convert_user_id_to_str 12 = ''000012''"
proof -
  have "convert_user_id ''000012'' = Inr 12" by code_simp
  then show ?thesis using ids_roundtrip [of "''000012''"] by blast
qed

text \<open>The date of every moment before 2106 is written with well-formed fields, and a well-formed date is read back
  from what it is written as.\<close>

theorem dates_roundtrip:
  assumes "t < 2 ^ 32"
  shows "\<exists>d. wf_Datetime d \<and> convert_date_to_str d = format_tm (gmtime t) \<and>
    convert_str_to_date (format_tm (gmtime t)) = Some d"
  using format_gmtime [OF assms] convert_str_to_date_wf by auto

lemma dates_roundtrip_example:
  "\<exists>d. convert_str_to_date (format_tm (gmtime 1703412300)) = Some d \<and> convert_date_to_str d = format_tm (gmtime 1703412300)"
  using dates_roundtrip [of 1703412300] by auto

section \<open>Types\<close>

lemma read_string: "readString A n b = Inr (s, b') \<Longrightarrow> no_sep s \<and> length s \<le> n"
proof (induction n arbitrary: b s)
  case (Suc n)
  then show ?case
    by (fastforce simp: bindR_eq_Inr_iff no_sep_def is_sep_def split: if_splits)
qed (simp add: no_sep_def)

lemma read_file_loop: "readFile_loop A n b = Inr (s, b') \<Longrightarrow> length s = n"
  by (induction n arbitrary: b s) (auto simp: bindR_eq_Inr_iff split: if_splits)

lemma read_file:
  assumes "readFile A n b = Inr (s, b')"
  shows "length s = unat n \<and> length s \<le> MAX_FILE_SIZE"
  using assms read_file_loop [of A "unat n" b s b'] by (auto simp: readFile_def split: if_splits)

lemma request_users:
  "result (ClientLoginUser_readMessage A b) = Inr m1 \<Longrightarrow> is_uid (convert_user_id_to_str (lin_user_id m1))"
  "result (ClientLogout_readMessage A b) = Inr m2 \<Longrightarrow> is_uid (convert_user_id_to_str (lou_user_id m2))"
  "result (ClientUnregister_readMessage A b) = Inr m3 \<Longrightarrow> is_uid (convert_user_id_to_str (unr_user_id m3))"
  "result (ClientListStartedAuctions_readMessage A b) = Inr m4 \<Longrightarrow> is_uid (convert_user_id_to_str (lma_user_id m4))"
  "result (ClientListBiddedAuctions_readMessage A b) = Inr m5 \<Longrightarrow> is_uid (convert_user_id_to_str (lmb_user_id m5))"
  by (auto simp: request_reads ClientLoginUser_readMessage_def ClientLogout_readMessage_def
      ClientUnregister_readMessage_def ClientListStartedAuctions_readMessage_def
      ClientListBiddedAuctions_readMessage_def dest: read_user)

lemma show_asset_typed:
  "result (ClientShowAsset_readMessage A b) = Inr m \<Longrightarrow> is_aid (convert_auction_id_to_str (sas_auction_id m))"
  by (auto simp: request_reads ClientShowAsset_readMessage_def dest: read_auction)

definition read_opening :: "ClientOpenAuction \<Rightarrow> bool" where
  "read_opening m \<longleftrightarrow>
     is_uid (convert_user_id_to_str (opa_user_id m)) \<and> is_password (opa_password m) \<and> opa_start_value m \<noteq> 0 \<and>
     no_sep (opa_name m) \<and> length (opa_name m) \<le> 10 \<and>
     no_sep (opa_assetf_name m) \<and> length (opa_assetf_name m) \<le> 24 \<and>
     length (opa_fdata m) = unat (opa_Fsize m) mod 2 ^ 32 \<and> length (opa_fdata m) \<le> 10000000"

lemma open_typed: "result (ClientOpenAuction_readMessage A b) = Inr m \<Longrightarrow> read_opening m"
  by (auto simp: request_reads ClientOpenAuction_readMessage_def read_opening_def unsigned_ucast_eq take_bit_eq_mod
      MAX_AUCTION_NAME_SIZE_def MAX_FILENAME_SIZE_def MAX_FILE_SIZE_def
      dest!: read_user read_password read_value read_string read_file)

text \<open>C34: Whatever bytes a client sends, over either adapter, a request that is read without an exception has fields of
  the form the database builds paths and file names from. In the ten requests with fields: every user id, written
  with six digits, is six digits that are not all zero; every auction id, written with three, is three digits; every
  password is eight letters or digits; a bid and a start value are not zero; the name of an auction has at most 10
  and that of an asset file at most 24 characters, with no space and no newline in them; and the asset has as many
  bytes as the size that was sent says, modulo 2^32, and at most ten million. Nothing more is guaranteed of an
  opening: its duration is any number, and its names may be empty or, as the file name of an opening that ends another
  auction, hold slashes. (The handlers of a login, a logout, an unregistration and the two lists of a user pass the id
  on without its leading zeros, so that what the database gets is shorter where the id starts with 0.)\<close>

theorem requests_typed:
  "(\<forall>m. result (ClientLoginUser_readMessage A b) = Inr m \<longrightarrow>
      is_uid (convert_user_id_to_str (lin_user_id m)) \<and> is_password (lin_password m)) \<and>
   (\<forall>m. result (ClientLogout_readMessage A b) = Inr m \<longrightarrow>
      is_uid (convert_user_id_to_str (lou_user_id m)) \<and> is_password (lou_password m)) \<and>
   (\<forall>m. result (ClientUnregister_readMessage A b) = Inr m \<longrightarrow>
      is_uid (convert_user_id_to_str (unr_user_id m)) \<and> is_password (unr_password m)) \<and>
   (\<forall>m. result (ClientListStartedAuctions_readMessage A b) = Inr m \<longrightarrow>
      is_uid (convert_user_id_to_str (lma_user_id m))) \<and>
   (\<forall>m. result (ClientListBiddedAuctions_readMessage A b) = Inr m \<longrightarrow>
      is_uid (convert_user_id_to_str (lmb_user_id m))) \<and>
   (\<forall>m. result (ClientShowRecord_readMessage A b) = Inr m \<longrightarrow> is_aid (convert_auction_id_to_str (src_auction_id m))) \<and>
   (\<forall>m. result (ClientShowAsset_readMessage A b) = Inr m \<longrightarrow> is_aid (convert_auction_id_to_str (sas_auction_id m))) \<and>
   (\<forall>m. result (ClientCloseAuction_readMessage A b) = Inr m \<longrightarrow>
      is_uid (convert_user_id_to_str (cls_user_id m)) \<and> is_aid (convert_auction_id_to_str (cls_auction_id m)) \<and>
      is_password (cls_password m)) \<and>
   (\<forall>m. result (ClientBid_readMessage A b) = Inr m \<longrightarrow>
      is_uid (convert_user_id_to_str (bid_user_id m)) \<and> is_aid (convert_auction_id_to_str (bid_auction_id m)) \<and>
      is_password (bid_password m) \<and> bid_amount m \<noteq> 0) \<and>
   (\<forall>m. result (ClientOpenAuction_readMessage A b) = Inr m \<longrightarrow>
      is_uid (convert_user_id_to_str (opa_user_id m)) \<and> is_password (opa_password m) \<and> opa_start_value m \<noteq> 0 \<and>
      no_sep (opa_name m) \<and> length (opa_name m) \<le> 10 \<and>
      no_sep (opa_assetf_name m) \<and> length (opa_assetf_name m) \<le> 24 \<and>
      length (opa_fdata m) = unat (opa_Fsize m) mod 2 ^ 32 \<and> length (opa_fdata m) \<le> 10000000)"
  using request_messages [of A b] request_users [of A b] show_asset_typed [of A b] open_typed [of A b]
  unfolding login_message_def logout_message_def unregister_message_def record_request_def close_message_def
    bid_message_def read_opening_def
  by blast

lemma requests_typed_example:
  "is_uid (convert_user_id_to_str 123456) \<and> is_aid (convert_auction_id_to_str 1)"
proof -
  let ?m = "\<lparr>bid_user_id = 123456, bid_password = ''password'', bid_auction_id = 1, bid_amount = 150\<rparr>"
  have "result (ClientBid_readMessage StreamMessage (stream_at [] (drop 3 (ClientBid_buildMessage ?m)))) = Inr ?m"
    by (rule ClientBid_read_build) (simp_all add: wire_uid_def is_password_def isalnum_def isdigit_def)
  with requests_typed [of StreamMessage "stream_at [] (drop 3 (ClientBid_buildMessage ?m))"] show ?thesis by fastforce
qed

end
