(* ===== verification/Server_Replies.thy ===== *)
theory Server_Replies
  imports Server_Runs
begin

text \<open>
  What the server answers to the requests a client sends: the bytes of the answer and the store it
  leaves, for every request over UDP that can be served.
\<close>

section \<open>Login, logout, unregister\<close>

text \<open>The user a request names: the handlers write its id without padding.\<close>

lemma wire_uid_is_uid: "wire_uid uid \<Longrightarrow> is_uid (to_string uid)"
  using is_uid_pad0 [of "unat uid"] by (simp add: wire_uid_def to_string_uid)

lemma wire_name:
  assumes "is_uid u" and "wire_uid uid" and "digits_val u = unat uid"
  shows "to_string uid = u"
  using is_uid_digits_val [OF assms(1)] assms(2,3) by (simp add: wire_uid_def to_string_uid)

lemmas account_requests =
  LoginRequest_handle_def LogoutRequest_handle_def UnregisterRequest_handle_def
  ClientLoginUser_read_build ClientLogout_read_build ClientUnregister_read_build

definition login_round :: "int outcome \<Rightarrow> udp_round" where
  "login_round out =
     (case out of
        Ret r \<Rightarrow> Replied (Some (''RLI '' @ (if r = DB_LOGIN_NOK then ''NOK'' else if r = DB_LOGIN_OK then ''OK'' else ''REG'') @ endl))
      | _ \<Rightarrow> Replied None)"

definition logout_round :: "int outcome \<Rightarrow> udp_round" where
  "logout_round out =
     (case out of
        Ret r \<Rightarrow> Replied (Some (''RLO '' @ (if r = DB_LOGOUT_OK then ''OK'' else ''NOK'') @ endl))
      | _ \<Rightarrow> Replied None)"

definition unregister_round :: "int outcome \<Rightarrow> udp_round" where
  "unregister_round out =
     (case out of
        Ret r \<Rightarrow> Replied (Some (''RUR '' @ (if r = DB_UNREGISTER_OK then ''OK'' else ''NOK'') @ endl))
      | _ \<Rightarrow> Replied None)"

text \<open>
  A round that serves a user's account: it ends as \<open>shown\<close> says of the account's step, and leaves the
  other users and the auctions alone.
\<close>

definition serves_account ::
    "string \<Rightarrow> (account \<Rightarrow> int outcome \<times> account) \<Rightarrow> (int outcome \<Rightarrow> udp_round) \<Rightarrow> udp_request \<Rightarrow> world \<Rightarrow> bool" where
  "serves_account u spec shown q w \<longleftrightarrow>
     (\<exists>f'. wait_for_udp_message requestManager (Datagram (request_bytes q)) w =
        (shown (fst (spec (account (wfs w) u))), w\<lparr>wfs := f'\<rparr>) \<and>
        account f' u = snd (spec (account (wfs w) u)) \<and> user_step u (wfs w) f')"

lemma serves_accountI:
  assumes "runs_account u spec m w"
    and "\<And>w'. m w = (fst (spec (account (wfs w) u)), w') \<Longrightarrow>
      wait_for_udp_message requestManager (Datagram (request_bytes q)) w = (shown (fst (spec (account (wfs w) u))), w')"
  shows "serves_account u spec shown q w"
  using assms unfolding runs_account_def serves_account_def by blast

lemma login_served:
  assumes "server_inv w" and "sem_ok w" and "good_request (Q_login m)"
  shows "serves_account (to_string (lin_user_id m)) (account_login (lin_password m)) login_round (Q_login m) w"
proof (rule serves_accountI)
  let ?o = "fst (account_login (lin_password m) (account (wfs w) (to_string (lin_user_id m))))"
  show "runs_account (to_string (lin_user_id m)) (account_login (lin_password m))
      (LoginUser (to_string (lin_user_id m)) (lin_password m)) w"
    using assms by (intro LoginUser_runs) (simp_all add: server_invD wire_uid_is_uid)
  fix w'
  assume "LoginUser (to_string (lin_user_id m)) (lin_password m) w = (?o, w')"
  then show "wait_for_udp_message requestManager (Datagram (request_bytes (Q_login m))) w = (login_round ?o, w')"
    using assms(3) unfolding request_round [OF assms(3)]
    by (auto simp: account_requests bindP_def try_catch_def answer_def send_message_def account_login_def login_round_def
        db_defs code_defs ServerLoginUser_buildMessage_def split: option.splits if_splits)
qed

lemma logout_served:
  assumes "server_inv w" and "sem_ok w" and "good_request (Q_logout m)"
  shows "serves_account (to_string (lou_user_id m)) (account_logout (lou_password m)) logout_round (Q_logout m) w"
proof (rule serves_accountI)
  let ?o = "fst (account_logout (lou_password m) (account (wfs w) (to_string (lou_user_id m))))"
  show "runs_account (to_string (lou_user_id m)) (account_logout (lou_password m))
      (Logout (to_string (lou_user_id m)) (lou_password m)) w"
    using assms by (intro Logout_runs) (simp_all add: server_invD wire_uid_is_uid)
  fix w'
  assume "Logout (to_string (lou_user_id m)) (lou_password m) w = (?o, w')"
  then show "wait_for_udp_message requestManager (Datagram (request_bytes (Q_logout m))) w = (logout_round ?o, w')"
    using assms(3) unfolding request_round [OF assms(3)]
    by (auto simp: account_requests bindP_def try_catch_def answer_def send_message_def account_logout_def logout_round_def
        db_defs code_defs ServerLogout_buildMessage_def split: option.splits if_splits)
qed

lemma unregister_served:
  assumes "server_inv w" and "sem_ok w" and "good_request (Q_unregister m)"
  shows "serves_account (to_string (unr_user_id m)) (account_unregister (unr_password m)) unregister_round (Q_unregister m) w"
proof (rule serves_accountI)
  let ?o = "fst (account_unregister (unr_password m) (account (wfs w) (to_string (unr_user_id m))))"
  show "runs_account (to_string (unr_user_id m)) (account_unregister (unr_password m))
      (Unregister (to_string (unr_user_id m)) (unr_password m)) w"
    using assms by (intro Unregister_runs) (simp_all add: server_invD wire_uid_is_uid)
  fix w'
  assume "Unregister (to_string (unr_user_id m)) (unr_password m) w = (?o, w')"
  then show "wait_for_udp_message requestManager (Datagram (request_bytes (Q_unregister m))) w = (unregister_round ?o, w')"
    using assms(3) unfolding request_round [OF assms(3)]
    by (auto simp: account_requests bindP_def try_catch_def answer_def send_message_def account_unregister_def unregister_round_def
        db_defs code_defs ServerUnregister_buildMessage_def split: option.splits if_splits)
qed

section \<open>Lists\<close>

text \<open>A user without a directory: the exception leaves the semaphore taken, and no answer is sent.\<close>

lemma lists_of_unknown:
  assumes "server_inv w" and "sem_ok w" and "wire_uid uid" and "look (wfs w) (userP (to_string uid)) = None"
  shows "wait_for_udp_message requestManager
      (Datagram (request_bytes (Q_started \<lparr>lma_user_id = uid\<rparr>))) w = (Replied None, w\<lparr>wsem := wsem w - 1\<rparr>)"
    and "wait_for_udp_message requestManager
      (Datagram (request_bytes (Q_bidded \<lparr>lmb_user_id = uid\<rparr>))) w = (Replied None, w\<lparr>wsem := wsem w - 1\<rparr>)"
proof -
  note un = MyAuctions_unknown [OF server_invD(1) [OF assms(1)] assms(2) clean_to_string assms(4)]
  have g: "good_request (Q_started \<lparr>lma_user_id = uid\<rparr>)" "good_request (Q_bidded \<lparr>lmb_user_id = uid\<rparr>)"
    using assms(3) by simp_all
  show "wait_for_udp_message requestManager
      (Datagram (request_bytes (Q_started \<lparr>lma_user_id = uid\<rparr>))) w = (Replied None, w\<lparr>wsem := wsem w - 1\<rparr>)"
    unfolding request_round [OF g(1)]
    using un(1) assms(3)
    by (simp add: ListStartedAuctionsRequest_handle_def ClientListStartedAuctions_read_build bindP_def try_catch_def answer_def)
  show "wait_for_udp_message requestManager
      (Datagram (request_bytes (Q_bidded \<lparr>lmb_user_id = uid\<rparr>))) w = (Replied None, w\<lparr>wsem := wsem w - 1\<rparr>)"
    unfolding request_round [OF g(2)]
    using un(2) assms(3)
    by (simp add: ListBiddedAuctionsRequest_handle_def ClientListBiddedAuctions_read_build bindP_def try_catch_def answer_def)
qed

text \<open>The answer to a request for a list.\<close>

definition list_reply :: "string \<Rightarrow> AuctionListing list \<Rightarrow> string" where
  "list_reply code L = code @ (if L = [] then '' NOK'' else '' OK'' @ printAuctions (map auction_str L)) @ endl"

lemma all_served:
  assumes "server_inv w" and "wsem w < SEM_VALUE_MAX"
  shows "\<exists>L f' n. wait_for_udp_message requestManager (Datagram (request_bytes Q_all)) w =
      (Replied (Some (list_reply ''RLS'' L)), w\<lparr>wfs := f', wcalls := n, wsem := Suc (wsem w)\<rparr>) \<and>
    closed_those (auction_ids (wfs w)) (wfs w) f' (readings w n) \<and> listing_of (auction_ids (wfs w)) f' L"
proof -
  obtain L f' n where run: "Db_List w = (Ret L, w\<lparr>wfs := f', wcalls := n, wsem := Suc (wsem w)\<rparr>)"
    and p: "closed_those (auction_ids (wfs w)) (wfs w) f' (readings w n)" "listing_of (auction_ids (wfs w)) f' L"
    using Db_List_run [OF server_invD(1,2) [OF assms(1)] assms(2)] by blast
  have g: "good_request Q_all" by simp
  have "wait_for_udp_message requestManager (Datagram (request_bytes Q_all)) w =
      (Replied (Some (list_reply ''RLS'' L)), w\<lparr>wfs := f', wcalls := n, wsem := Suc (wsem w)\<rparr>)"
    unfolding request_round [OF g]
    using run ClientListAllAuctions_read_build
    by (simp add: ListAllAuctionsRequest_handle_def bindP_def try_catch_def answer_def send_message_def
        ServerListAllAuctions_buildMessage_def list_reply_def code_defs)
  then show ?thesis using p by blast
qed

lemma account_closed_those:
  assumes "closed_those as f f' clk" and "is_uid u"
  shows "account f' u = account f u"
proof -
  have "look f' (passP u) = look f (passP u)" "look f' (loginP u) = look f (loginP u)"
    using assms(1) by (auto simp: closed_those_def)
  then show ?thesis by (simp add: account_def text_at_def)
qed

lemma my_lists_served:
  assumes "server_inv w" and "sem_ok w" and "wire_uid uid" and "look (wfs w) (userP (to_string uid)) \<noteq> None"
    and "u = to_string uid"
  shows "\<exists>L f' n. wait_for_udp_message requestManager
      (Datagram (request_bytes (Q_started \<lparr>lma_user_id = uid\<rparr>))) w =
      (Replied (Some (if acc_logged_in (account (wfs w) u) then list_reply ''RMA'' L else ''RMA NLG'' @ endl)),
       w\<lparr>wfs := f', wcalls := n\<rparr>) \<and>
    closed_those (hosted_ids (wfs w) u) (wfs w) f' (readings w n) \<and> listing_of (hosted_ids (wfs w) u) f' L"
    and "\<exists>L f' n. wait_for_udp_message requestManager
      (Datagram (request_bytes (Q_bidded \<lparr>lmb_user_id = uid\<rparr>))) w =
      (Replied (Some (if acc_logged_in (account (wfs w) u) then list_reply ''RMB'' L else ''RMB NLG'' @ endl)),
       w\<lparr>wfs := f', wcalls := n\<rparr>) \<and>
    closed_those (bidded_ids (wfs w) u) (wfs w) f' (readings w n) \<and> listing_of (bidded_ids (wfs w) u) f' L"
proof -
  have u: "is_uid u" using wire_uid_is_uid [OF assms(3)] assms(5) by simp
  note args = server_invD(1,2) [OF assms(1)] assms(2) u assms(4) [folded assms(5)]
  have logged: "CheckUserLoggedIn f' u = (if acc_logged_in (account (wfs w) u) then 0 else -1)"
    if "closed_those as (wfs w) f' (readings w n)" for as f' n
    using CheckUserLoggedIn_eq [of f' u] account_closed_those [OF that u] store_invD(1) [OF closed_thoseD [OF that]] u by simp
  have g: "good_request (Q_started \<lparr>lma_user_id = uid\<rparr>)" "good_request (Q_bidded \<lparr>lmb_user_id = uid\<rparr>)"
    using assms(3) by simp_all
  obtain L f' n where run: "MyAuctions u w = (Ret L, w\<lparr>wfs := f', wcalls := n\<rparr>)"
    and p: "closed_those (hosted_ids (wfs w) u) (wfs w) f' (readings w n)" "listing_of (hosted_ids (wfs w) u) f' L"
    using MyAuctions_run [OF args] by blast
  have "wait_for_udp_message requestManager (Datagram (request_bytes (Q_started \<lparr>lma_user_id = uid\<rparr>))) w =
      (Replied (Some (if acc_logged_in (account (wfs w) u) then list_reply ''RMA'' L else ''RMA NLG'' @ endl)),
       w\<lparr>wfs := f', wcalls := n\<rparr>)"
    unfolding request_round [OF g(1)]
    using run assms(3,5) logged [OF p(1)]
    by (simp add: ListStartedAuctionsRequest_handle_def ClientListStartedAuctions_read_build bindP_def try_catch_def
        answer_def send_message_def ServerListStartedAuctions_buildMessage_def list_reply_def code_defs getF_def)
  then show "\<exists>L f' n. wait_for_udp_message requestManager
      (Datagram (request_bytes (Q_started \<lparr>lma_user_id = uid\<rparr>))) w =
      (Replied (Some (if acc_logged_in (account (wfs w) u) then list_reply ''RMA'' L else ''RMA NLG'' @ endl)),
       w\<lparr>wfs := f', wcalls := n\<rparr>) \<and>
    closed_those (hosted_ids (wfs w) u) (wfs w) f' (readings w n) \<and> listing_of (hosted_ids (wfs w) u) f' L"
    using p by blast
  obtain L f' n where run: "MyBids u w = (Ret L, w\<lparr>wfs := f', wcalls := n\<rparr>)"
    and p: "closed_those (bidded_ids (wfs w) u) (wfs w) f' (readings w n)" "listing_of (bidded_ids (wfs w) u) f' L"
    using MyBids_run [OF args] by blast
  have "wait_for_udp_message requestManager (Datagram (request_bytes (Q_bidded \<lparr>lmb_user_id = uid\<rparr>))) w =
      (Replied (Some (if acc_logged_in (account (wfs w) u) then list_reply ''RMB'' L else ''RMB NLG'' @ endl)),
       w\<lparr>wfs := f', wcalls := n\<rparr>)"
    unfolding request_round [OF g(2)]
    using run assms(3,5) logged [OF p(1)]
    by (simp add: ListBiddedAuctionsRequest_handle_def ClientListBiddedAuctions_read_build bindP_def try_catch_def
        answer_def send_message_def ServerListBiddedAuctions_buildMessage_def list_reply_def code_defs getF_def)
  then show "\<exists>L f' n. wait_for_udp_message requestManager
      (Datagram (request_bytes (Q_bidded \<lparr>lmb_user_id = uid\<rparr>))) w =
      (Replied (Some (if acc_logged_in (account (wfs w) u) then list_reply ''RMB'' L else ''RMB NLG'' @ endl)),
       w\<lparr>wfs := f', wcalls := n\<rparr>) \<and>
    closed_those (bidded_ids (wfs w) u) (wfs w) f' (readings w n) \<and> listing_of (bidded_ids (wfs w) u) f' L"
    using p by blast
qed

end
