(* ===== verification/Server_Theorems.thy ===== *)
theory Server_Theorems
  imports Server_Replies Example_Store
begin

text \<open>
  The properties of the server as a whole (server/server.cpp with server/handlers.cpp): the invariant of its
  state, what it answers to a request, and where a request leaves it unable to answer.
\<close>

section \<open>The invariant\<close>

text \<open>C1: The server's store stays well-formed: from a start on an empty directory, every state reached by UDP rounds
  for any datagrams and failed reads and by TCP children for connections, in any order, keeps the invariant, and the
  semaphore never exceeds its greatest value, with a clock below 2^32. A connection may carry any bytes, except that an
  opening read from it has the form the server does not check: the name of the auction and that of the asset file are
  not empty, hold only printable characters and no whitespace, and the latter has no slash and is not just one dot
  or two; the start value is below 10^6 and the duration from 1 to 99999. An opening with duration 0 does break the
  invariant (half_opened_breaks_list), and so does one whose file name leads out of the auction's directory.\<close>

theorem server_keeps_invariant:
  assumes "server_reaches w w'" and "clock_ok w"
  shows "store_inv (wfs w') \<and> wsem w' \<le> SEM_VALUE_MAX"
  using server_reaches_inv [OF assms] by (simp add: server_inv_def)

lemma server_keeps_invariant_example:
  "store_inv (wfs (snd (wait_for_udp_message requestManager (Datagram ''any bytes'') (example_world fresh_fs 1 1000))))"
proof -
  let ?w = "example_world [] 0 1000"
  have "example_world fresh_fs 1 1000 = ?w\<lparr>wsem := 1, wfs := fresh_fs\<rparr>" by (simp add: example_world_def)
  then have "server_reaches ?w (example_world fresh_fs 1 1000)"
    using CreateBaseDir_fresh [of ?w] by (intro server_reaches.started [of ?w 0]) simp_all
  then have "server_reaches ?w (snd (wait_for_udp_message requestManager (Datagram ''any bytes'') (example_world fresh_fs 1 1000)))"
    by (rule server_reaches.datagram)
  moreover have "clock_ok ?w" by (simp add: clock_ok_def)
  ultimately show ?thesis using server_keeps_invariant by blast
qed

text \<open>The loop of the UDP process keeps the invariant of the server's state through any sequence of datagrams
  and failed reads.\<close>

theorem udp_loop_keeps_invariant:
  assumes "server_inv w"
  shows "server_inv (snd (processUDP requestManager evs w))"
  by (rule udp_run_keeps [OF assms])

lemma udp_loop_keeps_invariant_example:
  "server_inv (snd (processUDP requestManager [Datagram ''LIN'', Recv_failed False, Datagram ''xyz''] (example_world example_store 1 1000)))"
  by (rule udp_loop_keeps_invariant) (simp add: example_inv example_store_inv)

section \<open>Answers\<close>

text \<open>C2: A login with a user id of six digits that does not begin with 0 and a password of eight letters or digits is
  answered as the account says, in a well-formed store with the semaphore free: REG for a user without a password, who
  is registered with the one given and logged in; OK for the right password; NOK for a wrong one. A wrong password for a
  user who is logged in gets no answer. No other user and no auction is touched. An id that begins with 0 is sent and
  looked up without its zeros and refused (leading_zero_refused).\<close>

theorem login_answer:
  assumes "server_inv w" and "sem_ok w" and "wire_uid uid" and "is_password pw"
    and "q = Q_login \<lparr>lin_user_id = uid, lin_password = pw\<rparr>" and "u = to_string uid"
  shows "\<exists>f'. wait_for_udp_message requestManager (Datagram (request_bytes q)) w =
      (Replied (case acc_password (account (wfs w) u) of
          None \<Rightarrow> Some (''RLI REG'' @ endl)
        | Some p \<Rightarrow> if p = pw then Some (''RLI OK'' @ endl)
            else if acc_logged_in (account (wfs w) u) then None else Some (''RLI NOK'' @ endl)),
       w\<lparr>wfs := f'\<rparr>) \<and>
    account f' u = (case acc_password (account (wfs w) u) of
        None \<Rightarrow> \<lparr>acc_password = Some pw, acc_logged_in = True\<rparr>
      | Some p \<Rightarrow> if p = pw then (account (wfs w) u)\<lparr>acc_logged_in := True\<rparr> else account (wfs w) u) \<and>
    user_step u (wfs w) f'"
  using login_served [OF assms(1,2), of "\<lparr>lin_user_id = uid, lin_password = pw\<rparr>"] assms(3-6)
  by (cases "acc_password (account (wfs w) u)")
    (simp_all add: serves_account_def account_login_def login_round_def db_defs split: if_splits)

lemma wire_examples [simp]:
  "wire_uid 123456" "wire_uid 234567" "wire_uid 345678"
  "to_string 123456 = alice" "to_string 234567 = bob" "to_string 345678 = ''345678''"
proof -
  show w: "wire_uid 123456" "wire_uid 234567" "wire_uid 345678" by (simp_all add: wire_uid_def)
  have v: "digits_val alice = 123456" "digits_val bob = 234567" "digits_val ''345678'' = 345678"
    by (simp_all add: alice_def bob_def digits_val_def digit_val_def)
  have u: "is_uid ''345678''" by code_simp
  show "to_string 123456 = alice" by (rule wire_name [OF _ w(1)]) (simp_all add: v)
  show "to_string 234567 = bob" by (rule wire_name [OF _ w(2)]) (simp_all add: v)
  show "to_string 345678 = ''345678''" by (rule wire_name [OF u w(3)]) (simp add: v)
qed

lemma login_answer_example:
  "\<exists>f'. wait_for_udp_message requestManager (Datagram (ClientLoginUser_buildMessage
      \<lparr>lin_user_id = 345678, lin_password = alice_pw\<rparr>)) (example_world example_users 1 1000) =
      (Replied (Some (''RLI REG'' @ endl)), (example_world example_users 1 1000)\<lparr>wfs := f'\<rparr>)"
proof -
  have "is_uid ''345678''" by code_simp
  moreover have "look example_users (userP ''345678'') = None" by code_simp
  ultimately have "acc_password (account example_users ''345678'') = None"
    using account_no_dir(1) [OF store_invD(1) [OF example_users_facts(1)]] by simp
  then show ?thesis
    using login_answer [of "example_world example_users 1 1000" 345678 alice_pw, OF _ _ _ _ refl refl]
    by (simp add: example_inv example_users_facts) blast
qed

text \<open>A logout with the right password of a user who is logged in is answered OK and logs the user out; with a
  wrong password, or for a user without one, NOK; a user who is not logged in gets no answer.\<close>

theorem logout_answer:
  assumes "server_inv w" and "sem_ok w" and "wire_uid uid" and "is_password pw"
    and "q = Q_logout \<lparr>lou_user_id = uid, lou_password = pw\<rparr>" and "u = to_string uid"
  shows "\<exists>f'. wait_for_udp_message requestManager (Datagram (request_bytes q)) w =
      (Replied (if acc_password (account (wfs w) u) \<noteq> Some pw then Some (''RLO NOK'' @ endl)
          else if acc_logged_in (account (wfs w) u) then Some (''RLO OK'' @ endl) else None),
       w\<lparr>wfs := f'\<rparr>) \<and>
    account f' u = (if acc_password (account (wfs w) u) \<noteq> Some pw then account (wfs w) u
      else (account (wfs w) u)\<lparr>acc_logged_in := False\<rparr>) \<and>
    user_step u (wfs w) f'"
  using logout_served [OF assms(1,2), of "\<lparr>lou_user_id = uid, lou_password = pw\<rparr>"] assms(3-6)
  by (cases "account (wfs w) u")
    (auto simp: serves_account_def account_logout_def logout_round_def db_defs split: if_splits)

lemma logout_answer_example:
  "\<exists>f'. wait_for_udp_message requestManager (Datagram (ClientLogout_buildMessage
      \<lparr>lou_user_id = 123456, lou_password = alice_pw\<rparr>)) (example_world example_users 1 1000) =
      (Replied (Some (''RLO OK'' @ endl)), (example_world example_users 1 1000)\<lparr>wfs := f'\<rparr>) \<and>
      \<not> acc_logged_in (account f' alice)"
proof -
  obtain f' where "wait_for_udp_message requestManager (Datagram (ClientLogout_buildMessage
      \<lparr>lou_user_id = 123456, lou_password = alice_pw\<rparr>)) (example_world example_users 1 1000) =
      (Replied (Some (''RLO OK'' @ endl)), (example_world example_users 1 1000)\<lparr>wfs := f'\<rparr>)"
    and "account f' alice = \<lparr>acc_password = Some alice_pw, acc_logged_in = False\<rparr>"
    using logout_answer [of "example_world example_users 1 1000" 123456 alice_pw, OF _ _ _ _ refl refl]
    by (auto simp: example_inv example_users_facts)
  then show ?thesis by auto
qed

text \<open>Unregistering needs the right password and a user who is logged in: it is answered OK and takes the
  password and the login away; a wrong password is answered NOK; a user who is not logged in gets no answer.\<close>

theorem unregister_answer:
  assumes "server_inv w" and "sem_ok w" and "wire_uid uid" and "is_password pw"
    and "q = Q_unregister \<lparr>unr_user_id = uid, unr_password = pw\<rparr>" and "u = to_string uid"
  shows "\<exists>f'. wait_for_udp_message requestManager (Datagram (request_bytes q)) w =
      (Replied (if acc_password (account (wfs w) u) \<noteq> Some pw then Some (''RUR NOK'' @ endl)
          else if acc_logged_in (account (wfs w) u) then Some (''RUR OK'' @ endl) else None),
       w\<lparr>wfs := f'\<rparr>) \<and>
    account f' u = (if account (wfs w) u = \<lparr>acc_password = Some pw, acc_logged_in = True\<rparr>
      then \<lparr>acc_password = None, acc_logged_in = False\<rparr> else account (wfs w) u) \<and>
    user_step u (wfs w) f'"
  using unregister_served [OF assms(1,2), of "\<lparr>unr_user_id = uid, unr_password = pw\<rparr>"] assms(3-6)
  by (cases "account (wfs w) u")
    (auto simp: serves_account_def account_unregister_def unregister_round_def db_defs split: if_splits)

lemma unregister_answer_example:
  "\<exists>f'. wait_for_udp_message requestManager (Datagram (ClientUnregister_buildMessage
      \<lparr>unr_user_id = 123456, unr_password = alice_pw\<rparr>)) (example_world example_users 1 1000) =
      (Replied (Some (''RUR OK'' @ endl)), (example_world example_users 1 1000)\<lparr>wfs := f'\<rparr>) \<and>
      acc_password (account f' alice) = None"
proof -
  obtain f' where "wait_for_udp_message requestManager (Datagram (ClientUnregister_buildMessage
      \<lparr>unr_user_id = 123456, unr_password = alice_pw\<rparr>)) (example_world example_users 1 1000) =
      (Replied (Some (''RUR OK'' @ endl)), (example_world example_users 1 1000)\<lparr>wfs := f'\<rparr>)"
    and "account f' alice = \<lparr>acc_password = None, acc_logged_in = False\<rparr>"
    using unregister_answer [of "example_world example_users 1 1000" 123456 alice_pw, OF _ _ _ _ refl refl]
    by (auto simp: example_inv example_users_facts)
  then show ?thesis by auto
qed

text \<open>The list of the auctions a user hosts is answered NLG for a user who is not logged in, NOK where it is
  empty, and else OK with each auction of the user's list once, in increasing order, with the state it has in the
  store left behind. The same holds of the list of all auctions, without NLG.\<close>

theorem list_answers:
  assumes "server_inv w" and "sem_ok w" and "wsem w < SEM_VALUE_MAX" and "wire_uid uid" and "u = to_string uid"
    and "look (wfs w) (userP u) \<noteq> None"
  shows "(\<exists>L f' n. wait_for_udp_message requestManager (Datagram (request_bytes (Q_started \<lparr>lma_user_id = uid\<rparr>))) w =
      (Replied (Some (if \<not> acc_logged_in (account (wfs w) u) then ''RMA NLG'' @ endl
         else if L = [] then ''RMA NOK'' @ endl
         else ''RMA OK'' @ printAuctions (map auction_str L) @ endl)), w\<lparr>wfs := f', wcalls := n\<rparr>) \<and>
      listing_of (hosted_ids (wfs w) u) f' L) \<and>
    (\<exists>L f' n. wait_for_udp_message requestManager (Datagram (request_bytes Q_all)) w =
      (Replied (Some (if L = [] then ''RLS NOK'' @ endl
         else ''RLS OK'' @ printAuctions (map auction_str L) @ endl)), w\<lparr>wfs := f', wcalls := n, wsem := Suc (wsem w)\<rparr>) \<and>
      listing_of (auction_ids (wfs w)) f' L)"
proof -
  obtain L f' n where "wait_for_udp_message requestManager (Datagram (request_bytes (Q_started \<lparr>lma_user_id = uid\<rparr>))) w =
      (Replied (Some (if acc_logged_in (account (wfs w) u) then list_reply ''RMA'' L else ''RMA NLG'' @ endl)),
       w\<lparr>wfs := f', wcalls := n\<rparr>)" and "listing_of (hosted_ids (wfs w) u) f' L"
    using my_lists_served(1) [OF assms(1,2,4) _ assms(5)] assms(5,6) by blast
  moreover obtain K g m where "wait_for_udp_message requestManager (Datagram (request_bytes Q_all)) w =
      (Replied (Some (list_reply ''RLS'' K)), w\<lparr>wfs := g, wcalls := m, wsem := Suc (wsem w)\<rparr>)"
      and "listing_of (auction_ids (wfs w)) g K"
    using all_served [OF assms(1,3)] by blast
  ultimately show ?thesis
    by (intro conjI exI [of _ L] exI [of _ f'] exI [of _ n] exI [of _ K] exI [of _ g] exI [of _ m])
      (simp_all add: list_reply_def)
qed

lemma list_answers_example:
  "\<exists>w'. wait_for_udp_message requestManager (Datagram (ClientListAllAuctions_buildMessage)) (example_world example_users 1 1000) =
     (Replied (Some (''RLS NOK'' @ endl)), w')"
  using list_answers [of "example_world example_users 1 1000" 123456, OF _ _ _ _ refl]
  by (auto simp: example_inv example_users_facts SEM_VALUE_MAX_def listing_of_def)

section \<open>Where the server stops answering\<close>

text \<open>C3: One request for the auctions hosted, or bid on, by a user the server does not know stops it: the request
  is not answered, the semaphore stays taken, and the next request over UDP that needs it, however well formed,
  leaves the process waiting for good.\<close>

theorem unknown_user_stops_server:
  assumes "server_inv w" and "wsem w = 1" and "wire_uid uid" and "look (wfs w) (userP (to_string uid)) = None"
    and "good_request q" and "q \<noteq> Q_all"
    and "r = Q_started \<lparr>lma_user_id = uid\<rparr> \<or> r = Q_bidded \<lparr>lmb_user_id = uid\<rparr>"
  shows "processUDP requestManager (Datagram (request_bytes r) # Datagram (request_bytes q) # evs) w =
    ([Replied None, Stuck], w\<lparr>wsem := 0\<rparr>)"
proof -
  have "sem_ok w" using assms(2) by (simp add: sem_ok_def SEM_VALUE_MAX_def)
  note un = lists_of_unknown [OF assms(1) this assms(3,4)]
  have "wait_for_udp_message requestManager (Datagram (request_bytes r)) w = (Replied None, w\<lparr>wsem := 0\<rparr>)"
    using assms(7) un assms(2) by auto
  moreover have "wait_for_udp_message requestManager (Datagram (request_bytes q)) (w\<lparr>wsem := 0\<rparr>) = (Stuck, w\<lparr>wsem := 0\<rparr>)"
    by (rule request_stuck [OF assms(5,6)]) simp
  ultimately show ?thesis by simp
qed

lemma unknown_user_stops_server_example:
  "fst (processUDP requestManager [Datagram (ClientListStartedAuctions_buildMessage \<lparr>lma_user_id = 345678\<rparr>),
     Datagram (ClientLoginUser_buildMessage \<lparr>lin_user_id = 123456, lin_password = alice_pw\<rparr>)] (example_world example_users 1 1000)) =
   [Replied None, Stuck]"
proof -
  have "look example_users (userP ''345678'') = None" by code_simp
  then show ?thesis
    using unknown_user_stops_server [of "example_world example_users 1 1000" 345678
      "Q_login \<lparr>lin_user_id = 123456, lin_password = alice_pw\<rparr>" "Q_started \<lparr>lma_user_id = 345678\<rparr>" "[]"]
    by (simp add: example_inv example_users_facts)
qed

text \<open>C40: A datagram of at least three bytes whose code the UDP table does not hold takes the server out of defined
  behaviour: the handler for wrong requests is registered for TCP only, and the end iterator is dereferenced.\<close>

theorem unknown_code_undefined:
  assumes "3 \<le> length d" and "length d \<le> SOCKET_BUFFER_LEN"
    and "take 3 d \<notin> {''LIN'', ''LOU'', ''UNR'', ''LST'', ''LMB'', ''LMA'', ''SRC''}"
  shows "wait_for_udp_message requestManager (Datagram d) w = (Broken, w)"
  using assms by (intro udp_unknown_code) (simp_all add: udp_table SOCKET_BUFFER_LEN_def)

lemma unknown_code_undefined_example:
  "wait_for_udp_message requestManager (Datagram (''ERR'' @ endl)) (example_world fresh_fs 1 1000) =
     (Broken, example_world fresh_fs 1 1000)"
  by (rule unknown_code_undefined) (simp_all add: SOCKET_BUFFER_LEN_def endl_def)

end
