(* ===== verification/Record_Replies.thy ===== *)
theory Record_Replies
  imports Server_Replies
begin

text \<open>
  The answer to a request for a record: the strings of the files become numbers and dates again. The
  values are read with stoi, so that a record with a bid of 2^31 or more cannot be sent.
\<close>

definition date_of :: "string \<Rightarrow> Datetime" where
  "date_of s = the (convert_str_to_date s)"

lemma date_of_words:
  assumes "date_words s"
  shows "convert_str_to_date s = Some (date_of s)" and "wf_Datetime (date_of s)" and "convert_date_to_str (date_of s) = s"
proof -
  obtain d where "wf_Datetime d" and "s = convert_date_to_str d" using assms by (auto simp: date_words_def)
  then show "convert_str_to_date s = Some (date_of s)" and "wf_Datetime (date_of s)"
    and "convert_date_to_str (date_of s) = s"
    by (simp_all add: date_of_def convert_str_to_date_wf)
qed

lemma bindP_Pair [simp]: "bindP (Pair (Throw e)) k w = (Throw e, w)"
  by (simp add: bindP_def)

lemma date_of_str_run [simp]: "date_words s \<Longrightarrow> bindP (date_of_str s) k w = k (date_of s) w"
  by (simp add: date_of_str_def date_of_words)

lemma stoi_u32_uid [simp]: "is_uid u \<Longrightarrow> bindP (stoi_u32 u) k w = k (word_of_nat (digits_val u)) w"
  using is_uid_bound [of u] is_uid_not_Nil [of u] stoi_digits [of u]
  by (simp add: stoi_u32_def is_uid_def bindP_assoc prog_simps u32_of_int_of_nat)

lemma stoi_u32_small: "unat v < 2 ^ 31 \<Longrightarrow> bindP (stoi_u32 (to_string v)) k w = k v w"
  by (simp add: stoi_u32_def to_string_def stoi_nat_str bindP_assoc prog_simps u32_of_int_of_nat)

lemma stoi_u32_large:
  assumes "\<not> unat v < 2 ^ 31"
  shows "bindP (stoi_u32 (to_string v)) k w = (Throw Std_out_of_range, w)"
proof -
  have "2 ^ 31 \<le> unat v" using assms by (simp only: not_less)
  then have "int (2 ^ 31) \<le> int (unat v)" by (rule of_nat_mono)
  then have "\<not> uint v < 2 ^ 31" by simp
  then show ?thesis
    using strtol_digits [of "nat_str (unat v)"]
    by (simp add: stoi_u32_def to_string_def stoi_def bindP_assoc prog_simps nat_str_digits)
qed

definition view_bid :: "BidInfo \<Rightarrow> uint32 \<Rightarrow> Bid" where
  "view_bid b v = \<lparr>bidder_UID = word_of_nat (digits_val (bi_user_id b)), bid_value = v,
     bid_date_time = date_of (bi_current_date b), bid_sec_time = bi_time_passed b\<rparr>"

text \<open>The bids of a record, by their values.\<close>

definition shown_values :: "fs \<Rightarrow> string \<Rightarrow> uint32 list" where
  "shown_values f a = drop (card (bids f a) - 50) (sorted_list_of_set (bids f a))"

lemma shown_values_bids: "set (shown_values f a) \<subseteq> bids f a"
proof -
  have "finite (bids f a)" by simp
  then show ?thesis using set_drop_subset [of _ "sorted_list_of_set (bids f a)"] by (auto simp: shown_values_def)
qed

lemma record_bids_run:
  assumes "auction_inv f a" and "closed_fs f" and "is_aid a" and "set vs \<subseteq> bids f a" and "\<forall>v \<in> set vs. unat v < 2 ^ 31"
  shows "bindP (record_bids (map (bid_of f a) vs) out) k w = k (out @ map (\<lambda>v. view_bid (bid_of f a v) v) vs) w"
  using assms(4,5)
proof (induction vs arbitrary: out)
  case (Cons v vs)
  then have v: "v \<in> bids f a" by simp
  note b = GetBid_bid [OF assms(1-3) v]
  show ?case using Cons b by (simp add: bindP_assoc stoi_u32_small view_bid_def)
qed simp

lemma record_bids_large:
  assumes "auction_inv f a" and "closed_fs f" and "is_aid a" and "set vs \<subseteq> bids f a" and "\<exists>v \<in> set vs. \<not> unat v < 2 ^ 31"
  shows "bindP (record_bids (map (bid_of f a) vs) out) k w = (Throw Std_out_of_range, w)"
  using assms(4,5)
proof (induction vs arbitrary: out)
  case (Cons v vs)
  then have v: "v \<in> bids f a" by simp
  note b = GetBid_bid [OF assms(1-3) v]
  show ?case using Cons b by (cases "unat v < 2 ^ 31") (simp_all add: bindP_assoc stoi_u32_small stoi_u32_large)
qed simp

text \<open>What the answer says of an auction.\<close>

definition record_view :: "fs \<Rightarrow> string \<Rightarrow> ServerShowRecord" where
  "record_view f a =
     (let s = start_of f a in
      (no_record Record_OK)\<lparr>rrc_host_UID := word_of_nat (digits_val (st_user_id s)), rrc_auction_name := st_name s,
        rrc_asset_fname := st_asset_fname s, rrc_start_value := start_value_of f a,
        rrc_start_date_time := date_of (st_current_date s), rrc_timeactive := timeactive_of f a,
        rrc_bids := map (\<lambda>v. view_bid (bid_of f a v) v) (shown_values f a),
        rrc_end_date_time := if ended f a then date_of (en_end_date (end_of f a)) else no_date,
        rrc_end_sec_time := if ended f a then en_end_time (end_of f a) else 0\<rparr>)"

lemma start_strings:
  assumes "auction_inv f a" and "closed_fs f" and "is_aid a"
  shows "st_start_value (start_of f a) = to_string (start_value_of f a)"
    and "st_timeactive (start_of f a) = to_string (timeactive_of f a)"
    and "is_uid (st_user_id (start_of f a))" and "date_words (st_current_date (start_of f a))"
  using start_of_eq(2) [OF assms]
  by (auto simp: wf_start_def start_value_of_def timeactive_of_def)

definition small_values :: "fs \<Rightarrow> string \<Rightarrow> bool" where
  "small_values f a \<longleftrightarrow> unat (start_value_of f a) < 2 ^ 31 \<and> unat (timeactive_of f a) < 2 ^ 31 \<and>
     (\<forall>v \<in> set (shown_values f a). unat v < 2 ^ 31)"

lemma record_message_run:
  assumes "auction_inv f a" and "closed_fs f" and "is_aid a"
  shows "small_values f a \<Longrightarrow> record_message (record_of f a) w = (Ret (record_view f a), w)"
    and "\<not> small_values f a \<Longrightarrow> record_message (record_of f a) w = (Throw Std_out_of_range, w)"
proof -
  note st = start_strings [OF assms]
  have l: "ar_list (record_of f a) = map (bid_of f a) (shown_values f a)"
    by (simp add: record_of_def shown_bids_def shown_values_def Let_def)
  have e: "ended f a \<Longrightarrow> date_words (en_end_date (end_of f a))" using GetEnd_end(2) [OF assms] .
  note run = record_bids_run [OF assms shown_values_bids] record_bids_large [OF assms shown_values_bids]
  show "record_message (record_of f a) w = (Ret (record_view f a), w)" if "small_values f a"
    using that st e unfolding record_message_def l
    by (simp add: small_values_def stoi_u32_small record_of_def Let_def run(1) record_view_def no_record_def)
  show "record_message (record_of f a) w = (Throw Std_out_of_range, w)" if "\<not> small_values f a"
    using that st unfolding record_message_def l
    by (cases "unat (start_value_of f a) < 2 ^ 31"; cases "unat (timeactive_of f a) < 2 ^ 31")
      (simp_all add: small_values_def stoi_u32_small stoi_u32_large record_of_def Let_def run(2))
qed

section \<open>The answer\<close>

definition record_text :: "ServerShowRecord \<Rightarrow> string" where
  "record_text m = (case ServerShowRecord_buildMessage m of Inl _ \<Rightarrow> [] | Inr s \<Rightarrow> s)"

lemma record_text_built: "ServerShowRecord_buildMessage m = Inr (record_text m)"
  by (simp add: record_text_def ServerShowRecord_buildMessage_def)

lemma record_served:
  assumes "server_inv w" and "sem_ok w" and "unat aid < 10 ^ 3" and "a = convert_auction_id_to_str aid"
  shows "a \<notin> set (auction_ids (wfs w)) \<Longrightarrow>
      wait_for_udp_message requestManager (Datagram (request_bytes (Q_record \<lparr>src_auction_id = aid\<rparr>))) w =
      (Replied (Some (''RRC NOK'' @ endl)), w)"
    and "a \<in> set (auction_ids (wfs w)) \<Longrightarrow>
      \<exists>f' n. wait_for_udp_message requestManager (Datagram (request_bytes (Q_record \<lparr>src_auction_id = aid\<rparr>))) w =
      (Replied (if small_values f' a then Some (record_text (record_view f' a)) else None), w\<lparr>wcalls := n, wfs := f'\<rparr>) \<and>
      store_inv f' \<and> (ended f' a \<longleftrightarrow> ended (wfs w) a \<or> time_over (wfs w) a (wclock w (wcalls w))) \<and>
      (\<forall>p. p \<noteq> endP a \<longrightarrow> look f' p = look (wfs w) p)"
proof -
  have g: "good_request (Q_record \<lparr>src_auction_id = aid\<rparr>)" using assms(3) by simp
  have a: "is_aid a" using is_aid_pad0 [OF assms(3)] by (simp add: assms(4) convert_auction_id_to_str_eq [OF assms(3)])
  note in_ids = in_auction_ids [OF server_invD(5) [OF assms(1)]]
  have read: "result (ClientShowRecord_readMessage StreamMessage
      (stream_at p (drop 3 (ClientShowRecord_buildMessage \<lparr>src_auction_id = aid\<rparr>)))) = Inr \<lparr>src_auction_id = aid\<rparr>" for p
    using assms(3) by (simp add: ClientShowRecord_read_build)
  note run = ShowRecordRequest_handle_def read bindP_def try_catch_def answer_def send_message_def assms(4) [symmetric]
  show "wait_for_udp_message requestManager (Datagram (request_bytes (Q_record \<lparr>src_auction_id = aid\<rparr>))) w =
      (Replied (Some (''RRC NOK'' @ endl)), w)" if "a \<notin> set (auction_ids (wfs w))"
    unfolding request_round [OF g]
    using that in_ids ShowRecord_unknown [OF server_invD(1) [OF assms(1)] assms(2) a]
    by (simp add: run ServerShowRecord_buildMessage_def no_record_def code_defs)
  assume "a \<in> set (auction_ids (wfs w))"
  then have there: "look (wfs w) (auctionP a) \<noteq> None" using in_ids by blast
  obtain f' n where eq: "ShowRecord a w = (Ret (record_of f' a), w\<lparr>wcalls := n, wfs := f'\<rparr>)"
    and p: "store_inv f'" "ended f' a \<longleftrightarrow> ended (wfs w) a \<or> time_over (wfs w) a (wclock w (wcalls w))"
      "\<forall>p. p \<noteq> endP a \<longrightarrow> look f' p = look (wfs w) p"
    using ShowRecord_known [OF assms(1,2) a there] by blast
  have "auctionP a \<noteq> endP a" by (simp add: auction_paths)
  then have "look f' (auctionP a) \<noteq> None" using p(3) there by metis
  note m = record_message_run [OF store_invD(4,2) [OF p(1)] a, of "w\<lparr>wcalls := n, wfs := f'\<rparr>", OF this]
  have "wait_for_udp_message requestManager (Datagram (request_bytes (Q_record \<lparr>src_auction_id = aid\<rparr>))) w =
      (Replied (if small_values f' a then Some (record_text (record_view f' a)) else None), w\<lparr>wcalls := n, wfs := f'\<rparr>)"
    unfolding request_round [OF g]
    using m by (cases "small_values f' a") (simp_all add: run eq record_text_built)
  then show "\<exists>f' n. wait_for_udp_message requestManager (Datagram (request_bytes (Q_record \<lparr>src_auction_id = aid\<rparr>))) w =
      (Replied (if small_values f' a then Some (record_text (record_view f' a)) else None), w\<lparr>wcalls := n, wfs := f'\<rparr>) \<and>
      store_inv f' \<and> (ended f' a \<longleftrightarrow> ended (wfs w) a \<or> time_over (wfs w) a (wclock w (wcalls w))) \<and>
      (\<forall>p. p \<noteq> endP a \<longrightarrow> look f' p = look (wfs w) p)"
    using p by blast
qed

end
