(* ===== verification/Availability.thy ===== *)
theory Availability
  imports Server_Replies Record_Replies
begin

text \<open>
  The UDP process goes on answering: requests as a client builds them, the lists of a user only for
  users with a directory, find the semaphore free one after the other, whatever the store holds.
\<close>

text \<open>The requests a store can serve: a list is asked of a user it knows.\<close>

fun known_in :: "fs \<Rightarrow> udp_request \<Rightarrow> bool" where
  "known_in f (Q_started m) = (look f (userP (to_string (lma_user_id m))) \<noteq> None)"
| "known_in f (Q_bidded m) = (look f (userP (to_string (lmb_user_id m))) \<noteq> None)"
| "known_in f _ = True"

text \<open>
  The requests that get no answer, in terms of the store before and after: a login with a wrong password of a user
  who is logged in; a logout or an unregistering, with the right password, of a user who is not; a record with a
  number that cannot be sent.
\<close>

fun silent :: "udp_request \<Rightarrow> fs \<Rightarrow> fs \<Rightarrow> bool" where
  "silent (Q_login m) f f' =
     (acc_password (account f (to_string (lin_user_id m))) \<notin> {None, Some (lin_password m)} \<and>
      acc_logged_in (account f (to_string (lin_user_id m))))"
| "silent (Q_logout m) f f' =
     (account f (to_string (lou_user_id m)) = \<lparr>acc_password = Some (lou_password m), acc_logged_in = False\<rparr>)"
| "silent (Q_unregister m) f f' =
     (account f (to_string (unr_user_id m)) = \<lparr>acc_password = Some (unr_password m), acc_logged_in = False\<rparr>)"
| "silent (Q_record m) f f' =
     (convert_auction_id_to_str (src_auction_id m) \<in> set (auction_ids f) \<and>
      \<not> small_values f' (convert_auction_id_to_str (src_auction_id m)))"
| "silent _ f f' = False"

fun reply_code :: "udp_request \<Rightarrow> string" where
  "reply_code (Q_login _) = ''RLI''"
| "reply_code (Q_logout _) = ''RLO''"
| "reply_code (Q_unregister _) = ''RUR''"
| "reply_code (Q_started _) = ''RMA''"
| "reply_code (Q_bidded _) = ''RMB''"
| "reply_code Q_all = ''RLS''"
| "reply_code (Q_record _) = ''RRC''"

definition reply_fits :: "udp_request \<Rightarrow> fs \<Rightarrow> fs \<Rightarrow> string option \<Rightarrow> bool" where
  "reply_fits q f f' r \<longleftrightarrow>
     (case r of None \<Rightarrow> silent q f f' | Some bytes \<Rightarrow> \<not> silent q f f' \<and> take 3 bytes = reply_code q)"

text \<open>A step of the server after which it can serve what it could serve before.\<close>

definition serves_on :: "world \<Rightarrow> udp_request \<Rightarrow> bool" where
  "serves_on w q \<longleftrightarrow>
     (\<exists>r w'. wait_for_udp_message requestManager (Datagram (request_bytes q)) w = (Replied r, w') \<and>
        reply_fits q (wfs w) (wfs w') r \<and> 0 < wsem w' \<and> wsem w' \<le> Suc (wsem w) \<and>
        (\<forall>v. look (wfs w') (userP v) = None \<longrightarrow> look (wfs w) (userP v) = None))"

lemma serves_onI:
  assumes "wait_for_udp_message requestManager (Datagram (request_bytes q)) w = (Replied r, w')"
    and "reply_fits q (wfs w) (wfs w') r" and "0 < wsem w'" and "wsem w' \<le> Suc (wsem w)"
    and "\<And>v. look (wfs w') (userP v) = None \<Longrightarrow> look (wfs w) (userP v) = None"
  shows "serves_on w q"
  unfolding serves_on_def using assms by blast

lemma account_serves_on:
  assumes "serves_account u spec shown q w" and "0 < wsem w"
    and "\<And>f'. \<exists>r. shown (fst (spec (account (wfs w) u))) = Replied r \<and> reply_fits q (wfs w) f' r"
  shows "serves_on w q"
proof -
  obtain f' where "wait_for_udp_message requestManager (Datagram (request_bytes q)) w =
      (shown (fst (spec (account (wfs w) u))), w\<lparr>wfs := f'\<rparr>)" and st: "user_step u (wfs w) f'"
    using assms(1) unfolding serves_account_def by blast
  moreover obtain r where "shown (fst (spec (account (wfs w) u))) = Replied r" "reply_fits q (wfs w) f' r"
    using assms(3) by blast
  ultimately show ?thesis
    using assms(2) by (intro serves_onI [of q w r "w\<lparr>wfs := f'\<rparr>"]) (simp_all add: user_step_def)
qed

lemma account_rounds_fit:
  "\<exists>r. login_round (fst (account_login (lin_password m1) (account f (to_string (lin_user_id m1))))) = Replied r \<and>
     reply_fits (Q_login m1) f f' r"
  "\<exists>r. logout_round (fst (account_logout (lou_password m2) (account f (to_string (lou_user_id m2))))) = Replied r \<and>
     reply_fits (Q_logout m2) f f' r"
  "\<exists>r. unregister_round (fst (account_unregister (unr_password m3) (account f (to_string (unr_user_id m3))))) = Replied r \<and>
     reply_fits (Q_unregister m3) f f' r"
  by (cases "account f (to_string (lin_user_id m1))"; cases "account f (to_string (lou_user_id m2))";
      cases "account f (to_string (unr_user_id m3))";
      auto simp: login_round_def logout_round_def unregister_round_def account_login_def account_logout_def
        account_unregister_def reply_fits_def db_defs split: option.splits)+

lemma list_replies_fit:
  "reply_fits (Q_started m1) f f' (Some (if c then list_reply ''RMA'' L else ''RMA NLG'' @ endl))"
  "reply_fits (Q_bidded m2) f f' (Some (if c then list_reply ''RMB'' L else ''RMB NLG'' @ endl))"
  "reply_fits Q_all f f' (Some (list_reply ''RLS'' L))"
  by (simp_all add: reply_fits_def list_reply_def)

lemma record_text_code: "take 3 (record_text m) = ''RRC''"
  by (simp add: record_text_def ServerShowRecord_buildMessage_def code_defs)

lemma known_closed_those: "closed_those as f f' clk \<Longrightarrow> look f' (userP v) = look f (userP v)"
  by (auto simp: closed_those_def)

lemma request_serves_on:
  assumes "server_inv w" and "0 < wsem w" and "wsem w < SEM_VALUE_MAX" and "good_request q" and "known_in (wfs w) q"
  shows "serves_on w q"
proof -
  have ok: "sem_ok w" using server_inv_sem [OF assms(1)] assms(2) by simp
  show ?thesis
  proof (cases q)
    case (Q_login m)
    have "good_request (Q_login m)" using assms(4) by (simp add: Q_login)
    then show ?thesis
      unfolding Q_login
      by (rule account_serves_on [OF login_served [OF assms(1) ok] assms(2)]) (rule account_rounds_fit(1))
  next
    case (Q_logout m)
    have "good_request (Q_logout m)" using assms(4) by (simp add: Q_logout)
    then show ?thesis
      unfolding Q_logout
      by (rule account_serves_on [OF logout_served [OF assms(1) ok] assms(2)]) (rule account_rounds_fit(2))
  next
    case (Q_unregister m)
    have "good_request (Q_unregister m)" using assms(4) by (simp add: Q_unregister)
    then show ?thesis
      unfolding Q_unregister
      by (rule account_serves_on [OF unregister_served [OF assms(1) ok] assms(2)]) (rule account_rounds_fit(3))
  next
    case (Q_started m)
    then obtain uid where m: "m = \<lparr>lma_user_id = uid\<rparr>" by (cases m)
    have g: "wire_uid uid" "look (wfs w) (userP (to_string uid)) \<noteq> None" using assms(4,5) by (simp_all add: Q_started m)
    show ?thesis
      using my_lists_served(1) [OF assms(1) ok g refl] assms(2) unfolding Q_started m
      by (elim exE conjE) (rule serves_onI, assumption, simp_all only: list_replies_fit, simp_all add: known_closed_those)
  next
    case (Q_bidded m)
    then obtain uid where m: "m = \<lparr>lmb_user_id = uid\<rparr>" by (cases m)
    have g: "wire_uid uid" "look (wfs w) (userP (to_string uid)) \<noteq> None" using assms(4,5) by (simp_all add: Q_bidded m)
    show ?thesis
      using my_lists_served(2) [OF assms(1) ok g refl] assms(2) unfolding Q_bidded m
      by (elim exE conjE) (rule serves_onI, assumption, simp_all only: list_replies_fit, simp_all add: known_closed_those)
  next
    case Q_all
    show ?thesis
      using all_served [OF assms(1,3)] unfolding Q_all
      by (elim exE conjE) (rule serves_onI, assumption, simp_all only: list_replies_fit, simp_all add: known_closed_those)
  next
    case (Q_record m)
    then obtain aid where m: "m = \<lparr>src_auction_id = aid\<rparr>" by (cases m)
    have aid: "unat aid < 10 ^ 3" using assms(4) by (simp add: Q_record m)
    note rs = record_served [OF assms(1) ok aid refl]
    show ?thesis
    proof (cases "convert_auction_id_to_str aid \<in> set (auction_ids (wfs w))")
      case False
      show ?thesis using rs(1) [OF False] assms(2) False unfolding Q_record m
        by (intro serves_onI) (assumption, simp_all add: reply_fits_def)
    next
      case True
      show ?thesis
        using rs(2) [OF True] assms(2) True unfolding Q_record m
        by (elim exE conjE) (rule serves_onI, assumption, simp_all add: reply_fits_def record_text_code)
    qed
  qed
qed

text \<open>The store after some requests.\<close>

definition store_after :: "udp_request list \<Rightarrow> world \<Rightarrow> fs" where
  "store_after qs w = wfs (snd (processUDP requestManager (map (\<lambda>q. Datagram (request_bytes q)) qs) w))"

definition replies_fit :: "udp_request list \<Rightarrow> world \<Rightarrow> string option list \<Rightarrow> bool" where
  "replies_fit qs w rs \<longleftrightarrow> length rs = length qs \<and>
     (\<forall>i < length qs. reply_fits (qs ! i) (store_after (take i qs) w) (store_after (take (Suc i) qs) w) (rs ! i))"

lemma store_after_Cons:
  assumes "wait_for_udp_message requestManager (Datagram (request_bytes q)) w = (Replied r, w')"
  shows "store_after (q # qs) w = store_after qs w'"
  using assms by (simp add: store_after_def split: prod.split)

text \<open>The loop: as long as posting more than was waited for leaves room in the semaphore.\<close>

lemma udp_serves_all:
  assumes "server_inv w" and "0 < wsem w" and "wsem w + length qs \<le> SEM_VALUE_MAX"
    and "\<forall>q \<in> set qs. good_request q \<and> known_in (wfs w) q"
  shows "\<exists>rs w'. processUDP requestManager (map (\<lambda>q. Datagram (request_bytes q)) qs) w = (map Replied rs, w') \<and>
    replies_fit qs w rs \<and> 0 < wsem w' \<and> server_inv w'"
  using assms
proof (induction qs arbitrary: w)
  case (Cons q qs)
  obtain r w' where r: "wait_for_udp_message requestManager (Datagram (request_bytes q)) w = (Replied r, w')"
    and fit: "reply_fits q (wfs w) (wfs w') r" and s: "0 < wsem w'" "wsem w' \<le> Suc (wsem w)"
    and k: "\<forall>v. look (wfs w') (userP v) = None \<longrightarrow> look (wfs w) (userP v) = None"
    using request_serves_on [of w q] Cons.prems unfolding serves_on_def by auto
  have i: "server_inv w'" using udp_round_keeps [OF Cons.prems(1), of "Datagram (request_bytes q)"] r by simp
  have "known_in (wfs w') p" if "known_in (wfs w) p" for p using that k by (cases p) auto
  then have "\<forall>p \<in> set qs. good_request p \<and> known_in (wfs w') p" using Cons.prems(4) by simp
  then obtain rs w2 where run: "processUDP requestManager (map (\<lambda>q. Datagram (request_bytes q)) qs) w' = (map Replied rs, w2)"
    and p: "replies_fit qs w' rs" "0 < wsem w2" "server_inv w2"
    using Cons.IH [OF i s(1)] s(2) Cons.prems(3) by auto
  have "processUDP requestManager (map (\<lambda>q. Datagram (request_bytes q)) (q # qs)) w = (map Replied (r # rs), w2)"
    using r run by simp
  moreover have "replies_fit (q # qs) w (r # rs)"
    unfolding replies_fit_def
  proof (intro conjI allI impI)
    show "length (r # rs) = length (q # qs)" using p(1) by (simp add: replies_fit_def)
    fix j assume j: "j < length (q # qs)"
    show "reply_fits ((q # qs) ! j) (store_after (take j (q # qs)) w) (store_after (take (Suc j) (q # qs)) w) ((r # rs) ! j)"
    proof (cases j)
      case 0
      then show ?thesis using fit store_after_Cons [OF r, of "[]"] by (simp add: store_after_def)
    next
      case (Suc k)
      then show ?thesis using p(1) j store_after_Cons [OF r] by (simp add: replies_fit_def)
    qed
  qed
  ultimately show ?case using p by (intro exI [of _ "r # rs"] exI [of _ w2]) simp
qed (simp add: replies_fit_def)

end
