(* ===== verification/Tcp_Replies.thy ===== *)
theory Tcp_Replies
  imports Tcp_Runs
begin

text \<open>
  What the server answers to the requests over TCP: the outcome of the database for each of them, on
  every branch, and the bytes the child process sends.
\<close>

section \<open>Bid\<close>

definition bid_result :: "fs \<Rightarrow> string \<Rightarrow> string \<Rightarrow> string \<Rightarrow> uint32 \<Rightarrow> nat \<Rightarrow> int outcome" where
  "bid_result f u pw a v t =
     (if \<not> acc_logged_in (account f u) then Throw UserNotLoggedIn
      else if acc_password (account f u) \<noteq> Some pw then Ret DB_BID_NOK
      else if a \<notin> set (auction_ids f) then Throw AuctionNotFound
      else if a \<in> set (hosted_ids f u) then Throw BidOnSelf
      else if ended f a \<or> time_over f a t then Throw AuctionAlreadyClosed
      else if outbids f a v then Ret DB_BID_ACCEPT
      else Throw LargerBidAlreadyExists)"

lemma bids_closed_now [simp]: "is_aid b \<Longrightarrow> bids (closed_now b w) a = bids (wfs w) a"
  by (simp add: bids_def closed_now_def fs_simps)

lemma bid_total:
  assumes "server_inv w" and "sem_ok w" and "is_uid u" and "is_password pw" and "is_aid a" and "v \<noteq> 0"
  shows "\<exists>w'. Db_Bid u pw a (to_string v) w = (bid_result (wfs w) u pw a v (wclock w (wcalls w)), w') \<and>
    bids (wfs w') a = (if bid_result (wfs w) u pw a v (wclock w (wcalls w)) = Ret DB_BID_ACCEPT
      then insert v (bids (wfs w) a) else bids (wfs w) a)"
proof -
  note i = server_invD(1,2) [OF assms(1)]
  note refused = Db_Bid_refused [OF i(1) assms(2-5), of "to_string v"]
  show ?thesis
  proof (cases rule: account_cases [where f = "wfs w" and u = u and pw = pw])
    case in_
    then have acc: "acc_logged_in (account (wfs w) u)" "acc_password (account (wfs w) u) = Some pw" by simp_all
    show ?thesis
    proof (cases "may_bid (wfs w) u pw a")
      case False
      then show ?thesis
        using refused(3,4) [OF in_] acc in_ by (cases "a \<in> set (auction_ids (wfs w))") (auto simp: bid_result_def may_bid_def)
    next
      case may: True
      then have m: "a \<in> set (auction_ids (wfs w))" "a \<notin> set (hosted_ids (wfs w) u)" by (simp_all add: may_bid_def)
      have clk: "wclock w k < 2 ^ 32" for k using i(2) by (simp add: clock_ok_def)
      consider (ended) "ended (wfs w) a" | (over) "\<not> ended (wfs w) a" "time_over (wfs w) a (wclock w (wcalls w))"
        | (open_) "\<not> ended (wfs w) a" "\<not> time_over (wfs w) a (wclock w (wcalls w))" by blast
      then show ?thesis
      proof cases
        case ended
        then show ?thesis using refused(5) [OF may ended] acc m by (simp add: bid_result_def)
      next
        case over
        then show ?thesis
          using Db_Bid_expired [OF i assms(2,3) may over] acc m assms(5) by (simp add: bid_result_def)
      next
        case open_
        note run = Db_Bid_run [OF i assms(2,3) may assms(6) open_]
        note st = store_inv_with_bid(2) [OF i(1) assms(3) may_bid_facts(8,7) [OF i(1) assms(3) may] outbids_new clock_date_words [OF clk]]
        show ?thesis
          using run st acc m open_ by (cases "outbids (wfs w) a v") (simp_all add: bid_result_def bid_store_def)
      qed
    qed
  qed (use refused(1,2) in \<open>simp_all add: bid_result_def db_defs\<close>)
qed

definition bid_status :: "int outcome \<Rightarrow> string" where
  "bid_status out =
     (case out of
        Ret r \<Rightarrow> if r = DB_BID_NOK then ''NOK'' else ''ACC''
      | Throw e \<Rightarrow> if e = UserNotLoggedIn then ''NLG'' else if e = LargerBidAlreadyExists then ''REF''
          else if e = BidOnSelf then ''ILG'' else ''NOK''
      | _ \<Rightarrow> [])"

lemma bid_served:
  assumes "server_inv w" and "sem_ok w" and "good_tcp (T_bid m)" and "delivered chunks = tcp_bytes (T_bid m)"
    and "u = convert_user_id_to_str (bid_user_id m)" and "a = convert_auction_id_to_str (bid_auction_id m)"
    and "r = bid_result (wfs w) u (bid_password m) a (bid_amount m) (wclock w (wcalls w))"
  shows "\<exists>w'. processTCPChild requestManager fallback chunks w = (EXIT_SUCCESS (Some (''RBD '' @ bid_status r @ endl)), w') \<and>
    bids (wfs w') a = (if r = Ret DB_BID_ACCEPT then insert (bid_amount m) (bids (wfs w) a) else bids (wfs w) a)"
proof -
  have u: "is_uid u" using assms(3,5) uid_of_wire [of "bid_user_id m"] by (simp add: wire_uid_def)
  have a: "is_aid a" using assms(3,6) is_aid_pad0 by (simp add: convert_auction_id_to_str_eq)
  have pv: "is_password (bid_password m)" "bid_amount m \<noteq> 0" using assms(3) by auto
  obtain w' where run: "Db_Bid u (bid_password m) a (to_string (bid_amount m)) w = (r, w')"
    and b: "bids (wfs w') a = (if r = Ret DB_BID_ACCEPT then insert (bid_amount m) (bids (wfs w) a) else bids (wfs w) a)"
    using bid_total [OF assms(1,2) u pv(1) a pv(2)] assms(7) by blast
  have "processTCPChild requestManager fallback chunks w = (EXIT_SUCCESS (Some (''RBD '' @ bid_status r @ endl)), w')"
    unfolding child_runs_request [OF assms(4)]
    using run assms(3,7)
    by (auto simp: BidRequest_handle_def ClientBid_read_build bindP_def try_catch_def answer_def send_message_def
        assms(5,6) [symmetric] bid_result_def bid_status_def db_defs ServerBid_buildMessage_def code_defs split: if_splits)
  then show ?thesis using b by blast
qed

section \<open>Close\<close>

definition close_result :: "fs \<Rightarrow> string \<Rightarrow> string \<Rightarrow> string \<Rightarrow> nat \<Rightarrow> int outcome" where
  "close_result f u pw a t =
     (if look f (userP u) = None then Throw UserDoesNotExist
      else if \<not> acc_logged_in (account f u) then Throw UserNotLoggedIn
      else if acc_password (account f u) \<noteq> Some pw then Throw IncorrectPassword
      else if a \<notin> set (auction_ids f) then Throw AuctionNotFound
      else if a \<notin> set (hosted_ids f u) then Throw AuctionNotOwnedByUser
      else if ended f a \<or> time_over f a t then Throw AuctionAlreadyClosed
      else Ret DB_CLOSE_OK)"

lemma close_total:
  assumes "server_inv w" and "sem_ok w" and "is_uid u" and "is_password pw" and "is_aid a"
  shows "\<exists>w'. CloseAuction a u pw w = (close_result (wfs w) u pw a (wclock w (wcalls w)), w') \<and>
    (ended (wfs w') a \<longleftrightarrow> ended (wfs w) a \<or> may_close (wfs w) u pw a)"
proof -
  note i = server_invD(1,2) [OF assms(1)]
  note refused = CloseAuction_refused [OF i(1) assms(2-5)]
  show ?thesis
  proof (cases rule: account_cases [where f = "wfs w" and u = u and pw = pw])
    case in_
    then have acc: "acc_logged_in (account (wfs w) u)" "acc_password (account (wfs w) u) = Some pw" by simp_all
    have dir: "look (wfs w) (userP u) \<noteq> None" using account_facts(2) [OF i(1) assms(3) in_] .
    show ?thesis
    proof (cases "may_close (wfs w) u pw a")
      case False
      then show ?thesis
        using refused(4,5) [OF in_] acc in_ dir
        by (cases "a \<in> set (auction_ids (wfs w))") (auto simp: close_result_def may_close_def)
    next
      case may: True
      then have m: "a \<in> set (auction_ids (wfs w))" "a \<in> set (hosted_ids (wfs w) u)" by (simp_all add: may_close_def)
      note run = CloseAuction_run [OF i assms(2,3) may]
      show ?thesis
        using run acc m dir may assms(5)
        by (cases "ended (wfs w) a"; cases "time_over (wfs w) a (wclock w (wcalls w))")
          (simp_all add: close_result_def)
    qed
  next
    case out
    then show ?thesis
      using refused(1,2) by (cases "look (wfs w) (userP u) = None") (auto simp: close_result_def may_close_def)
  next
    case wrong
    then have "look (wfs w) (userP u) \<noteq> None"
      using account_no_dir(1) [OF store_invD(1) [OF i(1)] assms(3)] by (cases "look (wfs w) (userP u)") simp_all
    then show ?thesis using wrong refused(3) by (auto simp: close_result_def may_close_def)
  qed
qed

definition close_status :: "int outcome \<Rightarrow> string" where
  "close_status out =
     (case out of
        Throw e \<Rightarrow> if e = UserNotLoggedIn then ''NLG'' else if e = AuctionNotFound then ''EAU''
          else if e = AuctionNotOwnedByUser then ''EOW'' else if e = AuctionAlreadyClosed then ''END'' else ''NOK''
      | _ \<Rightarrow> ''OK'')"

lemma close_served:
  assumes "server_inv w" and "sem_ok w" and "good_tcp (T_close m)" and "delivered chunks = tcp_bytes (T_close m)"
    and "u = convert_user_id_to_str (cls_user_id m)" and "a = convert_auction_id_to_str (cls_auction_id m)"
    and "r = close_result (wfs w) u (cls_password m) a (wclock w (wcalls w))"
  shows "\<exists>w'. processTCPChild requestManager fallback chunks w = (EXIT_SUCCESS (Some (''RCL '' @ close_status r @ endl)), w') \<and>
    (ended (wfs w') a \<longleftrightarrow> ended (wfs w) a \<or> may_close (wfs w) u (cls_password m) a)"
proof -
  have u: "is_uid u" using assms(3,5) uid_of_wire [of "cls_user_id m"] by (simp add: wire_uid_def)
  have a: "is_aid a" using assms(3,6) is_aid_pad0 by (simp add: convert_auction_id_to_str_eq)
  have pw: "is_password (cls_password m)" using assms(3) by simp
  obtain w' where run: "CloseAuction a u (cls_password m) w = (r, w')"
    and b: "ended (wfs w') a \<longleftrightarrow> ended (wfs w) a \<or> may_close (wfs w) u (cls_password m) a"
    using close_total [OF assms(1,2) u pw a] assms(7) by blast
  have "processTCPChild requestManager fallback chunks w = (EXIT_SUCCESS (Some (''RCL '' @ close_status r @ endl)), w')"
    unfolding child_runs_request [OF assms(4)]
    using run assms(3,7)
    by (auto simp: CloseAuctionRequest_handle_def ClientCloseAuction_read_build bindP_def try_catch_def answer_def
        send_message_def assms(5,6) [symmetric] close_result_def close_status_def db_defs
        ServerCloseAuction_buildMessage_def code_defs split: if_splits)
  then show ?thesis using b by blast
qed

section \<open>Open\<close>

lemma opened_id_sent:
  assumes "n \<le> 999"
  shows "sprintf_0d 3 (sint (u32_of_int (int n))) = pad0 3 n"
proof -
  have "unat (u32_of_int (int n)) = n" using assms by (simp add: u32_of_int_of_nat unat_of_nat_small)
  then show ?thesis
    using convert_auction_id_to_str_eq [of "u32_of_int (int n)"] assms by (simp add: convert_auction_id_to_str_def)
qed

lemma open_served:
  assumes "server_inv w" and "sem_ok w" and "good_tcp (T_open m)" and "open_message m"
    and "delivered chunks = tcp_bytes (T_open m)" and "u = convert_user_id_to_str (opa_user_id m)"
    and "n = next_id (auction_ids (wfs w))"
  shows "\<exists>w'. processTCPChild requestManager fallback chunks w =
      (EXIT_SUCCESS (if \<not> acc_logged_in (account (wfs w) u) then None
         else if acc_password (account (wfs w) u) \<noteq> Some (opa_password m) \<or> n > 999 then Some (''ROA NOK'' @ endl)
         else Some (''ROA OK '' @ pad0 3 n @ endl)), w') \<and>
    (account (wfs w) u = \<lparr>acc_password = Some (opa_password m), acc_logged_in = True\<rparr> \<and> n \<le> 999 \<longrightarrow>
      (\<exists>date t. wfs w' = with_auction (pad0 3 n) (opening_of m) date t (wfs w)))"
proof -
  note i = server_invD(1,2) [OF assms(1)]
  have good: "good_opening (opening_of m)" and pw: "is_password (opa_password m)"
    using assms(4) by (simp_all add: open_message_def)
  have u: "op_user (opening_of m) = u" "is_uid u"
    using good by (auto simp: good_opening_def opening_of_def assms(6))
  have call: "Db_Open u (opa_name m) (opa_password m) (opa_assetf_name m)
      (to_string (opa_start_value m)) (to_string (opa_timeactive m)) (opa_Fsize m) (opa_fdata m) =
      open_auction (opa_password m) (opening_of m) (opa_Fsize m)"
    by (rule ext) (simp add: open_auction_def opening_of_def assms(6))
  note refused = Db_Open_refused [OF i(1) assms(2) u(2) [folded u(1)] pw, of "opa_Fsize m", unfolded u(1) assms(7) [symmetric]]
  note run = OpenAuctionRequest_handle_def bindP_def try_catch_def answer_def send_message_def
    assms(6) [symmetric] call ServerOpenAuction_buildMessage_def code_defs db_defs
  have read: "result (ClientOpenAuction_readMessage StreamMessage
      (stream_at p (drop 3 (ClientOpenAuction_buildMessage m)))) = Inr m" for p
    using assms(3) by (intro ClientOpenAuction_read_build) auto
  show ?thesis
  proof (cases "acc_logged_in (account (wfs w) u)")
    case False
    then show ?thesis
      unfolding child_runs_request [OF assms(5)] using refused(1) by (auto simp: run read)
  next
    case logged: True
    show ?thesis
    proof (cases "acc_password (account (wfs w) u) \<noteq> Some (opa_password m) \<or> n > 999")
      case True
      then have "open_auction (opa_password m) (opening_of m) (opa_Fsize m) w = (Ret DB_OPEN_CREATE_FAIL, w)"
        using refused(2,3) [OF logged] by blast
      then show ?thesis
        unfolding child_runs_request [OF assms(5)] using logged True by (auto simp: run read)
    next
      case False
      then have acc: "account (wfs w) (op_user (opening_of m)) = \<lparr>acc_password = Some (opa_password m), acc_logged_in = True\<rparr>"
        and n: "n \<le> 999" using logged u(1) by simp_all
      have pos: "0 < n" using next_id_fresh(3) [of "auction_ids (wfs w)"] n auction_ids_props(2) [OF i(1)] assms(7) by blast
      show ?thesis
        unfolding child_runs_request [OF assms(5)]
        using opened_id_sent [OF n] Db_Open_run [OF i assms(2) good acc assms(7) n, of "opa_Fsize m"] logged False pos
        by (auto simp: run read)
    qed
  qed
qed

end
