(* ===== verification/Server_Loops.thy ===== *)
theory Server_Loops
  imports Tcp_Runs "HOL-Library.Sublist"
begin

text \<open>
  server/server.cpp, the process of the TCP server and the whole: the loop that accepts connections and
  gives each to a child, and the two processes side by side. What listen, accept, setsockopt and fork
  return are events.
\<close>

section \<open>Accepting connections\<close>

text \<open>
  What accept finds: a failure, with the value of sig_int and whether errno is EAGAIN; a connection
  that cannot be set up or delegated; or one a child serves.
\<close>

datatype accept_event =
    Accept_failed bool bool
  | Sockopt_failed
  | Fork_failed
  | Connection char "string list"

datatype tcp_round = Listening | Delegated child_exit | Tcp_failed | Tcp_terminated

definition wait_for_tcp_message :: "RequestManager \<Rightarrow> accept_event \<Rightarrow> world \<Rightarrow> tcp_round \<times> world" where
  "wait_for_tcp_message manager ev w =
     (case ev of
        Accept_failed sig_int again \<Rightarrow>
          (if sig_int then Tcp_terminated else if again then Listening else Tcp_failed, w)
      | Sockopt_failed \<Rightarrow> (Tcp_failed, w)
      | Fork_failed \<Rightarrow> (Tcp_failed, w)
      | Connection fallback chunks \<Rightarrow>
          (case processTCPChild manager fallback chunks w of (x, w') \<Rightarrow> (Delegated x, w')))"

definition EXCEPTION_RETRY_MAX :: nat where
  "EXCEPTION_RETRY_MAX = 5"

datatype tcp_end = Tcp_waiting | Tcp_exit_success | Tcp_exit_failure | Tcp_not_listening

text \<open>The loop, with the count of failures in a row.\<close>

fun tcp_loop :: "RequestManager \<Rightarrow> uint32 \<Rightarrow> accept_event list \<Rightarrow> world \<Rightarrow> (tcp_round list \<times> tcp_end) \<times> world" where
  "tcp_loop manager ex_trial [] w = (([], Tcp_waiting), w)"
| "tcp_loop manager ex_trial (ev # evs) w =
     (case wait_for_tcp_message manager ev w of
        (r, w') \<Rightarrow>
          if r = Tcp_terminated then (([r], Tcp_exit_success), w')
          else (let ex_trial = (if r = Tcp_failed then ex_trial + 1 else 0)
            in if unat ex_trial \<ge> EXCEPTION_RETRY_MAX then (([r], Tcp_exit_failure), w')
               else (case tcp_loop manager ex_trial evs w' of ((rs, e), w'') \<Rightarrow> ((r # rs, e), w''))))"

definition processTCP ::
    "RequestManager \<Rightarrow> bool \<Rightarrow> accept_event list \<Rightarrow> world \<Rightarrow> (tcp_round list \<times> tcp_end) \<times> world" where
  "processTCP manager listens evs w =
     (if \<not> listens then (([], Tcp_not_listening), w) else tcp_loop manager 0 evs w)"

section \<open>The two processes\<close>

text \<open>
  What happens to the server, in the order it happens: a datagram for the one process, a connection
  for the other. A process that has ended, or that waits for the semaphore, takes no more events.
\<close>

datatype server_event = For_udp udp_event | For_tcp accept_event

record server =
  sv_udp_end :: "udp_round option"
  sv_tcp_end :: "tcp_end option"
  sv_trials :: uint32
  sv_world :: world

definition udp_step :: "RequestManager \<Rightarrow> udp_event \<Rightarrow> server \<Rightarrow> server" where
  "udp_step manager ev s =
     (if sv_udp_end s \<noteq> None then s
      else case processUDP manager [ev] (sv_world s) of
        (rs, w') \<Rightarrow> s\<lparr>sv_world := w', sv_udp_end := (if last rs \<in> {Terminated, Stuck, Broken} then Some (last rs) else None)\<rparr>)"

definition tcp_step :: "RequestManager \<Rightarrow> accept_event \<Rightarrow> server \<Rightarrow> server" where
  "tcp_step manager ev s =
     (if sv_tcp_end s \<noteq> None then s
      else case tcp_loop manager (sv_trials s) [ev] (sv_world s) of
        ((rs, e), w') \<Rightarrow> s\<lparr>sv_world := w', sv_trials := (if last rs = Tcp_failed then sv_trials s + 1 else 0),
          sv_tcp_end := (if e = Tcp_waiting then None else Some e)\<rparr>)"

fun server_step :: "RequestManager \<Rightarrow> server_event \<Rightarrow> server \<Rightarrow> server" where
  "server_step manager (For_udp ev) = udp_step manager ev"
| "server_step manager (For_tcp ev) = tcp_step manager ev"

definition server_main :: "RequestManager \<Rightarrow> server_event list \<Rightarrow> world \<Rightarrow> server" where
  "server_main manager evs w =
     fold (server_step manager) evs \<lparr>sv_udp_end = None, sv_tcp_end = None, sv_trials = 0, sv_world = w\<rparr>"

section \<open>The invariant through both loops\<close>

fun safe_accept :: "accept_event \<Rightarrow> bool" where
  "safe_accept (Connection fallback chunks) = safe_connection fallback chunks"
| "safe_accept _ = True"

fun safe_event :: "server_event \<Rightarrow> bool" where
  "safe_event (For_tcp ev) = safe_accept ev"
| "safe_event (For_udp ev) = True"

lemma tcp_round_keeps:
  assumes "server_inv w" and "safe_accept ev"
  shows "server_inv (snd (wait_for_tcp_message requestManager ev w))"
proof (cases ev)
  case (Connection fallback chunks)
  then show ?thesis
    using child_keeps [OF assms(1), of fallback chunks] assms(2)
    by (simp add: wait_for_tcp_message_def split_beta)
qed (simp_all add: wait_for_tcp_message_def assms(1))

lemma tcp_loop_keeps:
  assumes "server_inv w" and "\<forall>ev \<in> set evs. safe_accept ev"
  shows "server_inv (snd (tcp_loop requestManager t evs w))"
  using assms
proof (induction evs arbitrary: t w)
  case (Cons ev evs)
  obtain r w' where r: "wait_for_tcp_message requestManager ev w = (r, w')" by fastforce
  then have "server_inv w'" using tcp_round_keeps [OF Cons.prems(1), of ev] Cons.prems(2) by simp
  then show ?case using Cons.IH [of w'] Cons.prems(2) r by (simp add: Let_def split_beta)
qed simp

lemma server_step_keeps:
  assumes "server_inv (sv_world s)" and "safe_event ev"
  shows "server_inv (sv_world (server_step requestManager ev s))"
proof (cases ev)
  case (For_udp e)
  then show ?thesis
    using udp_run_keeps [OF assms(1), of "[e]"] assms(1) by (simp add: udp_step_def split_beta del: processUDP.simps)
next
  case (For_tcp e)
  then show ?thesis
    using tcp_loop_keeps [OF assms(1), of "[e]" "sv_trials s"] assms
    by (simp add: tcp_step_def split_beta del: tcp_loop.simps)
qed

lemma server_main_keeps:
  assumes "server_inv w" and "\<forall>ev \<in> set evs. safe_event ev"
  shows "server_inv (sv_world (server_main requestManager evs w))"
proof -
  have "server_inv (sv_world s) \<Longrightarrow> server_inv (sv_world (fold (server_step requestManager) evs s))" for s
    using assms(2) by (induction evs arbitrary: s) (simp_all add: server_step_keeps)
  then show ?thesis using assms(1) by (simp add: server_main_def)
qed

section \<open>How the loop of the TCP server ends\<close>

text \<open>The events that count as failures.\<close>

fun fails :: "accept_event \<Rightarrow> bool" where
  "fails (Accept_failed sig_int again) = (\<not> sig_int \<and> \<not> again)"
| "fails Sockopt_failed = True"
| "fails Fork_failed = True"
| "fails (Connection fallback chunks) = False"

fun interrupts :: "accept_event \<Rightarrow> bool" where
  "interrupts (Accept_failed sig_int again) = sig_int"
| "interrupts _ = False"

lemma wait_for_tcp_round:
  assumes "\<not> interrupts ev"
  shows "fst (wait_for_tcp_message manager ev w) = Tcp_failed \<longleftrightarrow> fails ev"
    and "fst (wait_for_tcp_message manager ev w) \<noteq> Tcp_terminated"
  using assms by (cases ev; simp add: wait_for_tcp_message_def split: prod.splits)+

definition five_fail :: "bool list \<Rightarrow> bool" where
  "five_fail bs \<longleftrightarrow> sublist (replicate 5 True) bs"

lemma five_fail_reset:
  assumes "n < 5"
  shows "five_fail (replicate n True @ False # bs) \<longleftrightarrow> five_fail bs"
proof -
  have "n = 0 \<or> n = 1 \<or> n = 2 \<or> n = 3 \<or> n = 4" using assms by auto
  then show ?thesis
    by (elim disjE) (simp_all add: five_fail_def sublist_Cons_right numeral_eq_Suc)
qed

lemma five_fail_short: "n < 5 \<Longrightarrow> \<not> five_fail (replicate n True)"
  using sublist_length_le [of "replicate 5 True" "replicate n True"] by (auto simp: five_fail_def)

lemma tcp_loop_end:
  assumes "\<forall>ev \<in> set evs. \<not> interrupts ev" and "unat t < 5"
  shows "snd (fst (tcp_loop manager t evs w)) =
     (if five_fail (replicate (unat t) True @ map fails evs) then Tcp_exit_failure else Tcp_waiting)"
  using assms
proof (induction evs arbitrary: t w)
  case Nil
  then show ?case by (simp add: five_fail_short)
next
  case (Cons ev evs)
  obtain r w' where r: "wait_for_tcp_message manager ev w = (r, w')" by fastforce
  have k: "r = Tcp_failed \<longleftrightarrow> fails ev" "r \<noteq> Tcp_terminated"
    using wait_for_tcp_round [of ev manager w] Cons.prems(1) r by simp_all
  show ?case
  proof (cases "fails ev")
    case False
    then show ?thesis
      using k r Cons.IH [of 0 w'] Cons.prems by (simp add: Let_def EXCEPTION_RETRY_MAX_def five_fail_reset split_beta)
  next
    case True
    have t: "unat (t + 1) = Suc (unat t)" using Cons.prems(2) by (simp add: unat_word_ariths)
    have more: "replicate (unat t) True @ True # bs = replicate (Suc (unat t)) True @ bs" for bs
      by (simp add: replicate_app_Cons_same)
    show ?thesis
    proof (cases "Suc (unat t) < 5")
      case True
      then show ?thesis
        using \<open>fails ev\<close> k r t Cons.IH [of "t + 1" w'] Cons.prems
        by (simp add: Let_def EXCEPTION_RETRY_MAX_def more split_beta del: replicate_Suc)
    next
      case False
      then have "Suc (unat t) = 5" using Cons.prems(2) by simp
      then have "replicate (unat t) True @ map fails (ev # evs) = replicate 5 True @ map fails evs"
        using \<open>fails ev\<close> more [of "map fails evs"] by (simp only: list.map eqTrueI [OF \<open>fails ev\<close>])
      then have "five_fail (replicate (unat t) True @ map fails (ev # evs))"
        by (simp only: five_fail_def sublist_append_rightI)
      then show ?thesis
        using False \<open>fails ev\<close> k r t by (simp add: Let_def EXCEPTION_RETRY_MAX_def)
    qed
  qed
qed

text \<open>The loop of the TCP server gives up exactly after five failures in a row of accepting or delegating a
  connection; any connection served, and any timeout of accept, starts the count again. Until then it goes on.\<close>

theorem tcp_server_gives_up:
  assumes "\<forall>ev \<in> set evs. \<not> interrupts ev"
  shows "snd (fst (processTCP manager True evs w)) =
     (if sublist (replicate EXCEPTION_RETRY_MAX True) (map fails evs) then Tcp_exit_failure else Tcp_waiting)"
  using tcp_loop_end [OF assms, of 0 manager w]
  by (simp add: processTCP_def five_fail_def EXCEPTION_RETRY_MAX_def)

lemma tcp_server_gives_up_example:
  "snd (fst (processTCP requestManager True (Fork_failed # Accept_failed False True # replicate 4 Fork_failed)
     \<lparr>wfs = [], wsem = 1, wclock = (\<lambda>_. 0), wcalls = 0\<rparr>)) = Tcp_waiting"
  using tcp_server_gives_up [of "Fork_failed # Accept_failed False True # replicate 4 Fork_failed" requestManager
    "\<lparr>wfs = [], wsem = 1, wclock = (\<lambda>_. 0), wcalls = 0\<rparr>"]
  by (simp add: EXCEPTION_RETRY_MAX_def sublist_Cons_right numeral_eq_Suc)

end
