(* ===== verification/Half_Opened.thy ===== *)
theory Half_Opened
  imports Example_Store
begin

text \<open>
  An auction whose start file is refused: Open has made the auction's directory by then, and the rmdir
  that is to take it back fails since the directory is not empty. What is left breaks the list of all
  auctions.
\<close>

lemma rmdir_kept: "closed_fs f \<Longrightarrow> clean p \<Longrightarrow> children f p \<noteq> [] \<Longrightarrow> rmdir f (join p) = f"
  by (simp add: rmdir_def resolve_join split: option.splits)

lemma half_opened_children:
  assumes "users_inv (with_auction_dir a f)" and "is_aid a"
  shows "children (with_auction_dir a f) (auctionP a) \<noteq> []"
proof -
  have "look (with_auction_dir a f) (auctionP a @ [''BIDS'']) \<noteq> None"
    using assms(2) by (simp add: look_with_auction_dir bidsP_def)
  then have "''BIDS'' \<in> set (children (with_auction_dir a f) (auctionP a))"
    using in_children [OF users_invD(1) [OF assms(1)], of "auctionP a"] assms(2) by simp
  then show ?thesis by auto
qed

lemma Db_Open_no_time:
  assumes "store_inv (wfs w)" and "sem_ok w" and "is_uid u" and "is_password pw"
    and "account (wfs w) u = \<lparr>acc_password = Some pw, acc_logged_in = True\<rparr>"
    and "n = next_id (auction_ids (wfs w))" and "n \<le> 999"
  shows "Db_Open u name pw fname sv (to_string 0) fsize data w =
    (Ret DB_OPEN_CREATE_FAIL, w\<lparr>wfs := with_auction_dir (pad0 3 n) (wfs w)\<rparr>)"
proof -
  let ?f = "wfs w" and ?a = "pad0 3 n" and ?w = "w\<lparr>wsem := wsem w - Suc 0\<rparr>"
  note sem = sem_okD [OF assms(2)]
  have a: "is_aid ?a" and new: "look ?f (auctionP ?a) = None"
    using next_id_fresh [of "auction_ids ?f"] auction_ids_props(2) [OF assms(1)]
      in_auction_ids [OF store_invD(2) [OF assms(1)]] assms(6,7) by auto
  obtain aid where "open_aid ?w = (Ret aid, ?w)" and aid: "unat aid = n"
    using open_aid_run [of ?w] assms(1,6) by auto
  then have oa: "bindP open_aid k ?w = k aid ?w" for k :: "uint32 \<Rightarrow> (int, world) prog"
    by (intro bindP_run(1))
  have aid_str: "convert_auction_id_to_str aid = ?a" "\<not> aid > 999"
    using aid assms(7) by (simp_all add: convert_auction_id_to_str_eq word_less_nat_alt)
  have zero: "verify_timeactive (to_string 0) = -1"
    by (simp add: verify_timeactive_eq to_string_def nat_str.simps [of 0] digit_char_def)
  note made = CreateAuctionDir_eq [OF store_invD(1) [OF assms(1)] a new]
  have "rmdir (with_auction_dir ?a ?f) (auction_dir ?a) = with_auction_dir ?a ?f"
    using rmdir_kept [OF users_invD(1) [OF made(2)] _ half_opened_children [OF made(2) a]] a by (simp add: path_join)
  then show ?thesis
    using CheckUserLoggedIn_eq [OF store_invD(1) [OF assms(1)] assms(3)]
      CorrectPassword_eq [OF store_invD(1) [OF assms(1)] assms(3,4)] assms(5) made(1)
    by (simp add: Db_Open_def prog_simps sem oa aid_str Let_def CreateStartFile_def zero)
qed

text \<open>The first auction of a store, left without a start file, and the lists after that.\<close>

lemma Db_List_half_opened:
  assumes "store_inv f" and "auction_ids f = []" and "is_aid a" and "wfs w = with_auction_dir a f"
    and "wsem w < SEM_VALUE_MAX"
  shows "Db_List w = (Throw AuctionNotFound, w\<lparr>wsem := Suc (wsem w)\<rparr>)"
proof -
  let ?g = "with_auction_dir a f"
  have new: "look f (auctionP a) = None"
    using in_auction_ids [OF store_invD(2) [OF assms(1)], of a] assms(2) by simp
  note made = CreateAuctionDir_eq [OF store_invD(1) [OF assms(1)] assms(3) new]
  note c = users_invD(1) [OF made(2)]
  have "b \<in> set (children ?g auctionsP) \<longleftrightarrow> b = a" for b
  proof -
    have "look f (auctionsP @ [b]) = None"
      using in_auction_ids [OF store_invD(2) [OF assms(1)], of b] assms(2) by (simp add: auctionP_def)
    moreover have "auctionsP @ [b] = auctionP a \<longleftrightarrow> b = a" "auctionsP @ [b] \<noteq> bidsP a" "auctionsP @ [b] \<noteq> assetsP a"
      by (auto simp: auction_paths)
    ultimately show ?thesis
      using in_children [OF c, of auctionsP b] assms(3) by (simp add: look_with_auction_dir)
  qed
  then have set_a: "set (children ?g auctionsP) = {a}" by blast
  then have "length (children ?g auctionsP) = 1"
    using distinct_card [OF distinct_children [OF c, of auctionsP]] by simp
  then obtain x where "children ?g auctionsP = [x]" by (auto simp: length_Suc_conv)
  with set_a have ch: "children ?g auctionsP = [a]" by simp
  have e: "fs_is_empty ?g ''ASDIR/AUCTIONS'' = Inr False"
    and it: "directory_iterator ?g ''ASDIR/AUCTIONS'' = Inr [join (auctionsP @ [a])]"
    using users_invD(1,4) [OF made(2)] ch
    by (simp_all add: path_joins fs_is_empty_join directory_iterator_join entry_path_join)
  have none: "look f (startP a) = None" "look f (endP a) = None"
    using look_no_dir [OF store_invD(2) [OF assms(1)] _ new] assms(3) by (simp_all add: startP_def endP_def)
  have s: "GetStart a ?g = Inr None"
    using none assms(3) by (simp add: GetStart_eq c text_at_def look_with_auction_dir)
  have n: "CheckEndExists ?g (end_path a) = -1"
    using none assms(3) by (simp add: CheckEndExists_eq c ended_def look_with_auction_dir)
  have k: "keep_last 3 (join (auctionsP @ [a])) = a" using assms(3) by (simp add: keep_last_entry)
  show ?thesis
    using assms(4,5) e it s n k
    by (simp add: Db_List_def list_auction_def bindP_assoc prog_simps)
qed

end
