(* ===== verification/Odd_Requests.thy ===== *)
theory Odd_Requests
  imports Tcp_Replies Record_Replies Example_Store
begin

text \<open>
  Requests that the client of this repository does not send but that the protocol lets through, and what the
  server makes of them: a user id with zeros on the left, and a bid with a minus sign.
\<close>

section \<open>User ids with zeros on the left\<close>

lemma padded_uid_at:
  assumes "0 < unat uid" and "unat uid < 10 ^ 6" and "is_sep c"
  shows "readUserId StreamMessage (stream_at p (convert_user_id_to_str uid @ c # s)) =
     Inr (uid, stream_at (rev (convert_user_id_to_str uid) @ p) (c # s))"
proof -
  have "\<forall>d \<in> set (pad0 6 (unat uid)). \<not> is_sep d" by (auto dest: pad0_digits)
  then show ?thesis
    using assms
    by (simp add: readUserId_def config_defs readString_at convert_user_id_to_str_eq length_pad0 convert_user_id_pad0)
qed

lemma short_not_uid: "unat uid < 10 ^ 5 \<Longrightarrow> \<not> is_uid (to_string uid)"
  using length_to_string_le [of uid 5] by (auto simp: is_uid_def)

definition login_bytes :: "string \<Rightarrow> string \<Rightarrow> string" where
  "login_bytes u pw = ''LIN '' @ u @ '' '' @ pw @ endl"

lemma leading_zero_refused:
  assumes "server_inv w" and "sem_ok w" and "0 < unat uid" and "unat uid < 10 ^ 5" and "is_password pw"
  shows "wait_for_udp_message requestManager (Datagram (login_bytes (convert_user_id_to_str uid) pw)) w =
      (Replied (Some (''RLI NOK'' @ endl)), w)"
    and "wait_for_udp_message requestManager (Datagram (ClientLoginUser_buildMessage \<lparr>lin_user_id = uid, lin_password = pw\<rparr>)) w =
      (Replied (Some (''RLI ERR'' @ endl)), w)"
proof -
  let ?d = "login_bytes (convert_user_id_to_str uid) pw" and ?b = "ClientLoginUser_buildMessage \<lparr>lin_user_id = uid, lin_password = pw\<rparr>"
  have pw: "length pw = 8" using assms(5) by (simp add: is_password_def)
  have "length (convert_user_id_to_str uid) = 6" using assms(3,4) by (simp add: convert_user_id_to_str_eq length_pad0)
  then have d: "3 \<le> length ?d" "length ?d \<le> 512" "take 3 ?d = ''LIN''" "drop 3 ?d = '' '' @ convert_user_id_to_str uid @ '' '' @ pw @ endl"
    using pw by (simp_all add: login_bytes_def endl_def)
  note run = LoginUser_not_uid [OF short_not_uid [OF assms(4)] assms(2), of pw]
  have u: "0 < unat uid" "unat uid < 10 ^ 6" using assms(3,4) by simp_all
  have "handle LoginRequest StreamMessage (stream_at (rev ''LIN'') (drop 3 ?d)) w = (Ret (Some (''RLI NOK'' @ endl)), w)"
    unfolding d(4)
    using run assms(5)
    by (simp add: LoginRequest_handle_def ClientLoginUser_readMessage_def bindP_def try_catch_def answer_def send_message_def
        readSpace_at padded_uid_at [OF u] is_sep_def readPassword_at readDelimiter_at endl_def db_defs code_defs
        ServerLoginUser_buildMessage_def)
  then show "wait_for_udp_message requestManager (Datagram ?d) w = (Replied (Some (''RLI NOK'' @ endl)), w)"
    using udp_round [OF d(1,2), of LoginRequest w] d(3) by (simp add: udp_table round_of_def)
  have l: "length (to_string uid) \<le> 5" using assms(4) by (simp add: length_to_string_le)
  have b: "3 \<le> length ?b" "length ?b \<le> 512" "take 3 ?b = ''LIN''" "drop 3 ?b = '' '' @ to_string uid @ '' '' @ pw @ endl"
    using pw l by (simp_all add: ClientLoginUser_buildMessage_def code_defs endl_def)
  have "handle LoginRequest StreamMessage (stream_at (rev ''LIN'') (drop 3 ?b)) w = (Ret (Some (''RLI ERR'' @ endl)), w)"
    unfolding b(4)
    using assms(4)
    by (simp add: LoginRequest_handle_def ClientLoginUser_readMessage_def bindP_def try_catch_def answer_def send_message_def
        readSpace_at readUserId_short is_sep_def code_defs ServerLoginUser_buildMessage_def)
  then show "wait_for_udp_message requestManager (Datagram ?b) w = (Replied (Some (''RLI ERR'' @ endl)), w)"
    using udp_round [OF b(1,2), of LoginRequest w] b(3) by (simp add: udp_table round_of_def)
qed

section \<open>A bid of minus one\<close>

text \<open>The value is read with stol and kept in 32 bits, so that minus one becomes the greatest of all values.\<close>

lemma minus_one_value: "convert_auction_value ''-1'' = Inr (- 1)"
  by code_simp

lemma minus_one_at:
  assumes "is_sep c"
  shows "readAuctionValue StreamMessage (stream_at p (''-1'' @ c # s)) = Inr (- 1, stream_at (rev ''-1'' @ p) (c # s))"
proof -
  have "readString StreamMessage MAX_AUCTION_VALUE_SIZE (stream_at p (''-1'' @ c # s)) =
      Inr (''-1'', stream_at (rev ''-1'' @ p) (c # s))"
    using assms by (intro readString_at) (simp_all add: is_sep_def config_defs)
  then show ?thesis by (simp add: readAuctionValue_def minus_one_value del: append.simps rev.simps)
qed

lemma no_value_above: "\<not> outbids f a v" if "- 1 \<in> bids f a"
  using that word_order.extremum [of v] by (auto simp: outbids_def not_less)

definition bid_bytes :: "uint32 \<Rightarrow> string \<Rightarrow> uint32 \<Rightarrow> string \<Rightarrow> string" where
  "bid_bytes uid pw aid v = ''BID '' @ to_string uid @ '' '' @ pw @ '' '' @ convert_auction_id_to_str aid @ '' '' @ v @ endl"

lemma last_in_drop: "xs \<noteq> [] \<Longrightarrow> n < length xs \<Longrightarrow> last xs \<in> set (drop n xs)"
  by (metis drop_eq_Nil last_drop last_in_set not_le)

lemma sorted_last: "sorted xs \<Longrightarrow> x \<in> set xs \<Longrightarrow> x \<le> last xs"
  by (induction xs) auto

lemma minus_one_shown:
  assumes "- 1 \<in> bids f a"
  shows "\<not> small_values f a"
proof -
  let ?B = "bids f a"
  have fin: "finite ?B" by simp
  have ne: "sorted_list_of_set ?B \<noteq> []" using fin assms by auto
  have "- 1 \<le> last (sorted_list_of_set ?B)" using fin assms by (intro sorted_last) simp_all
  then have "last (sorted_list_of_set ?B) = - 1" by (simp add: word_order.extremum_unique)
  moreover have "last (sorted_list_of_set ?B) \<in> set (shown_values f a)"
    unfolding shown_values_def using ne fin assms by (intro last_in_drop) (auto simp: card_gt_0_iff)
  moreover have "\<not> unat (- 1 :: uint32) < 2 ^ 31" by (simp add: unsigned_minus_1_eq_mask mask_eq_exp_minus_1)
  ultimately show ?thesis unfolding small_values_def by metis
qed

lemma minus_one_served:
  assumes "wire_uid uid" and "is_password pw" and "unat aid < 10 ^ 3" and "delivered chunks = bid_bytes uid pw aid ''-1''"
    and "u = to_string uid" and "a = convert_auction_id_to_str aid"
    and "Db_Bid u pw a (to_string (- 1)) w = (Ret DB_BID_ACCEPT, w')"
  shows "processTCPChild requestManager fallback chunks w = (EXIT_SUCCESS (Some (''RBD ACC'' @ endl)), w')"
proof -
  have l: "3 \<le> length (delivered chunks)" "take 3 (delivered chunks) = ''BID''"
    "drop 3 (delivered chunks) = '' '' @ u @ '' '' @ pw @ '' '' @ a @ '' '' @ ''-1'' @ endl"
    by (simp_all add: assms(4-6) bid_bytes_def)
  have u: "convert_user_id_to_str uid = u"
    using assms(1,5) by (simp add: wire_uid_def to_string_uid convert_user_id_to_str_eq)
  have read: "ClientBid_readMessage StreamMessage (stream_at [] ('' '' @ u @ '' '' @ pw @ '' '' @ a @ '' '' @ ''-1'' @ endl)) \<noteq> Inl e \<and>
      result (ClientBid_readMessage StreamMessage (stream_at [] ('' '' @ u @ '' '' @ pw @ '' '' @ a @ '' '' @ ''-1'' @ endl))) =
        Inr \<lparr>bid_user_id = uid, bid_password = pw, bid_auction_id = aid, bid_amount = - 1\<rparr>" for e
    using assms(1-3) readAuctionId_at [OF assms(3)] minus_one_at
    by (simp add: ClientBid_readMessage_def assms(5,6) endl_def readSpace_at readDelimiter_at uid_password_at is_sep_def)
  show ?thesis
    unfolding child_serves_bytes [OF l(1)] serve_bytes_def Let_def l(2,3)
    using read assms(7) u
    by (simp add: BidRequest_handle_def bindP_def try_catch_def answer_def send_message_def assms(6) [symmetric]
        db_defs ServerBid_buildMessage_def code_defs del: append.simps)
qed

end
