(* ===== verification/Foreign_Files.thy ===== *)
theory Foreign_Files
  imports Tcp_Replies Example_Store
begin

text \<open>
  A file name that leaves the directory of its auction. CreateAssetFile opens the path made of the
  auction's directory and the name as the request has it; a name with \<open>..\<close> in it therefore
  reaches the other auctions, and 24 characters are enough for the end file of any of them.
\<close>

section \<open>What the name reaches\<close>

text \<open>The name of the end file of auction \<open>b\<close>, as seen from the asset directory of another.\<close>

definition foreign_end :: "string \<Rightarrow> string" where
  "foreign_end b = ''../../'' @ b @ ''/END_'' @ b @ ''.txt''"

lemma foreign_end_good:
  assumes "is_aid b"
  shows "good_name (foreign_end b)"
proof -
  have "is_word b" "\<forall>c \<in> set b. isprint c"
    using assms isdigit_not by (auto simp: is_aid_def is_word_def isdigit_def isprint_def)
  then show ?thesis
    using assms by (auto simp: foreign_end_def good_name_def is_word_def is_aid_def isspace_def isprint_def)
qed

lemma foreign_end_path:
  assumes "is_aid a" and "is_aid b"
  shows "asset_path a (foreign_end b) = join (assetsP a @ [''..'', ''..'', b, ''END_'' @ b @ ''.txt''])"
    and "split_slash (asset_path a (foreign_end b)) = assetsP a @ [''..'', ''..'', b, ''END_'' @ b @ ''.txt'']"
    and "c_str (asset_path a (foreign_end b)) = asset_path a (foreign_end b)" and "asset_path a (foreign_end b) \<noteq> []"
proof -
  show e: "asset_path a (foreign_end b) = join (assetsP a @ [''..'', ''..'', b, ''END_'' @ b @ ''.txt''])"
    by (simp add: asset_path_def foreign_end_def auction_paths)
  have no: "CHR ''/'' \<notin> set a" "CHR ''/'' \<notin> set b" "NUL \<notin> set a" "NUL \<notin> set b" using assms by (auto simp: is_aid_def)
  have "\<forall>c \<in> set (assetsP a @ [''..'', ''..'', b, ''END_'' @ b @ ''.txt'']). CHR ''/'' \<notin> set c"
    using no by (simp add: auction_paths)
  then show "split_slash (asset_path a (foreign_end b)) = assetsP a @ [''..'', ''..'', b, ''END_'' @ b @ ''.txt'']"
    unfolding e by (intro split_slash_join_names) simp_all
  show "c_str (asset_path a (foreign_end b)) = asset_path a (foreign_end b)"
    using no by (intro c_str_id) (simp add: asset_path_def foreign_end_def NUL_def)
  show "asset_path a (foreign_end b) \<noteq> []" by (simp add: asset_path_def)
qed

lemma resolve_foreign_end:
  assumes "is_aid a" and "is_aid b" and "closed_fs f" and "dir_at f (assetsP a)" and "dir_at f (auctionP a)"
    and "dir_at f auctionsP" and "dir_at f (auctionP b)"
  shows "resolve f (asset_path a (foreign_end b)) = Some (endP b)"
proof -
  have n: "clean_name b" "clean_name (''END_'' @ b @ ''.txt'')"
    using clean_aid [OF assms(2)] assms(2) by (auto simp: clean_name_def is_aid_def NUL_def)
  have o: "\<not> outer (assetsP a)" "\<not> outer (auctionP a)" using assms(1) by (simp_all add: clean_not_outer)
  have "walk f [] (assetsP a) = Some (assetsP a)"
    using walk_clean [OF assms(3), of "auctionP a" "''ASSET''"] assms(1,5)
    by (simp add: assetsP_def dir_at_def clean_name_def NUL_def)
  moreover have "walk f (assetsP a) [''..'', ''..'', b, ''END_'' @ b @ ''.txt''] = Some (endP b)"
    using assms(4-7) n o by (simp add: dir_at_def clean_name_def auctionP_def [symmetric] endP_def)
  ultimately show ?thesis
    using walk_append [of f "[]" "assetsP a" "[''..'', ''..'', b, ''END_'' @ b @ ''.txt'']"]
    by (simp add: resolve_def foreign_end_path(2-4) [OF assms(1,2)])
qed

section \<open>Open with such a name\<close>

text \<open>The store after it: there is no asset of the new auction, and there is an end file of the other.\<close>

definition with_foreign_end :: "string \<Rightarrow> string \<Rightarrow> open_request \<Rightarrow> string \<Rightarrow> nat \<Rightarrow> fs \<Rightarrow> fs" where
  "with_foreign_end a b x date t f =
     AList.update (hostP (op_user x) a) (File []) (AList.update (endP b) (File (op_data x)) (with_start a x date t f))"

lemma with_foreign_end_writes:
  assumes "store_inv f" and "is_aid a" and "look f (auctionP a) = None" and "is_uid (op_user x)"
    and "look f (userP (op_user x)) \<noteq> None" and "b \<in> set (auction_ids f)" and "\<not> ended f b"
    and "op_asset x = foreign_end b"
  shows "CreateAssetFile a (op_asset x) (op_data x) (with_start a x date t f) =
      (0, AList.update (endP b) (File (op_data x)) (with_start a x date t f))"
    and "RegisterHost (op_user x) a (AList.update (endP b) (File (op_data x)) (with_start a x date t f)) =
      (0, with_foreign_end a b x date t f)"
    and "users_inv (with_foreign_end a b x date t f)"
    and "look (with_foreign_end a b x date t f) (endP b) = Some (File (op_data x))"
proof -
  let ?g = "with_start a x date t f"
  let ?g2 = "AList.update (endP b) (File (op_data x)) ?g"
  note inv = users_invD [OF store_invD(1) [OF assms(1)]]
  have b: "is_aid b" "look f (auctionP b) \<noteq> None"
    using assms(6) in_auction_ids [OF store_invD(2) [OF assms(1)]] auction_ids_props(2) [OF assms(1)] by auto
  have db: "dir_at f (auctionP b)"
    using store_invD(4) [OF assms(1) b(2)] by (simp add: auction_inv_def)
  note u = users_inv_with_start [OF assms(1-3), of x date t]
  have neq: "auctionP b \<noteq> auctionP a" using assms(3) b(2) by auto
  have dirs: "dir_at ?g (assetsP a)" "dir_at ?g (auctionP a)" "dir_at ?g (auctionP b)" "dir_at ?g auctionsP"
    "\<not> dir_at ?g (endP b)"
    using assms(2,7) db users_invD(4) [OF u] b(1) neq
    by (simp_all add: dir_at_def with_start_def fs_simps look_with_auction_dir ended_def)
  show "CreateAssetFile a (op_asset x) (op_data x) ?g = (0, ?g2)"
    using resolve_foreign_end [OF assms(2) b(1) users_invD(1) [OF u] dirs(1,2,4,3)] dirs(5) assms(2)
    by (simp add: CreateAssetFile_def assms(8) fopen_w_def dir_at_def fwrite_def update_update)
  have u2: "users_inv ?g2"
    using u dirs b(1) by - (rule users_inv_auction_update, simp_all)
  have h: "look f (hostP (op_user x) a) = None" using store_inv_lists(3) [OF assms(1,4), of a] assms(3) by blast
  have d: "dir_at ?g2 (hostedP (op_user x))" and h2: "\<not> dir_at ?g2 (hostP (op_user x) a)"
    using inv(5) [OF assms(4)] assms(2,5) b(1) h
    by (simp_all add: user_inv_def dir_at_def with_start_def fs_simps look_with_auction_dir)
  then show "RegisterHost (op_user x) a ?g2 = (0, with_foreign_end a b x date t f)"
    using u2 assms(2,4)
    by (simp add: RegisterHost_def path_join fopen_w_join users_invD with_foreign_end_def)
  show "users_inv (with_foreign_end a b x date t f)"
    unfolding with_foreign_end_def using assms(2,4) d h2
    by - (rule users_inv_list_update [OF u2 assms(4,2)], simp_all)
  show "look (with_foreign_end a b x date t f) (endP b) = Some (File (op_data x))"
    using assms(2,4) b(1) by (simp add: with_foreign_end_def fs_simps)
qed

section \<open>The connection\<close>

lemma foreign_end_store:
  assumes "server_inv w" and "good_tcp (T_open m)" and "u = convert_user_id_to_str (opa_user_id m)"
    and "n = next_id (auction_ids (wfs w))" and "n \<le> 999"
    and "account (wfs w) u = \<lparr>acc_password = Some (opa_password m), acc_logged_in = True\<rparr>"
    and "b \<in> set (auction_ids (wfs w))" and "\<not> ended (wfs w) b" and "opa_assetf_name m = foreign_end b"
  shows "is_aid (pad0 3 n)" and "look (wfs w) (auctionP (pad0 3 n)) = None" and "0 < n"
    and "is_uid u" and "look (wfs w) (userP u) \<noteq> None" and "is_aid b"
    and "op_user (opening_of m) = u" and "op_asset (opening_of m) = foreign_end b"
    and "users_inv (with_foreign_end (pad0 3 n) b (opening_of m) date t (wfs w))"
    and "look (with_foreign_end (pad0 3 n) b (opening_of m) date t (wfs w)) (endP b) = Some (File (opa_fdata m))"
proof -
  note i = server_invD(1) [OF assms(1)]
  show new: "is_aid (pad0 3 n)" "look (wfs w) (auctionP (pad0 3 n)) = None" and "0 < n"
    using next_id_fresh [of "auction_ids (wfs w)"] auction_ids_props(2) [OF i]
      in_auction_ids [OF store_invD(2) [OF i]] assms(4,5) by auto
  show u: "is_uid u" using assms(2,3) uid_of_wire [of "opa_user_id m"] by (simp add: wire_uid_def)
  show dir: "look (wfs w) (userP u) \<noteq> None"
    using user_dir_of_file [OF store_invD(1) [OF i] u] account_password_file [of "wfs w" u "opa_password m"] assms(6)
    by simp
  show "is_aid b" using assms(7) auction_ids_props(2) [OF i] by auto
  show x: "op_user (opening_of m) = u" "op_asset (opening_of m) = foreign_end b"
    using assms(3,9) by (simp_all add: opening_of_def)
  show "users_inv (with_foreign_end (pad0 3 n) b (opening_of m) date t (wfs w))"
    "look (with_foreign_end (pad0 3 n) b (opening_of m) date t (wfs w)) (endP b) = Some (File (opa_fdata m))"
    using with_foreign_end_writes(3,4) [OF i new _ _ assms(7,8) x(2), of date t, unfolded x(1), OF u dir]
    by (simp_all add: opening_of_def)
qed

lemma foreign_open_served:
  assumes "server_inv w" and "sem_ok w" and "good_tcp (T_open m)" and "delivered chunks = tcp_bytes (T_open m)"
    and "u = convert_user_id_to_str (opa_user_id m)" and "n = next_id (auction_ids (wfs w))" and "n \<le> 999"
    and "account (wfs w) u = \<lparr>acc_password = Some (opa_password m), acc_logged_in = True\<rparr>"
    and "good_name (opa_name m)" and "0 < unat (opa_timeactive m)"
    and "b \<in> set (auction_ids (wfs w))" and "\<not> ended (wfs w) b" and "opa_assetf_name m = foreign_end b"
  shows "\<exists>w' date t. processTCPChild requestManager fallback chunks w =
      (EXIT_SUCCESS (Some (''ROA OK '' @ pad0 3 n @ endl)), w') \<and>
    wfs w' = with_foreign_end (pad0 3 n) b (opening_of m) date t (wfs w)"
proof -
  let ?x = "opening_of m" and ?f = "wfs w"
  note i = server_invD(1,2) [OF assms(1)]
  note st = foreign_end_store [OF assms(1,3,5-8,11-13)]
  have x: "is_uid (op_user ?x)" "good_name (op_name ?x)" "good_name (op_asset ?x)"
      "unat (op_start_value ?x) < 10 ^ 6" "0 < unat (op_timeactive ?x)" "unat (op_timeactive ?x) < 10 ^ 5"
    and fields: "op_user ?x = u" "op_asset ?x = foreign_end b"
    using assms(3,9,10) st(4,7,8) foreign_end_good [OF st(6)] by (simp_all add: opening_of_def)
  note writes = with_foreign_end_writes(1,2) [OF i(1) st(1,2) x(1) st(5) [folded fields(1)] assms(11,12) fields(2)]
  have run: "open_auction (opa_password m) ?x (opa_Fsize m) w = (Ret (int n), w\<lparr>wcalls := Suc (Suc (wcalls w)),
      wfs := with_foreign_end (pad0 3 n) b ?x (format_tm (gmtime (wclock w (wcalls w)))) (wclock w (Suc (wcalls w))) ?f\<rparr>)"
    by (rule Db_Open_writes [OF i assms(2) x _ assms(6,7) writes]) (simp add: fields assms(8))
  have call: "Db_Open u (opa_name m) (opa_password m) (opa_assetf_name m)
      (to_string (opa_start_value m)) (to_string (opa_timeactive m)) (opa_Fsize m) (opa_fdata m) =
      open_auction (opa_password m) ?x (opa_Fsize m)"
    by (rule ext) (simp add: open_auction_def opening_of_def assms(5))
  have read: "result (ClientOpenAuction_readMessage StreamMessage
      (stream_at p (drop 3 (ClientOpenAuction_buildMessage m)))) = Inr m" for p
    using assms(3) by (intro ClientOpenAuction_read_build) auto
  show ?thesis
    unfolding child_runs_request [OF assms(4)]
    using run st(3) opened_id_sent [OF assms(7)]
    by (auto simp: OpenAuctionRequest_handle_def bindP_def try_catch_def answer_def send_message_def
      assms(5) [symmetric] call ServerOpenAuction_buildMessage_def code_defs db_defs read)
qed

end
