(* ===== verification/Answer_Theorems.thy ===== *)
theory Answer_Theorems
  imports Server_Theorems Store_Theorems Availability Tcp_Replies Server_Loops Half_Opened Odd_Requests
    Foreign_Files
begin

text \<open>
  What the server answers, from the bytes that reach it to the bytes it sends: records over UDP, bids,
  closings and openings over TCP; that it goes on answering; and the one opening after which the list of
  all auctions is not answered any more.
\<close>

lemma example_words:
  "convert_user_id_to_str 123456 = alice" "convert_user_id_to_str 234567 = bob" "convert_auction_id_to_str 1 = ''001''"
proof -
  show "convert_auction_id_to_str 1 = ''001''" by (simp add: convert_auction_id_to_str_eq) code_simp
  show "convert_user_id_to_str 123456 = alice" "convert_user_id_to_str 234567 = bob"
    using wire_examples(4,5) to_string_uid [of 123456] to_string_uid [of 234567]
      convert_user_id_to_str_eq [of 123456] convert_user_id_to_str_eq [of 234567] by simp_all
qed

section \<open>Going on\<close>

text \<open>C4: The UDP server never stops on its own, and answers: from any well-formed store whose semaphore is free, a
  sequence of requests as clients build them, in which lists are asked of users the store knows, and which is short
  enough for the lists of all auctions in it not to drive the semaphore past its greatest value, is served to its end.
  Each request gets an answer with the code that belongs to it, except for those to which the server keeps silent: a
  login with a wrong password of a user who is logged in, a logout or an unregistering, with the right password, of a
  user who is not, and a record with a number of 2^31 or more. A well-formed store and a free semaphore are left.\<close>

theorem server_stays_available:
  assumes "server_inv w" and "0 < wsem w" and "wsem w + length qs \<le> SEM_VALUE_MAX"
    and "\<forall>q \<in> set qs. good_request q \<and> known_in (wfs w) q"
  shows "\<exists>replies w'. processUDP requestManager (map (\<lambda>q. Datagram (request_bytes q)) qs) w = (map Replied replies, w') \<and>
    length replies = length qs \<and> 0 < wsem w' \<and> server_inv w' \<and>
    (\<forall>i < length qs.
      let f = store_after (take i qs) w; f' = store_after (take (Suc i) qs) w
      in case replies ! i of
           None \<Rightarrow> silent (qs ! i) f f'
         | Some bytes \<Rightarrow> \<not> silent (qs ! i) f f' \<and> take 3 bytes = reply_code (qs ! i))"
  using udp_serves_all [OF assms] unfolding replies_fit_def reply_fits_def Let_def by blast

lemma server_stays_available_example:
  "\<exists>replies w'. processUDP requestManager
     [Datagram ClientListAllAuctions_buildMessage,
      Datagram (ClientLoginUser_buildMessage \<lparr>lin_user_id = 345678, lin_password = alice_pw\<rparr>),
      Datagram (ClientListStartedAuctions_buildMessage \<lparr>lma_user_id = 123456\<rparr>)] (example_world example_users 1 1000) =
     (map Replied replies, w') \<and> length replies = 3 \<and> 0 < wsem w' \<and> (\<exists>bytes. replies ! 0 = Some bytes \<and> take 3 bytes = ''RLS'')"
proof -
  let ?qs = "[Q_all, Q_login \<lparr>lin_user_id = 345678, lin_password = alice_pw\<rparr>, Q_started \<lparr>lma_user_id = 123456\<rparr>]"
  have "\<forall>q \<in> set ?qs. good_request q \<and> known_in example_users q" by (simp add: example_users_facts)
  then obtain replies w' where
    "processUDP requestManager (map (\<lambda>q. Datagram (request_bytes q)) ?qs) (example_world example_users 1 1000) = (map Replied replies, w')"
    and r: "length replies = length ?qs" "0 < wsem w'"
    and i: "\<forall>i < length ?qs. let f = store_after (take i ?qs) (example_world example_users 1 1000);
        f' = store_after (take (Suc i) ?qs) (example_world example_users 1 1000)
      in case replies ! i of None \<Rightarrow> silent (?qs ! i) f f'
         | Some bytes \<Rightarrow> \<not> silent (?qs ! i) f f' \<and> take 3 bytes = reply_code (?qs ! i)"
    using server_stays_available [of "example_world example_users 1 1000" ?qs]
    by (auto simp: example_inv example_users_facts SEM_VALUE_MAX_def simp del: processUDP.simps)
  moreover have "\<exists>bytes. replies ! 0 = Some bytes \<and> take 3 bytes = ''RLS''"
    using i [rule_format, of 0] by (simp add: Let_def split: option.splits)
  ultimately show ?thesis by (intro exI [of _ replies] exI [of _ w']) (simp del: processUDP.simps)
qed

text \<open>Both processes together keep the store well-formed and the semaphore in its range, whatever datagrams,
  failures, connections and signals they meet, in whatever order these come, with the names that an opening sends
  being ones that files can keep.\<close>

theorem processes_keep_invariant:
  assumes "server_inv w" and "\<forall>ev \<in> set evs. safe_event ev"
  shows "server_inv (sv_world (server_main requestManager evs w))"
  by (rule server_main_keeps [OF assms])

lemma processes_keep_invariant_example:
  "server_inv (sv_world (server_main requestManager
     [For_udp (Datagram ''LIN''), For_tcp Fork_failed, For_udp (Recv_failed False), For_tcp (Accept_failed True False)]
     (example_world example_store 1 1000)))"
  by (rule processes_keep_invariant) (simp_all add: example_inv example_store_inv)

section \<open>Records over UDP\<close>

text \<open>C27: A request for the record of an auction is answered NOK for an unknown id, without a trace in the store; else
  the auction is closed first if its time is over, and the answer is the record its files then hold. When its start
  value, its duration or one of the bids shown is not below 2^31, no answer is sent.\<close>

theorem record_answer:
  assumes "server_inv w" and "sem_ok w" and "unat aid < 10 ^ 3" and "a = convert_auction_id_to_str aid"
    and "q = Q_record \<lparr>src_auction_id = aid\<rparr>"
  shows "if a \<notin> set (auction_ids (wfs w))
    then wait_for_udp_message requestManager (Datagram (request_bytes q)) w = (Replied (Some (''RRC NOK'' @ endl)), w)
    else \<exists>f' n. wait_for_udp_message requestManager (Datagram (request_bytes q)) w =
      (Replied (if small_values f' a then Some (record_text (record_view f' a)) else None), w\<lparr>wcalls := n, wfs := f'\<rparr>) \<and>
      store_inv f' \<and> (ended f' a \<longleftrightarrow> ended (wfs w) a \<or> time_over (wfs w) a (wclock w (wcalls w))) \<and>
      (\<forall>p. p \<noteq> endP a \<longrightarrow> look f' p = look (wfs w) p)"
  using record_served [OF assms(1-4)] by (simp add: assms(5))

lemma record_answer_example:
  "\<exists>reply w'. wait_for_udp_message requestManager (Datagram (ClientShowRecord_buildMessage \<lparr>src_auction_id = 1\<rparr>))
     (example_world example_store 1 1100) = (Replied reply, w') \<and> \<not> ended (wfs w') ''001''"
proof -
  from record_answer [of "example_world example_store 1 1100" 1 "''001''", OF _ _ _ example_words(3) [symmetric] refl]
  show ?thesis by (auto simp: example_inv example_store_inv example_store_facts example_may_bid)
qed

section \<open>Bids, closings, openings over TCP\<close>

text \<open>C24: A connection that carries a bid is answered by what the store says of it: NLG for a user who is not logged
  in, NOK for a wrong password, an unknown or a closed auction, ILG for a bid on an own auction, REF when the bid does
  not exceed the highest one, ACC else; and the bids of the auction grow by this one exactly when it is accepted.\<close>

theorem bid_answer:
  assumes "server_inv w" and "sem_ok w" and "good_tcp (T_bid m)" and "delivered chunks = tcp_bytes (T_bid m)"
    and "u = convert_user_id_to_str (bid_user_id m)" and "a = convert_auction_id_to_str (bid_auction_id m)"
    and "over = (ended (wfs w) a \<or> time_over (wfs w) a (wclock w (wcalls w)))"
    and "status = (if \<not> acc_logged_in (account (wfs w) u) then ''NLG''
       else if acc_password (account (wfs w) u) \<noteq> Some (bid_password m) \<or> a \<notin> set (auction_ids (wfs w)) then ''NOK''
       else if a \<in> set (hosted_ids (wfs w) u) then ''ILG''
       else if over then ''NOK''
       else if outbids (wfs w) a (bid_amount m) then ''ACC'' else ''REF'')"
  shows "\<exists>w'. processTCPChild requestManager fallback chunks w = (EXIT_SUCCESS (Some (''RBD '' @ status @ endl)), w') \<and>
    bids (wfs w') a = (if status = ''ACC'' then insert (bid_amount m) (bids (wfs w) a) else bids (wfs w) a)"
proof -
  let ?r = "bid_result (wfs w) u (bid_password m) a (bid_amount m) (wclock w (wcalls w))"
  have "bid_status ?r = status" "?r = Ret DB_BID_ACCEPT \<longleftrightarrow> status = ''ACC''"
    unfolding assms(7,8) by (simp_all add: bid_result_def bid_status_def db_defs)
  then show ?thesis using bid_served [OF assms(1-6) refl, of fallback] by simp
qed

lemma bid_answer_example:
  "\<exists>w'. processTCPChild requestManager NUL [ClientBid_buildMessage
       \<lparr>bid_user_id = 234567, bid_password = bob_pw, bid_auction_id = 1, bid_amount = 150\<rparr>] (example_world example_store 1 1100) =
     (EXIT_SUCCESS (Some (''RBD ACC'' @ endl)), w') \<and> bids (wfs w') ''001'' = {150}"
proof -
  let ?m = "\<lparr>bid_user_id = 234567, bid_password = bob_pw, bid_auction_id = 1, bid_amount = 150\<rparr>"
  have d: "delivered [ClientBid_buildMessage ?m] = tcp_bytes (T_bid ?m)"
    using tcp_request_length [of "T_bid ?m"] by (auto simp: delivered_def)
  have "acc_logged_in (account example_store bob)" "acc_password (account example_store bob) = Some bob_pw"
    "outbids example_store ''001'' 150"
    by (simp_all add: example_store_facts example_users_facts outbids_def example_lists example_start word_less_nat_alt)
  then show ?thesis
    using bid_answer [of "example_world example_store 1 1100" ?m, OF _ _ _ d _ _ refl refl, of bob "''001''"]
    by (simp add: example_inv example_store_inv example_words example_store_facts example_lists example_may_bid)
qed

text \<open>C25: A connection that asks to close an auction is answered, in this order: NOK for a user without a
  directory, NLG for one who is not logged in, NOK for a wrong password, EAU for an unknown auction, EOW for one of
  another user, END for one that is over, OK else; the auction has an end file afterwards when it had one or when its
  host, logged in and with the right password, asked.\<close>

theorem close_answer:
  assumes "server_inv w" and "sem_ok w" and "good_tcp (T_close m)" and "delivered chunks = tcp_bytes (T_close m)"
    and "u = convert_user_id_to_str (cls_user_id m)" and "a = convert_auction_id_to_str (cls_auction_id m)"
    and "over = (ended (wfs w) a \<or> time_over (wfs w) a (wclock w (wcalls w)))"
    and "status = (if look (wfs w) (userP u) = None then ''NOK''
       else if \<not> acc_logged_in (account (wfs w) u) then ''NLG''
       else if acc_password (account (wfs w) u) \<noteq> Some (cls_password m) then ''NOK''
       else if a \<notin> set (auction_ids (wfs w)) then ''EAU''
       else if a \<notin> set (hosted_ids (wfs w) u) then ''EOW''
       else if over then ''END'' else ''OK'')"
  shows "\<exists>w'. processTCPChild requestManager fallback chunks w = (EXIT_SUCCESS (Some (''RCL '' @ status @ endl)), w') \<and>
    (ended (wfs w') a \<longleftrightarrow> ended (wfs w) a \<or> status \<in> {''OK'', ''END''})"
proof -
  let ?r = "close_result (wfs w) u (cls_password m) a (wclock w (wcalls w))"
  have "close_status ?r = status"
    unfolding assms(7,8) by (simp add: close_result_def close_status_def)
  moreover have "is_uid u" using assms(3,5) uid_of_wire [of "cls_user_id m"] by (simp add: wire_uid_def)
  then have "may_close (wfs w) u (cls_password m) a \<longleftrightarrow> status \<in> {''OK'', ''END''}"
    using account_facts(2) [OF server_invD(1) [OF assms(1)], of u "cls_password m"]
    unfolding assms(7,8) by (cases "account (wfs w) u") (auto simp: may_close_def)
  ultimately show ?thesis using close_served [OF assms(1-6) refl, of fallback] by simp
qed

lemma close_answer_example:
  "\<exists>w'. processTCPChild requestManager NUL [ClientCloseAuction_buildMessage
       \<lparr>cls_user_id = 123456, cls_password = alice_pw, cls_auction_id = 1\<rparr>] (example_world example_store 1 1100) =
     (EXIT_SUCCESS (Some (''RCL OK'' @ endl)), w') \<and> ended (wfs w') ''001''"
proof -
  let ?m = "\<lparr>cls_user_id = 123456, cls_password = alice_pw, cls_auction_id = 1\<rparr>"
  have d: "delivered [ClientCloseAuction_buildMessage ?m] = tcp_bytes (T_close ?m)"
    using tcp_request_length [of "T_close ?m"] by (auto simp: delivered_def)
  have "acc_logged_in (account example_store alice)" "acc_password (account example_store alice) = Some alice_pw"
    "look example_store (userP alice) \<noteq> None"
    by (simp_all add: example_store_facts example_users_facts)
  then show ?thesis
    using close_answer [of "example_world example_store 1 1100" ?m, OF _ _ _ d, of alice "''001''" False "''OK''" NUL]
    by (simp add: example_inv example_store_inv example_words example_store_facts example_lists example_may_bid)
qed

text \<open>C26: A connection that opens an auction is answered OK with the next free id when the user is logged in with the
  password sent, and the store then is the old one with this auction in it; NOK for a wrong password or when the ids are
  used up. A user who is not logged in gets no answer. The store is well-formed and the semaphore free; the user id has
  six digits and does not begin with 0, the password is eight letters or digits; the name of the auction is a printable
  word of at most 10 characters without whitespace and not empty, the file name one of at most 24 that has no slash and
  is not just one dot or two; the start value is from 1 to 999999, the duration from 1 to 99999, and the asset has
  at most ten million bytes, as many as its size says. For a duration of 0, which the protocol lets through, the answer
  is NOK instead and a directory stays behind (half_opened_breaks_list).\<close>

theorem open_answer:
  assumes "server_inv w" and "sem_ok w" and "good_tcp (T_open m)" and "open_message m"
    and "delivered chunks = tcp_bytes (T_open m)" and "u = convert_user_id_to_str (opa_user_id m)"
    and "n = next_id (auction_ids (wfs w))" and "acc = account (wfs w) u"
  shows "\<exists>w'. processTCPChild requestManager fallback chunks w =
      (EXIT_SUCCESS (if \<not> acc_logged_in acc then None
         else if acc_password acc \<noteq> Some (opa_password m) \<or> n > 999 then Some (''ROA NOK'' @ endl)
         else Some (''ROA OK '' @ pad0 3 n @ endl)), w') \<and>
    (acc = \<lparr>acc_password = Some (opa_password m), acc_logged_in = True\<rparr> \<and> n \<le> 999 \<longrightarrow>
      (\<exists>date t. wfs w' = with_auction (pad0 3 n) (opening_of m) date t (wfs w)))"
  using open_served [OF assms(1-7), of fallback] by (simp only: assms(8))

lemma open_answer_example:
  "\<exists>w' date t. processTCPChild requestManager NUL [ClientOpenAuction_buildMessage
       \<lparr>opa_user_id = 123456, opa_password = alice_pw, opa_name = ''piano'', opa_start_value = 100, opa_timeactive = 600,
        opa_assetf_name = ''piano.jpg'', opa_Fsize = 4, opa_fdata = ''keys''\<rparr>] (example_world example_users 1 1000) =
     (EXIT_SUCCESS (Some (''ROA OK 001'' @ endl)), w') \<and> wfs w' = with_auction ''001'' piano date t example_users"
proof -
  let ?m = "\<lparr>opa_user_id = 123456, opa_password = alice_pw, opa_name = ''piano'', opa_start_value = 100,
    opa_timeactive = 600, opa_assetf_name = ''piano.jpg'', opa_Fsize = 4, opa_fdata = ''keys''\<rparr>"
  have d: "delivered [ClientOpenAuction_buildMessage ?m] = tcp_bytes (T_open ?m)"
    using tcp_request_length [of "T_open ?m"] by (auto simp: delivered_def)
  have p: "opening_of ?m = piano" by (simp add: opening_of_def piano_def example_words)
  then have o: "open_message ?m" by (simp add: open_message_def)
  have g: "good_tcp (T_open ?m)" by (simp add: no_sep_def is_sep_def)
  have pad: "pad0 3 (Suc 0) = ''001''" by code_simp
  show ?thesis
    using open_answer [of "example_world example_users 1 1000" ?m, OF _ _ g o d refl refl refl, of NUL]
    by (simp add: example_inv example_words example_users_facts next_id_def p pad)
qed

section \<open>An opening that breaks the list\<close>

text \<open>An auction opened with duration 0, which the protocol's check lets through, is refused after its directory
  has been made, and the rmdir that should take the directory back fails on its contents. When it is the first auction,
  every list of all auctions throws from then on.\<close>

theorem half_opened_breaks_list:
  assumes "server_inv w" and "sem_ok w" and "is_uid u" and "is_password pw" and "auction_ids (wfs w) = []"
    and "account (wfs w) u = \<lparr>acc_password = Some pw, acc_logged_in = True\<rparr>" and "wsem w < SEM_VALUE_MAX"
  shows "\<exists>w' w''. Db_Open u name pw fname sv (to_string 0) fsize data w = (Ret DB_OPEN_CREATE_FAIL, w') \<and>
    wsem w' = wsem w \<and> wfs w' = with_auction_dir ''001'' (wfs w) \<and> Db_List w' = (Throw AuctionNotFound, w'')"
proof -
  have n: "1 = next_id (auction_ids (wfs w))" by (simp add: assms(5) next_id_def)
  have pad: "pad0 3 1 = ''001''" by code_simp
  let ?w = "w\<lparr>wfs := with_auction_dir ''001'' (wfs w)\<rparr>"
  note i = server_invD(1) [OF assms(1)]
  have "Db_Open u name pw fname sv (to_string 0) fsize data w = (Ret DB_OPEN_CREATE_FAIL, ?w)"
    using Db_Open_no_time [OF i assms(2-4,6) n] by (simp add: pad del: One_nat_def)
  moreover have "Db_List ?w = (Throw AuctionNotFound, ?w\<lparr>wsem := Suc (wsem ?w)\<rparr>)"
    using Db_List_half_opened [OF i assms(5), of "''001''" ?w] assms(7) by simp
  ultimately show ?thesis by (intro exI conjI) simp_all
qed

lemma half_opened_breaks_list_example:
  "\<exists>w' w''. Db_Open alice ''piano'' alice_pw ''piano.jpg'' (to_string 100) (to_string 0) 4 ''keys''
      (example_world example_users 1 1000) = (Ret DB_OPEN_CREATE_FAIL, w') \<and> Db_List w' = (Throw AuctionNotFound, w'')"
  using half_opened_breaks_list [of "example_world example_users 1 1000" alice alice_pw "''piano''" "''piano.jpg''"
    "to_string 100" 4 "''keys''"]
  by (auto simp: example_inv example_users_facts SEM_VALUE_MAX_def)

section \<open>An opening that ends the auction of another user\<close>

text \<open>C15: An opening writes wherever the file name sent with it leads. A name of 21 characters that goes up two
  directories reaches the end file of any auction that is still open: the child answers OK with the new id, and that
  auction has ended, whoever opened it, with the bytes of the request as the text of its end file.\<close>

theorem open_ends_foreign_auction:
  assumes "server_inv w" and "sem_ok w" and "good_tcp (T_open m)" and "delivered chunks = tcp_bytes (T_open m)"
    and "u = convert_user_id_to_str (opa_user_id m)" and "n = next_id (auction_ids (wfs w))" and "n \<le> 999"
    and "account (wfs w) u = \<lparr>acc_password = Some (opa_password m), acc_logged_in = True\<rparr>"
    and "good_name (opa_name m)" and "0 < unat (opa_timeactive m)" and "b \<in> set (auction_ids (wfs w))"
    and "\<not> ended (wfs w) b" and "opa_assetf_name m = ''../../'' @ b @ ''/END_'' @ b @ ''.txt''"
  shows "\<exists>w'. processTCPChild requestManager fallback chunks w =
      (EXIT_SUCCESS (Some (''ROA OK '' @ pad0 3 n @ endl)), w') \<and>
    CheckEndExists (wfs w') (end_path b) = 0 \<and> text_at (wfs w') (endP b) = Some (opa_fdata m)"
proof -
  note f = assms(13) [folded foreign_end_def]
  obtain w' date t where run: "processTCPChild requestManager fallback chunks w =
      (EXIT_SUCCESS (Some (''ROA OK '' @ pad0 3 n @ endl)), w')"
    and w': "wfs w' = with_foreign_end (pad0 3 n) b (opening_of m) date t (wfs w)"
    using foreign_open_served [OF assms(1-12) f, of fallback] by blast
  have "users_inv (wfs w')" "look (wfs w') (endP b) = Some (File (opa_fdata m))" "is_aid b"
    using foreign_end_store [OF assms(1,3,5-8,11,12) f] by (simp_all add: w')
  then show ?thesis
    using run by (simp add: CheckEndExists_eq users_invD ended_def text_at_def)
qed

lemma open_ends_foreign_auction_example:
  "\<exists>w'. processTCPChild requestManager NUL [ClientOpenAuction_buildMessage
       \<lparr>opa_user_id = 234567, opa_password = bob_pw, opa_name = ''chair'', opa_start_value = 1, opa_timeactive = 1,
        opa_assetf_name = ''../../001/END_001.txt'', opa_Fsize = 4, opa_fdata = ''wood''\<rparr>] (example_world example_store 1 1100) =
     (EXIT_SUCCESS (Some (''ROA OK 002'' @ endl)), w') \<and> CheckEndExists (wfs w') (end_path ''001'') = 0"
proof -
  let ?m = "\<lparr>opa_user_id = 234567, opa_password = bob_pw, opa_name = ''chair'', opa_start_value = 1, opa_timeactive = 1,
    opa_assetf_name = ''../../001/END_001.txt'', opa_Fsize = 4, opa_fdata = ''wood''\<rparr>"
  have d: "delivered [ClientOpenAuction_buildMessage ?m] = tcp_bytes (T_open ?m)"
    using tcp_request_length [of "T_open ?m"] by (auto simp: delivered_def)
  have g: "good_tcp (T_open ?m)" by (simp add: no_sep_def is_sep_def)
  have n: "2 = next_id (auction_ids (wfs (example_world example_store 1 1100)))"
    by (simp add: example_store_facts next_id_def digits_val_def digit_val_def)
  have pad: "pad0 3 2 = ''002''" by code_simp
  have "good_name ''chair''" by code_simp
  then show ?thesis
    using open_ends_foreign_auction [of "example_world example_store 1 1100" ?m, OF _ _ g d refl n, of "''001''" NUL]
    by (auto simp: example_inv example_store_inv example_words example_store_facts example_users_facts pad)
qed

section \<open>Requests of other clients\<close>

text \<open>A user whose id begins with a zero can never log in. Written with six digits, as the protocol wants it, the id
  is read, but the handler passes it to the database without its zeros, which refuses it: the answer is NOK, whatever
  the store. Written as the client of this repository writes it, without the zeros, it is not read: the answer is ERR.\<close>

theorem leading_zero_cannot_log_in:
  assumes "server_inv w" and "sem_ok w" and "0 < unat uid" and "unat uid < 10 ^ 5" and "is_password pw"
  shows "wait_for_udp_message requestManager (Datagram (login_bytes (convert_user_id_to_str uid) pw)) w =
      (Replied (Some (''RLI NOK'' @ endl)), w) \<and>
    wait_for_udp_message requestManager (Datagram (ClientLoginUser_buildMessage \<lparr>lin_user_id = uid, lin_password = pw\<rparr>)) w =
      (Replied (Some (''RLI ERR'' @ endl)), w)"
  using leading_zero_refused [OF assms] by simp

lemma leading_zero_cannot_log_in_example:
  "wait_for_udp_message requestManager (Datagram (''LIN 000012 password'' @ endl)) (example_world example_users 1 1000) =
     (Replied (Some (''RLI NOK'' @ endl)), example_world example_users 1 1000)"
proof -
  have "convert_user_id_to_str 12 = ''000012''" by (simp add: convert_user_id_to_str_eq) code_simp
  then show ?thesis
    using leading_zero_cannot_log_in [of "example_world example_users 1 1000" 12 alice_pw]
    by (simp add: example_inv example_users_facts login_bytes_def) (simp add: alice_pw_def)
qed



end
