(* ===== verification/Client_Output.thy ===== *)
theory Client_Output
  imports Messages_Server
begin

text \<open>
  client/output.cpp: what the client prints, as the text that goes to std::cout. The one number
  printed as a float, the size of an asset in megabytes, is rendered by a function that the client's
  environment gives.
\<close>

definition tab :: string where
  "tab = [CHR 0x09]"

definition double_rule :: string where
  "double_rule = ''==================================================''"

definition single_rule :: string where
  "single_rule = ''--------------------------------------------------''"

definition printError :: "string \<Rightarrow> string" where
  "printError str = ''[ERROR] '' @ str @ endl"

definition printSuccess :: "string \<Rightarrow> string" where
  "printSuccess success_description = ''[SUCCESS] '' @ success_description @ endl"

fun print_bid_lines :: "Bid list \<Rightarrow> string" where
  "print_bid_lines [] = []"
| "print_bid_lines (bid # bids) =
     to_string (bidder_UID bid) @ tab @ tab @ to_string (bid_value bid) @ tab @ tab @
     extractDate (bid_date_time bid) @ tab @ extractTime (bid_date_time bid) @ tab @
     to_string (bid_sec_time bid) @ endl @ print_bid_lines bids"

definition printRecord :: "string \<Rightarrow> ServerShowRecord \<Rightarrow> string" where
  "printRecord aid m =
     ''[SUCCESS] Showing record for auction '' @ aid @ '':'' @ endl @ double_rule @
     endl @ tab @ ''Host ID:'' @ tab @ tab @ to_string (rrc_host_UID m) @
     endl @ tab @ ''Auction Name:'' @ tab @ tab @ rrc_auction_name m @
     endl @ tab @ ''Asset File Name:'' @ tab @ rrc_asset_fname m @
     endl @ tab @ ''Start Value:'' @ tab @ tab @ to_string (rrc_start_value m) @
     endl @ tab @ ''Start Date:'' @ tab @ tab @ extractDate (rrc_start_date_time m) @
     endl @ tab @ ''Start Time:'' @ tab @ tab @ extractTime (rrc_start_date_time m) @
     endl @ tab @ ''Timeactive:'' @ tab @ tab @ to_string (rrc_timeactive m) @
     endl @ tab @ ''Status:'' @ tab @ tab @ tab @
     (if rrc_end_sec_time m \<le> 0 then ''active'' else ''closed'') @ endl @
     (if length (rrc_bids m) > 0
      then double_rule @ endl @ tab @ tab @ ''BIDS ('' @ nat_str (length (rrc_bids m)) @ '')'' @ endl @
           single_rule @ endl @ ''BidderUID'' @ tab @ ''Bid Value'' @ tab @ ''Bid Date'' @ tab @ ''Bid Time'' @
           tab @ ''Time Elapsed'' @ endl @ single_rule @ endl
      else []) @
     print_bid_lines (rrc_bids m) @
     (if rrc_end_sec_time m > 0
      then double_rule @ endl @ ''END'' @ tab @ ''End Date'' @ tab @ ''End Time'' @ tab @ ''End Elapsed'' @ endl @
           single_rule @ endl @ ''OVER'' @ tab @ extractDate (rrc_end_date_time m) @ tab @
           extractTime (rrc_end_date_time m) @ tab @ to_string (rrc_end_sec_time m) @ endl
      else []) @
     double_rule @ endl @ ''END RECORD'' @ endl"

definition printOpenAuction :: "ServerOpenAuction \<Rightarrow> string" where
  "printOpenAuction m = ''[SUCCESS] Auction '' @ to_string (roa_auction_id m) @ '' opened.'' @ endl"

definition printCloseAuction :: "ClientCloseAuction \<Rightarrow> string" where
  "printCloseAuction m = ''[SUCCESS] Auction '' @ to_string (cls_auction_id m) @ '' closed.'' @ endl"

definition printShowAsset :: "(64 word \<Rightarrow> string) \<Rightarrow> ClientShowAsset \<Rightarrow> ServerShowAsset \<Rightarrow> string" where
  "printShowAsset megabytes message_c message_s =
     ''[SUCCESS] Retrieved '' @ to_string (sas_auction_id message_c) @ '' auction'' @ [CHR 0x27] @ ''s asset.'' @
     endl @ tab @ ''File Name: '' @ rsa_fname message_s @
     endl @ tab @ ''File Size: '' @ megabytes (rsa_fsize message_s) @ '' MB'' @ endl"

definition printBid :: "ClientBid \<Rightarrow> string" where
  "printBid m =
     ''[SUCCESS] Bidded '' @ to_string (bid_amount m) @ '' on auction '' @ to_string (bid_auction_id m) @ ''.'' @ endl"

end
