(* ===== verification/Client_Core.thy ===== *)
theory Client_Core
  imports Client_Output
begin

text \<open>
  client/client.cpp: the state of the client, the exchange of a request and its answer over UDP and
  TCP, and the local login. The network is a state \<open>'n\<close> and two functions of the environment that
  take the bytes sent to what the system calls of the exchange return; the files of the client's
  machine and what it prints are part of the state.
\<close>

section \<open>The state\<close>

definition LOGGED_OUT :: uint32 where
  "LOGGED_OUT = 0"

record 'n client =
  cl_user_id :: uint32
  cl_password :: string
  cl_files :: "string \<rightharpoonup> string"
  cl_out :: string
  cl_net :: 'n

text \<open>
  What an exchange ends with: the send fails; select fails, times out or recvfrom fails; or a datagram
  is there. Over TCP: no socket, no connection, a failing write, or the chunks that read will find.
\<close>

datatype udp_reply = Udp_send_failed | Udp_no_answer | Udp_answer string
datatype tcp_reply = Tcp_no_socket | Tcp_no_connection | Tcp_write_failed | Tcp_answer "string list"

record 'n client_env =
  ce_udp :: "string \<Rightarrow> 'n \<Rightarrow> udp_reply \<times> 'n"
  ce_tcp :: "string \<Rightarrow> 'n \<Rightarrow> tcp_reply \<times> 'n"
  ce_uninit :: char
  ce_writable :: "string \<Rightarrow> bool"
  ce_megabytes :: "64 word \<Rightarrow> string"
  ce_what :: "exn \<Rightarrow> string"
  ce_help_order :: "string list"

definition print_out :: "string \<Rightarrow> (unit, 'n client) prog" where
  "print_out text s = (Ret (), s\<lparr>cl_out := cl_out s @ text\<rparr>)"

definition getC :: "('n client \<Rightarrow> 'a) \<Rightarrow> ('a, 'n client) prog" where
  "getC g s = (Ret (g s), s)"

section \<open>Login state\<close>

definition client_login :: "uint32 \<Rightarrow> string \<Rightarrow> (unit, 'n client) prog" where
  "client_login user_id password s = (Ret (), s\<lparr>cl_user_id := user_id, cl_password := password\<rparr>)"

definition client_logout :: "(unit, 'n client) prog" where
  "client_logout s = (Ret (), s\<lparr>cl_user_id := LOGGED_OUT, cl_password := []\<rparr>)"

definition isLoggedIn :: "'n client \<Rightarrow> bool" where
  "isLoggedIn s \<longleftrightarrow> cl_user_id s \<noteq> LOGGED_OUT"

section \<open>Exchanges\<close>

text \<open>A reader that never returns blocks the client.\<close>

definition read_answer :: "('a, 'b) read_result option \<Rightarrow> ('a, 'n client) prog" where
  "read_answer r s = (case r of None \<Rightarrow> (Block, s) | Some r \<Rightarrow> liftP (result r) s)"

text \<open>sendUdpMessage and waitForUdpMessage, that is send_udp_message and await_udp_message.\<close>

definition udp_exchange ::
    "'n client_env \<Rightarrow> string \<Rightarrow> (stream \<Rightarrow> ('m, stream) read_result option) \<Rightarrow> ('m, 'n client) prog" where
  "udp_exchange E message_out read_in s =
     (case ce_udp E message_out (cl_net s) of
        (Udp_send_failed, n) \<Rightarrow> (Throw MessageSendException, s\<lparr>cl_net := n\<rparr>)
      | (Udp_no_answer, n) \<Rightarrow> (Throw MessageReceiveException, s\<lparr>cl_net := n\<rparr>)
      | (Udp_answer d, n) \<Rightarrow>
          read_answer (read_in (stream_of (take UDP_SOCKET_BUFFER_LEN d))) (s\<lparr>cl_net := n\<rparr>))"

text \<open>The loop over the tries left; \<open>None\<close> is the return value -1.\<close>

fun udp_tries ::
    "nat \<Rightarrow> 'n client_env \<Rightarrow> string \<Rightarrow> (stream \<Rightarrow> ('m, stream) read_result option) \<Rightarrow> ('m option, 'n client) prog" where
  "udp_tries 0 E message_out read_in = ret None"
| "udp_tries (Suc triesLeft) E message_out read_in =
     try_catch (bindP (udp_exchange E message_out read_in) (\<lambda>m. ret (Some m)))
       (\<lambda>e. if e = ConnectionTimeoutException then
              (if triesLeft = 0 then bindP (print_out (printError ''Couldn't send message'')) (\<lambda>_. ret None)
               else udp_tries triesLeft E message_out read_in)
            else
              bindP (print_out (printError
                (if e = InvalidMessageException then ''Invalid Message.''
                 else if e = UnexpectedMessageException then ''Unexpected Message.''
                 else if e = ERRCodeMessageException then ''ERR code message received.''
                 else if e = MessageReceiveException then ''Couldn't receive message.''
                 else if e = MessageSendException then ''Couldn't send message.''
                 else ''Unexpected error.''))) (\<lambda>_. ret None))"

definition sendUdpMessageAndAwaitReply ::
    "'n client_env \<Rightarrow> string \<Rightarrow> (stream \<Rightarrow> ('m, stream) read_result option) \<Rightarrow> ('m option, 'n client) prog" where
  "sendUdpMessageAndAwaitReply E message_out read_in = udp_tries UDP_MAX_TRIES E message_out read_in"

text \<open>openTcpSocket, sendTcpMessage and waitForTcpMessage.\<close>

definition tcp_exchange ::
    "'n client_env \<Rightarrow> string \<Rightarrow> (tcp \<Rightarrow> ('m, tcp) read_result option) \<Rightarrow> ('m, 'n client) prog" where
  "tcp_exchange E message_out read_in s =
     (case ce_tcp E message_out (cl_net s) of
        (Tcp_no_socket, n) \<Rightarrow> (Throw SocketException, s\<lparr>cl_net := n\<rparr>)
      | (Tcp_no_connection, n) \<Rightarrow> (Throw ConnectionTimeoutException, s\<lparr>cl_net := n\<rparr>)
      | (Tcp_write_failed, n) \<Rightarrow> (Throw MessageSendException, s\<lparr>cl_net := n\<rparr>)
      | (Tcp_answer chunks, n) \<Rightarrow>
          read_answer (read_in (TcpMessage_new (ce_uninit E) chunks)) (s\<lparr>cl_net := n\<rparr>))"

definition sendTcpMessageAndAwaitReply ::
    "'n client_env \<Rightarrow> string \<Rightarrow> (tcp \<Rightarrow> ('m, tcp) read_result option) \<Rightarrow> ('m option, 'n client) prog" where
  "sendTcpMessageAndAwaitReply E message_out read_in =
     try_catch (bindP (tcp_exchange E message_out read_in) (\<lambda>m. ret (Some m)))
       (\<lambda>e. bindP (print_out (printError
          (if e = ConnectionTimeoutException then ''Couldn't send message''
           else if e = InvalidMessageException then ''Invalid Message.''
           else if e = UnexpectedMessageException then ''Unexpected Message.''
           else if e = ERRCodeMessageException then ''ERR code message received.''
           else if e = MessageReceiveException then ''Couldn't receive message''
           else if e = MessageSendException then ''Couldn't send message.''
           else ''Unexpected error.''))) (\<lambda>_. ret None))"

end
