(* ===== verification/Client_Commands.thy ===== *)
theory Client_Commands
  imports Client_Core
begin

text \<open>
  client/commands.cpp: the handlers of the client's commands, the table of the commands, and the
  loop of main that reads a line and runs its command. A handler ends with \<open>Continue\<close>; only exit ends
  the client. An uncaught exception is one main catches.
\<close>

datatype flow = Continue | Exit

text \<open>\<open>printError(str); return;\<close>.\<close>

definition fail_with :: "string \<Rightarrow> (flow, 'n client) prog" where
  "fail_with str = bindP (print_out (printError str)) (\<lambda>_. ret Continue)"

definition succeed_with :: "string \<Rightarrow> (flow, 'n client) prog" where
  "succeed_with str = bindP (print_out (printSuccess str)) (\<lambda>_. ret Continue)"

text \<open>The answer of an exchange; -1 ends the handler.\<close>

definition on_answer :: "'m option \<Rightarrow> ('m \<Rightarrow> (flow, 'n client) prog) \<Rightarrow> (flow, 'n client) prog" where
  "on_answer r k = (case r of None \<Rightarrow> ret Continue | Some m \<Rightarrow> k m)"

section \<open>Login, logout, unregister, exit\<close>

definition LoginCommand_handle :: "'n client_env \<Rightarrow> string \<Rightarrow> (flow, 'n client) prog" where
  "LoginCommand_handle E args =
     (let parsed_args = words args in
      if length parsed_args \<noteq> 2 then fail_with ''Wrong number of arguments''
      else
        bindP (getC isLoggedIn) (\<lambda>logged.
        if logged then fail_with ''Already Logged In. Please logout first.''
        else
          let user_id = parsed_args ! 0; password = parsed_args ! 1 in
          if verify_user_id user_id = -1 then fail_with ''Incorrect user id.''
          else if verify_password password = -1 then fail_with ''Incorrect password.''
          else
            bindP (liftP (convert_user_id user_id)) (\<lambda>uid.
            bindP (liftP (convert_password password)) (\<lambda>pw.
            bindP (sendUdpMessageAndAwaitReply E
              (ClientLoginUser_buildMessage \<lparr>lin_user_id = uid, lin_password = pw\<rparr>)
              (\<lambda>b. Some (ServerLoginUser_readMessage StreamMessage b))) (\<lambda>r.
            on_answer r (\<lambda>status.
            case status of
              Login_OK \<Rightarrow> bindP (client_login uid pw) (\<lambda>_. succeed_with (''Sucessfully logged in as '' @ to_string uid))
            | Login_NOK \<Rightarrow> fail_with ''Couldn't login.''
            | Login_REG \<Rightarrow> bindP (client_login uid pw) (\<lambda>_. succeed_with (''Registered user '' @ to_string uid))
            | Login_ERR \<Rightarrow> fail_with ''Wrong format sent.''))))))"

text \<open>The exchange logout and exit share, and what they do with the status.\<close>

definition logout_exchange :: "'n client_env \<Rightarrow> (ServerLogout_status option, 'n client) prog" where
  "logout_exchange E =
     bindP (getC (\<lambda>s. \<lparr>lou_user_id = cl_user_id s, lou_password = cl_password s\<rparr>)) (\<lambda>message_out.
     sendUdpMessageAndAwaitReply E (ClientLogout_buildMessage message_out)
       (\<lambda>b. Some (ServerLogout_readMessage StreamMessage b)))"

definition logout_status :: "ServerLogout_status \<Rightarrow> (flow, 'n client) prog" where
  "logout_status status =
     (case status of
        Logout_OK \<Rightarrow> bindP client_logout (\<lambda>_. succeed_with ''Sucessfully logged out'')
      | Logout_NOK \<Rightarrow> fail_with ''Couldn't logout.''
      | Logout_UNR \<Rightarrow> fail_with ''Unregistered user.''
      | Logout_ERR \<Rightarrow> fail_with ''Wrong format sent.'')"

definition LogoutCommand_handle :: "'n client_env \<Rightarrow> string \<Rightarrow> (flow, 'n client) prog" where
  "LogoutCommand_handle E args =
     (if length args > 0 then fail_with ''Wrong number of arguments''
      else
        bindP (getC isLoggedIn) (\<lambda>logged.
        if \<not> logged then fail_with ''Not logged in. Please login first.''
        else bindP (logout_exchange E) (\<lambda>r. on_answer r logout_status)))"

definition UnregisterCommand_handle :: "'n client_env \<Rightarrow> string \<Rightarrow> (flow, 'n client) prog" where
  "UnregisterCommand_handle E args =
     (if length args > 0 then fail_with ''Wrong number of arguments''
      else
        bindP (getC isLoggedIn) (\<lambda>logged.
        if \<not> logged then fail_with ''Not logged in. Please login first.''
        else
          bindP (getC (\<lambda>s. \<lparr>unr_user_id = cl_user_id s, unr_password = cl_password s\<rparr>)) (\<lambda>message_out.
          bindP (sendUdpMessageAndAwaitReply E (ClientUnregister_buildMessage message_out)
            (\<lambda>b. Some (ServerUnregister_readMessage StreamMessage b))) (\<lambda>r.
          on_answer r (\<lambda>status.
          case status of
            Unregister_OK \<Rightarrow> bindP client_logout (\<lambda>_. succeed_with ''Sucessfully unregister.'')
          | Unregister_NOK \<Rightarrow> fail_with ''Not logged in, hence couldn't unregister.''
          | Unregister_UNR \<Rightarrow> fail_with ''Unregistered user.''
          | Unregister_ERR \<Rightarrow> fail_with ''Wrong format sent.'')))))"

definition ExitCommand_handle :: "'n client_env \<Rightarrow> string \<Rightarrow> (flow, 'n client) prog" where
  "ExitCommand_handle E args =
     bindP (getC isLoggedIn) (\<lambda>logged.
     if \<not> logged then bindP (succeed_with ''Shutting down.'') (\<lambda>_. ret Exit)
     else
       bindP (logout_exchange E) (\<lambda>r.
       case r of
         None \<Rightarrow> ret Continue
       | Some status \<Rightarrow>
           bindP (logout_status status) (\<lambda>_. bindP (succeed_with ''Shutting down.'') (\<lambda>_. ret Exit))))"

section \<open>Lists\<close>

text \<open>
  \<open>"..." + client.getLoggedInUser()\<close> adds the number to the pointer to the literal. Up to the
  literal's end the result is what is left of it, beyond it the behaviour is undefined.
\<close>

definition literal_plus :: "string \<Rightarrow> uint32 \<Rightarrow> (string, 'n client) prog" where
  "literal_plus lit n = (if unat n \<le> length lit then ret (drop (unat n) lit) else undef)"

fun print_auctions :: "string list \<Rightarrow> string" where
  "print_auctions [] = []"
| "print_auctions (auc # aucs) = tab @ auc @ endl @ print_auctions aucs"

definition list_with :: "string \<Rightarrow> string list \<Rightarrow> (flow, 'n client) prog" where
  "list_with message_ok aucs =
     bindP (print_out (printSuccess message_ok)) (\<lambda>_. bindP (print_out (print_auctions aucs)) (\<lambda>_. ret Continue))"

definition ListStartedAuctionsCommand_handle :: "'n client_env \<Rightarrow> string \<Rightarrow> (flow, 'n client) prog" where
  "ListStartedAuctionsCommand_handle E args =
     (if length args > 0 then fail_with ''Wrong number of arguments''
      else
        bindP (getC isLoggedIn) (\<lambda>logged.
        if \<not> logged then fail_with ''Not logged in. Please login first.''
        else
          bindP (getC cl_user_id) (\<lambda>uid.
          bindP (sendUdpMessageAndAwaitReply E (ClientListStartedAuctions_buildMessage \<lparr>lma_user_id = uid\<rparr>)
            (ServerListStartedAuctions_readMessage StreamMessage \<lparr>rma_status = Started_ERR, rma_auctions = []\<rparr>)) (\<lambda>r.
          on_answer r (\<lambda>m.
          bindP (literal_plus (''Listing '' @ endl @ ''Auctions started by user '') uid) (\<lambda>message_ok.
          case rma_status m of
            Started_OK \<Rightarrow> list_with (message_ok @ '':'') (rma_auctions m)
          | Started_NOK \<Rightarrow> fail_with ''User doesn't have ongoing auctions.''
          | Started_NLG \<Rightarrow> fail_with ''User not logged in.''
          | Started_ERR \<Rightarrow> fail_with ''Wrong format sent.''))))))"

definition ListBiddedAuctionsCommand_handle :: "'n client_env \<Rightarrow> string \<Rightarrow> (flow, 'n client) prog" where
  "ListBiddedAuctionsCommand_handle E args =
     (if length args > 0 then fail_with ''Wrong number of arguments''
      else
        bindP (getC isLoggedIn) (\<lambda>logged.
        if \<not> logged then fail_with ''Not logged in. Please login first.''
        else
          bindP (getC cl_user_id) (\<lambda>uid.
          bindP (sendUdpMessageAndAwaitReply E (ClientListBiddedAuctions_buildMessage \<lparr>lmb_user_id = uid\<rparr>)
            (ServerListBiddedAuctions_readMessage StreamMessage \<lparr>rmb_status = Bidded_ERR, rmb_auctions = []\<rparr>)) (\<lambda>r.
          on_answer r (\<lambda>m.
          bindP (literal_plus (''Listing '' @ endl @ ''Auctions bidded by user '') uid) (\<lambda>message_ok.
          case rmb_status m of
            Bidded_OK \<Rightarrow> list_with (message_ok @ '':'') (rmb_auctions m)
          | Bidded_NOK \<Rightarrow> fail_with ''User didn't bid on any auctions.''
          | Bidded_NLG \<Rightarrow> fail_with ''User not logged in.''
          | Bidded_ERR \<Rightarrow> fail_with ''Wrong format sent.''))))))"

definition ListAllAuctionsCommand_handle :: "'n client_env \<Rightarrow> string \<Rightarrow> (flow, 'n client) prog" where
  "ListAllAuctionsCommand_handle E args =
     (if length args > 0 then fail_with ''Wrong number of arguments''
      else
        bindP (sendUdpMessageAndAwaitReply E ClientListAllAuctions_buildMessage
          (ServerListAllAuctions_readMessage StreamMessage \<lparr>rls_status = All_ERR, rls_auctions = []\<rparr>)) (\<lambda>r.
        on_answer r (\<lambda>m.
        case rls_status m of
          All_OK \<Rightarrow> list_with (''Listing '' @ endl @ ''All auctions registered on the server:'') (rls_auctions m)
        | All_NOK \<Rightarrow> fail_with ''There aren't any auctions on the system yet.''
        | All_ERR \<Rightarrow> fail_with ''Wrong format sent.'')))"

section \<open>Show record, open, close, show asset, bid\<close>

definition ShowRecordCommand_handle :: "'n client_env \<Rightarrow> string \<Rightarrow> (flow, 'n client) prog" where
  "ShowRecordCommand_handle E args =
     (let parsed_args = words args in
      if length parsed_args \<noteq> 1 then fail_with ''Wrong number of arguments''
      else
        let a_id = parsed_args ! 0 in
        if verify_auction_id a_id = -1 then fail_with ''Incorrect AID.''
        else
          bindP (liftP (convert_auction_id a_id)) (\<lambda>aid.
          bindP (sendUdpMessageAndAwaitReply E (ClientShowRecord_buildMessage \<lparr>src_auction_id = aid\<rparr>)
            (ServerShowRecord_readMessage StreamMessage (no_record Record_ERR))) (\<lambda>r.
          on_answer r (\<lambda>m.
          case rrc_status m of
            Record_OK \<Rightarrow> bindP (print_out (printRecord a_id m)) (\<lambda>_. ret Continue)
          | Record_NOK \<Rightarrow> fail_with ''There aren't any auctions on the system yet.''
          | Record_ERR \<Rightarrow> fail_with ''Wrong format sent.''))))"

text \<open>The size is compared with -1 after its conversion to int.\<close>

definition OpenAuctionCommand_handle :: "'n client_env \<Rightarrow> string \<Rightarrow> (flow, 'n client) prog" where
  "OpenAuctionCommand_handle E args =
     (let parsed_args = words args in
      if length parsed_args \<noteq> 4 then fail_with ''Wrong number of arguments''
      else
        bindP (getC isLoggedIn) (\<lambda>logged.
        if \<not> logged then fail_with ''User not logged in.''
        else
          bindP (getC cl_files) (\<lambda>files.
          let name = parsed_args ! 0; asset_path = parsed_args ! 1;
              start_value = parsed_args ! 2; timeactive = parsed_args ! 3 in
          if verify_name name = -1 then fail_with ''Incorrect auction name.''
          else if verify_asset_fname (\<lambda>p. files p \<noteq> None) asset_path = -1 then fail_with ''Incorrect asset file path/name.''
          else if verify_start_value start_value = -1 then fail_with ''Incorrect start value.''
          else if verify_timeactive timeactive = -1 then fail_with ''Incorrect time active.''
          else
            bindP (getC (\<lambda>s. (cl_user_id s, cl_password s))) (\<lambda>(uid, pw).
            bindP (liftP (convert_auction_value start_value)) (\<lambda>value.
            bindP (liftP (stol timeactive)) (\<lambda>ta.
            let fsize = word_of_int (getFileSize files asset_path) :: 64 word in
            if (ucast fsize :: uint32) = -1 then throw FileException
            else
              bindP (sendTcpMessageAndAwaitReply E (ClientOpenAuction_buildMessage
                \<lparr>opa_user_id = uid, opa_password = pw, opa_name = name, opa_start_value = value,
                 opa_timeactive = u32_of_int ta, opa_assetf_name = base_name asset_path, opa_Fsize = fsize,
                 opa_fdata = readFromFile files asset_path\<rparr>)
                (\<lambda>b. Some (ServerOpenAuction_readMessage TcpMessage \<lparr>roa_status = Open_ERR, roa_auction_id = 0\<rparr> b))) (\<lambda>r.
              on_answer r (\<lambda>m.
              case roa_status m of
                Open_OK \<Rightarrow> bindP (print_out (printOpenAuction m)) (\<lambda>_. ret Continue)
              | Open_NOK \<Rightarrow> fail_with ''Couldn't start auction.''
              | Open_NLG \<Rightarrow> fail_with ''Not logged in.''
              | Open_ERR \<Rightarrow> fail_with ''Wrong format sent.''))))))))"

definition CloseAuctionCommand_handle :: "'n client_env \<Rightarrow> string \<Rightarrow> (flow, 'n client) prog" where
  "CloseAuctionCommand_handle E args =
     (let parsed_args = words args in
      if length parsed_args \<noteq> 1 then fail_with ''Wrong number of arguments''
      else
        bindP (getC isLoggedIn) (\<lambda>logged.
        if \<not> logged then fail_with ''User not Logged In. Please login first.''
        else
          let a_id = parsed_args ! 0 in
          if verify_auction_id a_id = -1 then fail_with ''Incorrect AID.''
          else
            bindP (getC (\<lambda>s. (cl_user_id s, cl_password s))) (\<lambda>(uid, pw).
            bindP (liftP (stoi a_id)) (\<lambda>aid.
            let message_out = \<lparr>cls_user_id = uid, cls_password = pw, cls_auction_id = u32_of_int aid\<rparr> in
            bindP (sendTcpMessageAndAwaitReply E (ClientCloseAuction_buildMessage message_out)
              (\<lambda>b. Some (ServerCloseAuction_readMessage TcpMessage b))) (\<lambda>r.
            on_answer r (\<lambda>status.
            case status of
              Close_OK \<Rightarrow> bindP (print_out (printCloseAuction message_out)) (\<lambda>_. ret Continue)
            | Close_NLG \<Rightarrow> fail_with ''Not logged in.''
            | Close_EAU \<Rightarrow> fail_with ''Auction doesn't exist.''
            | Close_EOW \<Rightarrow> fail_with ''Auction doesn't belong to this user.''
            | Close_END \<Rightarrow> fail_with ''Auction already ended''
            | Close_NOK \<Rightarrow> fail_with ''UID doesn't exist or wrong Password.''
            | Close_ERR \<Rightarrow> fail_with ''Wrong format sent.''))))))"

text \<open>The asset is stored under the name the server sent, in the current directory.\<close>

definition CLIENT_ASSET_DEFAULT_PATH :: string where
  "CLIENT_ASSET_DEFAULT_PATH = []"

definition save_file :: "'n client_env \<Rightarrow> string \<Rightarrow> string \<Rightarrow> string \<Rightarrow> (unit, 'n client) prog" where
  "save_file E file_name path data s =
     (case saveToFile (ce_writable E) file_name path data (cl_files s) of
        Inl e \<Rightarrow> (Throw e, s)
      | Inr files \<Rightarrow> (Ret (), s\<lparr>cl_files := files\<rparr>))"

definition ShowAssetCommand_handle :: "'n client_env \<Rightarrow> string \<Rightarrow> (flow, 'n client) prog" where
  "ShowAssetCommand_handle E args =
     (let parsed_args = words args in
      if length parsed_args \<noteq> 1 then fail_with ''Wrong number of arguments''
      else
        let a_id = parsed_args ! 0 in
        if verify_auction_id a_id = -1 then fail_with ''Incorrect AID.''
        else
          bindP (liftP (stoi a_id)) (\<lambda>aid.
          let message_out = \<lparr>sas_auction_id = u32_of_int aid\<rparr> in
          bindP (sendTcpMessageAndAwaitReply E (ClientShowAsset_buildMessage message_out)
            (\<lambda>b. Some (ServerShowAsset_readMessage TcpMessage (no_asset Asset_ERR) b))) (\<lambda>r.
          on_answer r (\<lambda>m.
          case rsa_status m of
            Asset_OK \<Rightarrow>
              bindP (print_out (printShowAsset (ce_megabytes E) message_out m)) (\<lambda>_.
              bindP (save_file E (rsa_fname m) CLIENT_ASSET_DEFAULT_PATH (rsa_fdata m)) (\<lambda>_. ret Continue))
          | Asset_NOK \<Rightarrow> fail_with ''Auction doesn't exist.''
          | Asset_ERR \<Rightarrow> fail_with ''Wrong format sent.''))))"

definition BidCommand_handle :: "'n client_env \<Rightarrow> string \<Rightarrow> (flow, 'n client) prog" where
  "BidCommand_handle E args =
     (let parsed_args = words args in
      if length parsed_args \<noteq> 2 then fail_with ''Wrong number of arguments''
      else
        bindP (getC isLoggedIn) (\<lambda>logged.
        if \<not> logged then fail_with ''User not Logged In. Please login first.''
        else
          let a_id = parsed_args ! 0 in
          bindP (liftP (stol (parsed_args ! 1))) (\<lambda>v.
          let value = u32_of_int v in
          if verify_auction_id a_id = -1 then fail_with ''Incorrect AID.''
          else if verify_value value = -1 then fail_with ''Incorrect value.''
          else
            bindP (getC (\<lambda>s. (cl_user_id s, cl_password s))) (\<lambda>(uid, pw).
            bindP (liftP (stoi a_id)) (\<lambda>aid.
            let message_out = \<lparr>bid_user_id = uid, bid_password = pw, bid_auction_id = u32_of_int aid,
                               bid_amount = value\<rparr> in
            bindP (sendTcpMessageAndAwaitReply E (ClientBid_buildMessage message_out)
              (\<lambda>b. Some (ServerBid_readMessage TcpMessage b))) (\<lambda>r.
            on_answer r (\<lambda>status.
            case status of
              Bid_NOK \<Rightarrow> fail_with ''Auction isn't active or does not exist.''
            | Bid_NLG \<Rightarrow> fail_with ''User not logged in.''
            | Bid_ACC \<Rightarrow> bindP (print_out (printBid message_out)) (\<lambda>_. ret Continue)
            | Bid_REF \<Rightarrow> fail_with ''A larger bid was already placed.''
            | Bid_ILG \<Rightarrow> fail_with ''A auction host user can't bid on his own auction.''
            | Bid_ERR \<Rightarrow> fail_with ''Wrong format sent.'')))))))"

section \<open>The table of commands\<close>

datatype Command =
    LoginCommand | OpenAuctionCommand | CloseAuctionCommand | ListStartedAuctionsCommand
  | ListBiddedAuctionsCommand | ListAllAuctionsCommand | ShowAssetCommand | BidCommand
  | ShowRecordCommand | LogoutCommand | UnregisterCommand | ExitCommand | HelpCommand

record command_info =
  ci_name :: string
  ci_alias :: "string option"
  ci_usage :: string
  ci_description :: string

fun info_of :: "Command \<Rightarrow> command_info" where
  "info_of LoginCommand = \<lparr>ci_name = ''login'', ci_alias = None,
     ci_usage = ''login <UID> <password>'', ci_description = ''Log In as user UID.''\<rparr>"
| "info_of OpenAuctionCommand = \<lparr>ci_name = ''open'', ci_alias = None,
     ci_usage = ''open <name> <asset_fname> <start_value> <timeactive>'',
     ci_description = ''Open a new auction for the logged in user.''\<rparr>"
| "info_of CloseAuctionCommand = \<lparr>ci_name = ''close'', ci_alias = None,
     ci_usage = ''close <AID>'', ci_description = ''Close ongoing auction.''\<rparr>"
| "info_of ListStartedAuctionsCommand = \<lparr>ci_name = ''myauctions'', ci_alias = Some ''ma'',
     ci_usage = ''myauctions'', ci_description = ''List auctions started by the logged in User''\<rparr>"
| "info_of ListBiddedAuctionsCommand = \<lparr>ci_name = ''mybids'', ci_alias = Some ''mb'',
     ci_usage = ''mybids'', ci_description = ''List auctions in which the logged in User bidded.''\<rparr>"
| "info_of ListAllAuctionsCommand = \<lparr>ci_name = ''list'', ci_alias = Some ''l'',
     ci_usage = ''list'', ci_description = ''List all auctions.''\<rparr>"
| "info_of ShowAssetCommand = \<lparr>ci_name = ''show_asset'', ci_alias = Some ''sa'',
     ci_usage = ''show_asset <AID>'', ci_description = ''Retrieve asset file of an auction.''\<rparr>"
| "info_of BidCommand = \<lparr>ci_name = ''bid'', ci_alias = Some ''b'',
     ci_usage = ''bid <AID> <value>'', ci_description = ''Place a bid on an auction.''\<rparr>"
| "info_of ShowRecordCommand = \<lparr>ci_name = ''show_record'', ci_alias = Some ''sr'',
     ci_usage = ''show_record <AID>'',
     ci_description = ''Show entire record (start info. , bids, end info. ...) of an auction.''\<rparr>"
| "info_of LogoutCommand = \<lparr>ci_name = ''logout'', ci_alias = None,
     ci_usage = ''logout'', ci_description = ''Log Out of a User.''\<rparr>"
| "info_of UnregisterCommand = \<lparr>ci_name = ''unregister'', ci_alias = None,
     ci_usage = ''unregister'', ci_description = ''Unregister and logout of the logged in User.''\<rparr>"
| "info_of ExitCommand = \<lparr>ci_name = ''exit'', ci_alias = None,
     ci_usage = ''exit'', ci_description = ''Exit the application.''\<rparr>"
| "info_of HelpCommand = \<lparr>ci_name = ''help'', ci_alias = None, ci_usage = ''help'',
     ci_description = ''Show information about all registered commands (name,alias,usage,description).''\<rparr>"

text \<open>insert leaves what is there already.\<close>

definition add_handler :: "string \<Rightarrow> Command \<Rightarrow> (string \<rightharpoonup> Command) \<Rightarrow> (string \<rightharpoonup> Command)" where
  "add_handler name handler handlers =
     (case handlers name of None \<Rightarrow> handlers(name \<mapsto> handler) | Some _ \<Rightarrow> handlers)"

definition registerCommand :: "Command \<Rightarrow> (string \<rightharpoonup> Command) \<Rightarrow> (string \<rightharpoonup> Command)" where
  "registerCommand handler handlers =
     (let handlers = add_handler (ci_name (info_of handler)) handler handlers
      in case ci_alias (info_of handler) of
           None \<Rightarrow> handlers
         | Some alias \<Rightarrow> add_handler alias handler handlers)"

definition registerCommands :: "(string \<rightharpoonup> Command) \<Rightarrow> (string \<rightharpoonup> Command)" where
  "registerCommands manager =
     fold registerCommand
       [LoginCommand, OpenAuctionCommand, CloseAuctionCommand, ListStartedAuctionsCommand,
        ListBiddedAuctionsCommand, ListAllAuctionsCommand, ShowAssetCommand, BidCommand,
        ShowRecordCommand, LogoutCommand, UnregisterCommand, ExitCommand, HelpCommand] manager"

definition commandManager :: "string \<rightharpoonup> Command" where
  "commandManager = registerCommands Map.empty"

text \<open>
  The help goes through the table in its own order, which the library leaves open: the names, once
  each, are a field of the environment.
\<close>

definition help_entry :: "Command \<Rightarrow> string" where
  "help_entry handler =
     (let i = info_of handler in
      endl @ tab @ ''Name: '' @ ci_name i @ endl @
      (case ci_alias i of None \<Rightarrow> [] | Some alias \<Rightarrow> tab @ ''Alias: '' @ alias @ endl) @
      tab @ ''Usage: '' @ ci_usage i @ endl @ tab @ ''Description: '' @ ci_description i @ endl)"

fun help_entries :: "(string \<rightharpoonup> Command) \<Rightarrow> string list \<Rightarrow> string" where
  "help_entries manager [] = []"
| "help_entries manager (name # names) =
     (case manager name of None \<Rightarrow> [] | Some handler \<Rightarrow> help_entry handler) @ help_entries manager names"

definition printHelp :: "(string \<rightharpoonup> Command) \<Rightarrow> string list \<Rightarrow> string" where
  "printHelp manager order = ''[HELP] Available commands:'' @ endl @ help_entries manager order"

definition HelpCommand_handle :: "'n client_env \<Rightarrow> string \<Rightarrow> (flow, 'n client) prog" where
  "HelpCommand_handle E args =
     bindP (print_out (printHelp commandManager (ce_help_order E))) (\<lambda>_. ret Continue)"

fun command_handle :: "Command \<Rightarrow> 'n client_env \<Rightarrow> string \<Rightarrow> (flow, 'n client) prog" where
  "command_handle LoginCommand = LoginCommand_handle"
| "command_handle OpenAuctionCommand = OpenAuctionCommand_handle"
| "command_handle CloseAuctionCommand = CloseAuctionCommand_handle"
| "command_handle ListStartedAuctionsCommand = ListStartedAuctionsCommand_handle"
| "command_handle ListBiddedAuctionsCommand = ListBiddedAuctionsCommand_handle"
| "command_handle ListAllAuctionsCommand = ListAllAuctionsCommand_handle"
| "command_handle ShowAssetCommand = ShowAssetCommand_handle"
| "command_handle BidCommand = BidCommand_handle"
| "command_handle ShowRecordCommand = ShowRecordCommand_handle"
| "command_handle LogoutCommand = LogoutCommand_handle"
| "command_handle UnregisterCommand = UnregisterCommand_handle"
| "command_handle ExitCommand = ExitCommand_handle"
| "command_handle HelpCommand = HelpCommand_handle"

section \<open>The loop of the client\<close>

definition prompt :: "'n client \<Rightarrow> string" where
  "prompt s = (if isLoggedIn s then ''['' @ to_string (cl_user_id s) @ ''] > '' else ''> '')"

text \<open>The command's name is what comes before the first space, its arguments what comes after it.\<close>

definition split_line :: "string \<Rightarrow> string \<times> string" where
  "split_line line = (takeWhile (\<lambda>c. c \<noteq> CHR '' '') line, tl (dropWhile (\<lambda>c. c \<noteq> CHR '' '') line))"

text \<open>
  readline returns a null pointer at the end of the input (\<open>None\<close>), and a std::string is made of it.
\<close>

definition waitCommand :: "'n client_env \<Rightarrow> string option \<Rightarrow> (flow, 'n client) prog" where
  "waitCommand E input =
     bindP (getC prompt) (\<lambda>line_base.
     bindP (print_out line_base) (\<lambda>_.
     case input of
       None \<Rightarrow> undef
     | Some line \<Rightarrow>
         (case split_line line of
            (commandName, args) \<Rightarrow>
              if length commandName = 0 then ret Continue
              else (case commandManager commandName of
                      None \<Rightarrow> fail_with (''Unknown Command. Type '' @ [CHR 0x22] @ ''help'' @ [CHR 0x22] @
                        '' for the list of commands available.'')
                    | Some handler \<Rightarrow> command_handle handler E args))))"

text \<open>The body of main's loop: what a command throws is printed.\<close>

definition client_round :: "'n client_env \<Rightarrow> string option \<Rightarrow> (flow, 'n client) prog" where
  "client_round E input =
     try_catch (waitCommand E input)
       (\<lambda>e. fail_with
          (if e = MessageReceiveException then ''Server didn't answer.''
           else if e = MessageSendException then ''Failed to send message.''
           else if e = MessageBuildingException then ''Failed to build message.''
           else if e = InvalidMessageException then ''Invalid message received (Wrong format).''
           else if e = UnexpectedMessageException then ''Invalid message (ERR).''
           else ''Unknown error. '' @ ce_what E e))"

fun client_main :: "'n client_env \<Rightarrow> string option list \<Rightarrow> (unit, 'n client) prog" where
  "client_main E [] = ret ()"
| "client_main E (input # inputs) =
     bindP (client_round E input) (\<lambda>flow. if flow = Exit then ret () else client_main E inputs)"

end
