(* ===== verification/Client_State.thy ===== *)
theory Client_State
  imports Client_Commands
begin

text \<open>
  Who is logged in at the client, through every command: what the commands other than login, logout,
  unregister and exit never touch, and the invariant the four keep. The table of the commands against
  the names the commands declare.
\<close>

section \<open>The login\<close>

text \<open>A property of the user and password the client holds.\<close>

definition login_is :: "(uint32 \<Rightarrow> string \<Rightarrow> bool) \<Rightarrow> 'n client \<Rightarrow> bool" where
  "login_is Q s \<longleftrightarrow> Q (cl_user_id s) (cl_password s)"

lemma login_is_upd [simp]:
  "login_is Q (s\<lparr>cl_out := t\<rparr>) = login_is Q s" "login_is Q (s\<lparr>cl_net := n\<rparr>) = login_is Q s"
  "login_is Q (s\<lparr>cl_files := f\<rparr>) = login_is Q s"
  "login_is Q (s\<lparr>cl_user_id := u, cl_password := p\<rparr>) = Q u p"
  by (simp_all add: login_is_def)

lemma same_login_basic [simp, intro]:
  "preserves (login_is Q) (print_out t)" "preserves (login_is Q) (getC g)"
  "preserves (login_is Q) (read_answer r)" "preserves (login_is Q) (literal_plus l n)"
  "preserves (login_is Q) (save_file E fn path data)"
  by (auto simp: preserves_def print_out_def getC_def read_answer_def literal_plus_def save_file_def liftP_def
      split: option.splits sum.splits)

lemma same_login_exchange [simp, intro]:
  "preserves (login_is Q) (udp_exchange E d r)" "preserves (login_is Q) (tcp_exchange E d r')"
  by (auto simp: preserves_def udp_exchange_def tcp_exchange_def read_answer_def liftP_def
      split: prod.splits udp_reply.splits tcp_reply.splits option.splits sum.splits)

named_theorems login_intros \<open>programs that keep the login\<close>

lemmas login_rules [login_intros] = preserves_bindP preserves_try_catch preserves_if

lemma same_login_udp_tries [simp, intro]: "preserves (login_is Q) (udp_tries n E d r)"
  by (induction n) (auto intro!: login_intros)

lemma same_login_await [simp, intro]:
  "preserves (login_is Q) (sendUdpMessageAndAwaitReply E d r)"
  "preserves (login_is Q) (sendTcpMessageAndAwaitReply E d r')"
  by (auto simp: sendUdpMessageAndAwaitReply_def sendTcpMessageAndAwaitReply_def intro!: login_intros)

lemma same_login_answers [simp, intro]:
  "preserves (login_is Q) (fail_with t)" "preserves (login_is Q) (succeed_with t)"
  "preserves (login_is Q) (list_with t as)" "preserves (login_is Q) (logout_exchange E)"
  by (auto simp: fail_with_def succeed_with_def list_with_def logout_exchange_def intro!: login_intros)

lemma same_login_on_answer [login_intros]:
  "(\<And>m. preserves (login_is Q) (k m)) \<Longrightarrow> preserves (login_is Q) (on_answer r k)"
  by (auto simp: on_answer_def split: option.splits)

lemma same_login_out [login_intros]:
  "Q LOGGED_OUT [] \<Longrightarrow> preserves (login_is Q) client_logout"
  "Q LOGGED_OUT [] \<Longrightarrow> preserves (login_is Q) (logout_status st)"
  by (auto simp: preserves_def client_logout_def logout_status_def succeed_with_def fail_with_def bindP_def print_out_def
      split: ServerLogout_status.splits)

lemma same_login_in [login_intros]: "Q u p \<Longrightarrow> preserves (login_is Q) (client_login u p)"
  by (auto simp: preserves_def client_login_def)

section \<open>The commands\<close>

lemma same_login_lists:
  "preserves (login_is Q) (ListStartedAuctionsCommand_handle E args)"
  "preserves (login_is Q) (ListBiddedAuctionsCommand_handle E args)"
  "preserves (login_is Q) (ListAllAuctionsCommand_handle E args)"
  "preserves (login_is Q) (HelpCommand_handle E args)"
  by (auto simp: ListStartedAuctionsCommand_handle_def ListBiddedAuctionsCommand_handle_def
      ListAllAuctionsCommand_handle_def HelpCommand_handle_def intro!: login_intros
      split: ServerListStartedAuctions_status.splits ServerListBiddedAuctions_status.splits ServerListAllAuctions_status.splits)

lemma same_login_show:
  "preserves (login_is Q) (ShowRecordCommand_handle E args)"
  "preserves (login_is Q) (ShowAssetCommand_handle E args)"
  by (auto simp: ShowRecordCommand_handle_def ShowAssetCommand_handle_def Let_def intro!: login_intros
      split: ServerShowRecord_status.splits ServerShowAsset_status.splits)

lemma same_login_open: "preserves (login_is Q) (OpenAuctionCommand_handle E args)"
  by (auto simp: OpenAuctionCommand_handle_def Let_def intro!: login_intros
      split: prod.splits ServerOpenAuction_status.splits)

lemma same_login_close_bid:
  "preserves (login_is Q) (CloseAuctionCommand_handle E args)"
  "preserves (login_is Q) (BidCommand_handle E args)"
  by (auto simp: CloseAuctionCommand_handle_def BidCommand_handle_def Let_def intro!: login_intros
      split: prod.splits ServerCloseAuction_status.splits ServerBid_status.splits)

lemma login_of_exit:
  assumes "Q LOGGED_OUT []"
  shows "preserves (login_is Q) (LogoutCommand_handle E args)"
    and "preserves (login_is Q) (UnregisterCommand_handle E args)"
    and "preserves (login_is Q) (ExitCommand_handle E args)"
  using assms
  by (auto simp: LogoutCommand_handle_def UnregisterCommand_handle_def ExitCommand_handle_def intro!: login_intros
      split: ServerUnregister_status.splits option.splits)

lemma login_of_login:
  assumes "\<And>u p. 0 < unat u \<Longrightarrow> unat u < 10 ^ 6 \<Longrightarrow> is_password p \<Longrightarrow> Q u p"
  shows "preserves (login_is Q) (LoginCommand_handle E args)"
proof -
  have "Q u p" if "convert_user_id x = Inr u" and "convert_password y = Inr p" for x y u p
    using that assms convert_user_id_bound [OF that(1)] by (simp add: convert_password_eq split: if_splits)
  then show ?thesis
    by (auto simp: LoginCommand_handle_def Let_def intro!: login_intros preserves_liftP_bindP
        split: ServerLoginUser_status.splits)
qed

section \<open>The whole client\<close>

text \<open>Either nobody is logged in, and no password is kept, or a user with an id and a password of the right form is.\<close>

definition login_ok :: "uint32 \<Rightarrow> string \<Rightarrow> bool" where
  "login_ok u p \<longleftrightarrow> u = LOGGED_OUT \<and> p = [] \<or> 0 < unat u \<and> unat u < 10 ^ 6 \<and> is_password p"

lemma command_keeps_login_ok: "preserves (login_is login_ok) (command_handle c E args)"
proof -
  have out: "login_ok LOGGED_OUT []" by (simp add: login_ok_def)
  have "preserves (login_is login_ok) (LoginCommand_handle E args)"
    by (rule login_of_login) (simp add: login_ok_def)
  then show ?thesis
    by (cases c) (simp_all add: same_login_lists same_login_show same_login_open same_login_close_bid login_of_exit [of login_ok, OF out])
qed

lemma round_keeps_login_ok: "preserves (login_is login_ok) (client_round E input)"
  by (auto simp: client_round_def waitCommand_def intro!: login_intros command_keeps_login_ok
      split: option.splits prod.splits)

lemma main_keeps_login_ok: "preserves (login_is login_ok) (client_main E inputs)"
  by (induction inputs) (auto intro!: login_intros round_keeps_login_ok)

text \<open>A command that is none of the four leaves the login alone, whatever the server answers.\<close>

lemma command_same_login:
  assumes "c \<notin> {LoginCommand, LogoutCommand, UnregisterCommand, ExitCommand}"
  shows "preserves (login_is Q) (command_handle c E args)"
  using assms by (cases c) (simp_all add: same_login_lists same_login_show same_login_open same_login_close_bid)

section \<open>The table of the commands\<close>

lemma add_handler_apply [simp]:
  "add_handler n h m k = (if k = n then Some (case m n of None \<Rightarrow> h | Some h' \<Rightarrow> h') else m k)"
  by (simp add: add_handler_def split: option.splits)

lemma command_table:
  "commandManager n = Some c \<longleftrightarrow> ci_name (info_of c) = n \<or> ci_alias (info_of c) = Some n"
  by (cases c) (auto simp: commandManager_def registerCommands_def registerCommand_def Let_def)

end
