(* ===== verification/Client_Server.thy ===== *)
theory Client_Server
  imports Client_State Record_Replies Tcp_Replies
begin

text \<open>
  The client and the server together: the network of the client's environment is the server's state,
  a datagram sent is a round of the server, a connection a child process. What a user sees of a
  command is then what the database says.
\<close>

section \<open>The client's network is the server\<close>

definition server_udp :: "string \<Rightarrow> world \<Rightarrow> udp_reply \<times> world" where
  "server_udp d w =
     (case wait_for_udp_message requestManager (Datagram d) w of
        (Replied (Some r), w') \<Rightarrow> (Udp_answer r, w')
      | (_, w') \<Rightarrow> (Udp_no_answer, w'))"

text \<open>The child closes the connection where it sends nothing.\<close>

definition server_tcp :: "string \<Rightarrow> world \<Rightarrow> tcp_reply \<times> world" where
  "server_tcp d w =
     (case processTCPChild requestManager NUL [d] w of
        (EXIT_SUCCESS (Some r), w') \<Rightarrow> (Tcp_answer [r], w')
      | (_, w') \<Rightarrow> (Tcp_answer [], w'))"

definition connected :: "world client_env \<Rightarrow> bool" where
  "connected E \<longleftrightarrow> ce_udp E = server_udp \<and> ce_tcp E = server_tcp"

definition no_udp_answer :: "string" where
  "no_udp_answer = printError ''Couldn't receive message.''"

lemma udp_answered:
  assumes "connected E" and "wait_for_udp_message requestManager (Datagram d) (cl_net s) = (Replied (Some r), w')"
    and "length r \<le> 6002" and "map_option result (read_in (stream_of r)) = Some (Inr m)"
  shows "sendUdpMessageAndAwaitReply E d read_in s = (Ret (Some m), s\<lparr>cl_net := w'\<rparr>)"
proof -
  obtain x where x: "read_in (stream_of r) = Some x" "result x = Inr m" using assms(4) by auto
  have "udp_exchange E d read_in s = (Ret m, s\<lparr>cl_net := w'\<rparr>)"
    using assms(1-3) x
    by (simp add: udp_exchange_def connected_def server_udp_def read_answer_def UDP_SOCKET_BUFFER_LEN_def)
  then show ?thesis
    by (simp add: sendUdpMessageAndAwaitReply_def UDP_MAX_TRIES_def eval_nat_numeral try_catch_def bindP_def)
qed

lemma udp_unanswered:
  assumes "connected E" and "wait_for_udp_message requestManager (Datagram d) (cl_net s) = (Replied None, w')"
  shows "sendUdpMessageAndAwaitReply E d read_in s = (Ret None, s\<lparr>cl_net := w', cl_out := cl_out s @ no_udp_answer\<rparr>)"
proof -
  have "udp_exchange E d read_in s = (Throw MessageReceiveException, s\<lparr>cl_net := w'\<rparr>)"
    using assms by (simp add: udp_exchange_def connected_def server_udp_def)
  then show ?thesis
    by (simp add: sendUdpMessageAndAwaitReply_def UDP_MAX_TRIES_def eval_nat_numeral try_catch_def bindP_def
        print_out_def no_udp_answer_def)
qed

lemma tcp_answered:
  assumes "connected E" and "processTCPChild requestManager NUL [d] (cl_net s) = (EXIT_SUCCESS (Some r), w')"
    and "map_option result (read_in (TcpMessage_new (ce_uninit E) [r])) = Some (Inr m)"
  shows "sendTcpMessageAndAwaitReply E d read_in s = (Ret (Some m), s\<lparr>cl_net := w'\<rparr>)"
proof -
  obtain x where x: "read_in (TcpMessage_new (ce_uninit E) [r]) = Some x" "result x = Inr m" using assms(3) by auto
  have "tcp_exchange E d read_in s = (Ret m, s\<lparr>cl_net := w'\<rparr>)"
    using assms(1,2) x by (simp add: tcp_exchange_def connected_def server_tcp_def read_answer_def)
  then show ?thesis by (simp add: sendTcpMessageAndAwaitReply_def try_catch_def bindP_def)
qed

section \<open>A line and its command\<close>

text \<open>What the client has printed before the command runs.\<close>

definition prompted :: "'n client \<Rightarrow> 'n client" where
  "prompted s = s\<lparr>cl_out := cl_out s @ prompt s\<rparr>"

lemma prompted_sel [simp]:
  "cl_net (prompted s) = cl_net s" "cl_user_id (prompted s) = cl_user_id s" "cl_password (prompted s) = cl_password s"
  "cl_files (prompted s) = cl_files s" "isLoggedIn (prompted s) = isLoggedIn s"
  by (simp_all add: prompted_def isLoggedIn_def)

lemma round_command:
  assumes "CHR '' '' \<notin> set name" and "name \<noteq> []" and "commandManager name = Some c"
    and "command_handle c E args (prompted s) = (Ret flow, s')" and "line = name @ '' '' @ args"
  shows "client_round E (Some line) s = (Ret flow, s')"
proof -
  have n: "\<forall>c \<in> set name. c \<noteq> CHR '' ''" using assms(1) by auto
  have "split_line line = (name, args)"
    using takeWhile_append_stop [OF n, of "CHR '' ''" args] dropWhile_append_stop [OF n, of "CHR '' ''" args] assms(5)
    by (simp add: split_line_def)
  then show ?thesis
    using assms(2-4)
    by (simp add: client_round_def waitCommand_def bindP_def getC_def print_out_def try_catch_def prompted_def)
qed

lemma command_names:
  "commandManager ''login'' = Some LoginCommand" "commandManager ''show_record'' = Some ShowRecordCommand"
  "commandManager ''bid'' = Some BidCommand" "commandManager ''show_asset'' = Some ShowAssetCommand"
  "commandManager ''open'' = Some OpenAuctionCommand"
  by (simp_all add: command_table)

section \<open>Login\<close>

lemma uid_words:
  assumes "is_uid u" and "is_password pw"
  shows "words (u @ '' '' @ pw) = [u, pw]"
proof -
  have "is_word pw" using assms(2) isalnum_not by (auto simp: is_password_def is_word_def)
  then show ?thesis using uid_word [OF assms(1)] by (simp add: words_step words_last)
qed

definition uid_of :: "string \<Rightarrow> uint32" where
  "uid_of u = word_of_nat (digits_val u)"

lemma uid_of_facts:
  assumes "is_uid u" and "10 ^ 5 \<le> digits_val u"
  shows "unat (uid_of u) = digits_val u" and "wire_uid (uid_of u)" and "to_string (uid_of u) = u"
    and "convert_user_id u = Inr (uid_of u)" and "uid_of u \<noteq> LOGGED_OUT"
proof -
  show v: "unat (uid_of u) = digits_val u"
    using is_uid_bound [OF assms(1)] by (simp add: uid_of_def unat_of_nat_small)
  then show w: "wire_uid (uid_of u)" using assms is_uid_bound by (simp add: wire_uid_def)
  show "to_string (uid_of u) = u" by (rule wire_name [OF assms(1) w]) (simp add: v)
  show "convert_user_id u = Inr (uid_of u)" using assms(1) by (simp add: convert_user_id_eq uid_of_def)
  show "uid_of u \<noteq> LOGGED_OUT" using v assms(2) by (auto simp: LOGGED_OUT_def)
qed

text \<open>The command once its answer is there.\<close>

lemma LoginCommand_answered:
  assumes "is_uid u" and "10 ^ 5 \<le> digits_val u" and "is_password pw" and "\<not> isLoggedIn s"
    and "sendUdpMessageAndAwaitReply E (ClientLoginUser_buildMessage \<lparr>lin_user_id = uid_of u, lin_password = pw\<rparr>)
      (\<lambda>b. Some (ServerLoginUser_readMessage StreamMessage b)) s = (Ret ans, s1)"
  shows "\<exists>s'. LoginCommand_handle E (u @ '' '' @ pw) s = (Ret Continue, s') \<and> cl_net s' = cl_net s1 \<and>
    (if ans \<in> {Some Login_OK, Some Login_REG} then cl_user_id s' = uid_of u \<and> cl_password s' = pw
     else cl_user_id s' = cl_user_id s1 \<and> cl_password s' = cl_password s1)"
  using assms uid_words [OF assms(1,3)] uid_of_facts(4) [OF assms(1,2)]
  by (cases ans)
    (auto simp: LoginCommand_handle_def Let_def bindP_def getC_def convert_password_eq liftP_def on_answer_def client_login_def
      succeed_with_def fail_with_def print_out_def split: ServerLoginUser_status.splits)

lemma login_text_read:
  "map_option result (Some (ServerLoginUser_readMessage StreamMessage (stream_of (''RLI OK'' @ endl)))) = Some (Inr Login_OK)"
  "map_option result (Some (ServerLoginUser_readMessage StreamMessage (stream_of (''RLI NOK'' @ endl)))) = Some (Inr Login_NOK)"
  "map_option result (Some (ServerLoginUser_readMessage StreamMessage (stream_of (''RLI REG'' @ endl)))) = Some (Inr Login_REG)"
  using ServerLoginUser_read_build [of Login_OK] ServerLoginUser_read_build [of Login_NOK]
    ServerLoginUser_read_build [of Login_REG]
  by (simp_all add: ServerLoginUser_buildMessage_def code_defs)

lemma client_login_served:
  assumes "connected E" and "server_inv (cl_net s)" and "sem_ok (cl_net s)" and "\<not> isLoggedIn s"
    and "is_uid u" and "10 ^ 5 \<le> digits_val u" and "is_password pw"
    and "acc = account (wfs (cl_net s)) u"
  shows "\<exists>s'. client_round E (Some (''login '' @ u @ '' '' @ pw)) s = (Ret Continue, s') \<and>
    (if acc_password acc \<in> {None, Some pw}
     then cl_user_id s' = uid_of u \<and> cl_password s' = pw \<and>
       account (wfs (cl_net s')) u = \<lparr>acc_password = Some pw, acc_logged_in = True\<rparr>
     else cl_user_id s' = cl_user_id s \<and> cl_password s' = cl_password s \<and> account (wfs (cl_net s')) u = acc)"
proof -
  let ?m = "\<lparr>lin_user_id = uid_of u, lin_password = pw\<rparr>" and ?w = "cl_net s" and ?s = "prompted s"
  let ?send = "sendUdpMessageAndAwaitReply E (ClientLoginUser_buildMessage ?m)
      (\<lambda>b. Some (ServerLoginUser_readMessage StreamMessage b)) ?s"
  note uid = uid_of_facts [OF assms(5,6)]
  have "good_request (Q_login ?m)" using uid assms(7) by simp
  then obtain f' where r: "wait_for_udp_message requestManager (Datagram (ClientLoginUser_buildMessage ?m)) (cl_net ?s) =
      (login_round (fst (account_login pw acc)), ?w\<lparr>wfs := f'\<rparr>)"
    and f': "account f' u = snd (account_login pw acc)"
    using login_served [OF assms(2,3), of ?m] uid(3) by (auto simp: serves_account_def assms(8))
  have len: "length (''RLI '' @ t @ endl) \<le> 6002" if "length t \<le> 3" for t using that by (simp add: endl_def)
  have "\<exists>ans s1. ?send = (Ret ans, s1) \<and> cl_net s1 = ?w\<lparr>wfs := f'\<rparr> \<and> cl_user_id s1 = cl_user_id s \<and>
      cl_password s1 = cl_password s \<and> (ans \<in> {Some Login_OK, Some Login_REG} \<longleftrightarrow> acc_password acc \<in> {None, Some pw})"
  proof (cases "\<exists>e. fst (account_login pw acc) = Throw e")
    case True
    then have "wait_for_udp_message requestManager (Datagram (ClientLoginUser_buildMessage ?m)) (cl_net ?s) = (Replied None, ?w\<lparr>wfs := f'\<rparr>)"
      and "acc_password acc \<notin> {None, Some pw}"
      using r by (auto simp: login_round_def account_login_def split: option.splits if_splits)
    then show ?thesis using udp_unanswered [OF assms(1)] by fastforce
  next
    case False
    then obtain st where st: "wait_for_udp_message requestManager (Datagram (ClientLoginUser_buildMessage ?m)) (cl_net ?s) =
        (Replied (Some (''RLI '' @ (case st of Login_OK \<Rightarrow> ''OK'' | Login_REG \<Rightarrow> ''REG'' | _ \<Rightarrow> ''NOK'') @ endl)), ?w\<lparr>wfs := f'\<rparr>)"
      and "st \<in> {Login_OK, Login_NOK, Login_REG}" "st \<in> {Login_OK, Login_REG} \<longleftrightarrow> acc_password acc \<in> {None, Some pw}"
      using r that [of Login_OK] that [of Login_NOK] that [of Login_REG]
      by (auto simp: login_round_def account_login_def db_defs split: option.splits if_splits)
    then show ?thesis
      using udp_answered [OF assms(1) st, of "\<lambda>b. Some (ServerLoginUser_readMessage StreamMessage b)" st] login_text_read
      by (auto simp: endl_def)
  qed
  then obtain ans s1 where send: "?send = (Ret ans, s1)" and s1: "cl_net s1 = ?w\<lparr>wfs := f'\<rparr>"
      "cl_user_id s1 = cl_user_id s" "cl_password s1 = cl_password s"
      "ans \<in> {Some Login_OK, Some Login_REG} \<longleftrightarrow> acc_password acc \<in> {None, Some pw}" by blast
  obtain s' where "LoginCommand_handle E (u @ '' '' @ pw) ?s = (Ret Continue, s')" and "cl_net s' = cl_net s1"
    and "if ans \<in> {Some Login_OK, Some Login_REG} then cl_user_id s' = uid_of u \<and> cl_password s' = pw
     else cl_user_id s' = cl_user_id s1 \<and> cl_password s' = cl_password s1"
    using LoginCommand_answered [OF assms(5-7) _ send] assms(4) by auto
  then show ?thesis
    using s1 f' round_command [of "''login''" LoginCommand E "u @ '' '' @ pw" s Continue s'] command_names(1)
    by (auto simp: account_login_def split: option.splits if_splits)
qed

section \<open>Commands over TCP\<close>

lemma one_chunk:
  assumes "r \<noteq> []"
  shows "tcp_valid (TcpMessage_new fb [r])" and "tcp_rest (TcpMessage_new fb [r]) = r" and "delivered [r] = r"
  using assms by (simp_all add: tcp_valid_def tcp_rest_def TcpMessage_new_def delivered_def)

definition aid_of :: "string \<Rightarrow> uint32" where
  "aid_of a = word_of_nat (digits_val a)"

lemma aid_of_facts:
  assumes "is_aid a"
  shows "unat (aid_of a) < 10 ^ 3" and "convert_auction_id_to_str (aid_of a) = a" and "stoi a = Inr (int (digits_val a))"
    and "u32_of_int (int (digits_val a)) = aid_of a" and "verify_auction_id a = 0"
proof -
  have b: "digits_val a < 10 ^ 3" by (rule is_aid_bound [OF assms])
  then have v: "unat (aid_of a) = digits_val a" by (simp add: aid_of_def unat_of_nat_small)
  then show "unat (aid_of a) < 10 ^ 3" using b by simp
  then show "convert_auction_id_to_str (aid_of a) = a"
    using is_aid_digits_val [OF assms] v by (simp add: convert_auction_id_to_str_eq)
  show "stoi a = Inr (int (digits_val a))" by (rule stoi_aid [OF assms])
  show "u32_of_int (int (digits_val a)) = aid_of a" by (simp add: u32_of_int_of_nat aid_of_def)
  show "verify_auction_id a = 0" using assms by simp
qed

lemma aid_word: "is_aid a \<Longrightarrow> is_word a"
  using isdigit_not by (auto simp: is_aid_def is_word_def)

lemma uid_of_str:
  assumes "is_uid u" and "10 ^ 5 \<le> digits_val u"
  shows "convert_user_id_to_str (uid_of u) = u"
  using is_uid_digits_val [OF assms(1)] uid_of_facts(1) [OF assms] is_uid_bound [OF assms(1)]
  by (simp add: convert_user_id_to_str_eq)

text \<open>The client of a user who is logged in at the server with the same password.\<close>

definition logged_in_as :: "string \<Rightarrow> string \<Rightarrow> world client \<Rightarrow> bool" where
  "logged_in_as u pw s \<longleftrightarrow> is_uid u \<and> 10 ^ 5 \<le> digits_val u \<and> is_password pw \<and>
     cl_user_id s = uid_of u \<and> cl_password s = pw"

lemma logged_in_asD:
  assumes "logged_in_as u pw s"
  shows "is_uid u" and "10 ^ 5 \<le> digits_val u" and "is_password pw" and "cl_user_id s = uid_of u" and "cl_password s = pw"
    and "isLoggedIn s" and "wire_uid (uid_of u)" and "convert_user_id_to_str (uid_of u) = u"
  using assms uid_of_facts [of u] uid_of_str [of u] by (auto simp: logged_in_as_def isLoggedIn_def)

section \<open>Bid\<close>

lemma bid_text_read:
  "\<exists>st. map_option result (Some (ServerBid_readMessage TcpMessage (TcpMessage_new fb [''RBD '' @ bid_status r @ endl]))) = Some (Inr st) \<and>
     (st = Bid_ACC \<longleftrightarrow> bid_status r = ''ACC'')"
  if "bid_status r \<in> {''NOK'', ''NLG'', ''REF'', ''ILG'', ''ACC''}"
proof -
  let ?t = "''RBD '' @ bid_status r @ endl"
  have "result (ServerBid_readMessage TcpMessage (TcpMessage_new fb [?t])) = result (ServerBid_readMessage StreamMessage (stream_of ?t))"
    using agrees_result [OF tcp_adapter.ServerBid_agrees [OF one_chunk(1) [of ?t fb]], of "[]"] one_chunk(2) [of ?t fb]
    by (simp add: stream_of_def)
  then show ?thesis
    using that ServerBid_read_build [of Bid_NOK] ServerBid_read_build [of Bid_NLG] ServerBid_read_build [of Bid_REF]
      ServerBid_read_build [of Bid_ILG] ServerBid_read_build [of Bid_ACC]
    by (auto simp: ServerBid_buildMessage_def code_defs)
qed

lemma bid_statuses:
  "bid_status (bid_result f u pw a v t) \<in> {''NOK'', ''NLG'', ''REF'', ''ILG'', ''ACC''}"
  "bid_status (bid_result f u pw a v t) = ''ACC'' \<longleftrightarrow> bid_result f u pw a v t = Ret DB_BID_ACCEPT"
  by (auto simp: bid_status_def bid_result_def db_defs)

definition bid_shown :: "ClientBid \<Rightarrow> ServerBid_status \<Rightarrow> string" where
  "bid_shown m st =
     (case st of
        Bid_NOK \<Rightarrow> printError ''Auction isn't active or does not exist.''
      | Bid_NLG \<Rightarrow> printError ''User not logged in.''
      | Bid_ACC \<Rightarrow> printBid m
      | Bid_REF \<Rightarrow> printError ''A larger bid was already placed.''
      | Bid_ILG \<Rightarrow> printError ''A auction host user can't bid on his own auction.''
      | Bid_ERR \<Rightarrow> printError ''Wrong format sent.'')"

lemma BidCommand_answered:
  assumes "logged_in_as u pw s" and "is_aid a" and "v \<noteq> 0"
    and m: "m = \<lparr>bid_user_id = uid_of u, bid_password = pw, bid_auction_id = aid_of a, bid_amount = v\<rparr>"
    and send: "sendTcpMessageAndAwaitReply E (ClientBid_buildMessage m) (\<lambda>b. Some (ServerBid_readMessage TcpMessage b)) s =
      (Ret (Some st), s1)"
  shows "BidCommand_handle E (a @ '' '' @ to_string v) s = (Ret Continue, s1\<lparr>cl_out := cl_out s1 @ bid_shown m st\<rparr>)"
proof -
  have w: "words (a @ '' '' @ to_string v) = [a, to_string v]"
    using aid_word [OF assms(2)] by (simp add: words_step words_last)
  note l = logged_in_asD [OF assms(1)]
  note a = aid_of_facts [OF assms(2)]
  have "BidCommand_handle E (a @ '' '' @ to_string v) s =
      bindP (sendTcpMessageAndAwaitReply E (ClientBid_buildMessage m) (\<lambda>b. Some (ServerBid_readMessage TcpMessage b)))
        (\<lambda>r. on_answer r (\<lambda>status.
            case status of
              Bid_NOK \<Rightarrow> fail_with ''Auction isn't active or does not exist.''
            | Bid_NLG \<Rightarrow> fail_with ''User not logged in.''
            | Bid_ACC \<Rightarrow> bindP (print_out (printBid m)) (\<lambda>_. ret Continue)
            | Bid_REF \<Rightarrow> fail_with ''A larger bid was already placed.''
            | Bid_ILG \<Rightarrow> fail_with ''A auction host user can't bid on his own auction.''
            | Bid_ERR \<Rightarrow> fail_with ''Wrong format sent.'')) s"
    unfolding BidCommand_handle_def Let_def w m
    using l a assms(2,3) by (simp add: bindP_def [of "getC _"] bindP_def [of "liftP _"] getC_def del: verify_auction_id_eq)
  also have "\<dots> = (Ret Continue, s1\<lparr>cl_out := cl_out s1 @ bid_shown m st\<rparr>)"
    by (rule trans [OF bindP_run(1)], rule send)
      (cases st; simp add: on_answer_def fail_with_def bid_shown_def bindP_def print_out_def)
  finally show ?thesis .
qed

lemma client_bid_served:
  assumes "connected E" and "server_inv (cl_net s)" and "sem_ok (cl_net s)" and "logged_in_as u pw s"
    and "is_aid a" and "v \<noteq> 0" and "unat v < 10 ^ 6"
    and "r = bid_result (wfs (cl_net s)) u pw a v (wclock (cl_net s) (wcalls (cl_net s)))"
    and "m = \<lparr>bid_user_id = uid_of u, bid_password = pw, bid_auction_id = aid_of a, bid_amount = v\<rparr>"
  shows "\<exists>s' e. client_round E (Some (''bid '' @ a @ '' '' @ to_string v)) s = (Ret Continue, s') \<and>
    cl_out s' = cl_out s @ prompt s @ (if r = Ret DB_BID_ACCEPT then printBid m else printError e) \<and>
    bids (wfs (cl_net s')) a = (if r = Ret DB_BID_ACCEPT then insert v (bids (wfs (cl_net s)) a) else bids (wfs (cl_net s)) a)"
proof -
  let ?s = "prompted s"
  note l = logged_in_asD [OF assms(4)]
  note a = aid_of_facts [OF assms(5)]
  have fields: "bid_user_id m = uid_of u" "bid_password m = pw" "bid_auction_id m = aid_of a" "bid_amount m = v"
    by (simp_all add: assms(9))
  have good: "good_tcp (T_bid m)"
    using logged_in_asD(3,7) [OF assms(4)] a(1) assms(6,7) by (simp add: fields unat_gt_0)
  have bytes: "delivered [ClientBid_buildMessage m] = tcp_bytes (T_bid m)"
    using tcp_request_length [of "T_bid m"] by (intro one_chunk(3) [THEN trans]) auto
  have served: "\<exists>w'. processTCPChild requestManager NUL [ClientBid_buildMessage m] (cl_net s) =
      (EXIT_SUCCESS (Some (''RBD '' @ bid_status r @ endl)), w') \<and>
      bids (wfs w') a = (if r = Ret DB_BID_ACCEPT then insert (bid_amount m) (bids (wfs (cl_net s)) a) else bids (wfs (cl_net s)) a)"
    by (rule bid_served [OF assms(2,3) good bytes]) (simp_all only: fields l(8) a(2) assms(8))
  then obtain w' where served: "processTCPChild requestManager NUL [ClientBid_buildMessage m] (cl_net s) =
      (EXIT_SUCCESS (Some (''RBD '' @ bid_status r @ endl)), w')"
    and b: "bids (wfs w') a = (if r = Ret DB_BID_ACCEPT then insert v (bids (wfs (cl_net s)) a) else bids (wfs (cl_net s)) a)"
    unfolding fields by (elim exE conjE) rule
  obtain st where st: "map_option result (Some (ServerBid_readMessage TcpMessage
      (TcpMessage_new (ce_uninit E) [''RBD '' @ bid_status r @ endl]))) = Some (Inr st)"
    and acc: "st = Bid_ACC \<longleftrightarrow> r = Ret DB_BID_ACCEPT"
    using bid_text_read [of r "ce_uninit E"] bid_statuses [of "wfs (cl_net s)" u pw a v] assms(8) by blast
  have send: "sendTcpMessageAndAwaitReply E (ClientBid_buildMessage m) (\<lambda>b. Some (ServerBid_readMessage TcpMessage b)) ?s =
      (Ret (Some st), ?s\<lparr>cl_net := w'\<rparr>)"
    by (rule tcp_answered [where r = "''RBD '' @ bid_status r @ endl"]) (fact assms(1), simp add: served, fact st)
  have ls: "logged_in_as u pw ?s" using assms(4) by (simp add: logged_in_as_def)
  have run: "BidCommand_handle E (a @ '' '' @ to_string v) ?s =
      (Ret Continue, ?s\<lparr>cl_net := w', cl_out := cl_out ?s @ bid_shown m st\<rparr>)"
    using BidCommand_answered [OF ls assms(5,6,9) send] by simp
  have "\<exists>e. bid_shown m st = (if r = Ret DB_BID_ACCEPT then printBid m else printError e)"
    using acc by (cases st) (auto simp: bid_shown_def)
  then obtain e where shown: "bid_shown m st = (if r = Ret DB_BID_ACCEPT then printBid m else printError e)" ..
  have round: "client_round E (Some (''bid '' @ a @ '' '' @ to_string v)) s =
      (Ret Continue, ?s\<lparr>cl_net := w', cl_out := cl_out ?s @ bid_shown m st\<rparr>)"
    by (rule round_command [where name = "''bid''" and c = BidCommand and args = "a @ '' '' @ to_string v"])
      (simp_all only: command_names command_handle.simps run, simp_all)
  show ?thesis
    by (intro exI conjI, rule round) (simp_all add: shown b prompted_def)
qed

end
