(* ===== verification/Client_Theorems.thy ===== *)
theory Client_Theorems
  imports Client_Server Example_Store Server_Theorems
begin

text \<open>
  The properties of the client: what a user sees of a command when the client's network is the server,
  from the line typed to the state of both programs, and what the client knows of its user.
\<close>

section \<open>A user at the client, the server behind\<close>

text \<open>A client connected to the server of the examples.\<close>

definition example_env :: "world client_env" where
  "example_env = \<lparr>ce_udp = server_udp, ce_tcp = server_tcp, ce_uninit = NUL, ce_writable = (\<lambda>_. True),
     ce_megabytes = (\<lambda>_. []), ce_what = (\<lambda>_. []), ce_help_order = []\<rparr>"

definition example_client :: "uint32 \<Rightarrow> string \<Rightarrow> world \<Rightarrow> world client" where
  "example_client u pw w = \<lparr>cl_user_id = u, cl_password = pw, cl_files = Map.empty, cl_out = [], cl_net = w\<rparr>"

lemma example_connected [simp]: "connected example_env"
  by (simp add: connected_def example_env_def)

lemma example_client_sel [simp]:
  "cl_user_id (example_client u pw w) = u" "cl_password (example_client u pw w) = pw"
  "cl_out (example_client u pw w) = []" "cl_net (example_client u pw w) = w"
  "isLoggedIn (example_client u pw w) = (u \<noteq> LOGGED_OUT)"
  by (simp_all add: example_client_def isLoggedIn_def)

text \<open>C9: Typing login with an id of six digits that does not begin with 0 and a password of eight letters or digits, at a
  client where nobody is logged in, logs the user in at both ends, or at neither: with the password the store has, or as
  a new user, the client holds the id and the password and the store has the user logged in; with another password the
  login of the client and the account in the store stay what they were. This is so while the network delivers: the
  datagram reaches the server once, its answer comes back before the client stops waiting, the store is well-formed
  and the semaphore free. An answer that comes late can log a user in who was
  refused.\<close>

theorem client_login_both_ends:
  assumes "connected E" and "server_inv (cl_net s)" and "sem_ok (cl_net s)" and "\<not> isLoggedIn s"
    and "is_uid u" and "10 ^ 5 \<le> digits_val u" and "is_password pw" and "acc = account (wfs (cl_net s)) u"
  shows "\<exists>s'. client_round E (Some (''login '' @ u @ '' '' @ pw)) s = (Ret Continue, s') \<and>
    (if acc_password acc \<in> {None, Some pw}
     then cl_user_id s' = uid_of u \<and> cl_password s' = pw \<and>
       account (wfs (cl_net s')) u = \<lparr>acc_password = Some pw, acc_logged_in = True\<rparr>
     else cl_user_id s' = cl_user_id s \<and> cl_password s' = cl_password s \<and> account (wfs (cl_net s')) u = acc)"
  by (rule client_login_served [OF assms])

lemma client_login_both_ends_example:
  "\<exists>s'. client_round example_env (Some (''login '' @ alice @ '' '' @ bob_pw))
     (example_client LOGGED_OUT [] (example_world example_users 1 1000)) = (Ret Continue, s') \<and> cl_user_id s' = LOGGED_OUT"
proof -
  have "10 ^ 5 \<le> digits_val alice" by (simp add: alice_def digits_val_def digit_val_def)
  moreover have "bob_pw \<noteq> alice_pw" by (simp add: alice_pw_def bob_pw_def)
  ultimately show ?thesis
    using client_login_both_ends [of example_env "example_client LOGGED_OUT [] (example_world example_users 1 1000)" alice bob_pw,
        OF _ _ _ _ _ _ _ refl]
    by (auto simp: example_inv example_users_facts)
qed

text \<open>C8: Typing bid with an auction id of three digits and a value from 1 to 999999, as a user who is logged in at the client
  with an id that does not begin with 0, prints that the bid is placed exactly when the server's store has it: when it is
  accepted the value is added to the bids of the auction, and otherwise an error is printed and the bids stay what they
  were. This is so while the network delivers: the connection carries the whole request to the server and the whole
  answer back, the store is well-formed and the semaphore free. Where the answer is lost the bid can be placed without
  a word of it at the client.\<close>

theorem client_bid_both_ends:
  assumes "connected E" and "server_inv (cl_net s)" and "sem_ok (cl_net s)" and "logged_in_as u pw s"
    and "is_aid a" and "v \<noteq> 0" and "unat v < 10 ^ 6"
    and "r = bid_result (wfs (cl_net s)) u pw a v (wclock (cl_net s) (wcalls (cl_net s)))"
    and "m = \<lparr>bid_user_id = uid_of u, bid_password = pw, bid_auction_id = aid_of a, bid_amount = v\<rparr>"
  shows "\<exists>s' e. client_round E (Some (''bid '' @ a @ '' '' @ to_string v)) s = (Ret Continue, s') \<and>
    cl_out s' = cl_out s @ prompt s @ (if r = Ret DB_BID_ACCEPT then printBid m else printError e) \<and>
    bids (wfs (cl_net s')) a = (if r = Ret DB_BID_ACCEPT then insert v (bids (wfs (cl_net s)) a) else bids (wfs (cl_net s)) a)"
  by (rule client_bid_served [OF assms])

lemma client_bid_both_ends_example:
  "\<exists>s' e. client_round example_env (Some (''bid 001 '' @ to_string 150))
     (example_client (uid_of alice) alice_pw (example_world example_store 1 1100)) = (Ret Continue, s') \<and>
     bids (wfs (cl_net s')) ''001'' = {}"
proof -
  have v: "10 ^ 5 \<le> digits_val alice" by (simp add: alice_def digits_val_def digit_val_def)
  let ?s = "example_client (uid_of alice) alice_pw (example_world example_store 1 1100)"
  have l: "logged_in_as alice alice_pw ?s" using v by (simp add: logged_in_as_def)
  have r: "bid_result example_store alice alice_pw ''001'' 150 1100 = Throw BidOnSelf"
    by (simp add: bid_result_def example_store_facts example_users_facts example_lists)
  from client_bid_both_ends [of example_env ?s alice alice_pw "''001''" 150, OF _ _ _ l _ _ _ refl refl] r
  show ?thesis by (auto simp: example_inv example_store_inv example_lists)
qed

section \<open>What the client knows of its user\<close>

text \<open>C31: Through any session the client either holds no user and no password, or a user id and a password of the form
  the protocol asks for, whatever is typed and whatever the network answers; and a command other than login, logout,
  unregister and exit changes neither.\<close>

theorem client_login_invariant:
  assumes "login_ok (cl_user_id s) (cl_password s)"
    and "c \<notin> {LoginCommand, LogoutCommand, UnregisterCommand, ExitCommand}"
    and "s1 = snd (client_main E inputs s)" and "s2 = snd (command_handle c E args s)"
  shows "login_ok (cl_user_id s1) (cl_password s1) \<and> cl_user_id s2 = cl_user_id s \<and> cl_password s2 = cl_password s"
  using preservesD [OF main_keeps_login_ok, of s E inputs]
    preservesD [OF command_same_login [OF assms(2), of "\<lambda>u p. u = cl_user_id s \<and> p = cl_password s" E args], of s] assms(1)
  by (simp add: assms(3,4) login_is_def)

lemma client_login_invariant_example:
  "login_ok (cl_user_id (snd (client_main example_env [Some ''login'', Some ''logout'', None]
     (example_client LOGGED_OUT [] (example_world example_users 1 1000))))) (cl_password (snd (client_main example_env
     [Some ''login'', Some ''logout'', None] (example_client LOGGED_OUT [] (example_world example_users 1 1000)))))"
  using client_login_invariant [of "example_client LOGGED_OUT [] (example_world example_users 1 1000)" HelpCommand,
      OF _ _ refl refl, of example_env "[Some ''login'', Some ''logout'', None]"]
  by (simp add: login_ok_def del: client_main.simps)

end
