(* ===== verification/Client_Retry.thy ===== *)
theory Client_Retry
  imports Client_State
begin

text \<open>
  How often a request over UDP is sent: the loop of sendUdpMessageAndAwaitReply tries again only after a
  ConnectionTimeoutException, which neither the sockets nor the reading of an answer ever throws.
\<close>

section \<open>Readers that never throw a timeout\<close>

definition no_timeout :: "('a, 'b) read_result \<Rightarrow> bool" where
  "no_timeout r \<longleftrightarrow> r \<noteq> Inl ConnectionTimeoutException"

definition no_timeoutO :: "('a, 'b) read_result option \<Rightarrow> bool" where
  "no_timeoutO r \<longleftrightarrow> (case r of None \<Rightarrow> True | Some r \<Rightarrow> no_timeout r)"

named_theorems timeout_intros \<open>readers that never throw a timeout\<close>

lemma no_timeout_basic [simp, intro!]:
  "no_timeout (Inr x)" "e \<noteq> ConnectionTimeoutException \<Longrightarrow> no_timeout (Inl e)" "no_timeoutO (Some r) = no_timeout r"
  "no_timeoutO None" "no_timeout (ma_get StreamMessage b)" "no_timeout (stream_get b)"
  by (simp_all add: no_timeout_def no_timeoutO_def StreamMessage_def stream_get_def split: list.split)

lemma no_timeout_bindR [timeout_intros]:
  "no_timeout m \<Longrightarrow> (\<And>x b. no_timeout (f x b)) \<Longrightarrow> no_timeout (bindR m f)"
  by (auto simp: no_timeout_def bindR_def split: sum.splits prod.splits)

lemma no_timeout_bindO [timeout_intros]:
  assumes "no_timeoutO m" and "\<And>x b. no_timeoutO (f x b)"
  shows "no_timeoutO (bindO m f)"
proof (cases m)
  case (Some r)
  then show ?thesis
    using assms by (cases r) (auto simp: no_timeout_def)
qed (simp add: bindO_def)

lemma no_timeout_if [timeout_intros]:
  "(c \<Longrightarrow> no_timeout r) \<Longrightarrow> (\<not> c \<Longrightarrow> no_timeout r') \<Longrightarrow> no_timeout (if c then r else r')"
  "(c \<Longrightarrow> no_timeoutO q) \<Longrightarrow> (\<not> c \<Longrightarrow> no_timeoutO q') \<Longrightarrow> no_timeoutO (if c then q else q')"
  by simp_all

lemma no_timeout_liftR: "m \<noteq> Inl ConnectionTimeoutException \<Longrightarrow> no_timeout (liftR m b)"
  by (cases m) (auto simp: no_timeout_def)

lemma no_timeout_stream [timeout_intros]:
  "no_timeout (readChar StreamMessage b)" "no_timeout (readChar_c StreamMessage c b)"
  "no_timeout (readCharEqual StreamMessage c b)" "no_timeout (readSpace StreamMessage b)"
  "no_timeout (readDelimiter StreamMessage b)" "no_timeout (checkIfOver StreamMessage b)"
proof -
  show c [timeout_intros]: "no_timeout (readChar StreamMessage b)" for b
    unfolding readChar_def by (intro timeout_intros no_timeout_basic) simp
  show "no_timeout (readCharEqual StreamMessage c b)" "no_timeout (checkIfOver StreamMessage b)"
    unfolding readCharEqual_def checkIfOver_def by (intro timeout_intros no_timeout_basic)+
  show d: "no_timeout (readChar_c StreamMessage c b)" for c b
    unfolding readChar_c_def by (intro timeout_intros no_timeout_basic) simp
  show "no_timeout (readSpace StreamMessage b)" "no_timeout (readDelimiter StreamMessage b)"
    unfolding readSpace_def readDelimiter_def by (rule d)+
qed

lemma no_timeout_code [timeout_intros]: "no_timeout (readMessageId StreamMessage code b)"
  by (induction code arbitrary: b) (auto intro!: timeout_intros)

lemma no_timeout_string [timeout_intros]: "no_timeout (readString StreamMessage n b)"
  by (induction n arbitrary: b) (auto intro!: timeout_intros)

lemma no_timeout_number [timeout_intros]:
  "no_timeout (readNumber StreamMessage n b)" "no_timeout (readUserId StreamMessage b)"
  "no_timeout (readAuctionValue StreamMessage b)"
proof -
  have "convert_user_id x \<noteq> Inl ConnectionTimeoutException" "convert_auction_value x \<noteq> Inl ConnectionTimeoutException"
    "bindE (stol x) (\<lambda>v. Inr (u32_of_int v)) \<noteq> Inl ConnectionTimeoutException" for x
    by (auto simp: convert_user_id_def convert_auction_value_def stoi_def stol_def bindE_def strtol_def Let_def
        split: sum.splits option.splits if_splits)
  then show "no_timeout (readNumber StreamMessage n b)" "no_timeout (readUserId StreamMessage b)"
    "no_timeout (readAuctionValue StreamMessage b)"
    unfolding readNumber_def readUserId_def readAuctionValue_def by (intro timeout_intros no_timeout_liftR; blast)+
qed

lemma no_timeout_date [timeout_intros]: "no_timeout (readDate StreamMessage b)"
  unfolding readDate_def by (intro timeout_intros no_timeout_basic)

lemma no_timeout_entry [timeout_intros]:
  "no_timeout (readAuctionAndState StreamMessage b)" "no_timeout (readBid StreamMessage b)"
  unfolding readAuctionAndState_def readBid_def Let_def by (intro timeout_intros no_timeout_basic)+

text \<open>The two loops of the readers, by induction on a run that returns.\<close>

lemma no_timeout_auctions [timeout_intros]: "no_timeoutO (readAuctions StreamMessage auctions b)"
proof -
  have "no_timeout r" if ret: "readAuctions StreamMessage auctions b = Some r" for r
  proof -
    have "StreamMessage = StreamMessage \<longrightarrow> no_timeout r"
    proof (rule readAuctions.raw_induct [where P = "\<lambda>A auctions b r. A = StreamMessage \<longrightarrow> no_timeout r", OF _ ret])
      fix f and A :: "stream MessageAdapter" and auctions b r
      assume IH: "\<And>A auctions b r. f A auctions b = Some r \<Longrightarrow> A = StreamMessage \<longrightarrow> no_timeout r"
        and eq: "bindO (Some (readAuctionAndState A b))
          (\<lambda>auc b. if 0 < length auc then f A (auctions @ [auc]) b else Some (Inr (auctions, b))) = Some r"
      have "no_timeoutO (f StreamMessage x y)" for x y
        using IH [of StreamMessage x y] by (cases "f StreamMessage x y") auto
      then have "no_timeoutO (bindO (Some (readAuctionAndState StreamMessage b))
          (\<lambda>auc b. if 0 < length auc then f StreamMessage (auctions @ [auc]) b else Some (Inr (auctions, b))))"
        by (intro timeout_intros no_timeout_basic(3) [THEN iffD2] no_timeout_basic(1))
      then show "A = StreamMessage \<longrightarrow> no_timeout r" using eq by auto
    qed
    then show ?thesis by simp
  qed
  then show ?thesis by (cases "readAuctions StreamMessage auctions b") simp_all
qed

lemma no_timeout_bids [timeout_intros]: "no_timeoutO (readBids StreamMessage bids b)"
proof -
  have "no_timeout r" if ret: "readBids StreamMessage bids b = Some r" for r
  proof -
    have "StreamMessage = StreamMessage \<longrightarrow> no_timeout r"
    proof (rule readBids.raw_induct [where P = "\<lambda>A bids b r. A = StreamMessage \<longrightarrow> no_timeout r", OF _ ret])
      fix f and A :: "stream MessageAdapter" and bids b r
      let ?step = "\<lambda>A :: stream MessageAdapter. bindO (Some (readCharEqual A (CHR ''B'') b)) (\<lambda>more b.
          if \<not> more then Some (Inr (bids, b))
          else bindO (Some (readBid A b)) (\<lambda>bid b.
            bindO (Some (readCharEqual A (CHR '' '') b)) (\<lambda>skip b.
              if \<not> skip then Some (Inr (bids @ [bid], b)) else f A (bids @ [bid]) b)))"
      assume IH: "\<And>(A :: stream MessageAdapter) bids b r. f A bids b = Some r \<Longrightarrow> A = StreamMessage \<longrightarrow> no_timeout r"
        and eq: "?step A = Some r"
      have "no_timeoutO (f StreamMessage x y)" for x y
        using IH [of StreamMessage x y] by (cases "f StreamMessage x y") auto
      then have "no_timeoutO (?step StreamMessage)"
        by (intro timeout_intros no_timeout_basic(3) [THEN iffD2] no_timeout_basic(1))
      then show "A = StreamMessage \<longrightarrow> no_timeout r" using eq by auto
    qed
    then show ?thesis by simp
  qed
  then show ?thesis by (cases "readBids StreamMessage bids b") simp_all
qed

lemma no_timeout_record [timeout_intros]:
  "no_timeout (readRecordHead StreamMessage m b)" "no_timeout (readRecordEnd StreamMessage m b)"
  unfolding readRecordHead_def readRecordEnd_def by (intro timeout_intros no_timeout_basic)+

section \<open>The answers\<close>

lemmas timeout_rules = timeout_intros no_timeout_liftR no_timeout_basic(1,2) no_timeout_basic(3) [THEN iffD2]

lemma answers_no_timeout:
  "no_timeout (ServerLoginUser_readMessage StreamMessage b)" "no_timeout (ServerLogout_readMessage StreamMessage b)"
  "no_timeout (ServerUnregister_readMessage StreamMessage b)"
  unfolding ServerLoginUser_readMessage_def ServerLogout_readMessage_def ServerUnregister_readMessage_def
  by (intro timeout_rules; simp)+

lemma lists_no_timeout:
  "no_timeoutO (ServerListStartedAuctions_readMessage StreamMessage m1 b)"
  "no_timeoutO (ServerListBiddedAuctions_readMessage StreamMessage m2 b)"
  "no_timeoutO (ServerListAllAuctions_readMessage StreamMessage m3 b)"
  "no_timeoutO (ServerShowRecord_readMessage StreamMessage m4 b)"
  unfolding ServerListStartedAuctions_readMessage_def ServerListBiddedAuctions_readMessage_def
    ServerListAllAuctions_readMessage_def ServerShowRecord_readMessage_def
  by (intro timeout_rules; simp)+

section \<open>One exchange\<close>

lemma print_out_net [simp]: "cl_net (snd (print_out t s)) = cl_net s"
  by (simp add: print_out_def)

lemma await_once:
  assumes "\<And>b. no_timeoutO (read_in b)"
  shows "cl_net (snd (sendUdpMessageAndAwaitReply E d read_in s)) = snd (ce_udp E d (cl_net s))"
proof -
  obtain out s' where x: "udp_exchange E d read_in s = (out, s')" by fastforce
  have net: "cl_net s' = snd (ce_udp E d (cl_net s))"
    using x by (auto simp: udp_exchange_def read_answer_def liftP_def split: prod.splits udp_reply.splits option.splits sum.splits)
  have "out \<noteq> Throw ConnectionTimeoutException"
  proof
    assume out: "out = Throw ConnectionTimeoutException"
    then obtain y r where "read_in y = Some r" "result r = Inl ConnectionTimeoutException"
      using x by (auto simp: udp_exchange_def read_answer_def liftP_def
          split: prod.splits udp_reply.splits option.splits sum.splits)
    then show False using assms [of y] by (auto simp: no_timeout_def result_def split: sum.splits prod.splits)
  qed
  then show ?thesis
    using x net by (cases out)
      (auto simp: sendUdpMessageAndAwaitReply_def UDP_MAX_TRIES_def eval_nat_numeral try_catch_def bindP_def print_out_def)
qed

text \<open>C33: A request over UDP is sent exactly once, whatever comes back, and also when nothing comes back: the five
  tries are never used, since no step of the exchange throws the exception that the loop retries on.\<close>

theorem udp_request_sent_once:
  "cl_net (snd (sendUdpMessageAndAwaitReply E d (\<lambda>b. Some (ServerLoginUser_readMessage StreamMessage b)) s)) =
     snd (ce_udp E d (cl_net s)) \<and>
   cl_net (snd (sendUdpMessageAndAwaitReply E d (\<lambda>b. Some (ServerLogout_readMessage StreamMessage b)) s)) =
     snd (ce_udp E d (cl_net s)) \<and>
   cl_net (snd (sendUdpMessageAndAwaitReply E d (\<lambda>b. Some (ServerUnregister_readMessage StreamMessage b)) s)) =
     snd (ce_udp E d (cl_net s)) \<and>
   cl_net (snd (sendUdpMessageAndAwaitReply E d (ServerListStartedAuctions_readMessage StreamMessage m1) s)) =
     snd (ce_udp E d (cl_net s)) \<and>
   cl_net (snd (sendUdpMessageAndAwaitReply E d (ServerListBiddedAuctions_readMessage StreamMessage m2) s)) =
     snd (ce_udp E d (cl_net s)) \<and>
   cl_net (snd (sendUdpMessageAndAwaitReply E d (ServerListAllAuctions_readMessage StreamMessage m3) s)) =
     snd (ce_udp E d (cl_net s)) \<and>
   cl_net (snd (sendUdpMessageAndAwaitReply E d (ServerShowRecord_readMessage StreamMessage m4) s)) =
     snd (ce_udp E d (cl_net s))"
  by (intro conjI await_once) (simp_all add: answers_no_timeout lists_no_timeout)

end
