(* ===== verification/Server_Output.thy ===== *)
theory Server_Output
  imports Messages_Server
begin

text \<open>
  server/output.cpp and the verbose part of send_udp_message and send_tcp_message: what the server
  prints, as the text that goes to std::cout. An address is the text inet_ntop gives for it and its
  port; the one float, the size of an asset in megabytes, is rendered by a function that is a parameter.
\<close>

section \<open>Basic prints\<close>

definition tabulator :: string where
  "tabulator = [CHR 0x09]"

definition newline :: string where
  "newline = [CHR 0x0A]"

definition server_printError :: "string \<Rightarrow> string" where
  "server_printError message = ''[ERROR] '' @ message @ endl"

text \<open>The loop that puts one tabulator before the text for every level.\<close>

fun info_prefix :: "nat \<Rightarrow> string" where
  "info_prefix 0 = []"
| "info_prefix (Suc tab_level) = info_prefix tab_level @ tabulator"

definition printInfo :: "string \<Rightarrow> nat \<Rightarrow> string" where
  "printInfo message tab_level = info_prefix tab_level @ ''[INFO] '' @ message @ endl"

definition printRequest :: "string \<Rightarrow> string" where
  "printRequest message = ''[REQUEST] '' @ message @ endl"

section \<open>Censoring\<close>

text \<open>The loop of hidePassword, over the rounds left.\<close>

fun hide_loop :: "nat \<Rightarrow> string \<Rightarrow> string" where
  "hide_loop 0 hidden_password = hidden_password"
| "hide_loop (Suc n) hidden_password = hide_loop n (hidden_password @ ''*'')"

definition hidePassword :: "string \<Rightarrow> string" where
  "hidePassword password = hide_loop (length password) []"

section \<open>Verbose mode\<close>

record printed_address =
  addr_text :: string
  addr_port :: "16 word"

definition printAddressIncomingRequest :: "printed_address \<Rightarrow> string" where
  "printAddressIncomingRequest addr_from =
     printInfo (''Receiving incoming UDP request from '' @ addr_text addr_from @ '':'' @
       nat_str (unat (addr_port addr_from)) @ newline) 0"

text \<open>The head of every message: the request's name and the id of its user.\<close>

definition incoming :: "string \<Rightarrow> string \<Rightarrow> string" where
  "incoming name args = tabulator @ ''Incoming '' @ [CHR 0x27] @ name @ [CHR 0x27] @ '':'' @ newline @ args"

definition argument :: "string \<Rightarrow> string \<Rightarrow> string" where
  "argument name val = tabulator @ ''<- '' @ name @ '': '' @ val"

definition printInLoginRequest :: "ClientLoginUser \<Rightarrow> string" where
  "printInLoginRequest request =
     printInfo (incoming ''LOGIN''
       (argument ''User ID'' (convert_user_id_to_str (lin_user_id request)) @ newline @
        argument ''Password'' (hidePassword (lin_password request)) @ newline)) 1"

definition printInLogoutRequest :: "ClientLogout \<Rightarrow> string" where
  "printInLogoutRequest request =
     printInfo (incoming ''LOGOUT''
       (argument ''User ID'' (convert_user_id_to_str (lou_user_id request)) @ newline @
        argument ''Password'' (hidePassword (lou_password request)) @ newline)) 1"

definition printInUnregisterRequest :: "ClientUnregister \<Rightarrow> string" where
  "printInUnregisterRequest request =
     printInfo (incoming ''UNREGISTER''
       (argument ''User ID'' (convert_user_id_to_str (unr_user_id request)) @ newline @
        argument ''Password'' (hidePassword (unr_password request)) @ newline)) 1"

definition printInListAllRequest :: string where
  "printInListAllRequest =
     printInfo (incoming ''LIST ALL AUCTIONS'' (tabulator @ ''<- (no arguments) '' @ newline)) 1"

definition printInListBiddedRequest :: "ClientListBiddedAuctions \<Rightarrow> string" where
  "printInListBiddedRequest request =
     printInfo (incoming (''LIST USER'' @ [CHR 0x27] @ ''S BIDDED AUCTIONS'')
       (argument ''User ID'' (convert_user_id_to_str (lmb_user_id request)) @ newline)) 1"

definition printInListStartedRequest :: "ClientListStartedAuctions \<Rightarrow> string" where
  "printInListStartedRequest request =
     printInfo (incoming (''LIST USER'' @ [CHR 0x27] @ ''S STARTED AUCTIONS'')
       (argument ''User ID'' (convert_user_id_to_str (lma_user_id request)) @ newline)) 1"

definition printInShowRecordRequest :: "ClientShowRecord \<Rightarrow> string" where
  "printInShowRecordRequest request =
     printInfo (incoming ''SHOW RECORD''
       (argument ''Auction ID'' (convert_auction_id_to_str (src_auction_id request)) @ newline)) 1"

definition printInOpenAuctionRequest :: "(64 word \<Rightarrow> string) \<Rightarrow> ClientOpenAuction \<Rightarrow> string" where
  "printInOpenAuctionRequest megabytes request =
     ''[INFO]'' @ incoming ''OPEN AUCTION''
       (argument ''User ID'' (convert_user_id_to_str (opa_user_id request)) @ newline @
        argument ''Password'' (hidePassword (opa_password request)) @ newline @
        argument ''Auction Name'' (opa_name request) @ newline @
        argument ''Starting Value'' (to_string (opa_start_value request)) @ newline @
        argument ''Max Time Active'' (to_string (opa_timeactive request)) @ newline @
        argument ''Asset File Name'' (opa_assetf_name request) @ newline @
        argument ''Asset File Size'' (megabytes (opa_Fsize request)) @ '' MB'' @ newline @
        argument ''Asset File Data Length'' (nat_str (length (opa_fdata request))) @ '' bytes. '' @ newline) @ endl"

definition printInCloseAuctionRequest :: "ClientCloseAuction \<Rightarrow> string" where
  "printInCloseAuctionRequest request =
     printInfo (incoming ''CLOSE AUCTION''
       (argument ''User ID'' (convert_user_id_to_str (cls_user_id request)) @ newline @
        argument ''Password'' (hidePassword (cls_password request)) @ newline @
        argument ''Auction ID'' (convert_auction_id_to_str (cls_auction_id request)) @ newline)) 1"

definition printInShowAssetRequest :: "ClientShowAsset \<Rightarrow> string" where
  "printInShowAssetRequest request =
     printInfo (incoming ''SHOW ASSET''
       (argument ''Auction ID'' (convert_auction_id_to_str (sas_auction_id request)) @ newline)) 1"

definition printInBidRequest :: "ClientBid \<Rightarrow> string" where
  "printInBidRequest request =
     printInfo (incoming ''BID''
       (argument ''User ID'' (convert_user_id_to_str (bid_user_id request)) @ newline @
        argument ''Password'' (hidePassword (bid_password request)) @ newline @
        argument ''Auction ID'' (convert_auction_id_to_str (bid_auction_id request)) @ newline @
        argument ''Value'' (to_string (bid_amount request)) @ newline)) 1"

section \<open>What is printed\<close>

lemma hide_loop_eq: "hide_loop n s = s @ replicate n (CHR ''*'')"
  by (induction n arbitrary: s) (simp_all add: replicate_append_same [symmetric])

lemma hidePassword_eq [simp]: "hidePassword p = replicate (length p) (CHR ''*'')"
  by (simp add: hidePassword_def hide_loop_eq)

lemma info_prefix_eq: "info_prefix n = replicate n (CHR 0x09)"
  by (induction n) (simp_all add: tabulator_def replicate_append_same)

text \<open>The verbose mode of the server never shows a password: what is printed of a request depends on the password
  only through its length, a star for each of its characters.\<close>

theorem verbose_hides_passwords:
  assumes "length pw = length pw'"
  shows "hidePassword pw = replicate (length pw) (CHR ''*'') \<and>
    printInLoginRequest (lin\<lparr>lin_password := pw\<rparr>) = printInLoginRequest (lin\<lparr>lin_password := pw'\<rparr>) \<and>
    printInLogoutRequest (lou\<lparr>lou_password := pw\<rparr>) = printInLogoutRequest (lou\<lparr>lou_password := pw'\<rparr>) \<and>
    printInUnregisterRequest (unr\<lparr>unr_password := pw\<rparr>) = printInUnregisterRequest (unr\<lparr>unr_password := pw'\<rparr>) \<and>
    printInOpenAuctionRequest megabytes (opa\<lparr>opa_password := pw\<rparr>) =
      printInOpenAuctionRequest megabytes (opa\<lparr>opa_password := pw'\<rparr>) \<and>
    printInCloseAuctionRequest (cls\<lparr>cls_password := pw\<rparr>) = printInCloseAuctionRequest (cls\<lparr>cls_password := pw'\<rparr>) \<and>
    printInBidRequest (bid\<lparr>bid_password := pw\<rparr>) = printInBidRequest (bid\<lparr>bid_password := pw'\<rparr>)"
  using assms
  by (simp add: printInLoginRequest_def printInLogoutRequest_def printInUnregisterRequest_def
      printInOpenAuctionRequest_def printInCloseAuctionRequest_def printInBidRequest_def)

lemma verbose_hides_passwords_example:
  "printInLoginRequest \<lparr>lin_user_id = 123456, lin_password = ''password''\<rparr> =
   printInLoginRequest \<lparr>lin_user_id = 123456, lin_password = ''12345678''\<rparr>"
  using verbose_hides_passwords [of "''password''" "''12345678''" "\<lparr>lin_user_id = 123456, lin_password = []\<rparr>"]
  by simp

end
