(* ===== verification/Sockets.thy ===== *)
theory Sockets
  imports Server_Output Client_Core
begin

text \<open>
  The four functions at the end of shared/protocol.cpp that move a message through a socket. What a
  system call does is a parameter: \<open>write\<close> takes the bytes offered and the socket to the number it
  returns and the socket after it; a \<open>select\<close> with its \<open>recvfrom\<close> is an event.
\<close>

section \<open>Sending\<close>

definition outgoing_answer :: "string \<Rightarrow> string" where
  "outgoing_answer message_s =
     tabulator @ ''[INFO] Outgoing Answer (first 100 characters):'' @ newline @ tabulator @ ''-> '' @
     take 100 message_s @ (if length message_s > 100 then ''...'' @ newline else []) @ endl"

text \<open>The bytes a message is, the call of sendto, and what is printed; \<open>sendto\<close> returns -1 or the bytes sent.\<close>

definition send_udp_message ::
    "(string \<Rightarrow> 's \<Rightarrow> int \<times> 's) \<Rightarrow> exn + string \<Rightarrow> bool \<Rightarrow> 's \<Rightarrow> (exn + string) \<times> 's" where
  "send_udp_message sendto message verbose s =
     (case message of
        Inl e \<Rightarrow> (Inl e, s)
      | Inr buffer \<Rightarrow>
          (case sendto buffer s of
             (n, s') \<Rightarrow>
               (if n = -1 then Inl MessageSendException else Inr (if verbose then outgoing_answer buffer else []), s')))"

text \<open>The loop over the bytes not yet sent. A write of no bytes does not end it.\<close>

partial_function (option) write_loop ::
    "(string \<Rightarrow> 's \<Rightarrow> int \<times> 's) \<Rightarrow> string \<Rightarrow> nat \<Rightarrow> 's \<Rightarrow> ((exn + unit) \<times> 's) option" where
  "write_loop wr message_s bytes_sent s =
     (if bytes_sent < length message_s then
        (case wr (drop bytes_sent message_s) s of
           (sent, s') \<Rightarrow>
             if sent < 0 then Some (Inl MessageSendException, s')
             else write_loop wr message_s (bytes_sent + nat sent) s')
      else Some (Inr (), s))"

definition send_tcp_message ::
    "(string \<Rightarrow> 's \<Rightarrow> int \<times> 's) \<Rightarrow> exn + string \<Rightarrow> bool \<Rightarrow> 's \<Rightarrow> ((exn + string) \<times> 's) option" where
  "send_tcp_message wr message verbose s =
     (case message of
        Inl e \<Rightarrow> Some (Inl e, s)
      | Inr message_s \<Rightarrow>
          (case write_loop wr message_s 0 s of
             None \<Rightarrow> None
           | Some (Inl e, s') \<Rightarrow> Some (Inl e, s')
           | Some (Inr _, s') \<Rightarrow> Some (Inr (if verbose then outgoing_answer message_s else []), s')))"

section \<open>Receiving\<close>

text \<open>What select returns, and recvfrom where select found the socket ready; \<open>None\<close> is recvfrom's -1.\<close>

datatype select_event = Select_failed | Select_timeout | Select_ready "string option"

definition UDP_TIMEOUT :: nat where
  "UDP_TIMEOUT = 5"

text \<open>
  How the socket fares while select waits: an error, or a datagram after so many microseconds, 0 where one is
  there already, or none. The timeout is one of seconds and microseconds.
\<close>

datatype arrival = Select_error | No_arrival | Arrives nat "string option"

definition select_within :: "nat \<Rightarrow> nat \<Rightarrow> arrival \<Rightarrow> select_event" where
  "select_within tv_sec tv_usec a =
     (case a of
        Select_error \<Rightarrow> Select_failed
      | No_arrival \<Rightarrow> Select_timeout
      | Arrives t data \<Rightarrow> if t \<le> tv_sec * 1000000 + tv_usec then Select_ready data else Select_timeout)"

definition await_udp_message ::
    "(stream \<Rightarrow> ('m, stream) read_result option) \<Rightarrow> arrival \<Rightarrow> ('m, 'n client) prog" where
  "await_udp_message readMessage a =
     (case select_within UDP_TIMEOUT 0 a of
        Select_failed \<Rightarrow> liftP (Inl MessageReceiveException)
      | Select_timeout \<Rightarrow> liftP (Inl MessageReceiveException)
      | Select_ready None \<Rightarrow> liftP (Inl MessageReceiveException)
      | Select_ready (Some data) \<Rightarrow> read_answer (readMessage (stream_of (take UDP_SOCKET_BUFFER_LEN data))))"

definition await_tcp_message ::
    "(tcp \<Rightarrow> ('m, tcp) read_result option) \<Rightarrow> char \<Rightarrow> string list \<Rightarrow> ('m, 'n client) prog" where
  "await_tcp_message readMessage fallback chunks = read_answer (readMessage (TcpMessage_new fallback chunks))"

text \<open>An exchange of the client, with these calls.\<close>

lemma exchange_as_calls:
  "ce_udp E d (cl_net s) = (Udp_answer x, n) \<Longrightarrow> t \<le> 5000000 \<Longrightarrow>
     udp_exchange E d read_in s = await_udp_message read_in (Arrives t (Some x)) (s\<lparr>cl_net := n\<rparr>)"
  "ce_udp E d (cl_net s) = (Udp_no_answer, n) \<Longrightarrow> 5000000 < t \<Longrightarrow>
     udp_exchange E d read_in s = await_udp_message read_in (Arrives t data) (s\<lparr>cl_net := n\<rparr>)"
  "ce_udp E d (cl_net s) = (Udp_no_answer, n) \<Longrightarrow>
     udp_exchange E d read_in s = await_udp_message read_in No_arrival (s\<lparr>cl_net := n\<rparr>)"
  "ce_tcp E d (cl_net s) = (Tcp_answer chunks, n) \<Longrightarrow>
     tcp_exchange E d read_in' s = await_tcp_message read_in' (ce_uninit E) chunks (s\<lparr>cl_net := n\<rparr>)"
  by (simp_all add: udp_exchange_def tcp_exchange_def await_udp_message_def await_tcp_message_def liftP_def select_within_def
      UDP_TIMEOUT_def)

section \<open>The loop over the writes\<close>

text \<open>
  The contract of write: it takes a part of the bytes offered, at least one, or fails. \<open>got s\<close> are the
  bytes the socket has taken.
\<close>

definition writes :: "(string \<Rightarrow> 's \<Rightarrow> int \<times> 's) \<Rightarrow> ('s \<Rightarrow> string) \<Rightarrow> bool" where
  "writes wr got \<longleftrightarrow>
     (\<forall>b s. b \<noteq> [] \<longrightarrow> fst (wr b s) < 0 \<and> got (snd (wr b s)) = got s \<or>
        0 < fst (wr b s) \<and> fst (wr b s) \<le> int (length b) \<and> got (snd (wr b s)) = got s @ take (nat (fst (wr b s))) b)"

lemma writesD:
  assumes "writes wr got" and "b \<noteq> []" and "wr b s = (n, s')"
  shows "n < 0 \<and> got s' = got s \<or> 0 < n \<and> nat n \<le> length b \<and> got s' = got s @ take (nat n) b"
proof -
  have "fst (wr b s) < 0 \<and> got (snd (wr b s)) = got s \<or>
      0 < fst (wr b s) \<and> fst (wr b s) \<le> int (length b) \<and> got (snd (wr b s)) = got s @ take (nat (fst (wr b s))) b"
    using assms(1,2) unfolding writes_def by blast
  then show ?thesis using assms(3) by auto
qed

text \<open>How a loop that started with \<open>k\<close> bytes sent ends: all of the message sent, or a part of it.\<close>

definition sent_upto :: "('s \<Rightarrow> string) \<Rightarrow> string \<Rightarrow> nat \<Rightarrow> 's \<Rightarrow> (exn + unit) \<times> 's \<Rightarrow> bool" where
  "sent_upto got m k s r \<longleftrightarrow>
     (\<exists>n. k \<le> n \<and> n \<le> length m \<and> got (snd r) = got s @ drop k (take n m) \<and>
        fst r = (if n = length m then Inr () else Inl MessageSendException))"

lemma write_loop_ends:
  assumes "writes wr got" and "k \<le> length m"
  shows "\<exists>r. write_loop wr m k s = Some r \<and> sent_upto got m k s r"
  using assms(2)
proof (induction "length m - k" arbitrary: k s rule: less_induct)
  case less
  show ?case
  proof (cases "k = length m")
    case True
    have "write_loop wr m k s = Some (Inr (), s)" by (subst write_loop.simps) (simp add: True)
    moreover have "sent_upto got m k s (Inr (), s)" by (simp add: sent_upto_def True)
    ultimately show ?thesis by blast
  next
    case False
    then have k: "k < length m" and ne: "drop k m \<noteq> []" using less.prems by auto
    obtain n s' where w: "wr (drop k m) s = (n, s')" by fastforce
    consider "n < 0" "got s' = got s" | "0 < n" "k + nat n \<le> length m" "got s' = got s @ take (nat n) (drop k m)"
      using writesD [OF assms(1) ne w] k by auto
    then show ?thesis
    proof cases
      case 1
      then show ?thesis
        using k w by (auto simp: write_loop.simps [of wr m k] sent_upto_def intro!: exI [of _ k])
    next
      case 2
      then have "length m - (k + nat n) < length m - k" using k by simp
      from less.hyps [OF this 2(2), of s'] obtain r
        where r: "write_loop wr m (k + nat n) s' = Some r" "sent_upto got m (k + nat n) s' r" by blast
      then obtain j where j: "k + nat n \<le> j" "j \<le> length m" "got (snd r) = got s' @ drop (k + nat n) (take j m)"
        "fst r = (if j = length m then Inr () else Inl MessageSendException)"
        unfolding sent_upto_def by blast
      have "take (nat n) (drop k m) = take (nat n) (drop k (take j m))" using j(1) by (simp add: drop_take min_def)
      then have "got (snd r) = got s @ drop k (take j m)"
        using 2(3) j(3) append_take_drop_id [of "nat n" "drop k (take j m)"] by (simp add: add.commute)
      then show ?thesis
        using j 2(1) k w r(1) by (auto simp: write_loop.simps [of wr m k] sent_upto_def intro!: exI [of _ j])
    qed
  qed
qed

text \<open>A socket that takes nothing keeps the loop running: it has no result.\<close>

lemma write_loop_stalls:
  assumes "\<And>b s. b \<noteq> [] \<Longrightarrow> wr b s = (0, s)" and "k < length m"
  shows "write_loop wr m k s = None"
proof -
  have "write_loop wr m k s \<noteq> Some r" for r
  proof
    assume ret: "write_loop wr m k s = Some r"
    have "wr = wr \<longrightarrow> k < length m \<longrightarrow> False"
    proof (rule write_loop.raw_induct [where P = "\<lambda>wr' m k s r. wr' = wr \<longrightarrow> k < length m \<longrightarrow> False", OF _ ret])
      fix f m k s r and wr' :: "string \<Rightarrow> 'a \<Rightarrow> int \<times> 'a"
      assume IH: "\<And>wr' m k s r. f wr' m k s = Some r \<Longrightarrow> wr' = wr \<longrightarrow> k < length m \<longrightarrow> False"
        and eq: "(if k < length m then
            (case wr' (drop k m) s of (sent, s') \<Rightarrow>
              if sent < 0 then Some (Inl MessageSendException, s') else f wr' m (k + nat sent) s')
          else Some (Inr (), s)) = Some r"
      show "wr' = wr \<longrightarrow> k < length m \<longrightarrow> False"
        using IH [of wr m k s r] eq assms(1) [of "drop k m" s] by auto
    qed
    then show False using assms(2) by simp
  qed
  then show ?thesis by (cases "write_loop wr m k s") auto
qed

lemma write_loop_sends:
  assumes "writes wr got"
  shows "\<exists>r s'. send_tcp_message wr (Inr m) verbose s = Some (r, s') \<and>
    (r = Inr (if verbose then outgoing_answer m else []) \<and> got s' = got s @ m \<or>
     r = Inl MessageSendException \<and> (\<exists>n < length m. got s' = got s @ take n m))"
proof -
  obtain x s' where run: "write_loop wr m 0 s = Some (x, s')" and "sent_upto got m 0 s (x, s')"
    using write_loop_ends [OF assms, of 0 m s] by auto
  then obtain n where n: "n \<le> length m" "got s' = got s @ take n m"
    "x = (if n = length m then Inr () else Inl MessageSendException)" by (auto simp: sent_upto_def)
  show ?thesis
  proof (cases "n = length m")
    case True
    then show ?thesis using n by (simp add: send_tcp_message_def run)
  next
    case False
    then have "n < length m" using n(1) by simp
    then show ?thesis using n(2,3) by (simp add: send_tcp_message_def run) blast
  qed
qed

text \<open>C32: Sending a message over TCP ends, however the socket splits it, as long as every write takes at least one
  byte or fails: either all bytes of the message have gone out in order, each once, or MessageSendException is thrown
  after a proper prefix of them.\<close>

theorem send_tcp_message_ends:
  assumes "writes wr got"
  shows "\<exists>r s'. send_tcp_message wr (Inr m) verbose s = Some (r, s') \<and>
    (r = Inr (if verbose then outgoing_answer m else []) \<and> got s' = got s @ m \<or>
     r = Inl MessageSendException \<and> (\<exists>n < length m. got s' = got s @ take n m))"
  using assms by (rule write_loop_sends)

lemma send_tcp_message_ends_example:
  "\<exists>r s'. send_tcp_message (\<lambda>b s. (int (min 2 (length b)), s @ take 2 b)) (Inr ''RBD ACC'') False [] = Some (r, s') \<and>
     (r = Inr [] \<and> s' = ''RBD ACC'' \<or> r = Inl MessageSendException \<and> (\<exists>n < length ''RBD ACC''. s' = take n ''RBD ACC''))"
proof -
  have "writes (\<lambda>b s. (int (min 2 (length b)), s @ take 2 b)) (\<lambda>s. s)"
    by (auto simp: writes_def Suc_le_eq min_def)
  from send_tcp_message_ends [OF this, of "''RBD ACC''" False "[]"] show ?thesis by simp
qed

end
