(* ===== verification/Startup.thy ===== *)
theory Startup
  imports Database Client_Core
begin

text \<open>
  The start of the two programs, from server/server.cpp and client/client.cpp: what their command lines
  configure, and the directories and the semaphore the server begins with. What getopt finds is a list
  of options.
\<close>

section \<open>The command lines\<close>

definition DEFAULT_HOSTNAME :: string where
  "DEFAULT_HOSTNAME = ''localhost''"

definition DEFAULT_PORT :: string where
  "DEFAULT_PORT = ''58086''"

text \<open>A start goes on with a configuration, exits, or leaves an exception that nothing catches.\<close>

datatype 'c start = Configured 'c | Exit_config | Uncaught exn

definition checked_port :: "string \<Rightarrow> 'c \<Rightarrow> 'c start" where
  "checked_port port c =
     (case verify_port_number port of
        Inl e \<Rightarrow> Uncaught e
      | Inr r \<Rightarrow> if r = -1 then Exit_config else Configured c)"

record server_config =
  sv_verbose :: bool
  sv_port :: string

definition server_defaults :: server_config where
  "server_defaults = \<lparr>sv_verbose = False, sv_port = DEFAULT_PORT\<rparr>"

datatype server_option = Option_v | Option_p string | Option_other

fun server_options :: "server_option list \<Rightarrow> server_config \<Rightarrow> server_config option" where
  "server_options [] c = Some c"
| "server_options (Option_v # opts) c = server_options opts (c\<lparr>sv_verbose := True\<rparr>)"
| "server_options (Option_p optarg # opts) c = server_options opts (c\<lparr>sv_port := optarg\<rparr>)"
| "server_options (Option_other # opts) c = None"

definition configServer :: "server_option list \<Rightarrow> server_config start" where
  "configServer opts =
     (case server_options opts server_defaults of
        None \<Rightarrow> Exit_config
      | Some c \<Rightarrow> checked_port (sv_port c) c)"

record client_config =
  cc_hostname :: string
  cc_port :: string

definition client_defaults :: client_config where
  "client_defaults = \<lparr>cc_hostname = DEFAULT_HOSTNAME, cc_port = DEFAULT_PORT\<rparr>"

datatype client_option = Option_n string | Option_port string | Option_else

fun client_options :: "client_option list \<Rightarrow> client_config \<Rightarrow> client_config option" where
  "client_options [] c = Some c"
| "client_options (Option_n optarg # opts) c = client_options opts (c\<lparr>cc_hostname := optarg\<rparr>)"
| "client_options (Option_port optarg # opts) c = client_options opts (c\<lparr>cc_port := optarg\<rparr>)"
| "client_options (Option_else # opts) c = None"

definition configClient :: "client_option list \<Rightarrow> client_config start" where
  "configClient opts =
     (case client_options opts client_defaults of
        None \<Rightarrow> Exit_config
      | Some c \<Rightarrow> checked_port (cc_port c) c)"

section \<open>The server's directories\<close>

text \<open>
  The constructor of the server. What CreateBaseDir returns is not looked at. The sockets, which are
  opened, bound and resolved around it, are added in Server_Sockets.
\<close>

definition Server_new :: "server_option list \<Rightarrow> bool \<Rightarrow> world \<Rightarrow> server_config start \<times> world" where
  "Server_new opts sem_opens w =
     (case configServer opts of
        Configured c \<Rightarrow> (Configured c, snd (CreateBaseDir sem_opens w))
      | r \<Rightarrow> (r, w))"

section \<open>Which ports are taken\<close>

lemma checked_port_eq:
  "checked_port p c =
     (if \<exists>x \<in> set p. \<not> isdigit x then Exit_config
      else if p = [] then Uncaught Std_invalid_argument
      else if digits_val p \<ge> 2 ^ 31 then Uncaught Std_out_of_range
      else if 0 < digits_val p \<and> digits_val p \<le> 65535 then Configured c
      else Exit_config)"
proof (cases "\<exists>x \<in> set p. \<not> isdigit x")
  case True
  then show ?thesis by (auto simp: checked_port_def verify_port_number_def list_all_iff)
next
  case False
  show ?thesis
  proof (cases "p = []")
    case True
    then show ?thesis by (simp add: checked_port_def verify_port_number_def stoi_def strtol_def)
  next
    case ne: False
    have "verify_port_number p =
        (if digits_val p < 2 ^ 31 then Inr (if 0 < digits_val p \<and> digits_val p \<le> 65535 then 0 else -1)
         else Inl Std_out_of_range)"
      using verify_port_number_digits [OF ne] False by blast
    then show ?thesis using False ne by (simp add: checked_port_def)
  qed
qed

lemma default_port_taken: "checked_port DEFAULT_PORT c = Configured c"
  by (simp add: checked_port_eq DEFAULT_PORT_def isdigit_def digits_val_def digit_val_def)

text \<open>A server given one port starts with it, or does not start and touches no directory.\<close>

lemma Server_new_port:
  "Server_new [Option_p p] sem_opens w =
     (case checked_port p \<lparr>sv_verbose = False, sv_port = p\<rparr> of
        Configured c \<Rightarrow> (Configured c, snd (CreateBaseDir sem_opens w))
      | r \<Rightarrow> (r, w))"
  by (simp add: Server_new_def configServer_def server_defaults_def)

end
