(* ===== verification/Semaphore_Use.thy ===== *)
theory Semaphore_Use
  imports Requests
begin

text \<open>
  How a method of the database posts the semaphore: what lies between the wait and the end of a method posts
  at most once, on whichever branch, and does nothing more to the shared state once it has posted. The two
  predicates are closed under sequencing, so the proofs follow the code.
\<close>

section \<open>Posting once, as the last thing\<close>

text \<open>
  sem_post fails where the semaphore has its greatest value, and the exception ends the method there. A program
  that leaves the same files, and has read the clock as often, whatever value the semaphore has, has therefore
  done all of its work by the time it posts.
\<close>

definition no_sem :: "world \<Rightarrow> world" where
  "no_sem w = w\<lparr>wsem := 0\<rparr>"

definition done_by_post :: "('a, world) prog \<Rightarrow> bool" where
  "done_by_post m \<longleftrightarrow> (\<forall>w k. no_sem (snd (m (w\<lparr>wsem := k\<rparr>))) = no_sem (snd (m w)))"

text \<open>The whole of a program, or what ends it: it posts at most once, and then is over.\<close>

definition posts_once :: "('a, world) prog \<Rightarrow> bool" where
  "posts_once m \<longleftrightarrow> done_by_post m \<and> (\<forall>w. wsem (snd (m w)) \<le> Suc (wsem w))"

text \<open>
  A program others follow: it has not posted when it returns, posted at most once when it does not, and whether it
  returns, and what, does not depend on the semaphore.
\<close>

definition posts_last :: "('a, world) prog \<Rightarrow> bool" where
  "posts_last m \<longleftrightarrow> done_by_post m \<and>
     (\<forall>w k x. fst (m w) = Ret x \<longrightarrow> wsem (snd (m w)) = wsem w \<and> fst (m (w\<lparr>wsem := k\<rparr>)) = Ret x) \<and>
     (\<forall>w. wsem (snd (m w)) \<le> Suc (wsem w))"

named_theorems post_intros \<open>programs that post at most once, as the last thing\<close>

lemma no_sem_simps [simp]:
  "no_sem (w\<lparr>wsem := k\<rparr>) = no_sem w" "wfs (no_sem w) = wfs w" "no_sem (w\<lparr>wfs := f\<rparr>) = (no_sem w)\<lparr>wfs := f\<rparr>"
  "no_sem (w\<lparr>wcalls := n\<rparr>) = (no_sem w)\<lparr>wcalls := n\<rparr>"
  by (simp_all add: no_sem_def)

lemma no_sem_eq: "no_sem w = no_sem w' \<Longrightarrow> w' = w\<lparr>wsem := wsem w'\<rparr>"
  by (cases w; cases w') (simp add: no_sem_def)

lemma no_sem_upd: "no_sem w = no_sem w' \<Longrightarrow> w\<lparr>wsem := k\<rparr> = w'\<lparr>wsem := k\<rparr>"
  by (cases w; cases w') (simp add: no_sem_def)

lemma posts_last_once: "posts_last m \<Longrightarrow> posts_once m"
  by (simp add: posts_last_def posts_once_def)

lemma posts_onceD: "posts_once m \<Longrightarrow> wsem (snd (m w)) \<le> Suc (wsem w)"
  by (simp add: posts_once_def)

lemma done_by_postD: "done_by_post m \<Longrightarrow> no_sem (snd (m (w\<lparr>wsem := k\<rparr>))) = no_sem (snd (m w))"
  by (simp add: done_by_post_def)

lemma posts_last_basic [post_intros]:
  "posts_last (ret x)" "posts_last (throw e)" "posts_last undef" "posts_last (liftP r)" "posts_last (getF g)"
  "posts_last (getE h)" "posts_last (runF k)" "posts_last sys_time" "posts_last (post_throw e)"
  by (auto simp: posts_last_def done_by_post_def liftP_def getF_def getE_def runF_def sys_time_def post_throw_def
      bindP_def semaphore_post_def split: sum.splits prod.splits)

lemma posts_once_post [post_intros]: "posts_once (post_ret x)" "posts_once (post_throw e)"
  by (simp_all add: posts_once_def done_by_post_def post_ret_def post_throw_def bindP_def semaphore_post_def)

text \<open>What a program does after one it follows, in both states at once.\<close>

lemma bindP_posts:
  assumes "posts_last m"
  shows "(\<exists>x w'. m w = (Ret x, w') \<and> m (w\<lparr>wsem := k\<rparr>) = (Ret x, w'\<lparr>wsem := k\<rparr>) \<and> wsem w' = wsem w) \<or>
    (\<forall>x. fst (m w) \<noteq> Ret x) \<and> (\<forall>x. fst (m (w\<lparr>wsem := k\<rparr>)) \<noteq> Ret x)"
proof (cases "\<exists>x. fst (m w) = Ret x")
  case True
  then obtain x w' where m: "m w = (Ret x, w')" by (metis prod.collapse)
  obtain out v where v: "m (w\<lparr>wsem := k\<rparr>) = (out, v)" by fastforce
  have a: "out = Ret x" "wsem w' = wsem w"
    using assms m v unfolding posts_last_def by (metis fst_conv snd_conv)+
  then have "wsem v = k"
    using assms v unfolding posts_last_def by (metis (no_types, lifting) fst_conv snd_conv world.select_convs(2) world.surjective world.update_convs(2))
  moreover have "no_sem w' = no_sem v"
    using done_by_postD [where m = m and w = w and k = k] assms m v by (simp add: posts_last_def)
  ultimately have "v = w'\<lparr>wsem := k\<rparr>" using no_sem_eq by metis
  then show ?thesis using m v a by blast
next
  case False
  moreover have "fst (m (w\<lparr>wsem := k\<rparr>)) \<noteq> Ret x" for x
  proof
    assume "fst (m (w\<lparr>wsem := k\<rparr>)) = Ret x"
    then have "fst (m ((w\<lparr>wsem := k\<rparr>)\<lparr>wsem := wsem w\<rparr>)) = Ret x" using assms unfolding posts_last_def by blast
    then show False using False by simp
  qed
  ultimately show ?thesis by blast
qed

lemma bindP_stops: "(\<And>x. fst (m w) \<noteq> Ret x) \<Longrightarrow> snd (bindP m f w) = snd (m w) \<and> (\<forall>x. fst (bindP m f w) \<noteq> Ret x)"
  by (cases "m w"; cases "fst (m w)") (auto simp: bindP_def)

lemma done_by_post_bindP:
  assumes "posts_last m" and "\<And>x. done_by_post (f x)"
  shows "done_by_post (bindP m f)"
  unfolding done_by_post_def
proof (intro allI)
  fix w k
  from bindP_posts [OF assms(1), of w k]
  show "no_sem (snd (bindP m f (w\<lparr>wsem := k\<rparr>))) = no_sem (snd (bindP m f w))"
  proof
    assume "\<exists>x w'. m w = (Ret x, w') \<and> m (w\<lparr>wsem := k\<rparr>) = (Ret x, w'\<lparr>wsem := k\<rparr>) \<and> wsem w' = wsem w"
    then show ?thesis using assms(2) by (auto simp: bindP_def done_by_post_def)
  next
    assume "(\<forall>x. fst (m w) \<noteq> Ret x) \<and> (\<forall>x. fst (m (w\<lparr>wsem := k\<rparr>)) \<noteq> Ret x)"
    then show ?thesis
      using bindP_stops [of m w f] bindP_stops [of m "w\<lparr>wsem := k\<rparr>" f] assms(1)
      by (simp add: posts_last_def done_by_post_def)
  qed
qed

lemma wsem_bindP:
  assumes "posts_last m" and "\<And>x w. wsem (snd (f x w)) \<le> Suc (wsem w)"
  shows "wsem (snd (bindP m f w)) \<le> Suc (wsem w)"
  using bindP_posts [OF assms(1), of w "wsem w"]
proof
  assume "\<exists>x w'. m w = (Ret x, w') \<and> m (w\<lparr>wsem := wsem w\<rparr>) = (Ret x, w'\<lparr>wsem := wsem w\<rparr>) \<and> wsem w' = wsem w"
  then obtain x w' where "m w = (Ret x, w')" "wsem w' = wsem w" by blast
  then show ?thesis using assms(2) [of x w'] by (simp add: bindP_def)
next
  assume "(\<forall>x. fst (m w) \<noteq> Ret x) \<and> (\<forall>x. fst (m (w\<lparr>wsem := wsem w\<rparr>)) \<noteq> Ret x)"
  then show ?thesis using bindP_stops [of m w f] assms(1) by (simp add: posts_last_def)
qed

lemma posts_last_bindP [post_intros]:
  assumes "posts_last m" and "\<And>x. posts_last (f x)"
  shows "posts_last (bindP m f)"
proof -
  have "wsem (snd (bindP m f w)) = wsem w \<and> fst (bindP m f (w\<lparr>wsem := k\<rparr>)) = Ret y" if r: "fst (bindP m f w) = Ret y" for w k y
    using bindP_posts [OF assms(1), of w k]
  proof
    assume "\<exists>x w'. m w = (Ret x, w') \<and> m (w\<lparr>wsem := k\<rparr>) = (Ret x, w'\<lparr>wsem := k\<rparr>) \<and> wsem w' = wsem w"
    then obtain x w' where a: "m w = (Ret x, w')" "m (w\<lparr>wsem := k\<rparr>) = (Ret x, w'\<lparr>wsem := k\<rparr>)" "wsem w' = wsem w" by blast
    then have "fst (f x w') = Ret y" using r by (simp add: bindP_def)
    then have "wsem (snd (f x w')) = wsem w'" "fst (f x (w'\<lparr>wsem := k\<rparr>)) = Ret y"
      using assms(2) [of x] unfolding posts_last_def by blast+
    then show ?thesis using a by (simp add: bindP_def)
  next
    assume "(\<forall>x. fst (m w) \<noteq> Ret x) \<and> (\<forall>x. fst (m (w\<lparr>wsem := k\<rparr>)) \<noteq> Ret x)"
    then show ?thesis using bindP_stops [of m w f] r by simp
  qed
  then show ?thesis
    using done_by_post_bindP [OF assms(1)] wsem_bindP [OF assms(1)] assms(2) unfolding posts_last_def by blast
qed

lemma posts_once_bindP [post_intros]:
  assumes "posts_last m" and "\<And>x. posts_once (f x)"
  shows "posts_once (bindP m f)"
  using done_by_post_bindP [OF assms(1)] wsem_bindP [OF assms(1)] assms(2) unfolding posts_once_def by blast

lemma posts_if [post_intros]:
  "(c \<Longrightarrow> posts_last m) \<Longrightarrow> (\<not> c \<Longrightarrow> posts_last m') \<Longrightarrow> posts_last (if c then m else m')"
  "(c \<Longrightarrow> posts_once m) \<Longrightarrow> (\<not> c \<Longrightarrow> posts_once m') \<Longrightarrow> posts_once (if c then m else m')"
  by simp_all

lemma posts_case [post_intros]:
  "posts_last m \<Longrightarrow> (\<And>x. posts_last (k x)) \<Longrightarrow> posts_last (case r of None \<Rightarrow> m | Some x \<Rightarrow> k x)"
  "posts_once m \<Longrightarrow> (\<And>x. posts_once (k x)) \<Longrightarrow> posts_once (case r of None \<Rightarrow> m | Some x \<Rightarrow> k x)"
  by (cases r; simp)+

section \<open>The methods\<close>

lemma posts_last_files [post_intros]:
  "posts_last GetCurrentDate" "posts_last (CreateStartFile a u n fn sv ta)" "posts_last (CreateEndFile a)"
  "posts_last (CreateBidFile a u v)"
  unfolding GetCurrentDate_def CreateStartFile_def CreateEndFile_def CreateBidFile_def Let_def
  by (intro post_intros)+

lemma posts_last_Close [post_intros]: "posts_last (Db_Close a)"
  unfolding Db_Close_def by (intro post_intros)

lemma posts_last_list [post_intros]: "posts_last (list_auction a)" "posts_last (list_loop as acc)"
proof -
  show a [post_intros]: "posts_last (list_auction a)" for a
    unfolding list_auction_def Let_def by (intro post_intros)
  show "posts_last (list_loop as acc)"
    by (induction as arbitrary: acc) (auto intro!: post_intros)
qed

lemma posts_last_loops [post_intros]:
  "posts_last (bid_loop es b v)" "posts_last (record_loop es ob bs)" "posts_last (record_end a r)" "posts_last open_aid"
proof -
  show "posts_last (bid_loop es b v)" by (induction es arbitrary: b) (auto simp: Let_def intro!: post_intros)
  show "posts_last (record_loop es ob bs)" by (induction es arbitrary: ob bs) (auto intro!: post_intros)
  show "posts_last (record_end a r)" "posts_last open_aid"
    unfolding record_end_def open_aid_def by (intro post_intros)+
qed

text \<open>A section of the code that holds the semaphore: a wait, and a body that posts at most once, as the last thing.\<close>

definition guarded_section :: "('a, world) prog \<Rightarrow> bool" where
  "guarded_section m \<longleftrightarrow> (\<exists>body. m = bindP semaphore_wait body \<and> posts_once (body ()))"

lemma guarded_sectionI: "(\<And>u. posts_once (body u)) \<Longrightarrow> guarded_section (bindP semaphore_wait body)"
  unfolding guarded_section_def by blast

lemma guarded_section_sem:
  assumes "guarded_section m" and "0 < wsem w"
  shows "wsem (snd (m w)) \<le> wsem w"
proof -
  obtain body where m: "m = bindP semaphore_wait body" and "posts_once (body ())"
    using assms(1) unfolding guarded_section_def by blast
  from posts_onceD [OF this(2), of "w\<lparr>wsem := wsem w - 1\<rparr>"] show ?thesis
    using assms(2) by (simp add: m bindP_wait)
qed

lemma guarded_section_done:
  assumes "guarded_section m" and "0 < wsem w" and "0 < k"
  shows "no_sem (snd (m (w\<lparr>wsem := k\<rparr>))) = no_sem (snd (m w))"
proof -
  obtain body where m: "m = bindP semaphore_wait body" and "posts_once (body ())"
    using assms(1) unfolding guarded_section_def by blast
  then have "done_by_post (body ())" by (simp add: posts_once_def)
  from done_by_postD [OF this, where w = "w\<lparr>wsem := wsem w - 1\<rparr>" and k = "k - 1"] show ?thesis
    using assms(2,3) by (simp add: m bindP_wait)
qed

lemma guarded_section_waits: "guarded_section m \<Longrightarrow> wsem w = 0 \<Longrightarrow> m w = (Block, w)"
  by (auto simp: guarded_section_def bindP_wait)

text \<open>The three sections of Unregister, which lets go of the semaphore twice on its way.\<close>

definition unregister_check :: "string \<Rightarrow> string \<Rightarrow> (bool, world) prog" where
  "unregister_check user_id password =
     bindP semaphore_wait (\<lambda>_.
     bindP (getF (\<lambda>f. CorrectPassword f user_id password)) (\<lambda>correct.
     if correct \<noteq> 1 then post_ret False else post_ret True))"

definition unregister_erase :: "string \<Rightarrow> (int, world) prog" where
  "unregister_erase user_id =
     bindP semaphore_wait (\<lambda>_.
     bindP (runF (ErasePassword user_id)) (\<lambda>erased_password.
     if erased_password = -1 then post_ret DB_UNREGISTER_NOK
     else if erased_password = 0 then post_ret DB_UNREGISTER_OK
     else if erased_password = 2 then post_ret DB_UNREGISTER_UNKNOWN
     else post_ret DB_UNREGISTER_NOK))"

lemma Unregister_sections:
  "Unregister u pw w =
     bindP (unregister_check u pw) (\<lambda>correct.
       if \<not> correct then ret DB_UNREGISTER_NOK
       else bindP (Logout u pw) (\<lambda>r. if r = DB_LOGOUT_NOK then ret DB_UNREGISTER_NOK else unregister_erase u)) w"
  unfolding Unregister_def unregister_check_def unregister_erase_def post_ret_def
  by (cases "wsem w = 0"; cases "CorrectPassword (wfs w) u pw = 1") 
      (simp_all add: bindP_assoc bindP_wait bindP_getF bindP_def [of semaphore_post] split: outcome.split prod.split)

text \<open>What of ShowAsset holds the semaphore; the path it reads the asset from is looked up before.\<close>

definition asset_section :: "string \<Rightarrow> (AssetInfo, world) prog" where
  "asset_section dir =
     bindP semaphore_wait (\<lambda>_.
     if dir = '''' then post_throw AssetDoesNotExist
     else
       bindP (getF (GetAssetData dir)) (\<lambda>fdata.
       post_ret \<lparr>as_asset_fname = drop 25 dir, as_fsize = word_of_nat (length fdata), as_fdata = fdata\<rparr>))"

lemma ShowAsset_section: "ShowAsset a = bindP (getE (GetAssetDir a)) asset_section"
  unfolding ShowAsset_def by (rule arg_cong [where f = "bindP (getE (GetAssetDir a))"]) (rule ext, simp add: asset_section_def)

lemma guarded_accounts:
  "guarded_section (LoginUser u pw)" "guarded_section (Logout u pw)" "guarded_section (unregister_check u pw)"
  "guarded_section (unregister_erase u)"
  unfolding LoginUser_def Logout_def unregister_check_def unregister_erase_def
  by (intro guarded_sectionI post_intros)+

lemma guarded_lists: "guarded_section (MyAuctions u)" "guarded_section (MyBids u)"
  unfolding MyAuctions_def MyBids_def by (intro guarded_sectionI post_intros)+

lemma guarded_auctions:
  "guarded_section (Db_Open u n pw fn sv ta sz d)" "guarded_section (CloseAuction a u pw)"
  "guarded_section (Db_Bid u pw a v)" "guarded_section (ShowRecord a)" "guarded_section (asset_section p)"
  unfolding Db_Open_def CloseAuction_def Db_Bid_def ShowRecord_def asset_section_def Let_def
  by (intro guarded_sectionI post_intros posts_last_once)+

end
