(* ===== verification/Concurrency.thy ===== *)
theory Concurrency
  imports Semaphore_Use "HOL-Library.Multiset"
begin

text \<open>
  The processes of the server side by side. The UDP process and the children of the TCP process call the
  database at the same time; what a section does between its wait and its post is cut into steps in any way,
  what it does after its post is a step of its own, and the steps of different processes interleave. While only
  sections that wait run, one of them is between its wait and its post at a time, and the store is as if they had
  run one after the other. The list of all auctions, which posts without waiting, ends that.
\<close>

section \<open>The sections\<close>

text \<open>
  What a process does to the shared state between two points at which it holds nothing. Unregister is three
  sections; ShowAsset has looked up the path of its asset before it waits.
\<close>

datatype db_call =
    C_login string string
  | C_logout string string
  | C_unregister string string
  | C_unregister_logout string string
  | C_unregister_erase string
  | C_open string string string string string string "64 word" string
  | C_close string string string
  | C_my_auctions string
  | C_my_bids string
  | C_list
  | C_asset string
  | C_bid string string string string
  | C_record string

fun db_effect :: "db_call \<Rightarrow> world \<Rightarrow> world" where
  "db_effect (C_login u pw) w = snd (LoginUser u pw w)"
| "db_effect (C_logout u pw) w = snd (Logout u pw w)"
| "db_effect (C_unregister u pw) w = snd (unregister_check u pw w)"
| "db_effect (C_unregister_logout u pw) w = snd (Logout u pw w)"
| "db_effect (C_unregister_erase u) w = snd (unregister_erase u w)"
| "db_effect (C_open u n pw fn sv ta sz d) w = snd (Db_Open u n pw fn sv ta sz d w)"
| "db_effect (C_close a u pw) w = snd (CloseAuction a u pw w)"
| "db_effect (C_my_auctions u) w = snd (MyAuctions u w)"
| "db_effect (C_my_bids u) w = snd (MyBids u w)"
| "db_effect C_list w = snd (Db_List w)"
| "db_effect (C_asset p) w = snd (asset_section p w)"
| "db_effect (C_bid u pw a v) w = snd (Db_Bid u pw a v w)"
| "db_effect (C_record a) w = snd (ShowRecord a w)"

text \<open>All sections but the list of all auctions start by waiting for the semaphore.\<close>

definition locked :: "db_call \<Rightarrow> bool" where
  "locked c \<longleftrightarrow> c \<noteq> C_list"

text \<open>The section a process goes on with, given the state in which the one before began.\<close>

fun follow :: "db_call \<Rightarrow> world \<Rightarrow> db_call option" where
  "follow (C_unregister u pw) w =
     (case fst (unregister_check u pw w) of Ret True \<Rightarrow> Some (C_unregister_logout u pw) | _ \<Rightarrow> None)"
| "follow (C_unregister_logout u pw) w =
     (case fst (Logout u pw w) of
        Ret r \<Rightarrow> if r = DB_LOGOUT_NOK then None else Some (C_unregister_erase u)
      | _ \<Rightarrow> None)"
| "follow _ w = None"

lemma follow_locked: "follow c w = Some d \<Longrightarrow> locked d"
  by (cases c) (auto simp: locked_def split: outcome.splits bool.splits if_splits)

lemma locked_sem:
  assumes "locked c" and "0 < wsem w"
  shows "wsem (db_effect c w) \<le> wsem w"
  using assms
  by (cases c) (simp_all add: locked_def guarded_section_sem guarded_accounts guarded_lists guarded_auctions)

section \<open>Steps\<close>

text \<open>
  Where in a section the post is. Without the post, the state a section leaves is the one in which sem_post fails,
  which ends every method there; what it posts is what it leaves of a semaphore that has the value 1 before it; and
  what it does once it has posted is what the files of the whole section have beyond those it had at the post.
\<close>

definition until_post :: "db_call \<Rightarrow> world \<Rightarrow> world" where
  "until_post c w = (db_effect c (w\<lparr>wsem := Suc SEM_VALUE_MAX\<rparr>))\<lparr>wsem := wsem w\<rparr>"

definition posts :: "db_call \<Rightarrow> world \<Rightarrow> nat" where
  "posts c w1 = wsem (db_effect c (w1\<lparr>wsem := 1\<rparr>))"

definition after_post :: "db_call \<Rightarrow> world \<Rightarrow> world \<Rightarrow> world" where
  "after_post c w1 w =
     w\<lparr>wfs := (if wfs (db_effect c w1) = wfs (until_post c w1) then wfs w else wfs (db_effect c w1))\<rparr>"

text \<open>
  What a process has still to do of its section before the post: nothing, or a step on the shared state and then
  what the state before the step says. A section is cut in such steps when together they are the section between
  its wait and its post; none of them touches the semaphore.
\<close>

datatype thread = Finished | Step "world \<Rightarrow> world" "world \<Rightarrow> thread"

primrec run_thread :: "thread \<Rightarrow> world \<Rightarrow> world" where
  "run_thread Finished w = w"
| "run_thread (Step f k) w = run_thread (k w) (f w)"

primrec keeps_sem :: "thread \<Rightarrow> bool" where
  "keeps_sem Finished = True"
| "keeps_sem (Step f k) = (\<forall>w. wsem (f w) = wsem w \<and> keeps_sem (k w))"

definition is_cut :: "db_call \<Rightarrow> thread \<Rightarrow> bool" where
  "is_cut c t \<longleftrightarrow> keeps_sem t \<and> (\<forall>w. run_thread t w = until_post c w)"

text \<open>A section in one step is a cut of it.\<close>

definition whole :: "db_call \<Rightarrow> thread" where
  "whole c = Step (until_post c) (\<lambda>_. Finished)"

lemma whole_cut [simp]: "is_cut c (whole c)"
  by (simp add: is_cut_def whole_def until_post_def)

text \<open>
  The state of all processes: the shared state, the sections that wait, those between wait and post, with the
  state before their wait and what they have still to do, those that have posted and not ended, and all that have
  posted, in that order.
\<close>

record system =
  sy_world :: world
  sy_waiting :: "db_call multiset"
  sy_inside :: "(db_call \<times> world \<times> thread) multiset"
  sy_leaving :: "(db_call \<times> world) multiset"
  sy_done :: "db_call list"

inductive interleaved ::
    "(db_call \<Rightarrow> bool) \<Rightarrow> (db_call \<Rightarrow> thread) \<Rightarrow> world \<Rightarrow> system \<Rightarrow> bool" for ok pieces w0 where
  begins: "interleaved ok pieces w0
    \<lparr>sy_world = w0, sy_waiting = {#}, sy_inside = {#}, sy_leaving = {#}, sy_done = []\<rparr>"
| arrives: "interleaved ok pieces w0 s \<Longrightarrow> ok c \<Longrightarrow>
    interleaved ok pieces w0 (s\<lparr>sy_waiting := add_mset c (sy_waiting s)\<rparr>)"
| enters: "interleaved ok pieces w0 s \<Longrightarrow> c \<in># sy_waiting s \<Longrightarrow> locked c \<Longrightarrow> 0 < wsem (sy_world s) \<Longrightarrow>
    interleaved ok pieces w0
      (s\<lparr>sy_world := (sy_world s)\<lparr>wsem := wsem (sy_world s) - 1\<rparr>, sy_waiting := sy_waiting s - {#c#},
        sy_inside := add_mset (c, sy_world s, pieces c) (sy_inside s)\<rparr>)"
| steps: "interleaved ok pieces w0 s \<Longrightarrow> (c, w1, Step f k) \<in># sy_inside s \<Longrightarrow>
    interleaved ok pieces w0
      (s\<lparr>sy_world := f (sy_world s),
        sy_inside := add_mset (c, w1, k (sy_world s)) (sy_inside s - {#(c, w1, Step f k)#})\<rparr>)"
| gives_back: "interleaved ok pieces w0 s \<Longrightarrow> (c, w1, Finished) \<in># sy_inside s \<Longrightarrow>
    interleaved ok pieces w0
      (s\<lparr>sy_world := (sy_world s)\<lparr>wsem := wsem (sy_world s) + posts c w1\<rparr>,
        sy_inside := sy_inside s - {#(c, w1, Finished)#}, sy_leaving := add_mset (c, w1) (sy_leaving s),
        sy_done := sy_done s @ [c]\<rparr>)"
| leaves: "interleaved ok pieces w0 s \<Longrightarrow> (c, w1) \<in># sy_leaving s \<Longrightarrow>
    interleaved ok pieces w0
      (s\<lparr>sy_world := after_post c w1 (sy_world s), sy_leaving := sy_leaving s - {#(c, w1)#},
        sy_waiting := (case follow c w1 of None \<Rightarrow> sy_waiting s | Some d \<Rightarrow> add_mset d (sy_waiting s))\<rparr>)"
| passes: "interleaved ok pieces w0 s \<Longrightarrow> c \<in># sy_waiting s \<Longrightarrow> \<not> locked c \<Longrightarrow>
    interleaved ok pieces w0
      (s\<lparr>sy_world := db_effect c (sy_world s), sy_waiting := sy_waiting s - {#c#}, sy_done := sy_done s @ [c]\<rparr>)"

text \<open>Any sections can wait at the start.\<close>

lemma interleaved_waiting:
  assumes "\<forall>c \<in> set cs. ok c"
  shows "interleaved ok pieces w0 \<lparr>sy_world = w0, sy_waiting = mset cs, sy_inside = {#}, sy_leaving = {#}, sy_done = []\<rparr>"
  using assms
proof (induction cs)
  case Nil
  show ?case using interleaved.begins [of ok pieces w0] by simp
next
  case (Cons c cs)
  then have "interleaved ok pieces w0 \<lparr>sy_world = w0, sy_waiting = mset cs, sy_inside = {#}, sy_leaving = {#}, sy_done = []\<rparr>" and "ok c"
    by simp_all
  from interleaved.arrives [OF this(1), where c = c, OF this(2)] show ?case by simp
qed

section \<open>One section at a time\<close>

definition one_by_one :: "db_call list \<Rightarrow> world \<Rightarrow> world" where
  "one_by_one cs w = fold db_effect cs w"

lemma one_by_one_simps [simp]:
  "one_by_one [] w = w" "one_by_one (cs @ [c]) w = db_effect c (one_by_one cs w)"
  by (simp_all add: one_by_one_def)

text \<open>A section that waits has done all of its work by the time it posts.\<close>

lemma locked_done:
  assumes "locked c" and "0 < wsem w" and "0 < k"
  shows "no_sem (db_effect c (w\<lparr>wsem := k\<rparr>)) = no_sem (db_effect c w)"
  using assms
  by (cases c) (simp_all only: locked_def db_effect.simps guarded_section_done guarded_accounts guarded_lists guarded_auctions, simp_all)

lemma until_post_eq:
  assumes "locked c" and "0 < wsem w"
  shows "until_post c w = (db_effect c w)\<lparr>wsem := wsem w\<rparr>"
  using no_sem_upd [OF locked_done [OF assms, of "Suc SEM_VALUE_MAX"]] by (simp add: until_post_def)

lemma after_post_nothing:
  assumes "locked c" and "0 < wsem w1"
  shows "after_post c w1 w = w"
  using until_post_eq [OF assms] by (simp add: after_post_def)

lemma posts_eq: "wsem w1 = 1 \<Longrightarrow> posts c w1 = wsem (db_effect c w1)"
  by (cases w1) (simp add: posts_def)

text \<open>The invariant: either nobody is inside, or one section is, and what it has still to do makes up for it.\<close>

definition exclusive :: "world \<Rightarrow> system \<Rightarrow> bool" where
  "exclusive w0 s \<longleftrightarrow>
     (\<forall>c \<in># sy_waiting s. locked c) \<and> (\<forall>(c, w1) \<in># sy_leaving s. locked c \<and> 0 < wsem w1) \<and>
     (sy_inside s = {#} \<and> sy_world s = one_by_one (sy_done s) w0 \<and> wsem (sy_world s) \<le> 1 \<or>
      (\<exists>c w1 t. sy_inside s = {#(c, w1, t)#} \<and> w1 = one_by_one (sy_done s) w0 \<and> locked c \<and> wsem w1 = 1 \<and>
         wsem (sy_world s) = 0 \<and> keeps_sem t \<and> run_thread t (sy_world s) = until_post c (w1\<lparr>wsem := 0\<rparr>)))"

lemma exclusiveE:
  assumes "exclusive w0 s"
  obtains "sy_inside s = {#}" "sy_world s = one_by_one (sy_done s) w0" "wsem (sy_world s) \<le> 1"
    "\<forall>c \<in># sy_waiting s. locked c" "\<forall>(c, w1) \<in># sy_leaving s. locked c \<and> 0 < wsem w1"
  | c w1 t where "sy_inside s = {#(c, w1, t)#}" "w1 = one_by_one (sy_done s) w0" "locked c" "wsem w1 = 1"
    "wsem (sy_world s) = 0" "keeps_sem t" "run_thread t (sy_world s) = until_post c (w1\<lparr>wsem := 0\<rparr>)"
    "\<forall>c \<in># sy_waiting s. locked c" "\<forall>(c, w1) \<in># sy_leaving s. locked c \<and> 0 < wsem w1"
  using assms unfolding exclusive_def by blast

text \<open>What a section leaves once it has posted.\<close>

lemma section_over:
  assumes "locked c" and "wsem w1 = 1"
  shows "(until_post c (w1\<lparr>wsem := 0\<rparr>))\<lparr>wsem := posts c w1\<rparr> = db_effect c w1"
proof -
  have "until_post c (w1\<lparr>wsem := 0\<rparr>) = (until_post c w1)\<lparr>wsem := 0\<rparr>" by (simp add: until_post_def)
  then show ?thesis using until_post_eq [OF assms(1), of w1] assms(2) by (simp add: posts_eq)
qed

lemma interleaved_exclusive:
  assumes "interleaved locked pieces w0 s" and "wsem w0 \<le> 1" and "\<And>c. is_cut c (pieces c)"
  shows "exclusive w0 s"
  using assms(1)
proof (induction rule: interleaved.induct)
  case begins
  then show ?case using assms(2) by (simp add: exclusive_def)
next
  case (arrives s c)
  then show ?case by (auto simp: exclusive_def)
next
  case (enters s c)
  from enters.IH show ?case
  proof (cases rule: exclusiveE)
    case 1
    have "wsem (sy_world s) = 1" using 1(3) enters.hyps(4) by simp
    moreover have "keeps_sem (pieces c) \<and> (\<forall>w. run_thread (pieces c) w = until_post c w)"
      using assms(3) by (simp add: is_cut_def)
    ultimately show ?thesis
      using 1 enters.hyps(3) by (auto simp: exclusive_def dest: in_diffD)
  qed (use enters.hyps(4) in simp)
next
  case (steps s c w1 f k)
  from steps.IH show ?case
  proof (cases rule: exclusiveE)
    case 1
    then show ?thesis using steps.hyps(2) by simp
  next
    case (2 c' w1' t)
    then show ?thesis using steps.hyps(2) by (auto simp: exclusive_def)
  qed
next
  case (gives_back s c w1)
  from gives_back.IH show ?case
  proof (cases rule: exclusiveE)
    case 1
    then show ?thesis using gives_back.hyps(2) by simp
  next
    case (2 c' w1' t)
    then have c: "c' = c" "w1' = w1" "t = Finished" using gives_back.hyps(2) by simp_all
    then have "(sy_world s)\<lparr>wsem := wsem (sy_world s) + posts c w1\<rparr> = db_effect c w1"
      using 2 section_over [of c w1] by simp
    moreover have "wsem (db_effect c w1) \<le> 1" using locked_sem [of c w1] 2 c by simp
    ultimately show ?thesis using 2 c by (auto simp: exclusive_def)
  qed
next
  case (leaves s c w1)
  have c: "locked c" "0 < wsem w1" using leaves.IH leaves.hyps(2) by (auto simp: exclusive_def)
  then have "after_post c w1 (sy_world s) = sy_world s" by (rule after_post_nothing)
  then show ?case
    using leaves.IH leaves.hyps(2) by (auto simp: exclusive_def split: option.splits dest: follow_locked in_diffD)
next
  case (passes s c)
  then show ?case by (auto simp: exclusive_def)
qed

section \<open>The store through it all\<close>

text \<open>The sections a client can ask for without Unregister, with arguments of the right form.\<close>

fun valid_call :: "db_call \<Rightarrow> bool" where
  "valid_call (C_login u pw) = is_password pw"
| "valid_call (C_logout u pw) = is_password pw"
| "valid_call (C_open u n pw fn sv ta sz d) =
     (\<exists>x. good_opening x \<and> is_password pw \<and> u = op_user x \<and> n = op_name x \<and> fn = op_asset x \<and>
        sv = to_string (op_start_value x) \<and> ta = to_string (op_timeactive x) \<and> d = op_data x)"
| "valid_call (C_close a u pw) = (is_uid u \<and> is_aid a \<and> is_password pw)"
| "valid_call (C_my_auctions u) = (\<exists>uid. u = to_string uid)"
| "valid_call (C_my_bids u) = (\<exists>uid. u = to_string uid)"
| "valid_call (C_asset p) = True"
| "valid_call (C_bid u pw a v) = (is_uid u \<and> is_aid a \<and> is_password pw \<and> (\<exists>x. x \<noteq> 0 \<and> v = to_string x))"
| "valid_call (C_record a) = is_aid a"
| "valid_call _ = False"

lemma asset_section_keeps: "keeps (asset_section p)"
proof (rule keepsI)
  fix w assume w: "server_inv w"
  show "server_inv (snd (asset_section p w))"
  proof (cases "wsem w = 0")
    case False
    note sem = sem_okD [OF server_inv_sem [OF w False]]
    show ?thesis using w sem by (simp add: asset_section_def prog_simps)
  qed (simp add: asset_section_def prog_simps w)
qed

lemma valid_call_keeps:
  assumes "valid_call c" and "server_inv w"
  shows "server_inv (db_effect c w)"
proof (cases c)
  case (C_open u n pw fn sv ta sz d)
  then obtain x where x: "good_opening x" "is_password pw" "u = op_user x" "n = op_name x" "fn = op_asset x"
    "sv = to_string (op_start_value x)" "ta = to_string (op_timeactive x)" "d = op_data x"
    using assms(1) by auto
  have "db_effect c w = snd (open_auction pw x sz w)" by (simp add: C_open x open_auction_def)
  then show ?thesis using keepsD [OF keeps_open [OF x(1,2)] assms(2), of sz] by simp
qed (use assms keepsD [OF keeps_account_calls(1) assms(2)] keepsD [OF keeps_account_calls(2) assms(2)]
    keepsD [OF keeps_close assms(2)] keepsD [OF keeps_lists(1) assms(2)] keepsD [OF keeps_lists(2) assms(2)]
    keepsD [OF keeps_bid assms(2)] keepsD [OF keeps_records(1) assms(2)] keepsD [OF asset_section_keeps assms(2)]
    in auto)

lemma valid_call_follow: "valid_call c \<Longrightarrow> follow c w = None"
  by (cases c) auto

lemma interleaved_ok:
  assumes "interleaved ok pieces w0 s" and "\<And>c w d. ok c \<Longrightarrow> follow c w = Some d \<Longrightarrow> ok d"
  shows "(\<forall>c \<in># sy_waiting s. ok c) \<and> (\<forall>(c, w1, t) \<in># sy_inside s. ok c) \<and>
    (\<forall>(c, w1) \<in># sy_leaving s. ok c) \<and> (\<forall>c \<in> set (sy_done s). ok c)"
  using assms(1)
proof (induction rule: interleaved.induct)
  case (enters s c)
  then show ?case by (auto dest: in_diffD)
next
  case (steps s c w1 f k)
  then show ?case by (fastforce dest: in_diffD)
next
  case (gives_back s c w1)
  have "ok c" using gives_back.IH gives_back.hyps(2) by blast
  moreover have "\<forall>x \<in># sy_inside s - {#(c, w1, Finished)#}. case x of (c, w1, t) \<Rightarrow> ok c"
    using gives_back.IH by (blast dest: in_diffD)
  ultimately show ?case using gives_back.IH by simp
next
  case (leaves s c w1)
  have "ok c" using leaves.IH leaves.hyps(2) by blast
  moreover have "\<forall>x \<in># sy_leaving s - {#(c, w1)#}. case x of (c, w1) \<Rightarrow> ok c"
    using leaves.IH by (blast dest: in_diffD)
  ultimately show ?case
    using leaves.IH assms(2) [of c] by (simp split: option.split)
next
  case (passes s c)
  then show ?case by (auto dest: in_diffD)
qed auto

lemma interleaved_mono:
  assumes "interleaved ok pieces w0 s" and "\<And>c. ok c \<Longrightarrow> ok' c"
  shows "interleaved ok' pieces w0 s"
  using assms(1) by (induction rule: interleaved.induct) (blast intro: interleaved.intros assms(2))+

lemma one_by_one_keeps:
  assumes "\<forall>c \<in> set cs. valid_call c" and "server_inv w"
  shows "server_inv (one_by_one cs w)"
  using assms by (induction cs rule: rev_induct) (simp_all add: valid_call_keeps)

section \<open>A section in one go\<close>

lemma runs_whole:
  assumes "interleaved ok whole w0 s" and "c \<in># sy_waiting s" and "locked c" and "wsem (sy_world s) = 1"
    and "sy_inside s = {#}" and "sy_leaving s = {#}"
  shows "interleaved ok whole w0
    (s\<lparr>sy_world := db_effect c (sy_world s),
      sy_waiting := (case follow c (sy_world s) of None \<Rightarrow> sy_waiting s - {#c#} | Some d \<Rightarrow> add_mset d (sy_waiting s - {#c#})),
      sy_done := sy_done s @ [c]\<rparr>)"
proof -
  obtain w A D where s: "s = \<lparr>sy_world = w, sy_waiting = A, sy_inside = {#}, sy_leaving = {#}, sy_done = D\<rparr>"
    using assms(5,6) by (cases s) simp
  have w: "wsem w = 1" "0 < wsem w" "c \<in># A" using assms(2,4) by (simp_all add: s)
  have "interleaved ok whole w0 \<lparr>sy_world = w, sy_waiting = A, sy_inside = {#}, sy_leaving = {#}, sy_done = D\<rparr>"
    using assms(1) by (simp add: s)
  from interleaved.enters [OF this, of c]
  have "interleaved ok whole w0 \<lparr>sy_world = w\<lparr>wsem := 0\<rparr>, sy_waiting = A - {#c#},
      sy_inside = {#(c, w, Step (until_post c) (\<lambda>_. Finished))#}, sy_leaving = {#}, sy_done = D\<rparr>"
    using w assms(3) by (simp add: whole_def)
  from interleaved.steps [OF this, of c w "until_post c" "\<lambda>_. Finished"]
  have "interleaved ok whole w0 \<lparr>sy_world = until_post c (w\<lparr>wsem := 0\<rparr>), sy_waiting = A - {#c#},
      sy_inside = {#(c, w, Finished)#}, sy_leaving = {#}, sy_done = D\<rparr>" by simp
  from interleaved.gives_back [OF this, of c w]
  have "interleaved ok whole w0 \<lparr>sy_world = db_effect c w, sy_waiting = A - {#c#},
      sy_inside = {#}, sy_leaving = {#(c, w)#}, sy_done = D @ [c]\<rparr>"
    using section_over [OF assms(3) w(1)] by (simp add: until_post_def)
  from interleaved.leaves [OF this, of c w] show ?thesis
    using after_post_nothing [OF assms(3) w(2)] by (cases "follow c w") (simp_all add: s)
qed

section \<open>A password erased under a login\<close>

text \<open>The store when the password of a user who is logged in is gone.\<close>

lemma lost_password:
  assumes "closed_fs (wfs w)" and "is_uid u" and "account (wfs w) u = \<lparr>acc_password = None, acc_logged_in = True\<rparr>"
    and "sem_ok w"
  shows "LoginUser u pw w = (Throw UserNotLoggedIn, w)" and "Logout u pw w = (Ret DB_LOGOUT_NOK, w)"
    and "Unregister u pw w = (Ret DB_UNREGISTER_NOK, w)"
proof -
  note sem = sem_okD [OF assms(4)]
  have f: "look (wfs w) (passP u) = None" "look (wfs w) (loginP u) \<noteq> None"
    using assms(3) by (simp_all add: account_def)
  have p: "CorrectPassword (wfs w) u pw \<noteq> 1"
    using f(1) assms(1) by (simp add: CorrectPassword_def path_join fopen_r_join text_at_def)
  have l: "CheckUserLoggedIn (wfs w) u = 0"
    using f(2) assms(1,2) by (auto simp: CheckUserLoggedIn_def path_join fopen_r_join)
  show "LoginUser u pw w = (Throw UserNotLoggedIn, w)" "Logout u pw w = (Ret DB_LOGOUT_NOK, w)"
    "Unregister u pw w = (Ret DB_UNREGISTER_NOK, w)"
    using p l by (simp_all add: LoginUser_def Logout_def Unregister_def prog_simps sem)
qed

end
