(* ===== verification/Concurrency_Theorems.thy ===== *)
theory Concurrency_Theorems
  imports Concurrency Example_Store
begin

text \<open>
  The properties of the processes running side by side: sections of the database exclude each other and
  have the effect of some order of them, until the list of all auctions is asked for once.
\<close>

text \<open>C13: While every section waits for the semaphore, at most one of them is between its wait and its post at a time,
  however the part in between is cut into steps and however the steps of all sections interleave, those they make
  after their posts included; and the shared state is what the sections make of it when they run one after the other
  in the order in which they post, with what the running one has still to do before and with its post making up for
  the rest. The semaphore is at most 1 in the beginning. So each has done all of its work on the files by the time it posts.\<close>

theorem sections_serialise:
  assumes "interleaved locked pieces w0 s" and "wsem w0 \<le> 1" and "\<forall>c. is_cut c (pieces c)"
  shows "size (sy_inside s) \<le> 1 \<and>
    (sy_inside s = {#} \<longrightarrow> sy_world s = one_by_one (sy_done s) w0) \<and>
    (\<forall>(c, w1, t) \<in># sy_inside s. w1 = one_by_one (sy_done s) w0 \<and>
       (run_thread t (sy_world s))\<lparr>wsem := posts c w1\<rparr> = db_effect c w1) \<and>
    (\<forall>(c, w1) \<in># sy_leaving s. \<forall>w. after_post c w1 w = w)"
proof -
  have "exclusive w0 s" by (rule interleaved_exclusive [OF assms(1,2)]) (simp add: assms(3))
  then show ?thesis
    by (cases rule: exclusiveE) (use after_post_nothing section_over in \<open>fastforce+\<close>)
qed

definition example_system :: system where
  "example_system =
     (let w = example_world example_users 1 1000;
          c = C_login ''345678'' alice_pw
      in \<lparr>sy_world = w\<lparr>wsem := 0\<rparr>, sy_waiting = {#C_login ''456789'' bob_pw#}, sy_inside = {#(c, w, whole c)#}, sy_leaving = {#}, sy_done = []\<rparr>)"

lemma example_system_reached:
  assumes "ok (C_login ''345678'' alice_pw)" and "ok (C_login ''456789'' bob_pw)"
  shows "interleaved ok whole (example_world example_users 1 1000) example_system"
proof -
  let ?w = "example_world example_users 1 1000" and ?c = "C_login ''345678'' alice_pw" and ?d = "C_login ''456789'' bob_pw"
  have "interleaved ok whole ?w \<lparr>sy_world = ?w, sy_waiting = {#?c, ?d#}, sy_inside = {#}, sy_leaving = {#}, sy_done = []\<rparr>"
    using interleaved_waiting [of "[?c, ?d]" ok whole ?w] assms by simp
  from interleaved.enters [OF this, of ?c] show ?thesis
    by (simp add: example_system_def Let_def locked_def)
qed

lemma sections_serialise_example: "size (sy_inside example_system) \<le> 1"
  using sections_serialise [OF example_system_reached [of locked]] by (simp add: locked_def)

text \<open>C14: Any interleaving of sections that wait on the semaphore and have arguments of the form valid_call asks for keeps the
  store well-formed: each section begins in a well-formed state, and so is the state whenever none of them runs, from a
  well-formed state whose semaphore is at most 1. Two methods are left out: Unregister, which lets others in between its two
  sections, and the list of all auctions, which posts without having waited. The form of the arguments: a login and a logout
  have a password of eight letters or digits; a closing and a bid a user id of six digits, not all 0, an auction id of
  three, such a password, and the bid a value that is not 0; a record an auction id of three digits; the two lists of a user a number; and an opening the
  form good_opening, with printable names of at most 24 characters without whitespace, a file name without a slash that
  is not just one dot or two, a start value below 10^6 and a duration from 1 to 99999, which a client can violate.\<close>

theorem interleaving_keeps_store:
  assumes "interleaved valid_call pieces w0 s" and "server_inv w0" and "wsem w0 \<le> 1" and "\<forall>c. is_cut c (pieces c)"
  shows "(sy_inside s = {#} \<longrightarrow> server_inv (sy_world s)) \<and> (\<forall>(c, w1, t) \<in># sy_inside s. server_inv w1)"
proof -
  have "locked c" if "valid_call c" for c using that by (cases c) (simp_all add: locked_def)
  then have "interleaved locked pieces w0 s" by (rule interleaved_mono [OF assms(1)])
  then have "exclusive w0 s" by (rule interleaved_exclusive [OF _ assms(3)]) (simp add: assms(4))
  moreover have "\<forall>c \<in> set (sy_done s). valid_call c"
    using interleaved_ok [OF assms(1)] by (simp add: valid_call_follow)
  then have "server_inv (one_by_one (sy_done s) w0)" by (rule one_by_one_keeps [OF _ assms(2)])
  ultimately show ?thesis by (cases rule: exclusiveE) auto
qed

lemma interleaving_keeps_store_example:
  "\<exists>c w1 t. sy_inside example_system = {#(c, w1, t)#} \<and> server_inv w1"
  using interleaving_keeps_store [OF example_system_reached [of valid_call]]
  by (simp add: example_inv example_users_facts example_system_def Let_def)

text \<open>C22: One request for the list of all auctions ends the exclusion: it posts the semaphore without having waited, so
  that afterwards any two sections can run at the same time.\<close>

theorem list_lets_two_in:
  assumes "server_inv w0" and "wsem w0 = 1" and "locked c" and "locked d"
  shows "\<exists>s. interleaved (\<lambda>_. True) pieces w0 s \<and> sy_done s = [C_list] \<and> size (sy_inside s) = 2 \<and>
    image_mset fst (sy_inside s) = {#c, d#}"
proof -
  let ?w = "db_effect C_list w0"
  have "wsem w0 < SEM_VALUE_MAX" using assms(2) by (simp add: SEM_VALUE_MAX_def)
  then obtain L f' n where "Db_List w0 = (Ret L, w0\<lparr>wfs := f', wcalls := n, wsem := Suc (wsem w0)\<rparr>)"
    using Db_List_run [OF server_invD(1,2) [OF assms(1)]] by blast
  then have two: "wsem ?w = 2" using assms(2) by simp
  have "interleaved (\<lambda>_. True) pieces w0 \<lparr>sy_world = w0, sy_waiting = {#c, d, C_list#}, sy_inside = {#}, sy_leaving = {#}, sy_done = []\<rparr>"
    using interleaved_waiting [of "[c, d, C_list]" "\<lambda>_. True" pieces w0] by simp
  from interleaved.passes [OF this, of C_list]
  have "interleaved (\<lambda>_. True) pieces w0 \<lparr>sy_world = ?w, sy_waiting = {#c, d#}, sy_inside = {#}, sy_leaving = {#}, sy_done = [C_list]\<rparr>"
    by (simp add: locked_def del: db_effect.simps)
  from interleaved.enters [OF this, of c] two assms(3)
  have "interleaved (\<lambda>_. True) pieces w0 \<lparr>sy_world = ?w\<lparr>wsem := 1\<rparr>, sy_waiting = {#d#},
      sy_inside = {#(c, ?w, pieces c)#}, sy_leaving = {#}, sy_done = [C_list]\<rparr>"
    by (simp del: db_effect.simps)
  from interleaved.enters [OF this, of d] assms(4)
  have "interleaved (\<lambda>_. True) pieces w0 \<lparr>sy_world = ?w\<lparr>wsem := 0\<rparr>, sy_waiting = {#},
      sy_inside = {#(d, ?w\<lparr>wsem := 1\<rparr>, pieces d), (c, ?w, pieces c)#}, sy_leaving = {#}, sy_done = [C_list]\<rparr>"
    by (simp del: db_effect.simps)
  then show ?thesis by (intro exI conjI) (assumption, simp_all add: add_mset_commute)
qed

lemma list_lets_two_in_example:
  "\<exists>s. interleaved (\<lambda>_. True) whole (example_world example_users 1 1000) s \<and> size (sy_inside s) = 2"
  using list_lets_two_in [of "example_world example_users 1 1000" "C_record ''001''" "C_record ''002''" whole]
  by (auto simp: example_inv example_users_facts locked_def)

text \<open>C23: Unregister gives the semaphore back between logging the user out and erasing the password. Where the same user
  logs in at that moment, from another client, the sections end with a user who is logged in and has no password;
  from then on every login of this user throws, and every logout and unregistering is refused, whatever password
  comes with it.\<close>

theorem unregister_race:
  assumes "server_inv w0" and "wsem w0 = 1" and "is_uid u" and "is_password pw"
    and "account (wfs w0) u = \<lparr>acc_password = Some pw, acc_logged_in = True\<rparr>"
  shows "\<exists>s. interleaved locked whole w0 s \<and> sy_waiting s = {#} \<and> sy_inside s = {#} \<and> sy_leaving s = {#} \<and>
    sy_done s = [C_unregister u pw, C_unregister_logout u pw, C_login u pw, C_unregister_erase u] \<and>
    account (wfs (sy_world s)) u = \<lparr>acc_password = None, acc_logged_in = True\<rparr> \<and>
    (\<forall>pw'. LoginUser u pw' (sy_world s) = (Throw UserNotLoggedIn, sy_world s) \<and>
           Logout u pw' (sy_world s) = (Ret DB_LOGOUT_NOK, sy_world s) \<and>
           Unregister u pw' (sy_world s) = (Ret DB_UNREGISTER_NOK, sy_world s))"
proof -
  have sem: "sem_ok w0" and inv: "users_inv (wfs w0)" using assms(1,2) by (simp_all add: sem_ok_def SEM_VALUE_MAX_def server_invD)
  let ?c1 = "C_unregister u pw" and ?c2 = "C_unregister_logout u pw" and ?c3 = "C_login u pw" and ?c4 = "C_unregister_erase u"
  have e1: "unregister_check u pw w0 = (Ret True, w0)"
    using CorrectPassword_eq [OF inv assms(3,4)] assms(5) sem_okD [OF sem] by (simp add: unregister_check_def prog_simps)
  obtain f1 where e2: "Logout u pw w0 = (Ret DB_LOGOUT_OK, w0\<lparr>wfs := f1\<rparr>)" and i1: "users_inv f1"
    and a1: "account f1 u = \<lparr>acc_password = Some pw, acc_logged_in = False\<rparr>"
    using Logout_runs [OF inv assms(3,4) sem] assms(5) by (auto simp: runs_account_def account_logout_def user_step_def)
  let ?w1 = "w0\<lparr>wfs := f1\<rparr>"
  have sem1: "sem_ok ?w1" using sem by (simp add: sem_ok_def)
  obtain f2 where e3: "LoginUser u pw ?w1 = (Ret DB_LOGIN_OK, w0\<lparr>wfs := f2\<rparr>)" and i2: "users_inv f2"
    and a2: "account f2 u = \<lparr>acc_password = Some pw, acc_logged_in = True\<rparr>"
    using LoginUser_runs [of ?w1, OF _ assms(3,4) sem1] i1 a1 by (auto simp: runs_account_def account_login_def user_step_def)
  let ?w2 = "w0\<lparr>wfs := f2\<rparr>" and ?w3 = "w0\<lparr>wfs := AList.delete (passP u) f2\<rparr>"
  have pass: "look f2 (passP u) \<noteq> None" by (rule account_password_file) (simp add: a2)
  have sem2: "sem_ok ?w2" and sem3: "sem_ok ?w3" using sem by (simp_all add: sem_ok_def)
  have e4: "snd (unregister_erase u ?w2) = ?w3"
    using ErasePassword_eq [OF i2 assms(3) pass] sem_okD [OF sem2] by (simp add: unregister_erase_def prog_simps)
  have "\<not> dir_at f2 (passP u)" using users_invD(5) [OF i2 assms(3)] by (auto simp: user_inv_def dir_at_def)
  then have c3: "closed_fs (wfs ?w3)" using closed_delete [OF users_invD(1) [OF i2]] assms(3) by simp
  have a3: "account (wfs ?w3) u = \<lparr>acc_password = None, acc_logged_in = True\<rparr>"
    using a2 assms(3) by (auto simp: account_def fs_simps)
  have "interleaved locked whole w0 \<lparr>sy_world = w0, sy_waiting = {#?c1, ?c3#}, sy_inside = {#}, sy_leaving = {#}, sy_done = []\<rparr>"
    using interleaved_waiting [of "[?c1, ?c3]" locked whole w0] by (simp add: locked_def)
  from runs_whole [OF this, of ?c1]
  have "interleaved locked whole w0 \<lparr>sy_world = w0, sy_waiting = {#?c2, ?c3#}, sy_inside = {#}, sy_leaving = {#}, sy_done = [?c1]\<rparr>"
    by (simp add: locked_def assms(2) e1)
  from runs_whole [OF this, of ?c2]
  have "interleaved locked whole w0 \<lparr>sy_world = ?w1, sy_waiting = {#?c4, ?c3#}, sy_inside = {#}, sy_leaving = {#}, sy_done = [?c1, ?c2]\<rparr>"
    by (simp add: locked_def assms(2) e2 db_defs)
  from runs_whole [OF this, of ?c3]
  have "interleaved locked whole w0 \<lparr>sy_world = ?w2, sy_waiting = {#?c4#}, sy_inside = {#}, sy_leaving = {#}, sy_done = [?c1, ?c2, ?c3]\<rparr>"
    by (simp add: locked_def assms(2) e3)
  from runs_whole [OF this, of ?c4]
  have "interleaved locked whole w0 \<lparr>sy_world = ?w3, sy_waiting = {#}, sy_inside = {#}, sy_leaving = {#}, sy_done = [?c1, ?c2, ?c3, ?c4]\<rparr>"
    by (simp add: locked_def assms(2) e4)
  with a3 lost_password [OF c3 assms(3) a3 sem3] show ?thesis
    by (intro exI [of _ "\<lparr>sy_world = ?w3, sy_waiting = {#}, sy_inside = {#}, sy_leaving = {#}, sy_done = [?c1, ?c2, ?c3, ?c4]\<rparr>"]) simp
qed

lemma unregister_race_example:
  "\<exists>s. interleaved locked whole (example_world example_users 1 1000) s \<and>
     account (wfs (sy_world s)) bob = \<lparr>acc_password = None, acc_logged_in = True\<rparr>"
  using unregister_race [of "example_world example_users 1 1000" bob bob_pw]
  by (auto simp: example_inv example_users_facts)

end
