(* ===== verification/System_Calls.thy ===== *)
theory System_Calls
  imports Sockets
begin

text \<open>
  The system calls both programs set up their sockets with, on the state the kernel keeps for a process: its
  table of descriptors, the dispositions of signals and the address lists handed out. Whether a call
  succeeds is up to the rest of the system, a parameter; what a call does to the table follows POSIX: a new
  descriptor is the lowest one free, a call on a descriptor that is not open fails, and a closed one is free.
\<close>

section \<open>The interface of a table of descriptors\<close>

locale descriptor_table =
  fixes fresh :: "'t \<Rightarrow> int"
    and put :: "'d \<Rightarrow> 't \<Rightarrow> 't"
    and change :: "int \<Rightarrow> 'd \<Rightarrow> 't \<Rightarrow> 't"
    and release :: "int \<Rightarrow> 't \<Rightarrow> 't"
    and view :: "'t \<Rightarrow> int \<Rightarrow> 'd option"
  assumes fresh_nonneg: "0 \<le> fresh t"
    and fresh_free: "view t (fresh t) = None"
    and view_put: "view (put d t) = (view t)(fresh t := Some d)"
    and view_change: "view t fd \<noteq> None \<Longrightarrow> view (change fd d t) = (view t)(fd := Some d)"
    and view_release: "view (release fd t) = (view t)(fd := None)"
    and finite_view: "finite (dom (view t))"
begin

lemma fresh_not_minus: "fresh t \<noteq> -1"
  using fresh_nonneg [of t] by simp

text \<open>Closing the descriptor last opened gives the table back, whatever was set on it.\<close>

lemma put_release: "view (release (fresh t) (put d t)) = view t"
  by (simp add: view_release view_put fun_upd_idem fresh_free)

lemma put_change: "view (change (fresh t) d' (put d t)) = (view t)(fresh t := Some d')"
  by (simp add: view_change view_put)

lemma release_unused: "view t fd = None \<Longrightarrow> view (release fd t) = view t"
  by (simp add: view_release fun_upd_idem)

definition opened :: "'t \<Rightarrow> nat" where
  "opened t = card (dom (view t))"

lemma opened_put: "opened (put d t) = Suc (opened t)"
proof -
  have "fresh t \<notin> dom (view t)" by (simp add: domIff fresh_free)
  then show ?thesis by (simp add: opened_def view_put card_insert_disjoint [OF finite_view])
qed

lemma opened_release: "view t fd \<noteq> None \<Longrightarrow> opened (release fd t) = opened t - 1"
  by (simp add: opened_def view_release card_Diff_singleton_if domIff)

end

section \<open>The table of a process\<close>

datatype socket_type = SOCK_DGRAM | SOCK_STREAM

record socket_state =
  sk_type :: socket_type
  sk_reuseaddr :: bool
  sk_rcvtimeo :: "(nat \<times> nat) option"
  sk_sndtimeo :: "(nat \<times> nat) option"
  sk_bound :: "string option"
  sk_backlog :: "nat option"

definition new_socket :: "socket_type \<Rightarrow> socket_state" where
  "new_socket ty = \<lparr>sk_type = ty, sk_reuseaddr = False, sk_rcvtimeo = None, sk_sndtimeo = None, sk_bound = None,
     sk_backlog = None\<rparr>"

datatype descriptor = Std_stream | Socket socket_state | File_stream

fun table_lowest :: "'d option list \<Rightarrow> nat" where
  "table_lowest [] = 0"
| "table_lowest (None # t) = 0"
| "table_lowest (Some d # t) = Suc (table_lowest t)"

definition table_fresh :: "'d option list \<Rightarrow> int" where
  "table_fresh t = int (table_lowest t)"

definition table_view :: "'d option list \<Rightarrow> int \<Rightarrow> 'd option" where
  "table_view t fd = (if 0 \<le> fd \<and> nat fd < length t then t ! nat fd else None)"

definition table_put :: "'d \<Rightarrow> 'd option list \<Rightarrow> 'd option list" where
  "table_put d t =
     (if table_lowest t < length t then t[table_lowest t := Some d] else t @ [Some d])"

definition table_change :: "int \<Rightarrow> 'd \<Rightarrow> 'd option list \<Rightarrow> 'd option list" where
  "table_change fd d t = (if 0 \<le> fd then t[nat fd := Some d] else t)"

definition table_release :: "int \<Rightarrow> 'd option list \<Rightarrow> 'd option list" where
  "table_release fd t = (if 0 \<le> fd then t[nat fd := None] else t)"

lemma table_lowest_bounds: "table_lowest t \<le> length t \<and> (table_lowest t < length t \<longrightarrow> t ! table_lowest t = None)"
  by (induction t rule: table_lowest.induct) auto

interpretation fds: descriptor_table table_fresh table_put table_change table_release table_view
proof
  fix t :: "'d option list" and fd :: int and d :: 'd
  note low = table_lowest_bounds [of t]
  show "0 \<le> table_fresh t" by (simp add: table_fresh_def)
  show "table_view t (table_fresh t) = None" using low by (simp add: table_fresh_def table_view_def)
  show "table_view (table_put d t) = (table_view t)(table_fresh t := Some d)"
  proof
    fix x
    show "table_view (table_put d t) x = ((table_view t)(table_fresh t := Some d)) x"
      using low by (auto simp: table_view_def table_put_def table_fresh_def nth_list_update nth_append)
  qed
  show "table_view t fd \<noteq> None \<Longrightarrow> table_view (table_change fd d t) = (table_view t)(fd := Some d)"
    by (rule ext) (auto simp: table_view_def table_change_def nth_list_update split: if_splits)
  show "table_view (table_release fd t) = (table_view t)(fd := None)"
    by (rule ext) (auto simp: table_view_def table_release_def nth_list_update)
  have "dom (table_view t) \<subseteq> {0..int (length t)}" by (auto simp: table_view_def split: if_splits)
  then show "finite (dom (table_view t))" by (rule finite_subset) simp
qed

definition table_count :: "'d option list \<Rightarrow> nat" where
  "table_count t = length (filter (\<lambda>x. x \<noteq> None) t)"

lemma table_count_opened: "table_count t = fds.opened t"
proof -
  have "dom (table_view t) = int ` {i. i < length t \<and> t ! i \<noteq> None}"
    by (force simp: table_view_def split: if_splits intro!: image_eqI [where x = "nat _"])
  then have "fds.opened t = card {i. i < length t \<and> t ! i \<noteq> None}"
    by (simp add: fds.opened_def card_image)
  then show ?thesis by (simp add: table_count_def length_filter_conv_card)
qed

section \<open>The process\<close>

datatype signal_name = SIGPIPE | SIGCHLD | SIGINT
datatype disposition = SIG_DFL | SIG_IGN | Sig_int_handler

record 'n process =
  pr_table :: "descriptor option list"
  pr_limit :: nat
  pr_signals :: "signal_name \<Rightarrow> disposition"
  pr_addrinfos :: nat
  pr_rest :: 'n

datatype syscall =
    Sys_socket | Sys_setsockopt | Sys_sigaction | Sys_getaddrinfo | Sys_bind | Sys_listen | Sys_connect | Sys_close | Sys_fork

text \<open>
  What the rest of the system does, on a state of its own: whether a call succeeds; how many bytes a write
  or a sendto takes and the chunks that the reads of a connection find; what accept does, with the value of
  sig_int and whether errno is EAGAIN where it fails.
\<close>

datatype accepted = Accepted | Not_accepted bool bool

record 'n calls =
  ca_ok :: "syscall \<Rightarrow> 'n \<Rightarrow> bool \<times> 'n"
  ca_write :: "string \<Rightarrow> 'n \<Rightarrow> int \<times> 'n"
  ca_sendto :: "string \<Rightarrow> 'n \<Rightarrow> int \<times> 'n"
  ca_reads :: "'n \<Rightarrow> string list \<times> 'n"
  ca_accept :: "'n \<Rightarrow> accepted \<times> 'n"

definition asks :: "'n calls \<Rightarrow> syscall \<Rightarrow> (bool, ('n, 'z) process_scheme) prog" where
  "asks C c p = (case ca_ok C c (pr_rest p) of (b, n) \<Rightarrow> (Ret b, p\<lparr>pr_rest := n\<rparr>))"

text \<open>A call of the rest of the system, on its own, never changes the table.\<close>

lemma asks_run: "asks C c p = (Ret (fst (ca_ok C c (pr_rest p))), p\<lparr>pr_rest := snd (ca_ok C c (pr_rest p))\<rparr>)"
  by (simp add: asks_def split_beta)

section \<open>Calls\<close>

text \<open>socket() fails also when the process has as many descriptors as it may have.\<close>

definition sys_socket :: "'n calls \<Rightarrow> socket_type \<Rightarrow> (int, ('n, 'z) process_scheme) prog" where
  "sys_socket C ty =
     bindP (asks C Sys_socket) (\<lambda>ok p.
     if \<not> ok \<or> pr_limit p \<le> table_count (pr_table p) then (Ret (-1), p)
     else (Ret (table_fresh (pr_table p)), p\<lparr>pr_table := table_put (Socket (new_socket ty)) (pr_table p)\<rparr>))"

text \<open>A call that changes what the kernel keeps for a socket.\<close>

definition on_socket ::
    "'n calls \<Rightarrow> syscall \<Rightarrow> int \<Rightarrow> (socket_state \<Rightarrow> socket_state) \<Rightarrow> (int, ('n, 'z) process_scheme) prog" where
  "on_socket C c fd upd =
     bindP (asks C c) (\<lambda>ok p.
     case table_view (pr_table p) fd of
       Some (Socket s) \<Rightarrow>
         if ok then (Ret 0, p\<lparr>pr_table := table_change fd (Socket (upd s)) (pr_table p)\<rparr>) else (Ret (-1), p)
     | _ \<Rightarrow> (Ret (-1), p))"

text \<open>A timeout is a number of seconds and one of microseconds.\<close>

datatype sockopt = SO_REUSEADDR | SO_RCVTIMEO nat nat | SO_SNDTIMEO nat nat

fun set_option :: "sockopt \<Rightarrow> socket_state \<Rightarrow> socket_state" where
  "set_option SO_REUSEADDR s = s\<lparr>sk_reuseaddr := True\<rparr>"
| "set_option (SO_RCVTIMEO sec usec) s = s\<lparr>sk_rcvtimeo := Some (sec, usec)\<rparr>"
| "set_option (SO_SNDTIMEO sec usec) s = s\<lparr>sk_sndtimeo := Some (sec, usec)\<rparr>"

definition sys_setsockopt :: "'n calls \<Rightarrow> int \<Rightarrow> sockopt \<Rightarrow> (int, ('n, 'z) process_scheme) prog" where
  "sys_setsockopt C fd opt = on_socket C Sys_setsockopt fd (set_option opt)"

definition sys_bind :: "'n calls \<Rightarrow> int \<Rightarrow> string \<Rightarrow> (int, ('n, 'z) process_scheme) prog" where
  "sys_bind C fd port = on_socket C Sys_bind fd (\<lambda>s. s\<lparr>sk_bound := Some port\<rparr>)"

definition sys_listen :: "'n calls \<Rightarrow> int \<Rightarrow> nat \<Rightarrow> (int, ('n, 'z) process_scheme) prog" where
  "sys_listen C fd n = on_socket C Sys_listen fd (\<lambda>s. s\<lparr>sk_backlog := Some n\<rparr>)"

definition sys_connect :: "'n calls \<Rightarrow> int \<Rightarrow> (int, ('n, 'z) process_scheme) prog" where
  "sys_connect C fd = on_socket C Sys_connect fd (\<lambda>s. s)"

text \<open>close() frees an open descriptor even when it reports an error; on any other it fails with EBADF.\<close>

datatype close_result = Closed | Close_EBADF | Close_error

definition sys_close :: "'n calls \<Rightarrow> int \<Rightarrow> (close_result, ('n, 'z) process_scheme) prog" where
  "sys_close C fd p =
     (if table_view (pr_table p) fd = None then (Ret Close_EBADF, p)
      else bindP (asks C Sys_close) (\<lambda>ok p.
        (Ret (if ok then Closed else Close_error), p\<lparr>pr_table := table_release fd (pr_table p)\<rparr>)) p)"

text \<open>getaddrinfo() hands out a list of addresses that freeaddrinfo() takes back.\<close>

definition sys_getaddrinfo :: "'n calls \<Rightarrow> (bool, ('n, 'z) process_scheme) prog" where
  "sys_getaddrinfo C =
     bindP (asks C Sys_getaddrinfo) (\<lambda>ok p.
     (Ret ok, if ok then p\<lparr>pr_addrinfos := Suc (pr_addrinfos p)\<rparr> else p))"

definition sys_freeaddrinfo :: "(unit, ('n, 'z) process_scheme) prog" where
  "sys_freeaddrinfo p = (Ret (), p\<lparr>pr_addrinfos := pr_addrinfos p - 1\<rparr>)"

definition sys_signal :: "signal_name \<Rightarrow> disposition \<Rightarrow> (unit, ('n, 'z) process_scheme) prog" where
  "sys_signal sg d p = (Ret (), p\<lparr>pr_signals := (pr_signals p)(sg := d)\<rparr>)"

definition sys_sigaction :: "'n calls \<Rightarrow> signal_name \<Rightarrow> disposition \<Rightarrow> (int, ('n, 'z) process_scheme) prog" where
  "sys_sigaction C sg d =
     bindP (asks C Sys_sigaction) (\<lambda>ok.
     if ok then bindP (sys_signal sg d) (\<lambda>_. ret 0) else ret (-1))"

section \<open>Both classes keep the same four fields\<close>

text \<open>
  _udp_socket_fd, _tcp_socket_fd, _server_udp_addr and _server_tcp_addr; NULL is None, and an address is the
  port it was resolved for.
\<close>

record 'n endpoint = "'n process" +
  ep_udp_fd :: int
  ep_tcp_fd :: int
  ep_udp_addr :: "string option"
  ep_tcp_addr :: "string option"

definition close_if_set :: "'n calls \<Rightarrow> ('n endpoint \<Rightarrow> int) \<Rightarrow> (unit, 'n endpoint) prog" where
  "close_if_set C field p =
     (if field p \<noteq> -1 then bindP (sys_close C (field p)) (\<lambda>_. ret ()) p else (Ret (), p))"

definition free_if_set :: "('n endpoint \<Rightarrow> string option) \<Rightarrow> (unit, 'n endpoint) prog" where
  "free_if_set field p = (if field p \<noteq> None then sys_freeaddrinfo p else (Ret (), p))"

text \<open>The destructors of Server and of Client are the same code.\<close>

definition endpoint_destroy :: "'n calls \<Rightarrow> (unit, 'n endpoint) prog" where
  "endpoint_destroy C =
     bindP (close_if_set C ep_udp_fd) (\<lambda>_.
     bindP (close_if_set C ep_tcp_fd) (\<lambda>_.
     bindP (free_if_set ep_udp_addr) (\<lambda>_.
     free_if_set ep_tcp_addr)))"

end
