(* ===== verification/Client_Sockets.thy ===== *)
theory Client_Sockets
  imports System_Calls Startup
begin

text \<open>
  client/client.cpp at the level of its system calls: how the client starts, opens a socket for an exchange
  over TCP and closes it. The exchanges of Client_Core are shown to be these calls, and the descriptors the
  client holds are counted.
\<close>

section \<open>Starting\<close>

definition set_udp_fd :: "int \<Rightarrow> (unit, 'n endpoint) prog" where
  "set_udp_fd fd p = (Ret (), p\<lparr>ep_udp_fd := fd\<rparr>)"

definition set_tcp_fd :: "int \<Rightarrow> (unit, 'n endpoint) prog" where
  "set_tcp_fd fd p = (Ret (), p\<lparr>ep_tcp_fd := fd\<rparr>)"

definition set_udp_addr :: "string \<Rightarrow> (unit, 'n endpoint) prog" where
  "set_udp_addr port p = (Ret (), p\<lparr>ep_udp_addr := Some port\<rparr>)"

definition set_tcp_addr :: "string \<Rightarrow> (unit, 'n endpoint) prog" where
  "set_tcp_addr port p = (Ret (), p\<lparr>ep_tcp_addr := Some port\<rparr>)"

definition client_resolveServerAddress :: "'n calls \<Rightarrow> string \<Rightarrow> (unit, 'n endpoint) prog" where
  "client_resolveServerAddress C port =
     bindP (sys_getaddrinfo C) (\<lambda>ok.
     if \<not> ok then throw ResolveHostnameException
     else
       bindP (set_udp_addr port) (\<lambda>_.
       bindP (sys_getaddrinfo C) (\<lambda>ok.
       if \<not> ok then throw ResolveHostnameException
       else set_tcp_addr port)))"

text \<open>The constructor; None is an exit of configClient.\<close>

definition Client_new :: "'n calls \<Rightarrow> client_option list \<Rightarrow> (client_config option, 'n endpoint) prog" where
  "Client_new C opts =
     (case configClient opts of
        Exit_config \<Rightarrow> ret None
      | Uncaught e \<Rightarrow> throw e
      | Configured c \<Rightarrow>
          bindP (sys_socket C SOCK_DGRAM) (\<lambda>fd.
          bindP (set_udp_fd fd) (\<lambda>_.
          if fd = -1 then throw SocketException
          else bindP (client_resolveServerAddress C (cc_port c)) (\<lambda>_. ret (Some c)))))"

definition Client_destructor :: "'n calls \<Rightarrow> (unit, 'n endpoint) prog" where
  "Client_destructor C = endpoint_destroy C"

section \<open>An exchange over TCP\<close>

definition TCP_READ_TIMEOUT_SECONDS :: nat where
  "TCP_READ_TIMEOUT_SECONDS = 15"

definition TCP_READ_TIMEOUT_USECONDS :: nat where
  "TCP_READ_TIMEOUT_USECONDS = 0"

definition TCP_WRITE_TIMEOUT_SECONDS :: nat where
  "TCP_WRITE_TIMEOUT_SECONDS = 60"

definition TCP_WRITE_TIMEOUT_USECONDS :: nat where
  "TCP_WRITE_TIMEOUT_USECONDS = 0"

definition openTcpSocket :: "'n calls \<Rightarrow> (unit, 'n endpoint) prog" where
  "openTcpSocket C =
     bindP (sys_socket C SOCK_STREAM) (\<lambda>fd.
     bindP (set_tcp_fd fd) (\<lambda>_.
     if fd = -1 then throw SocketException
     else
       bindP (sys_setsockopt C fd (SO_RCVTIMEO TCP_READ_TIMEOUT_SECONDS TCP_READ_TIMEOUT_USECONDS)) (\<lambda>errcode.
       if errcode < 0 then throw SocketException
       else
         bindP (sys_setsockopt C fd (SO_SNDTIMEO TCP_WRITE_TIMEOUT_SECONDS TCP_WRITE_TIMEOUT_USECONDS)) (\<lambda>errcode.
         if errcode < 0 then throw SocketException
         else ret ()))))"

text \<open>The loop over the writes runs on the rest of the system; one that never ends blocks the client.\<close>

definition write_message :: "'n calls \<Rightarrow> exn + string \<Rightarrow> (unit, 'n endpoint) prog" where
  "write_message C message p =
     (case send_tcp_message (ca_write C) message False (pr_rest p) of
        None \<Rightarrow> (Block, p)
      | Some (Inl e, n) \<Rightarrow> (Throw e, p\<lparr>pr_rest := n\<rparr>)
      | Some (Inr _, n) \<Rightarrow> (Ret (), p\<lparr>pr_rest := n\<rparr>))"

definition sendTcpMessage :: "'n calls \<Rightarrow> exn + string \<Rightarrow> (unit, 'n endpoint) prog" where
  "sendTcpMessage C message p =
     bindP (sys_connect C (ep_tcp_fd p)) (\<lambda>n.
     if n = -1 then throw ConnectionTimeoutException
     else write_message C message) p"

definition read_chunks :: "'n calls \<Rightarrow> (string list, 'n endpoint) prog" where
  "read_chunks C p = (case ca_reads C (pr_rest p) of (chunks, n) \<Rightarrow> (Ret chunks, p\<lparr>pr_rest := n\<rparr>))"

definition closeTcpSocket :: "'n calls \<Rightarrow> (unit, 'n endpoint) prog" where
  "closeTcpSocket C p =
     bindP (sys_close C (ep_tcp_fd p)) (\<lambda>r.
     case r of
       Closed \<Rightarrow> ret ()
     | Close_EBADF \<Rightarrow> ret ()
     | Close_error \<Rightarrow> throw SocketException) p"

text \<open>The part of the client's state that the kernel keeps.\<close>

definition on_net :: "('a, 'm) prog \<Rightarrow> ('a, 'm client) prog" where
  "on_net m s = (case m (cl_net s) of (r, n) \<Rightarrow> (r, s\<lparr>cl_net := n\<rparr>))"

definition waitForTcpMessage ::
    "'n calls \<Rightarrow> char \<Rightarrow> (tcp \<Rightarrow> ('m, tcp) read_result option) \<Rightarrow> ('m, 'n endpoint client) prog" where
  "waitForTcpMessage C fallback readMessage =
     bindP (on_net (read_chunks C)) (\<lambda>chunks. await_tcp_message readMessage fallback chunks)"

text \<open>The try block of sendTcpMessageAndAwaitReply, and the whole.\<close>

definition tcp_attempt ::
    "'n endpoint client_env \<Rightarrow> 'n calls \<Rightarrow> string \<Rightarrow> (tcp \<Rightarrow> ('m, tcp) read_result option) \<Rightarrow>
       ('m, 'n endpoint client) prog" where
  "tcp_attempt E C message_out read_in =
     bindP (on_net (openTcpSocket C)) (\<lambda>_.
     bindP (on_net (sendTcpMessage C (Inr message_out))) (\<lambda>_.
     waitForTcpMessage C (ce_uninit E) read_in))"

definition tcp_calls ::
    "'n endpoint client_env \<Rightarrow> 'n calls \<Rightarrow> string \<Rightarrow> (tcp \<Rightarrow> ('m, tcp) read_result option) \<Rightarrow>
       ('m option, 'n endpoint client) prog" where
  "tcp_calls E C message_out read_in =
     bindP
       (try_catch (bindP (tcp_attempt E C message_out read_in) (\<lambda>m. ret (Some m)))
         (\<lambda>e. bindP (print_out (printError
            (if e = ConnectionTimeoutException then ''Couldn't send message''
             else if e = InvalidMessageException then ''Invalid Message.''
             else if e = UnexpectedMessageException then ''Unexpected Message.''
             else if e = ERRCodeMessageException then ''ERR code message received.''
             else if e = MessageReceiveException then ''Couldn't receive message''
             else if e = MessageSendException then ''Couldn't send message.''
             else ''Unexpected error.''))) (\<lambda>_.
            if e = MessageSendException then ret None
            else bindP (on_net (closeTcpSocket C)) (\<lambda>_. ret None))))
       (\<lambda>r. case r of
          None \<Rightarrow> ret None
        | Some m \<Rightarrow> bindP (on_net (closeTcpSocket C)) (\<lambda>_. ret (Some m)))"

text \<open>
  What the exchange is to the client of Client_Core, from the answers of the kernel alone: whether there is room for
  a descriptor, what socket, the two setsockopt, connect, the writes and the reads return, in this order, and that the
  socket is closed in the end unless a write failed.
\<close>

definition kernel_closes :: "'n calls \<Rightarrow> 'n \<Rightarrow> 'n" where
  "kernel_closes C n = snd (ca_ok C Sys_close n)"

definition kernel_exchange :: "'n calls \<Rightarrow> bool \<Rightarrow> string \<Rightarrow> 'n \<Rightarrow> tcp_reply \<times> 'n" where
  "kernel_exchange C room message_out n =
     (case ca_ok C Sys_socket n of (ok, n) \<Rightarrow> if \<not> ok \<or> \<not> room then (Tcp_no_socket, n)
      else case ca_ok C Sys_setsockopt n of (ok, n) \<Rightarrow> if \<not> ok then (Tcp_no_socket, kernel_closes C n)
      else case ca_ok C Sys_setsockopt n of (ok, n) \<Rightarrow> if \<not> ok then (Tcp_no_socket, kernel_closes C n)
      else case ca_ok C Sys_connect n of (ok, n) \<Rightarrow> if \<not> ok then (Tcp_no_connection, kernel_closes C n)
      else case write_loop (ca_write C) message_out 0 n of
             Some (Inr _, n) \<Rightarrow> (case ca_reads C n of (chunks, n) \<Rightarrow> (Tcp_answer chunks, kernel_closes C n))
           | Some (Inl _, n) \<Rightarrow> (Tcp_write_failed, n)
           | None \<Rightarrow> (Tcp_write_failed, n))"

definition tcp_of_calls :: "'n calls \<Rightarrow> string \<Rightarrow> 'n endpoint \<Rightarrow> tcp_reply \<times> 'n endpoint" where
  "tcp_of_calls C message_out p =
     (case kernel_exchange C (table_count (pr_table p) < pr_limit p) message_out (pr_rest p) of
        (reply, n) \<Rightarrow> (reply, p\<lparr>pr_rest := n\<rparr>))"

section \<open>The descriptor of an exchange\<close>

text \<open>
  Since the state \<open>p\<close> the process has opened one socket, which _tcp_socket_fd names; or it holds what it
  held in \<open>p\<close>, and _tcp_socket_fd names nothing open.
\<close>

definition holds_socket :: "'n endpoint \<Rightarrow> 'n endpoint \<Rightarrow> bool" where
  "holds_socket p p' \<longleftrightarrow>
     ep_tcp_fd p' = table_fresh (pr_table p) \<and> pr_limit p' = pr_limit p \<and>
     (\<exists>d. table_view (pr_table p') = (table_view (pr_table p))(table_fresh (pr_table p) := Some (Socket d)))"

definition holds_none :: "'n endpoint \<Rightarrow> 'n endpoint \<Rightarrow> bool" where
  "holds_none p p' \<longleftrightarrow>
     table_view (pr_table p') (ep_tcp_fd p') = None \<and> pr_limit p' = pr_limit p \<and>
     table_view (pr_table p') = table_view (pr_table p)"

lemma view_minus [simp]: "table_view t (-1) = None"
  by (simp add: table_view_def)

lemma sys_socket_run:
  "sys_socket C ty p =
     (let (ok, n) = ca_ok C Sys_socket (pr_rest p) in
      if \<not> ok \<or> pr_limit p \<le> table_count (pr_table p) then (Ret (-1), p\<lparr>pr_rest := n\<rparr>)
      else (Ret (table_fresh (pr_table p)),
        p\<lparr>pr_rest := n, pr_table := table_put (Socket (new_socket ty)) (pr_table p)\<rparr>))"
  by (simp add: sys_socket_def bindP_def asks_def split_beta Let_def)

lemma sys_socket_returns: "\<exists>x q. sys_socket C ty p = (Ret x, q)"
  by (simp add: sys_socket_run Let_def split_beta)

lemma on_socket_run:
  assumes "table_view (pr_table p) fd = Some (Socket d)"
  shows "on_socket C c fd upd p =
    (let (ok, n) = ca_ok C c (pr_rest p) in
     if ok then (Ret 0, p\<lparr>pr_rest := n, pr_table := table_change fd (Socket (upd d)) (pr_table p)\<rparr>)
     else (Ret (-1), p\<lparr>pr_rest := n\<rparr>))"
  using assms by (simp add: on_socket_def bindP_def asks_def split_beta Let_def)

lemma holds_socketE:
  assumes "holds_socket p q"
  obtains d where "table_view (pr_table q) (ep_tcp_fd q) = Some (Socket d)"
    "table_view (pr_table q) = (table_view (pr_table p))(table_fresh (pr_table p) := Some (Socket d))"
    "ep_tcp_fd q = table_fresh (pr_table p)" "pr_limit q = pr_limit p"
  using assms unfolding holds_socket_def by fastforce

lemma on_socket_holds:
  assumes "holds_socket p q" and "on_socket C c (ep_tcp_fd q) upd q = (r, q')"
  shows "(r = Ret 0 \<or> r = Ret (-1)) \<and> holds_socket p q'"
proof -
  from assms(1) obtain d where d: "table_view (pr_table q) (ep_tcp_fd q) = Some (Socket d)"
    "table_view (pr_table q) = (table_view (pr_table p))(table_fresh (pr_table p) := Some (Socket d))"
    "ep_tcp_fd q = table_fresh (pr_table p)" "pr_limit q = pr_limit p" by (rule holds_socketE)
  have "table_view (table_change (ep_tcp_fd q) (Socket (upd d)) (pr_table q)) =
      (table_view (pr_table p))(table_fresh (pr_table p) := Some (Socket (upd d)))"
    using fds.view_change [of "pr_table q" "ep_tcp_fd q" "Socket (upd d)"] d by simp
  then show ?thesis
    using assms(2) d unfolding on_socket_run [OF d(1)]
    by (auto simp: Let_def split_beta holds_socket_def split: if_splits)
qed

lemma openTcpSocket_run:
  assumes "openTcpSocket C p = (r, q)"
  shows "r = Ret () \<and> holds_socket p q \<or> r = Throw SocketException \<and> (holds_socket p q \<or> holds_none p q)"
proof -
  obtain x q1 where sock: "sys_socket C SOCK_STREAM p = (Ret x, q1)"
    using sys_socket_returns by blast
  let ?q1 = "q1\<lparr>ep_tcp_fd := x\<rparr>"
  have run: "openTcpSocket C p =
      (if x = -1 then throw SocketException
       else
         bindP (sys_setsockopt C x (SO_RCVTIMEO TCP_READ_TIMEOUT_SECONDS TCP_READ_TIMEOUT_USECONDS)) (\<lambda>errcode.
         if errcode < 0 then throw SocketException
         else
           bindP (sys_setsockopt C x (SO_SNDTIMEO TCP_WRITE_TIMEOUT_SECONDS TCP_WRITE_TIMEOUT_USECONDS)) (\<lambda>errcode.
           if errcode < 0 then throw SocketException
           else ret ()))) ?q1"
    by (simp add: openTcpSocket_def bindP_def [of "sys_socket C SOCK_STREAM"] bindP_def [of "set_tcp_fd x"] sock set_tcp_fd_def)
  show ?thesis
  proof (cases "x = -1")
    case True
    then have "holds_none p ?q1" using sock fds.fresh_not_minus [of "pr_table p"]
      by (auto simp: sys_socket_run Let_def split_beta holds_none_def split: if_splits)
    then show ?thesis using assms True unfolding run by simp
  next
    case x: False
    then have one: "holds_socket p ?q1" using sock
      by (auto simp: sys_socket_run Let_def split_beta holds_socket_def fds.view_put split: if_splits)
    obtain r2 q2 where o2: "sys_setsockopt C x (SO_RCVTIMEO TCP_READ_TIMEOUT_SECONDS TCP_READ_TIMEOUT_USECONDS) ?q1 = (r2, q2)" by fastforce
    then have two: "(r2 = Ret 0 \<or> r2 = Ret (-1)) \<and> holds_socket p q2"
      using on_socket_holds [OF one, of C Sys_setsockopt] by (simp add: sys_setsockopt_def)
    then have fd: "ep_tcp_fd q2 = x" "ep_tcp_fd ?q1 = table_fresh (pr_table p)" using one by (simp_all add: holds_socket_def)
    obtain r3 q3 where o3: "sys_setsockopt C x (SO_SNDTIMEO TCP_WRITE_TIMEOUT_SECONDS TCP_WRITE_TIMEOUT_USECONDS) q2 = (r3, q3)" by fastforce
    then have three: "(r3 = Ret 0 \<or> r3 = Ret (-1)) \<and> holds_socket p q3"
      using on_socket_holds [of p q2 C Sys_setsockopt] two fd by (simp add: sys_setsockopt_def)
    show ?thesis
      using assms x two three unfolding run by (auto simp: bindP_def o2 o3)
  qed
qed

lemma write_message_holds:
  assumes "holds_socket p q" and "write_message C m q = (r, q')"
  shows "holds_socket p q'"
  using assms by (auto simp: write_message_def holds_socket_def split: option.splits sum.splits prod.splits)

lemma sendTcpMessage_holds:
  assumes "holds_socket p q" and "sendTcpMessage C m q = (r, q')"
  shows "holds_socket p q'"
proof -
  obtain x q1 where c: "sys_connect C (ep_tcp_fd q) q = (x, q1)" by fastforce
  then have "(x = Ret 0 \<or> x = Ret (-1)) \<and> holds_socket p q1"
    using on_socket_holds [OF assms(1), of C Sys_connect] by (simp add: sys_connect_def)
  then show ?thesis
    using assms(2) write_message_holds [of p q1 C m] by (auto simp: sendTcpMessage_def bindP_def c split: if_splits)
qed


lemma on_net_run: "on_net m s = (fst (m (cl_net s)), s\<lparr>cl_net := snd (m (cl_net s))\<rparr>)"
  by (simp add: on_net_def split_beta)

lemma await_tcp_keeps: "snd (await_tcp_message read_in c chunks s) = s"
  by (auto simp: await_tcp_message_def read_answer_def liftP_def split: option.splits sum.splits)

text \<open>Until it is over, an attempt holds the socket it opened; without one it fails for want of a socket.\<close>

lemma tcp_attempt_holds:
  assumes "tcp_attempt E C m read_in s = (out, s1)"
  shows "holds_socket (cl_net s) (cl_net s1) \<or> out = Throw SocketException \<and> holds_none (cl_net s) (cl_net s1)"
proof -
  obtain r q where open1: "openTcpSocket C (cl_net s) = (r, q)" by fastforce
  note o = openTcpSocket_run [OF open1]
  show ?thesis
  proof (cases "r = Ret ()")
    case False
    then have "r = Throw SocketException" using o by simp
    then have "tcp_attempt E C m read_in s = (Throw SocketException, s\<lparr>cl_net := q\<rparr>)"
      by (simp add: tcp_attempt_def bindP_def on_net_run open1)
    then show ?thesis using assms o False by auto
  next
    case True
    then have q: "holds_socket (cl_net s) q" using o by simp
    obtain r2 q2 where send: "sendTcpMessage C (Inr m) q = (r2, q2)" by fastforce
    then have q2: "holds_socket (cl_net s) q2" by (rule sendTcpMessage_holds [OF q])
    show ?thesis
    proof (cases "r2 = Ret ()")
      case False
      then have "cl_net s1 = q2"
        using assms by (cases r2) (auto simp: tcp_attempt_def bindP_def on_net_run open1 True send)
      then show ?thesis using q2 by simp
    next
      case r2: True
      have "cl_net s1 = q2\<lparr>pr_rest := snd (ca_reads C (pr_rest q2))\<rparr>"
        using assms await_tcp_keeps [of read_in "ce_uninit E" "fst (ca_reads C (pr_rest q2))"
          "s\<lparr>cl_net := q2\<lparr>pr_rest := snd (ca_reads C (pr_rest q2))\<rparr>\<rparr>"]
        by (auto simp: tcp_attempt_def bindP_def on_net_run open1 True send r2 waitForTcpMessage_def read_chunks_def split_beta
          split: outcome.splits)
      then show ?thesis using q2 by (simp add: holds_socket_def)
    qed
  qed
qed

section \<open>What an exchange leaves open\<close>


lemma tcp_calls_send_failed:
  assumes "tcp_attempt E C m read_in s = (Throw MessageSendException, s1)"
  shows "tcp_calls E C m read_in s = (Ret None, s1\<lparr>cl_out := cl_out s1 @ printError ''Couldn't send message.''\<rparr>)"
  by (simp add: tcp_calls_def try_catch_def bindP_def print_out_def assms)

lemma send_failed_count:
  assumes "tcp_attempt E C m read_in s = (Throw MessageSendException, s1)"
  shows "\<exists>d. table_view (pr_table (cl_net s1)) =
      (table_view (pr_table (cl_net s)))(table_fresh (pr_table (cl_net s)) := Some (Socket d))"
    and "table_count (pr_table (cl_net s1)) = Suc (table_count (pr_table (cl_net s)))"
    and "pr_limit (cl_net s1) = pr_limit (cl_net s)"
proof -
  have holds: "holds_socket (cl_net s) (cl_net s1)" using tcp_attempt_holds [OF assms] by simp
  then obtain d where d: "table_view (pr_table (cl_net s1)) =
      (table_view (pr_table (cl_net s)))(table_fresh (pr_table (cl_net s)) := Some (Socket d))"
    by (auto simp: holds_socket_def)
  then show "\<exists>d. table_view (pr_table (cl_net s1)) =
      (table_view (pr_table (cl_net s)))(table_fresh (pr_table (cl_net s)) := Some (Socket d))" by blast
  from d have "table_view (pr_table (cl_net s1)) = table_view (table_put (Socket d) (pr_table (cl_net s)))"
    by (simp add: fds.view_put)
  then show "table_count (pr_table (cl_net s1)) = Suc (table_count (pr_table (cl_net s)))"
    using fds.opened_put [of "Socket d" "pr_table (cl_net s)"] by (simp add: table_count_opened fds.opened_def)
  show "pr_limit (cl_net s1) = pr_limit (cl_net s)" using holds by (simp add: holds_socket_def)
qed

text \<open>An attempt changes nothing of the client but what the kernel keeps.\<close>

definition net_only :: "('a, 'm client) prog \<Rightarrow> bool" where
  "net_only m \<longleftrightarrow> (\<forall>s. snd (m s) = s\<lparr>cl_net := cl_net (snd (m s))\<rparr>)"

lemma net_only_bindP:
  assumes "net_only m" and "\<And>x. net_only (k x)"
  shows "net_only (bindP m k)"
  unfolding net_only_def
proof
  fix s
  obtain r s1 where m: "m s = (r, s1)" by fastforce
  have s1: "s1 = s\<lparr>cl_net := cl_net s1\<rparr>"
    using assms(1) m unfolding net_only_def by (metis snd_conv)
  show "snd (bindP m k s) = s\<lparr>cl_net := cl_net (snd (bindP m k s))\<rparr>"
  proof (cases r)
    case (Ret x)
    then have b: "bindP m k s = k x s1" by (simp add: bindP_def m)
    have "snd (k x s1) = s1\<lparr>cl_net := cl_net (snd (k x s1))\<rparr>"
      using assms(2) unfolding net_only_def by blast
    also have "\<dots> = s\<lparr>cl_net := cl_net (snd (k x s1))\<rparr>" by (subst s1) simp
    finally show ?thesis by (simp add: b)
  qed (use s1 in \<open>simp_all add: bindP_def m\<close>)
qed

lemma net_only_on_net: "net_only (on_net m)"
  by (simp add: net_only_def on_net_run)

lemma net_only_await: "net_only (await_tcp_message read_in c chunks)"
  by (simp add: net_only_def await_tcp_keeps)

lemma tcp_attempt_quiet:
  assumes "tcp_attempt E C m read_in s = (out, s1)"
  shows "s1 = s\<lparr>cl_net := cl_net s1\<rparr>"
proof -
  have "net_only (tcp_attempt E C m read_in)"
    unfolding tcp_attempt_def waitForTcpMessage_def by (intro net_only_bindP net_only_on_net net_only_await)
  then show ?thesis using assms unfolding net_only_def by (metis snd_conv)
qed



definition example_calls :: "bool \<Rightarrow> string calls" where
  "example_calls wr =
     \<lparr>ca_ok = (\<lambda>c n. (True, n)), ca_write = (\<lambda>b n. if wr then (int (length b), n @ b) else (-1, n)),
      ca_sendto = (\<lambda>b n. if wr then (int (length b), n @ b) else (-1, n)),
      ca_reads = (\<lambda>n. ([''RBD ACC'' @ endl], n)), ca_accept = (\<lambda>n. (Accepted, n))\<rparr>"

definition example_endpoint :: "string endpoint" where
  "example_endpoint =
     \<lparr>pr_table = [Some Std_stream, Some Std_stream, Some Std_stream, Some (Socket (new_socket SOCK_DGRAM))],
      pr_limit = 1024, pr_signals = (\<lambda>_. SIG_DFL), pr_addrinfos = 2, pr_rest = [],
      ep_udp_fd = 3, ep_tcp_fd = -1, ep_udp_addr = Some DEFAULT_PORT, ep_tcp_addr = Some DEFAULT_PORT\<rparr>"

definition example_client_env :: "'n client_env" where
  "example_client_env =
     \<lparr>ce_udp = (\<lambda>d n. (Udp_no_answer, n)), ce_tcp = (\<lambda>d n. (Tcp_no_socket, n)), ce_uninit = CHR 0x00,
      ce_writable = (\<lambda>_. True), ce_megabytes = (\<lambda>_. ''0''), ce_what = (\<lambda>_. []), ce_help_order = []\<rparr>"

definition example_reader :: "tcp \<Rightarrow> (bool, tcp) read_result option" where
  "example_reader t = Some (Inr (True, t))"

definition example_client :: "string endpoint client" where
  "example_client =
     \<lparr>cl_user_id = 1, cl_password = ''password'', cl_files = Map.empty, cl_out = [], cl_net = example_endpoint\<rparr>"

text \<open>When every call but the writes succeeds, what an exchange does depends on the room in the table.\<close>

definition all_succeed :: "'n calls \<Rightarrow> bool" where
  "all_succeed C \<longleftrightarrow> (\<forall>c n. fst (ca_ok C c n))"

lemma on_socket_succeeds:
  assumes "all_succeed C" and "holds_socket p q"
  shows "\<exists>q'. on_socket C c (ep_tcp_fd q) upd q = (Ret 0, q') \<and> holds_socket p q'"
proof -
  obtain d where d: "table_view (pr_table q) (ep_tcp_fd q) = Some (Socket d)"
    using assms(2) by (rule holds_socketE)
  obtain r q' where run: "on_socket C c (ep_tcp_fd q) upd q = (r, q')" by fastforce
  moreover have "r = Ret 0"
    using run assms(1) unfolding on_socket_run [OF d] by (simp add: all_succeed_def Let_def split_beta)
  ultimately show ?thesis using on_socket_holds [OF assms(2) run] by simp
qed

lemma openTcpSocket_succeeds:
  assumes "all_succeed C" and "table_count (pr_table p) < pr_limit p"
  shows "\<exists>q. openTcpSocket C p = (Ret (), q) \<and> holds_socket p q"
proof -
  let ?x = "table_fresh (pr_table p)"
  obtain n where n: "ca_ok C Sys_socket (pr_rest p) = (True, n)"
    using assms(1) unfolding all_succeed_def by (metis (full_types) prod.exhaust fst_conv)
  let ?q = "p\<lparr>pr_rest := n, pr_table := table_put (Socket (new_socket SOCK_STREAM)) (pr_table p)\<rparr>"
  have sock: "sys_socket C SOCK_STREAM p = (Ret ?x, ?q)" using n assms(2) by (simp add: sys_socket_run)
  have one: "holds_socket p (?q\<lparr>ep_tcp_fd := ?x\<rparr>)" by (auto simp: holds_socket_def fds.view_put)
  obtain q2 where two: "sys_setsockopt C ?x (SO_RCVTIMEO TCP_READ_TIMEOUT_SECONDS TCP_READ_TIMEOUT_USECONDS) (?q\<lparr>ep_tcp_fd := ?x\<rparr>) = (Ret 0, q2)"
    "holds_socket p q2"
    using on_socket_succeeds [OF assms(1) one, of Sys_setsockopt] by (auto simp: sys_setsockopt_def)
  then have "ep_tcp_fd q2 = ?x" by (simp add: holds_socket_def)
  then obtain q3 where three: "sys_setsockopt C ?x (SO_SNDTIMEO TCP_WRITE_TIMEOUT_SECONDS TCP_WRITE_TIMEOUT_USECONDS) q2 = (Ret 0, q3)" "holds_socket p q3"
    using on_socket_succeeds [OF assms(1) two(2), of Sys_setsockopt] by (auto simp: sys_setsockopt_def)
  show ?thesis
    using fds.fresh_not_minus [of "pr_table p"] three(2)
    by (simp add: openTcpSocket_def bindP_def sock set_tcp_fd_def two(1) three(1))
qed

lemma openTcpSocket_full:
  assumes "pr_limit p \<le> table_count (pr_table p)"
  shows "\<exists>q. openTcpSocket C p = (Throw SocketException, q) \<and> holds_none p q"
  using assms
  by (simp add: openTcpSocket_def bindP_def sys_socket_run Let_def split_beta set_tcp_fd_def holds_none_def)

lemma write_fails:
  assumes "\<forall>b n. fst (ca_write C b n) < 0" and "m \<noteq> []"
  shows "\<exists>q. write_message C (Inr m) p = (Throw MessageSendException, q)"
  using assms
  by (simp add: write_message_def send_tcp_message_def write_loop.simps [of "ca_write C" m 0 "pr_rest p"] split_beta)

lemma tcp_attempt_write_fails:
  assumes "all_succeed C" and "\<forall>b n. fst (ca_write C b n) < 0" and "m \<noteq> []"
    and "table_count (pr_table (cl_net s)) < pr_limit (cl_net s)"
  shows "\<exists>s1. tcp_attempt E C m read_in s = (Throw MessageSendException, s1)"
proof -
  obtain q where q: "openTcpSocket C (cl_net s) = (Ret (), q)" "holds_socket (cl_net s) q"
    using openTcpSocket_succeeds [OF assms(1,4)] by blast
  obtain q1 where c: "sys_connect C (ep_tcp_fd q) q = (Ret 0, q1)"
    using on_socket_succeeds [OF assms(1) q(2), of Sys_connect] by (auto simp: sys_connect_def)
  obtain q2 where "write_message C (Inr m) q1 = (Throw MessageSendException, q2)"
    using write_fails [OF assms(2,3)] by blast
  then show ?thesis by (simp add: tcp_attempt_def bindP_def on_net_run q sendTcpMessage_def c)
qed


text \<open>A client whose writes fail uses its descriptors up: after as many exchanges over TCP as there is room for, each
  one reported as a message that could not be sent, no exchange can open a socket any more, although every other call
  still succeeds.\<close>

theorem failed_writes_use_up_descriptors:
  assumes "all_succeed C" and "\<forall>b n. fst (ca_write C b n) < 0" and "m \<noteq> []"
    and "table_count (pr_table (cl_net s)) + k = pr_limit (cl_net s)"
  shows "let s' = ((\<lambda>s. snd (tcp_calls E C m read_in s)) ^^ k) s
    in table_count (pr_table (cl_net s')) = pr_limit (cl_net s') \<and>
       cl_out s' = cl_out s @ concat (replicate k (printError ''Couldn't send message.'')) \<and>
       fst (tcp_attempt E C m read_in s') = Throw SocketException"
proof -
  let ?next = "\<lambda>s. snd (tcp_calls E C m read_in s)"
  have one: "table_count (pr_table (cl_net (?next s))) = Suc (table_count (pr_table (cl_net s))) \<and>
      pr_limit (cl_net (?next s)) = pr_limit (cl_net s) \<and>
      cl_out (?next s) = cl_out s @ printError ''Couldn't send message.''"
    if room: "table_count (pr_table (cl_net s)) < pr_limit (cl_net s)" for s
  proof -
    obtain s1 where s1: "tcp_attempt E C m read_in s = (Throw MessageSendException, s1)"
      using tcp_attempt_write_fails [OF assms(1-3) room] by blast
    moreover have "cl_out s1 = cl_out s" by (subst tcp_attempt_quiet [OF s1]) simp
    ultimately show ?thesis using send_failed_count(2,3) [OF s1] tcp_calls_send_failed [OF s1] by simp
  qed
  have run: "table_count (pr_table (cl_net ((?next ^^ k) s))) = pr_limit (cl_net ((?next ^^ k) s)) \<and>
      cl_out ((?next ^^ k) s) = cl_out s @ concat (replicate k (printError ''Couldn't send message.''))"
    if "table_count (pr_table (cl_net s)) + k = pr_limit (cl_net s)" for s
    using that
  proof (induction k arbitrary: s)
    case (Suc k)
    then have o: "table_count (pr_table (cl_net (?next s))) = Suc (table_count (pr_table (cl_net s))) \<and>
        pr_limit (cl_net (?next s)) = pr_limit (cl_net s) \<and>
        cl_out (?next s) = cl_out s @ printError ''Couldn't send message.''" using one by simp
    then show ?case using Suc.IH [of "?next s"] Suc.prems by (simp add: funpow_Suc_right del: funpow.simps)
  qed simp
  have full: "fst (tcp_attempt E C m read_in s') = Throw SocketException"
    if "table_count (pr_table (cl_net s')) = pr_limit (cl_net s')" for s'
    using openTcpSocket_full [of "cl_net s'" C] that by (auto simp: tcp_attempt_def bindP_def on_net_run)
  show ?thesis using run [OF assms(4)] full by (simp add: Let_def)
qed

lemma failed_writes_use_up_descriptors_example:
  "fst (tcp_attempt E (example_calls False) ''BID'' read_in
     (((\<lambda>s. snd (tcp_calls E (example_calls False) ''BID'' read_in s)) ^^ 1020) example_client)) = Throw SocketException"
proof -
  have "all_succeed (example_calls False)" "\<forall>b n. fst (ca_write (example_calls False) b n) < 0"
    by (simp_all add: all_succeed_def example_calls_def)
  moreover have "table_count (pr_table (cl_net example_client)) + 1020 = pr_limit (cl_net example_client)"
    by (simp add: example_client_def example_endpoint_def table_count_def)
  ultimately show ?thesis
    using failed_writes_use_up_descriptors [of "example_calls False" "''BID''" example_client 1020 E read_in]
    by (simp add: Let_def)
qed

section \<open>The exchange of the client is these calls\<close>

text \<open>Each function of the client against the answers of the kernel.\<close>

lemma on_socket_kernel:
  assumes "holds_socket p q"
  shows "\<exists>q'. on_socket C c (ep_tcp_fd q) upd q = (Ret (if fst (ca_ok C c (pr_rest q)) then 0 else -1), q') \<and>
    holds_socket p q' \<and> pr_rest q' = snd (ca_ok C c (pr_rest q))"
proof -
  obtain d where d: "table_view (pr_table q) (ep_tcp_fd q) = Some (Socket d)" using assms by (rule holds_socketE)
  obtain r q' where run: "on_socket C c (ep_tcp_fd q) upd q = (r, q')" by fastforce
  moreover have "r = Ret (if fst (ca_ok C c (pr_rest q)) then 0 else -1) \<and> pr_rest q' = snd (ca_ok C c (pr_rest q))"
    using run unfolding on_socket_run [OF d] by (auto simp: Let_def split_beta split: if_splits)
  ultimately show ?thesis using on_socket_holds [OF assms run] by simp
qed

lemma open_no_socket:
  assumes "ca_ok C Sys_socket (pr_rest p) = (ok, n)" and "\<not> ok \<or> pr_limit p \<le> table_count (pr_table p)"
  shows "\<exists>q. openTcpSocket C p = (Throw SocketException, q) \<and> holds_none p q \<and> pr_rest q = n"
  using assms by (auto simp: openTcpSocket_def bindP_def sys_socket_run set_tcp_fd_def holds_none_def)

lemma open_kernel:
  assumes "ca_ok C Sys_socket (pr_rest p) = (True, n)" and "table_count (pr_table p) < pr_limit p"
    and "ca_ok C Sys_setsockopt n = (b2, n2)" and "ca_ok C Sys_setsockopt n2 = (b3, n3)"
  shows "\<exists>q. openTcpSocket C p = (if b2 \<and> b3 then Ret () else Throw SocketException, q) \<and> holds_socket p q \<and>
    pr_rest q = (if b2 then n3 else n2)"
proof -
  let ?x = "table_fresh (pr_table p)"
  let ?q = "p\<lparr>pr_rest := n, pr_table := table_put (Socket (new_socket SOCK_STREAM)) (pr_table p)\<rparr>"
  have sock: "sys_socket C SOCK_STREAM p = (Ret ?x, ?q)" using assms(1,2) by (simp add: sys_socket_run)
  have one: "holds_socket p (?q\<lparr>ep_tcp_fd := ?x\<rparr>)" by (auto simp: holds_socket_def fds.view_put)
  obtain q2 where two: "sys_setsockopt C ?x (SO_RCVTIMEO TCP_READ_TIMEOUT_SECONDS TCP_READ_TIMEOUT_USECONDS) (?q\<lparr>ep_tcp_fd := ?x\<rparr>) =
      (Ret (if b2 then 0 else -1), q2)" "holds_socket p q2" "pr_rest q2 = n2"
    using on_socket_kernel [OF one, of C Sys_setsockopt] assms(3) by (auto simp: sys_setsockopt_def)
  then have "ep_tcp_fd q2 = ?x" by (simp add: holds_socket_def)
  then obtain q3 where three: "sys_setsockopt C ?x (SO_SNDTIMEO TCP_WRITE_TIMEOUT_SECONDS TCP_WRITE_TIMEOUT_USECONDS) q2 =
      (Ret (if b3 then 0 else -1), q3)" "holds_socket p q3" "pr_rest q3 = n3"
    using on_socket_kernel [OF two(2), of C Sys_setsockopt] assms(4) two(3) by (auto simp: sys_setsockopt_def)
  have "?x \<noteq> -1" by (rule fds.fresh_not_minus)
  then show ?thesis
    using two three by (cases b2) (simp_all add: openTcpSocket_def bindP_def sock set_tcp_fd_def)
qed

lemma close_kernel:
  assumes "\<forall>n. fst (ca_ok C Sys_close n)"
  shows "holds_socket p q \<Longrightarrow> \<exists>q'. closeTcpSocket C q = (Ret (), q') \<and> pr_rest q' = kernel_closes C (pr_rest q)"
    and "holds_none p q \<Longrightarrow> closeTcpSocket C q = (Ret (), q)"
proof -
  assume "holds_socket p q"
  then obtain d where "table_view (pr_table q) (ep_tcp_fd q) = Some (Socket d)" by (rule holds_socketE)
  then show "\<exists>q'. closeTcpSocket C q = (Ret (), q') \<and> pr_rest q' = kernel_closes C (pr_rest q)"
    using assms by (auto simp: closeTcpSocket_def sys_close_def bindP_def asks_def split_beta kernel_closes_def)
next
  assume "holds_none p q"
  then have "table_view (pr_table q) (ep_tcp_fd q) = None" unfolding holds_none_def by (rule conjunct1)
  then show "closeTcpSocket C q = (Ret (), q)" by (simp add: closeTcpSocket_def sys_close_def bindP_def)
qed

text \<open>
  How an attempt ends. Where it fails, the exception is the one that belongs to the kernel's answer; where it reads,
  the message is read from the chunks.
\<close>

definition reply_exn :: "tcp_reply \<Rightarrow> exn" where
  "reply_exn r = (case r of Tcp_no_socket \<Rightarrow> SocketException | Tcp_no_connection \<Rightarrow> ConnectionTimeoutException
     | _ \<Rightarrow> MessageSendException)"

lemma attempt_kernel:
  fixes C :: "'n calls"
  assumes "writes (ca_write C) got"
    and "kernel_exchange C (table_count (pr_table (cl_net s)) < pr_limit (cl_net s)) m (pr_rest (cl_net s)) = (reply, n)"
  shows "\<exists>q. tcp_attempt E C m read_in s =
      (case reply of
         Tcp_answer chunks \<Rightarrow> read_answer (read_in (TcpMessage_new (ce_uninit E) chunks)) (s\<lparr>cl_net := q\<rparr>)
       | _ \<Rightarrow> (Throw (reply_exn reply), s\<lparr>cl_net := q\<rparr>)) \<and>
    (if reply = Tcp_write_failed then n = pr_rest q
     else if holds_none (cl_net s) q then n = pr_rest q
     else holds_socket (cl_net s) q \<and> n = kernel_closes C (pr_rest q))"
proof -
  let ?p = "cl_net s" and ?room = "table_count (pr_table (cl_net s)) < pr_limit (cl_net s)"
  have not_none: "\<not> holds_none p q" if "holds_socket p q" for p q :: "'n endpoint"
    using that by (auto simp: holds_socket_def holds_none_def fds.fresh_free dest: fun_cong [of _ _ "table_fresh (pr_table p)"])
  obtain b1 n1 where k1: "ca_ok C Sys_socket (pr_rest ?p) = (b1, n1)" by fastforce
  obtain b2 n2 where k2: "ca_ok C Sys_setsockopt n1 = (b2, n2)" by fastforce
  obtain b3 n3 where k3: "ca_ok C Sys_setsockopt n2 = (b3, n3)" by fastforce
  obtain b4 n4 where k4: "ca_ok C Sys_connect n3 = (b4, n4)" by fastforce
  note kernel = assms(2) [unfolded kernel_exchange_def k1 prod.case k2 k3 k4]
  note run = tcp_attempt_def bindP_def on_net_run reply_exn_def
  show ?thesis
  proof (cases "b1 \<and> ?room")
    case False
    then obtain q where "openTcpSocket C ?p = (Throw SocketException, q)" "holds_none ?p q" "pr_rest q = n1"
      using open_no_socket [OF k1] by auto
    then show ?thesis using kernel False by (auto simp: run)
  next
    case room: True
    then obtain q where open1: "openTcpSocket C ?p = (if b2 \<and> b3 then Ret () else Throw SocketException, q)"
        and q: "holds_socket ?p q" "pr_rest q = (if b2 then n3 else n2)"
      using open_kernel [of C ?p n1, OF _ _ k2 k3] k1 by auto
    show ?thesis
    proof (cases "b2 \<and> b3")
      case False
      then show ?thesis using kernel room open1 q not_none [OF q(1)] by (cases b2) (auto simp: run)
    next
      case set: True
      obtain q4 where c: "sys_connect C (ep_tcp_fd q) q = (Ret (if b4 then 0 else -1), q4)" "holds_socket ?p q4" "pr_rest q4 = n4"
        using on_socket_kernel [OF q(1), of C Sys_connect] k4 q(2) set by (auto simp: sys_connect_def)
      show ?thesis
      proof (cases b4)
        case False
        then show ?thesis using kernel room set open1 c not_none [OF c(2)] by (auto simp: run sendTcpMessage_def)
      next
        case True
        obtain x n5 where w: "write_loop (ca_write C) m 0 n4 = Some (x, n5)" and "sent_upto got m 0 n4 (x, n5)"
          using write_loop_ends [OF assms(1), of 0 m n4] by auto
        then have "x = Inr () \<or> x = Inl MessageSendException" unfolding sent_upto_def by (metis fst_conv)
        moreover have "holds_socket ?p (q4\<lparr>pr_rest := n'\<rparr>)" for n' using c(2) by (simp add: holds_socket_def)
        note h = this not_none [OF this]
        ultimately show ?thesis using kernel room set True open1 c w h [of n5] h [of "snd (ca_reads C n5)"]
          by (elim disjE)
            (auto simp: run sendTcpMessage_def write_message_def send_tcp_message_def waitForTcpMessage_def read_chunks_def
              await_tcp_message_def split_beta)
      qed
    qed
  qed
qed

text \<open>C35: The exchange over TCP that the theorems on the client rest on is what its system calls make of it. Take as the
  network of that model what the kernel answers: no socket where there is no room, or socket or one of the two
  setsockopt fails; no connection where connect fails; a failed write; or the chunks the reads find. Then the calls
  return, throw and print the same in every state, and where they return, after a reader that does not throw the
  exception of a failed write itself, they leave the same state of the system outside the process, whatever fails among socket, setsockopt, connect and write, as long as close itself reports no error and write keeps its
  contract.\<close>

theorem exchange_refines:
  assumes "writes (ca_write C) got" and "\<forall>n. fst (ca_ok C Sys_close n)"
  shows "let (r, s1) = tcp_calls E C m read_in s;
      (r', s2) = sendTcpMessageAndAwaitReply (E\<lparr>ce_tcp := tcp_of_calls C\<rparr>) m read_in s
    in r = r' \<and> s1 = s2\<lparr>cl_net := cl_net s1\<rparr> \<and> (r \<noteq> Block \<and> (\<forall>t. map_option result (read_in t) \<noteq> Some (Inl MessageSendException)) \<longrightarrow>
      pr_rest (cl_net s1) = pr_rest (cl_net s2))"
proof -
  note exchange_sides = tcp_calls_def sendTcpMessageAndAwaitReply_def tcp_exchange_def try_catch_def bindP_def print_out_def on_net_run
  obtain reply n where k: "kernel_exchange C (table_count (pr_table (cl_net s)) < pr_limit (cl_net s)) m (pr_rest (cl_net s)) = (reply, n)"
    by fastforce
  obtain q where a: "tcp_attempt E C m read_in s =
      (case reply of
         Tcp_answer chunks \<Rightarrow> read_answer (read_in (TcpMessage_new (ce_uninit E) chunks)) (s\<lparr>cl_net := q\<rparr>)
       | _ \<Rightarrow> (Throw (reply_exn reply), s\<lparr>cl_net := q\<rparr>))"
    and q: "if reply = Tcp_write_failed then n = pr_rest q
     else if holds_none (cl_net s) q then n = pr_rest q
     else holds_socket (cl_net s) q \<and> n = kernel_closes C (pr_rest q)"
    using attempt_kernel [OF assms(1) k] by blast
  have net: "tcp_of_calls C m (cl_net s) = (reply, (cl_net s)\<lparr>pr_rest := n\<rparr>)" by (simp add: tcp_of_calls_def k)
  show ?thesis
  proof (cases "reply = Tcp_write_failed")
    case True
    then show ?thesis using q
      by (simp add: exchange_sides a net reply_exn_def)
  next
    case False
    then obtain q' where close: "closeTcpSocket C q = (Ret (), q')" "pr_rest q' = n"
      using q close_kernel [OF assms(2), of "cl_net s" q] by (auto split: if_splits)
    show ?thesis
    proof (cases reply)
      case (Tcp_answer chunks)
      then show ?thesis
        by (cases "read_in (TcpMessage_new (ce_uninit E) chunks)")
          (auto simp: exchange_sides a net read_answer_def liftP_def close split: sum.splits)
    qed (use False in \<open>simp_all add: exchange_sides a net reply_exn_def close\<close>)
  qed
qed

lemma exchange_refines_example:
  "let (r, s1) = tcp_calls example_client_env (example_calls True) ''BID'' example_reader example_client;
     (r', s2) = sendTcpMessageAndAwaitReply (example_client_env\<lparr>ce_tcp := tcp_of_calls (example_calls True)\<rparr>) ''BID''
       example_reader example_client
   in r = r' \<and> r = Ret (Some True) \<and> s1 = s2\<lparr>cl_net := cl_net s1\<rparr> \<and> pr_rest (cl_net s1) = ''BID''"
proof -
  have w: "writes (ca_write (example_calls True)) (\<lambda>n. n)" by (auto simp: writes_def example_calls_def)
  have c: "\<forall>n. fst (ca_ok (example_calls True) Sys_close n)" by (simp add: example_calls_def)
  have "sendTcpMessageAndAwaitReply (example_client_env\<lparr>ce_tcp := tcp_of_calls (example_calls True)\<rparr>) ''BID'' example_reader example_client =
      (Ret (Some True), example_client\<lparr>cl_net := example_endpoint\<lparr>pr_rest := ''BID''\<rparr>\<rparr>)"
    by (simp add: sendTcpMessageAndAwaitReply_def tcp_exchange_def tcp_of_calls_def kernel_exchange_def kernel_closes_def
        example_calls_def example_client_def example_endpoint_def table_count_def write_loop.simps try_catch_def bindP_def
        read_answer_def example_reader_def liftP_def)
  then show ?thesis
    using exchange_refines [OF w c, of example_client_env "''BID''" example_reader example_client]
    by (auto simp: Let_def split_beta example_reader_def)
qed

end
