(* ===== verification/Server_Sockets.thy ===== *)
theory Server_Sockets
  imports Client_Sockets Server_Loops
begin

text \<open>
  server/server.cpp at the level of its system calls: the constructor of the server with its signal handlers,
  sockets and addresses, its destructor, and what the process that accepts connections does with descriptors.
\<close>

section \<open>Signals\<close>

definition setupSignalHandlers :: "'n calls \<Rightarrow> (unit, 'n endpoint) prog" where
  "setupSignalHandlers C =
     bindP (sys_signal SIGPIPE SIG_IGN) (\<lambda>_.
     bindP (sys_signal SIGCHLD SIG_IGN) (\<lambda>_.
     bindP (sys_sigaction C SIGINT Sig_int_handler) (\<lambda>r.
     if r = -1 then throw UnrecoverableException else ret ())))"

section \<open>The constructor and the destructor\<close>

definition setup_sockets :: "'n calls \<Rightarrow> (unit, 'n endpoint) prog" where
  "setup_sockets C =
     bindP (sys_socket C SOCK_DGRAM) (\<lambda>udp.
     bindP (set_udp_fd udp) (\<lambda>_.
     if udp = -1 then throw UnrecoverableException
     else
       bindP (sys_setsockopt C udp SO_REUSEADDR) (\<lambda>r.
       if r < 0 then throw UnrecoverableException
       else
         bindP (sys_socket C SOCK_STREAM) (\<lambda>tcp.
         bindP (set_tcp_fd tcp) (\<lambda>_.
         if tcp = -1 then throw UnrecoverableException
         else
           bindP (sys_setsockopt C tcp SO_REUSEADDR) (\<lambda>r.
           if r < 0 then throw UnrecoverableException else ret ()))))))"

text \<open>The text is what the call prints.\<close>

definition server_resolveServerAddress :: "'n calls \<Rightarrow> string \<Rightarrow> (string, 'n endpoint) prog" where
  "server_resolveServerAddress C port p =
     bindP (sys_getaddrinfo C) (\<lambda>ok.
     if \<not> ok then throw UnrecoverableException
     else
       bindP (set_udp_addr port) (\<lambda>_.
       bindP (sys_bind C (ep_udp_fd p) port) (\<lambda>r.
       if r < 0 then throw UnrecoverableException
       else
         bindP (sys_getaddrinfo C) (\<lambda>ok.
         if \<not> ok then throw UnrecoverableException
         else
           bindP (set_tcp_addr port) (\<lambda>_.
           bindP (sys_bind C (ep_tcp_fd p) port) (\<lambda>r.
           if r < 0 then throw UnrecoverableException
           else ret (''Listening for connections on port '' @ port @ endl))))))) p"

text \<open>The sockets and the files are two parts of the state of the constructor; None is an exit of configServer.\<close>

definition on_sockets :: "('a, 'e) prog \<Rightarrow> ('a, 'e \<times> world) prog" where
  "on_sockets m s = (case m (fst s) of (r, p) \<Rightarrow> (r, (p, snd s)))"

definition on_files :: "('a, world) prog \<Rightarrow> ('a, 'e \<times> world) prog" where
  "on_files m s = (case m (snd s) of (r, w) \<Rightarrow> (r, (fst s, w)))"

definition Server_construct ::
    "'n calls \<Rightarrow> server_option list \<Rightarrow> bool \<Rightarrow> ((server_config \<times> string) option, 'n endpoint \<times> world) prog" where
  "Server_construct C opts sem_opens =
     (case configServer opts of
        Exit_config \<Rightarrow> ret None
      | Uncaught e \<Rightarrow> throw e
      | Configured c \<Rightarrow>
          bindP (on_sockets (setupSignalHandlers C)) (\<lambda>_.
          bindP (on_sockets (sys_socket C SOCK_DGRAM)) (\<lambda>fd.
          bindP (on_sockets (set_udp_fd fd)) (\<lambda>_.
          if fd = -1 then throw UnrecoverableException
          else
            bindP (on_files (CreateBaseDir sem_opens)) (\<lambda>_.
            bindP (on_sockets (setup_sockets C)) (\<lambda>_.
            bindP (on_sockets (server_resolveServerAddress C (sv_port c))) (\<lambda>text.
            ret (Some (c, text)))))))))"

definition Server_destructor :: "'n calls \<Rightarrow> (unit, 'n endpoint) prog" where
  "Server_destructor C = endpoint_destroy C"

text \<open>terminate() runs the destructor, prints and exits.\<close>

definition terminate :: "'n calls \<Rightarrow> message_type \<Rightarrow> (string, 'n endpoint) prog" where
  "terminate C process =
     bindP (Server_destructor C) (\<lambda>_.
     ret (''[SIGINT] Shutting Down '' @ (if process = UDP_MESSAGE then ''UDP'' else ''TCP'') @ ''.'' @ endl))"

section \<open>Accepting connections\<close>

text \<open>
  wait_for_tcp_message as the parent sees it: the round it is for the loop. The child, which gets a copy of
  the table, is processTCPChild.
\<close>

definition listening :: "'n endpoint \<Rightarrow> bool" where
  "listening p \<longleftrightarrow>
     (case table_view (pr_table p) (ep_tcp_fd p) of Some (Socket s) \<Rightarrow> sk_backlog s \<noteq> None | _ \<Rightarrow> False)"

definition sys_accept :: "'n calls \<Rightarrow> (accepted \<times> int, 'n endpoint) prog" where
  "sys_accept C p =
     (case ca_accept C (pr_rest p) of
        (Not_accepted sig_int again, n) \<Rightarrow> (Ret (Not_accepted sig_int again, -1), p\<lparr>pr_rest := n\<rparr>)
      | (Accepted, n) \<Rightarrow>
          if pr_limit p \<le> table_count (pr_table p) \<or> \<not> listening p
          then (Ret (Not_accepted False False, -1), p\<lparr>pr_rest := n\<rparr>)
          else (Ret (Accepted, table_fresh (pr_table p)),
            p\<lparr>pr_rest := n, pr_table := table_put (Socket (new_socket SOCK_STREAM)) (pr_table p)\<rparr>))"

datatype accept_round = Again | Interrupted | In_child int

definition accept_connection :: "'n calls \<Rightarrow> (accept_round, 'n endpoint) prog" where
  "accept_connection C =
     bindP (sys_accept C) (\<lambda>(a, connection_fd).
     case a of
       Not_accepted sig_int again \<Rightarrow>
         if sig_int then bindP (terminate C TCP_MESSAGE) (\<lambda>_. ret Interrupted)
         else if again then ret Again
         else throw UnrecoverableException
     | Accepted \<Rightarrow>
         bindP (sys_setsockopt C connection_fd (SO_RCVTIMEO TCP_READ_TIMEOUT_SECONDS 0)) (\<lambda>r.
         if r < 0 then throw UnrecoverableException
         else
           try_catch
             (bindP (asks C Sys_fork) (\<lambda>forked.
              if \<not> forked then throw UnrecoverableException
              else bindP (sys_close C connection_fd) (\<lambda>_. ret (In_child connection_fd))))
             (\<lambda>_. bindP (sys_close C connection_fd) (\<lambda>_. throw UnrecoverableException))))"

section \<open>What the calls do to the table and the fields\<close>

record summary =
  sm_view :: "int \<Rightarrow> descriptor option"
  sm_limit :: nat
  sm_signals :: "signal_name \<Rightarrow> disposition"
  sm_addrinfos :: nat
  sm_udp_fd :: int
  sm_tcp_fd :: int
  sm_udp_addr :: "string option"
  sm_tcp_addr :: "string option"

definition summary :: "'n endpoint \<Rightarrow> summary" where
  "summary p =
     \<lparr>sm_view = table_view (pr_table p), sm_limit = pr_limit p, sm_signals = pr_signals p, sm_addrinfos = pr_addrinfos p,
      sm_udp_fd = ep_udp_fd p, sm_tcp_fd = ep_tcp_fd p, sm_udp_addr = ep_udp_addr p, sm_tcp_addr = ep_tcp_addr p\<rparr>"

lemma summary_fields [simp]:
  "sm_view (summary p) = table_view (pr_table p)" "sm_limit (summary p) = pr_limit p" "sm_signals (summary p) = pr_signals p"
  "sm_addrinfos (summary p) = pr_addrinfos p" "sm_udp_fd (summary p) = ep_udp_fd p"
  "sm_tcp_fd (summary p) = ep_tcp_fd p" "sm_udp_addr (summary p) = ep_udp_addr p" "sm_tcp_addr (summary p) = ep_tcp_addr p"
  by (simp_all add: summary_def)

lemma summary_sets [simp]:
  "summary (p\<lparr>ep_udp_fd := fd\<rparr>) = (summary p)\<lparr>sm_udp_fd := fd\<rparr>"
  "summary (p\<lparr>ep_tcp_fd := fd\<rparr>) = (summary p)\<lparr>sm_tcp_fd := fd\<rparr>"
  "summary (p\<lparr>ep_udp_addr := a\<rparr>) = (summary p)\<lparr>sm_udp_addr := a\<rparr>"
  "summary (p\<lparr>ep_tcp_addr := a\<rparr>) = (summary p)\<lparr>sm_tcp_addr := a\<rparr>"
  "summary (p\<lparr>pr_signals := g\<rparr>) = (summary p)\<lparr>sm_signals := g\<rparr>"
  "summary (p\<lparr>pr_addrinfos := k\<rparr>) = (summary p)\<lparr>sm_addrinfos := k\<rparr>"
  "summary (p\<lparr>pr_rest := n\<rparr>) = summary p"
  by (simp_all add: summary_def)

lemma summary_table [simp]: "summary (p\<lparr>pr_table := t\<rparr>) = (summary p)\<lparr>sm_view := table_view t\<rparr>"
  by (simp add: summary_def)

text \<open>Room for \<open>k\<close> more descriptors.\<close>

definition room :: "nat \<Rightarrow> summary \<Rightarrow> bool" where
  "room k a \<longleftrightarrow> card (dom (sm_view a)) + k \<le> sm_limit a"

lemma room_view:
  assumes "sm_view (summary p) fd \<noteq> None" and "sm_view a = (sm_view (summary p))(fd := Some d)" and "sm_limit a = sm_limit (summary p)"
  shows "room k a = room k (summary p)"
  using assms by (simp add: room_def insert_absorb domIff)

lemma room_put:
  assumes "room (Suc k) (summary p)" and "sm_view a = (sm_view (summary p))(fd := Some d)" and "sm_limit a = sm_limit (summary p)"
  shows "room k a"
proof -
  have "card (insert fd (dom (table_view (pr_table p)))) \<le> Suc (card (dom (table_view (pr_table p))))"
    by (rule card_insert_le_m1) simp_all
  then show ?thesis using assms by (simp add: room_def)
qed

lemma sys_socket_cases:
  fixes p :: "'n endpoint"
  obtains (fails) q where "sys_socket C ty p = (Ret (-1), q)" "summary q = summary p" "\<not> (all_succeed C \<and> room 1 (summary p))"
  | (opens) fd q where "sys_socket C ty p = (Ret fd, q)" "fd = table_fresh (pr_table p)"
      "summary q = (summary p)\<lparr>sm_view := (sm_view (summary p))(fd := Some (Socket (new_socket ty)))\<rparr>"
proof (cases "\<not> fst (ca_ok C Sys_socket (pr_rest p)) \<or> pr_limit p \<le> table_count (pr_table p)")
  case True
  then have run: "sys_socket C ty p = (Ret (-1), p\<lparr>pr_rest := snd (ca_ok C Sys_socket (pr_rest p))\<rparr>)"
    by (simp add: sys_socket_run Let_def split_beta)
  have "\<not> (all_succeed C \<and> room 1 (summary p))"
    using True by (auto simp: all_succeed_def room_def table_count_opened fds.opened_def)
  with run show ?thesis by (intro fails [OF run]) simp_all
next
  case False
  let ?q = "p\<lparr>pr_rest := snd (ca_ok C Sys_socket (pr_rest p)), pr_table := table_put (Socket (new_socket ty)) (pr_table p)\<rparr>"
  from False have "sys_socket C ty p = (Ret (table_fresh (pr_table p)), ?q)"
    by (simp add: sys_socket_run Let_def split_beta)
  then show ?thesis by (rule opens) (simp_all only: summary_table summary_sets summary_fields fds.view_put)
qed

lemma on_socket_cases:
  fixes p :: "'n endpoint"
  assumes "sm_view (summary p) fd = Some (Socket d)"
  obtains (fails) q where "on_socket C c fd upd p = (Ret (-1), q)" "summary q = summary p" "\<not> all_succeed C"
  | (changes) q where "on_socket C c fd upd p = (Ret 0, q)"
      "summary q = (summary p)\<lparr>sm_view := (sm_view (summary p))(fd := Some (Socket (upd d)))\<rparr>"
proof -
  note run = on_socket_run [of p fd d C c upd]
  show ?thesis
  proof (cases "fst (ca_ok C c (pr_rest p))")
    case True
    let ?q = "p\<lparr>pr_rest := snd (ca_ok C c (pr_rest p)), pr_table := table_change fd (Socket (upd d)) (pr_table p)\<rparr>"
    have "table_view (table_change fd (Socket (upd d)) (pr_table p)) = (table_view (pr_table p))(fd := Some (Socket (upd d)))"
      by (rule fds.view_change) (use assms in simp)
    then have "summary ?q = (summary p)\<lparr>sm_view := (sm_view (summary p))(fd := Some (Socket (upd d)))\<rparr>"
      by (simp only: summary_table summary_sets summary_fields)
    moreover have "on_socket C c fd upd p = (Ret 0, ?q)" using True assms run by (simp add: Let_def split_beta)
    ultimately show ?thesis by (intro changes)
  next
    case False
    then have "on_socket C c fd upd p = (Ret (-1), p\<lparr>pr_rest := snd (ca_ok C c (pr_rest p))\<rparr>)"
      using assms run by (simp add: Let_def split_beta)
    then show ?thesis by (rule fails) (use False in \<open>auto simp: all_succeed_def\<close>)
  qed
qed

lemma sys_getaddrinfo_cases:
  fixes p :: "'n endpoint"
  obtains (fails) q where "sys_getaddrinfo C p = (Ret False, q)" "summary q = summary p" "\<not> all_succeed C"
  | (resolves) q where "sys_getaddrinfo C p = (Ret True, q)"
      "summary q = (summary p)\<lparr>sm_addrinfos := Suc (sm_addrinfos (summary p))\<rparr>"
proof (cases "fst (ca_ok C Sys_getaddrinfo (pr_rest p))")
  case True
  let ?q = "p\<lparr>pr_rest := snd (ca_ok C Sys_getaddrinfo (pr_rest p)), pr_addrinfos := Suc (pr_addrinfos p)\<rparr>"
  from True have "sys_getaddrinfo C p = (Ret True, ?q)" by (simp add: sys_getaddrinfo_def bindP_def asks_def split_beta)
  then show ?thesis by (rule resolves) (simp only: summary_sets summary_fields)
next
  case False
  then have "sys_getaddrinfo C p = (Ret False, p\<lparr>pr_rest := snd (ca_ok C Sys_getaddrinfo (pr_rest p))\<rparr>)"
    by (simp add: sys_getaddrinfo_def bindP_def asks_def split_beta)
  then show ?thesis by (rule fails) (use False in \<open>auto simp: all_succeed_def\<close>)
qed

lemma fresh_view: "sm_view (summary p) (table_fresh (pr_table p)) = None" "table_fresh (pr_table p) \<noteq> -1"
  by (simp_all add: fds.fresh_free fds.fresh_not_minus)

definition served_socket :: "socket_type \<Rightarrow> string option \<Rightarrow> descriptor" where
  "served_socket ty port = Socket ((new_socket ty)\<lparr>sk_reuseaddr := True, sk_bound := port\<rparr>)"

lemma setup_sockets_run:
  fixes p :: "'n endpoint"
  assumes "setup_sockets C p = (r, q)"
  shows "r = Throw UnrecoverableException \<and> \<not> (all_succeed C \<and> room 2 (summary p)) \<or>
    r = Ret () \<and> (\<exists>udp tcp. udp \<noteq> -1 \<and> tcp \<noteq> -1 \<and> udp \<noteq> tcp \<and> sm_view (summary p) udp = None \<and> sm_view (summary p) tcp = None \<and>
      summary q = (summary p)\<lparr>sm_udp_fd := udp, sm_tcp_fd := tcp,
        sm_view := (sm_view (summary p))(udp := Some (served_socket SOCK_DGRAM None), tcp := Some (served_socket SOCK_STREAM None))\<rparr>)"
proof (cases rule: sys_socket_cases [of C SOCK_DGRAM p])
  case (fails q1)
  then show ?thesis using assms by (auto simp: setup_sockets_def bindP_def set_udp_fd_def room_def)
next
  case 1: (opens udp q1)
  let ?q1 = "q1\<lparr>ep_udp_fd := udp\<rparr>"
  have udp: "udp \<noteq> -1" "sm_view (summary p) udp = None" using 1(2) fresh_view [of p] by simp_all
  have v1: "sm_view (summary ?q1) udp = Some (Socket (new_socket SOCK_DGRAM))" using 1(3) by simp
  from v1 show ?thesis
  proof (cases rule: on_socket_cases [where C = C and c = Sys_setsockopt and upd = "set_option SO_REUSEADDR"])
    case (fails q2)
    then show ?thesis using assms 1 udp by (simp add: setup_sockets_def bindP_def set_udp_fd_def sys_setsockopt_def)
  next
    case 2: (changes q2)
    show ?thesis
    proof (cases rule: sys_socket_cases [of C SOCK_STREAM q2])
      case (fails q3)
      have "room 1 (summary q2)" if "room 2 (summary p)"
        using that room_put [of 1 p "summary q2" udp] 1(3) 2(2) by (simp add: numeral_2_eq_2)
      then have "\<not> (all_succeed C \<and> room 2 (summary p))" using fails(3) by blast
      moreover have "r = Throw UnrecoverableException"
        using fails(1) assms 1(1) 2(1) udp(1)
        by (simp add: setup_sockets_def bindP_def set_udp_fd_def set_tcp_fd_def sys_setsockopt_def)
      ultimately show ?thesis by blast
    next
      case 3: (opens tcp q3)
      let ?q3 = "q3\<lparr>ep_tcp_fd := tcp\<rparr>"
      have tcp: "tcp \<noteq> -1" "sm_view (summary q2) tcp = None" using 3(2) fresh_view [of q2] by simp_all
      then have new: "udp \<noteq> tcp" "sm_view (summary p) tcp = None" using 1(3) 2(2) by (auto split: if_splits)
      have v3: "sm_view (summary ?q3) tcp = Some (Socket (new_socket SOCK_STREAM))" using 3(3) by simp
      from v3 show ?thesis
      proof (cases rule: on_socket_cases [where C = C and c = Sys_setsockopt and upd = "set_option SO_REUSEADDR"])
        case (fails q4)
        then show ?thesis
          using assms 1 2 3 udp tcp by (simp add: setup_sockets_def bindP_def set_udp_fd_def set_tcp_fd_def sys_setsockopt_def)
      next
        case 4: (changes q4)
        have "r = Ret ()" "q = q4"
          using assms 1(1) 2(1) 3(1) 4(1) udp tcp
          by (simp_all add: setup_sockets_def bindP_def set_udp_fd_def set_tcp_fd_def sys_setsockopt_def)
        moreover have "summary q4 = (summary p)\<lparr>sm_udp_fd := udp, sm_tcp_fd := tcp,
            sm_view := (sm_view (summary p))(udp := Some (served_socket SOCK_DGRAM None), tcp := Some (served_socket SOCK_STREAM None))\<rparr>"
          using 1(3) 2(2) 3(3) 4(2) new by (simp add: served_socket_def new_socket_def fun_upd_twist)
        ultimately show ?thesis using udp tcp(1) new by blast
      qed
    qed
  qed
qed

lemma resolve_run:
  fixes p :: "'n endpoint"
  assumes "server_resolveServerAddress C port p = (r, q)"
    and "sm_view (summary p) (ep_udp_fd p) = Some (Socket d1)" and "sm_view (summary p) (ep_tcp_fd p) = Some (Socket d2)"
    and "ep_udp_fd p \<noteq> ep_tcp_fd p"
  shows "r = Throw UnrecoverableException \<and> \<not> all_succeed C \<or>
    r = Ret (''Listening for connections on port '' @ port @ endl) \<and>
    summary q = (summary p)\<lparr>sm_addrinfos := Suc (Suc (sm_addrinfos (summary p))), sm_udp_addr := Some port, sm_tcp_addr := Some port,
      sm_view := (sm_view (summary p))
        (ep_udp_fd p := Some (Socket (d1\<lparr>sk_bound := Some port\<rparr>)), ep_tcp_fd p := Some (Socket (d2\<lparr>sk_bound := Some port\<rparr>)))\<rparr>"
proof (cases rule: sys_getaddrinfo_cases [of C p])
  case (fails q1)
  then show ?thesis using assms(1) by (simp add: server_resolveServerAddress_def bindP_def)
next
  case 1: (resolves q1)
  let ?q1 = "q1\<lparr>ep_udp_addr := Some port\<rparr>"
  note defs = server_resolveServerAddress_def bindP_def set_udp_addr_def set_tcp_addr_def sys_bind_def
  have "sm_view (summary ?q1) (ep_udp_fd p) = Some (Socket d1)" using 1(2) assms(2) by simp
  then show ?thesis
  proof (cases rule: on_socket_cases [where C = C and c = Sys_bind and upd = "\<lambda>s. s\<lparr>sk_bound := Some port\<rparr>"])
    case (fails q2)
    then show ?thesis using assms(1) 1(1) by (simp add: defs)
  next
    case 2: (changes q2)
    show ?thesis
    proof (cases rule: sys_getaddrinfo_cases [of C q2])
      case (fails q3)
      then show ?thesis using assms(1) 1(1) 2(1) by (simp add: defs)
    next
      case 3: (resolves q3)
      let ?q3 = "q3\<lparr>ep_tcp_addr := Some port\<rparr>"
      have "sm_view (summary ?q3) (ep_tcp_fd p) = Some (Socket d2)" using 1(2) 2(2) 3(2) assms(3,4) by simp
      then show ?thesis
      proof (cases rule: on_socket_cases [where C = C and c = Sys_bind and upd = "\<lambda>s. s\<lparr>sk_bound := Some port\<rparr>"])
        case (fails q4)
        then show ?thesis using assms(1) 1(1) 2(1) 3(1) by (simp add: defs)
      next
        case 4: (changes q4)
        then have "r = Ret (''Listening for connections on port '' @ port @ endl)" "q = q4"
          using assms(1) 1(1) 2(1) 3(1) by (simp_all add: defs)
        moreover have "summary q4 = (summary p)\<lparr>sm_addrinfos := Suc (Suc (sm_addrinfos (summary p))), sm_udp_addr := Some port,
            sm_tcp_addr := Some port, sm_view := (sm_view (summary p))
              (ep_udp_fd p := Some (Socket (d1\<lparr>sk_bound := Some port\<rparr>)), ep_tcp_fd p := Some (Socket (d2\<lparr>sk_bound := Some port\<rparr>)))\<rparr>"
          by (simp add: 4(2) 3(2) 2(2) 1(2))
        ultimately show ?thesis by simp
      qed
    qed
  qed
qed

definition server_signals :: "(signal_name \<Rightarrow> disposition) \<Rightarrow> signal_name \<Rightarrow> disposition" where
  "server_signals g = g(SIGPIPE := SIG_IGN, SIGCHLD := SIG_IGN, SIGINT := Sig_int_handler)"

lemma signals_run:
  fixes p :: "'n endpoint"
  assumes "setupSignalHandlers C p = (r, q)"
  shows "r = Throw UnrecoverableException \<and> \<not> all_succeed C \<or>
    r = Ret () \<and> summary q = (summary p)\<lparr>sm_signals := server_signals (sm_signals (summary p))\<rparr>"
  using assms
  by (cases "fst (ca_ok C Sys_sigaction (pr_rest p))")
     (auto simp: setupSignalHandlers_def bindP_def sys_signal_def sys_sigaction_def asks_def split_beta server_signals_def all_succeed_def)

lemma CreateBaseDir_returns: "\<exists>r. fst (CreateBaseDir sem_opens w) = Ret r"
  by (auto simp: CreateBaseDir_def semaphore_init_def bindP_def runF_def split_beta)

text \<open>
  The server after its constructor: besides the sockets it names it has opened one more for UDP, which no
  field names any more.
\<close>

definition server_up :: "summary \<Rightarrow> string \<Rightarrow> int \<Rightarrow> summary \<Rightarrow> bool" where
  "server_up b port extra a \<longleftrightarrow>
     distinct [extra, sm_udp_fd a, sm_tcp_fd a, -1] \<and> (\<forall>fd \<in> {extra, sm_udp_fd a, sm_tcp_fd a}. sm_view b fd = None) \<and>
     a = b\<lparr>sm_signals := server_signals (sm_signals b), sm_addrinfos := sm_addrinfos b + 2,
       sm_udp_addr := Some port, sm_tcp_addr := Some port, sm_udp_fd := sm_udp_fd a, sm_tcp_fd := sm_tcp_fd a,
       sm_view := (sm_view b)(extra := Some (Socket (new_socket SOCK_DGRAM)),
         sm_udp_fd a := Some (served_socket SOCK_DGRAM (Some port)), sm_tcp_fd a := Some (served_socket SOCK_STREAM (Some port)))\<rparr>"

lemma on_sockets_run: "on_sockets m (p, w) = (fst (m p), (snd (m p), w))"
  by (simp add: on_sockets_def split_beta)

lemma on_files_run: "on_files m (p, w) = (fst (m w), (p, snd (m w)))"
  by (simp add: on_files_def split_beta)

text \<open>The part of the constructor after the signal handlers and the first socket.\<close>

lemma sockets_up:
  fixes p :: "'n endpoint"
  assumes "bindP (setup_sockets C) (\<lambda>_. server_resolveServerAddress C port) p = (r, q)"
  shows "r = Throw UnrecoverableException \<and> \<not> (all_succeed C \<and> room 2 (summary p)) \<or>
    r = Ret (''Listening for connections on port '' @ port @ endl) \<and>
    (\<exists>udp tcp. distinct [udp, tcp, -1] \<and> sm_view (summary p) udp = None \<and> sm_view (summary p) tcp = None \<and>
      summary q = (summary p)\<lparr>sm_addrinfos := sm_addrinfos (summary p) + 2, sm_udp_addr := Some port, sm_tcp_addr := Some port,
        sm_udp_fd := udp, sm_tcp_fd := tcp, sm_view := (sm_view (summary p))
          (udp := Some (served_socket SOCK_DGRAM (Some port)), tcp := Some (served_socket SOCK_STREAM (Some port)))\<rparr>)"
proof -
  obtain r1 q1 where s1: "setup_sockets C p = (r1, q1)" by fastforce
  from setup_sockets_run [OF this] show ?thesis
  proof (elim disjE conjE exE)
    fix udp tcp
    assume r1: "r1 = Ret ()" and ne: "udp \<noteq> -1" "tcp \<noteq> -1" "udp \<noteq> tcp" "sm_view (summary p) udp = None" "sm_view (summary p) tcp = None"
      and q1: "summary q1 = (summary p)\<lparr>sm_udp_fd := udp, sm_tcp_fd := tcp,
        sm_view := (sm_view (summary p))(udp := Some (served_socket SOCK_DGRAM None), tcp := Some (served_socket SOCK_STREAM None))\<rparr>"
    have fd: "ep_udp_fd q1 = udp" "ep_tcp_fd q1 = tcp"
      using arg_cong [where f = sm_udp_fd, OF q1] arg_cong [where f = sm_tcp_fd, OF q1] by simp_all
    have res: "server_resolveServerAddress C port q1 = (r, q)" using assms by (simp add: bindP_def s1 r1)
    have "r = Throw UnrecoverableException \<and> \<not> all_succeed C \<or>
        r = Ret (''Listening for connections on port '' @ port @ endl) \<and>
        summary q = (summary p)\<lparr>sm_addrinfos := sm_addrinfos (summary p) + 2, sm_udp_addr := Some port, sm_tcp_addr := Some port,
          sm_udp_fd := udp, sm_tcp_fd := tcp, sm_view := (sm_view (summary p))
            (udp := Some (served_socket SOCK_DGRAM (Some port)), tcp := Some (served_socket SOCK_STREAM (Some port)))\<rparr>"
      using resolve_run [OF res, of "(new_socket SOCK_DGRAM)\<lparr>sk_reuseaddr := True, sk_bound := None\<rparr>"
          "(new_socket SOCK_STREAM)\<lparr>sk_reuseaddr := True, sk_bound := None\<rparr>"] ne(3)
      unfolding fd q1 by (auto simp: served_socket_def intro!: summary.equality)
    moreover have "distinct [udp, tcp, -1]" using ne by simp
    ultimately show ?thesis using ne(4,5) by blast
  qed (use assms in \<open>simp add: bindP_def s1\<close>)
qed

lemma construct_run:
  assumes "Server_construct C opts sem_opens (p, w) = (r, (q, w'))" and "configServer opts = Configured c"
  shows "r = Throw UnrecoverableException \<and> \<not> (all_succeed C \<and> room 3 (summary p)) \<or>
    r = Ret (Some (c, ''Listening for connections on port '' @ sv_port c @ endl)) \<and> w' = snd (CreateBaseDir sem_opens w) \<and>
    (\<exists>extra. server_up (summary p) (sv_port c) extra (summary q))"
proof -
  obtain r1 q1 where s1: "setupSignalHandlers C p = (r1, q1)" by fastforce
  from signals_run [OF this] show ?thesis
  proof (elim disjE conjE)
    assume "r1 = Throw UnrecoverableException" "\<not> all_succeed C"
    then show ?thesis using assms by (simp add: Server_construct_def bindP_def on_sockets_run s1)
  next
    assume r1: "r1 = Ret ()" and q1: "summary q1 = (summary p)\<lparr>sm_signals := server_signals (sm_signals (summary p))\<rparr>"
    show ?thesis
    proof (cases rule: sys_socket_cases [of C SOCK_DGRAM q1])
      case (fails q2)
      then have "\<not> (all_succeed C \<and> room 3 (summary p))" unfolding q1 by (auto simp: room_def)
      then show ?thesis using fails(1) assms
        by (simp add: Server_construct_def bindP_def on_sockets_run s1 r1 set_udp_fd_def)
    next
      case 2: (opens extra q2)
      have extra: "extra \<noteq> -1" "sm_view (summary p) extra = None"
        using 2(2) fresh_view [of q1] arg_cong [where f = sm_view, OF q1] by simp_all
      let ?q2 = "q2\<lparr>ep_udp_fd := extra\<rparr>"
      obtain b where b: "fst (CreateBaseDir sem_opens w) = Ret b" using CreateBaseDir_returns by blast
      obtain r3 q3 where s3: "bindP (setup_sockets C) (\<lambda>_. server_resolveServerAddress C (sv_port c)) ?q2 = (r3, q3)"
        by fastforce
      have run: "(r, (q, w')) = bindP (on_sockets (setup_sockets C)) (\<lambda>_.
          bindP (on_sockets (server_resolveServerAddress C (sv_port c))) (\<lambda>text. ret (Some (c, text))))
            (?q2, snd (CreateBaseDir sem_opens w))"
        using assms extra(1) 2(1) b
        by (simp add: Server_construct_def bindP_def [of "on_sockets (setupSignalHandlers C)"] on_sockets_run s1 r1 set_udp_fd_def
            bindP_def [of "on_sockets (sys_socket C SOCK_DGRAM)"] bindP_def [of "on_sockets (set_udp_fd extra)"]
            bindP_def [of "on_files (CreateBaseDir sem_opens)"] on_files_run)
      have end3: "w' = snd (CreateBaseDir sem_opens w) \<and> q = q3 \<and>
          r = (case r3 of Ret text \<Rightarrow> Ret (Some (c, text)) | Throw e \<Rightarrow> Throw e | Block \<Rightarrow> Block | Undef \<Rightarrow> Undef)"
        using run s3 by (auto simp: bindP_def on_sockets_run split: outcome.splits prod.splits)
      have r3: "room 3 (summary p) \<Longrightarrow> room 2 (summary ?q2)"
        using room_put [of 2 q1 "summary ?q2" extra] 2(3) q1 by (simp add: room_def)
      from sockets_up [OF s3] show ?thesis
      proof (elim disjE conjE exE)
        assume "r3 = Throw UnrecoverableException" "\<not> (all_succeed C \<and> room 2 (summary ?q2))"
        then show ?thesis using r3 end3 by auto
      next
        fix udp tcp
        assume up: "r3 = Ret (''Listening for connections on port '' @ sv_port c @ endl)" "distinct [udp, tcp, -1]"
          "sm_view (summary ?q2) udp = None" "sm_view (summary ?q2) tcp = None"
          "summary q3 = (summary ?q2)\<lparr>sm_addrinfos := sm_addrinfos (summary ?q2) + 2, sm_udp_addr := Some (sv_port c),
            sm_tcp_addr := Some (sv_port c), sm_udp_fd := udp, sm_tcp_fd := tcp, sm_view := (sm_view (summary ?q2))
            (udp := Some (served_socket SOCK_DGRAM (Some (sv_port c))), tcp := Some (served_socket SOCK_STREAM (Some (sv_port c))))\<rparr>"
        have q2: "summary ?q2 = (summary p)\<lparr>sm_signals := server_signals (sm_signals (summary p)), sm_udp_fd := extra,
            sm_view := (sm_view (summary p))(extra := Some (Socket (new_socket SOCK_DGRAM)))\<rparr>"
          using 2(3) q1 by simp
        have "server_up (summary p) (sv_port c) extra (summary q3)"
          using up(2-5) extra unfolding q2 server_up_def by (auto split: if_splits)
        then show ?thesis using up(1) end3 by auto
      qed
    qed
  qed
qed

lemma sys_close_run:
  fixes p :: "'n endpoint"
  shows "\<exists>r q. sys_close C fd p = (Ret r, q) \<and>
    summary q = (summary p)\<lparr>sm_view := (sm_view (summary p))(fd := None)\<rparr> \<and> pr_limit q = pr_limit p"
proof (cases "table_view (pr_table p) fd = None")
  case True
  then have "(table_view (pr_table p))(fd := None) = table_view (pr_table p)" by (rule fun_upd_idem)
  then have "summary p = (summary p)\<lparr>sm_view := (sm_view (summary p))(fd := None)\<rparr>" by (simp add: summary_def)
  then show ?thesis using True by (simp add: sys_close_def)
next
  case False
  then obtain d where "table_view (pr_table p) fd = Some d" by blast
  then show ?thesis by (simp add: sys_close_def bindP_def asks_def split_beta fds.view_release)
qed

lemma destroy_run:
  fixes p :: "'n endpoint"
  assumes "ep_udp_fd p \<noteq> -1" and "ep_tcp_fd p \<noteq> -1" and "ep_udp_addr p \<noteq> None" and "ep_tcp_addr p \<noteq> None"
  shows "\<exists>q. endpoint_destroy C p = (Ret (), q) \<and>
    summary q = (summary p)\<lparr>sm_view := (sm_view (summary p))(ep_udp_fd p := None, ep_tcp_fd p := None),
      sm_addrinfos := sm_addrinfos (summary p) - 2\<rparr>"
proof -
  obtain r1 q1 where q1: "sys_close C (ep_udp_fd p) p = (Ret r1, q1)"
    "summary q1 = (summary p)\<lparr>sm_view := (sm_view (summary p))(ep_udp_fd p := None)\<rparr>" using sys_close_run by blast
  have f1: "ep_tcp_fd q1 = ep_tcp_fd p" using arg_cong [where f = sm_tcp_fd, OF q1(2)] by simp
  obtain r2 q2 where q2: "sys_close C (ep_tcp_fd q1) q1 = (Ret r2, q2)"
    "summary q2 = (summary q1)\<lparr>sm_view := (sm_view (summary q1))(ep_tcp_fd q1 := None)\<rparr>" using sys_close_run by blast
  have a: "ep_udp_addr q2 = ep_udp_addr p" "ep_tcp_addr q2 = ep_tcp_addr p" "pr_addrinfos q2 = pr_addrinfos p"
    using arg_cong [where f = sm_udp_addr, OF q2(2)] arg_cong [where f = sm_tcp_addr, OF q2(2)]
      arg_cong [where f = sm_addrinfos, OF q2(2)] arg_cong [where f = sm_udp_addr, OF q1(2)]
      arg_cong [where f = sm_tcp_addr, OF q1(2)] arg_cong [where f = sm_addrinfos, OF q1(2)] by simp_all
  have run: "endpoint_destroy C p = (Ret (), q2\<lparr>pr_addrinfos := pr_addrinfos q2 - 1 - 1\<rparr>)"
    using assms a f1
    by (simp add: endpoint_destroy_def bindP_def close_if_set_def free_if_set_def sys_freeaddrinfo_def q1(1) q2(1) [unfolded f1])
  have "summary (q2\<lparr>pr_addrinfos := pr_addrinfos q2 - 1 - 1\<rparr>) =
      (summary p)\<lparr>sm_view := (sm_view (summary p))(ep_udp_fd p := None, ep_tcp_fd p := None),
        sm_addrinfos := sm_addrinfos (summary p) - 2\<rparr>"
    by (simp add: q2(2) q1(2) f1 a)
  with run show ?thesis by blast
qed

text \<open>C37: The constructor of the server, for every command line and whichever system calls fail: it exits or throws where
  the configuration says so and has done nothing then; it throws UnrecoverableException only if a call failed or the
  process had no room for three more descriptors; otherwise it returns with the files CreateBaseDir makes, with
  SIGPIPE and SIGCHLD ignored and SIGINT caught, and with a UDP and a TCP socket bound to the port, under two different
  descriptors. It has then opened three: the UDP socket made first is lost.\<close>

theorem server_start:
  "case Server_construct C opts sem_opens (p, w) of (r, (q, w')) \<Rightarrow>
    (case configServer opts of
       Exit_config \<Rightarrow> r = Ret None \<and> q = p \<and> w' = w
     | Uncaught e \<Rightarrow> r = Throw e \<and> q = p \<and> w' = w
     | Configured c \<Rightarrow>
         r = Throw UnrecoverableException \<and> (\<not> all_succeed C \<or> pr_limit p < table_count (pr_table p) + 3) \<or>
         r = Ret (Some (c, ''Listening for connections on port '' @ sv_port c @ endl)) \<and>
         w' = snd (CreateBaseDir sem_opens w) \<and> (\<exists>extra. server_up (summary p) (sv_port c) extra (summary q)))"
proof -
  obtain r q w' where run: "Server_construct C opts sem_opens (p, w) = (r, (q, w'))" by (metis prod.collapse)
  show ?thesis
  proof (cases "configServer opts")
    case (Configured c)
    then show ?thesis
      using construct_run [OF run] by (auto simp: run room_def table_count_opened fds.opened_def not_le)
  qed (use run in \<open>auto simp: Server_construct_def\<close>)
qed

definition example_start :: "string endpoint" where
  "example_start =
     \<lparr>pr_table = [Some Std_stream, Some Std_stream, Some Std_stream], pr_limit = 1024, pr_signals = (\<lambda>_. SIG_DFL),
      pr_addrinfos = 0, pr_rest = [], ep_udp_fd = -1, ep_tcp_fd = -1, ep_udp_addr = None, ep_tcp_addr = None\<rparr>"

definition example_files :: world where
  "example_files = \<lparr>wfs = [], wsem = 0, wclock = (\<lambda>_. 0), wcalls = 0\<rparr>"

lemma example_configured: "configServer [] = Configured server_defaults"
  by (simp add: configServer_def default_port_taken server_defaults_def)

lemma example_room: "all_succeed (example_calls True)" "\<not> pr_limit example_start < table_count (pr_table example_start) + 3"
  by (simp_all add: all_succeed_def example_calls_def example_start_def table_count_def)

lemma server_start_example:
  "\<exists>q text. Server_construct (example_calls True) [] True (example_start, example_files) =
     (Ret (Some (server_defaults, text)), (q, snd (CreateBaseDir True example_files)))"
  using server_start [where C = "example_calls True" and opts = "[]" and sem_opens = True and p = example_start
      and w = example_files] example_room
  by (auto simp: example_configured split: prod.splits)

text \<open>A server that has started and is then shut down keeps one descriptor open: its destructor closes the two
  sockets its fields name and frees both address lists, but the UDP socket that the constructor opened before
  setup_sockets opened another one stays open.\<close>

theorem shutdown_leaves_socket:
  assumes "Server_construct C opts sem_opens (p, w) = (Ret (Some (c, text)), (q, w'))"
  shows "\<exists>extra q'. terminate C process q =
      (Ret (''[SIGINT] Shutting Down '' @ (if process = UDP_MESSAGE then ''UDP'' else ''TCP'') @ ''.'' @ endl), q') \<and>
    table_view (pr_table p) extra = None \<and>
    table_view (pr_table q') = (table_view (pr_table p))(extra := Some (Socket (new_socket SOCK_DGRAM))) \<and>
    pr_addrinfos q' = pr_addrinfos p"
proof -
  have "\<exists>c. configServer opts = Configured c"
    using assms by (cases "configServer opts") (simp_all add: Server_construct_def)
  then obtain c' where c': "configServer opts = Configured c'" by blast
  from construct_run [OF assms c'] obtain extra where up: "server_up (summary p) (sv_port c') extra (summary q)"
    by blast
  have sq: "summary q = (summary p)\<lparr>sm_signals := server_signals (sm_signals (summary p)), sm_addrinfos := sm_addrinfos (summary p) + 2,
       sm_udp_addr := Some (sv_port c'), sm_tcp_addr := Some (sv_port c'), sm_udp_fd := ep_udp_fd q, sm_tcp_fd := ep_tcp_fd q,
       sm_view := (sm_view (summary p))(extra := Some (Socket (new_socket SOCK_DGRAM)),
         ep_udp_fd q := Some (served_socket SOCK_DGRAM (Some (sv_port c'))),
         ep_tcp_fd q := Some (served_socket SOCK_STREAM (Some (sv_port c'))))\<rparr>"
    and ne: "distinct [extra, ep_udp_fd q, ep_tcp_fd q, -1]"
    and new: "table_view (pr_table p) extra = None" "table_view (pr_table p) (ep_udp_fd q) = None"
      "table_view (pr_table p) (ep_tcp_fd q) = None"
    using up unfolding server_up_def by simp_all
  have addr: "ep_udp_addr q \<noteq> None" "ep_tcp_addr q \<noteq> None"
    using arg_cong [where f = sm_udp_addr, OF sq] arg_cong [where f = sm_tcp_addr, OF sq] by simp_all
  have "ep_udp_fd q \<noteq> -1" "ep_tcp_fd q \<noteq> -1" using ne by simp_all
  from destroy_run [OF this addr, of C] obtain q' where q': "endpoint_destroy C q = (Ret (), q')"
    "summary q' = (summary q)\<lparr>sm_view := (sm_view (summary q))(ep_udp_fd q := None, ep_tcp_fd q := None),
      sm_addrinfos := sm_addrinfos (summary q) - 2\<rparr>" by blast
  have "table_view (pr_table q') = (sm_view (summary q))(ep_udp_fd q := None, ep_tcp_fd q := None)"
    using arg_cong [where f = sm_view, OF q'(2)] by simp
  also have "\<dots> = (table_view (pr_table p))(extra := Some (Socket (new_socket SOCK_DGRAM)))"
    unfolding sq using ne new by (auto simp: fun_eq_iff)
  finally have "table_view (pr_table q') = (table_view (pr_table p))(extra := Some (Socket (new_socket SOCK_DGRAM)))" .
  moreover have "pr_addrinfos q' = pr_addrinfos p"
    using arg_cong [where f = sm_addrinfos, OF q'(2)] arg_cong [where f = sm_addrinfos, OF sq] by simp
  ultimately show ?thesis using q'(1) new(1) by (auto simp: terminate_def Server_destructor_def bindP_def)
qed

lemma shutdown_leaves_socket_example:
  "\<exists>q extra q'. fst (terminate (example_calls True) UDP_MESSAGE q) = Ret (''[SIGINT] Shutting Down UDP.'' @ endl) \<and>
     terminate (example_calls True) UDP_MESSAGE q = (Ret (''[SIGINT] Shutting Down UDP.'' @ endl), q') \<and>
     extra \<notin> {0, 1, 2} \<and> table_view (pr_table q') extra = Some (Socket (new_socket SOCK_DGRAM))"
proof -
  obtain r q w' where run: "Server_construct (example_calls True) [] True (example_start, example_files) = (r, (q, w'))"
    by (metis prod.collapse)
  have "room 3 (summary example_start)"
    using example_room(2) by (simp add: room_def table_count_opened fds.opened_def)
  with construct_run [OF run example_configured] example_room(1)
  have r: "r = Ret (Some (server_defaults, ''Listening for connections on port '' @ sv_port server_defaults @ endl))" by blast
  then obtain extra q' where e: "terminate (example_calls True) UDP_MESSAGE q =
        (Ret (''[SIGINT] Shutting Down '' @ (if UDP_MESSAGE = UDP_MESSAGE then ''UDP'' else ''TCP'') @ ''.'' @ endl), q')"
      "table_view (pr_table example_start) extra = None"
      "table_view (pr_table q') = (table_view (pr_table example_start))(extra := Some (Socket (new_socket SOCK_DGRAM)))"
    using shutdown_leaves_socket [OF run [unfolded r]] by blast
  then have "extra \<notin> {0, 1, 2}" by (auto simp: example_start_def table_view_def)
  with e show ?thesis by (intro exI [of _ q] exI [of _ extra] exI [of _ q']) simp
qed

section \<open>The descriptors of the process that accepts\<close>

lemma sys_accept_cases:
  fixes p :: "'n endpoint"
  obtains (none) sig_int again q where "sys_accept C p = (Ret (Not_accepted sig_int again, -1), q)" "summary q = summary p"
      "fst (ca_accept C (pr_rest p)) = Not_accepted sig_int again \<or> \<not> room 1 (summary p) \<or> \<not> listening p"
  | (some) fd q where "sys_accept C p = (Ret (Accepted, fd), q)" "sm_view (summary p) fd = None"
      "summary q = (summary p)\<lparr>sm_view := (sm_view (summary p))(fd := Some (Socket (new_socket SOCK_STREAM)))\<rparr>"
proof -
  obtain a n where a: "ca_accept C (pr_rest p) = (a, n)" by fastforce
  let ?q = "p\<lparr>pr_rest := n, pr_table := table_put (Socket (new_socket SOCK_STREAM)) (pr_table p)\<rparr>"
  show ?thesis
  proof (cases "a = Accepted \<and> \<not> pr_limit p \<le> table_count (pr_table p) \<and> listening p")
    case True
    then have "sys_accept C p = (Ret (Accepted, table_fresh (pr_table p)), ?q)" by (simp add: sys_accept_def a)
    then show ?thesis
      by (rule some) (simp_all only: summary_table summary_sets summary_fields fds.view_put fds.fresh_free)
  next
    case False
    then obtain x y where run: "sys_accept C p = (Ret (Not_accepted x y, -1), p\<lparr>pr_rest := n\<rparr>)"
      and "a = Not_accepted x y \<or> pr_limit p \<le> table_count (pr_table p) \<or> \<not> listening p"
      by (cases a) (auto simp: sys_accept_def a)
    then show ?thesis by (intro none [OF run]) (auto simp: a room_def table_count_opened fds.opened_def)
  qed
qed

lemma destroy_returns: "fst (endpoint_destroy C p) = Ret ()"
  by (auto simp: endpoint_destroy_def close_if_set_def free_if_set_def sys_freeaddrinfo_def sys_close_def asks_def bindP_def
      split: prod.splits)

text \<open>
  A round that ends leaves the table as it was, the connection being closed here whether a child has it or
  not; except that a connection whose timeout cannot be set stays open for good.
\<close>

lemma accept_descriptors:
  fixes p :: "'n endpoint"
  assumes "accept_connection C p = (r, q)" and "r \<noteq> Ret Interrupted"
  shows "summary q = summary p \<or>
    r = Throw UnrecoverableException \<and> \<not> all_succeed C \<and>
      (\<exists>fd d. sm_view (summary p) fd = None \<and> summary q = (summary p)\<lparr>sm_view := (sm_view (summary p))(fd := Some d)\<rparr>)"
proof (cases rule: sys_accept_cases [of C p])
  case (none sig_int again q1)
  then have "q = q1"
    using assms destroy_returns [of C q1]
    by (auto simp: accept_connection_def bindP_def terminate_def Server_destructor_def split: if_splits outcome.splits prod.splits)
  then show ?thesis using none by simp
next
  case (some fd q1)
  have v: "sm_view (summary q1) fd = Some (Socket (new_socket SOCK_STREAM))" using some(3) by simp
  have closed: "sm_view (summary p) = (sm_view (summary p))(fd := None)" using some(2) by (simp add: fun_upd_idem)
  from v show ?thesis
  proof (cases rule: on_socket_cases [where C = C and c = Sys_setsockopt and upd = "set_option (SO_RCVTIMEO TCP_READ_TIMEOUT_SECONDS 0)"])
    case (fails q2)
    then have "r = Throw UnrecoverableException" "q = q2"
      using assms(1) some(1) by (simp_all add: accept_connection_def bindP_def sys_setsockopt_def)
    then show ?thesis using fails(2,3) some(2,3) by auto
  next
    case (changes q2)
    let ?q3 = "q2\<lparr>pr_rest := snd (ca_ok C Sys_fork (pr_rest q2))\<rparr>"
    obtain x q4 where c: "sys_close C fd ?q3 = (Ret x, q4)"
      "summary q4 = (summary ?q3)\<lparr>sm_view := (sm_view (summary ?q3))(fd := None)\<rparr>" using sys_close_run by blast
    have "q = q4"
      using assms(1) some(1) changes(1) c(1)
      by (auto simp: accept_connection_def bindP_def sys_setsockopt_def try_catch_def asks_def split_beta split: if_splits)
    then show ?thesis using c(2) changes(2) some(3) closed by simp
  qed
qed

end
