(* ===== verification/Open_Files.thy ===== *)
theory Open_Files
  imports System_Calls Example_Store
begin

text \<open>
  The methods of server/database.cpp that requests about accounts run, at the level of the descriptors of
  the process that serves datagrams. There fopen and opendir also fail when the process has as many
  descriptors as it may have, and a stream the code never closes stays open: CheckUserLoggedIn and
  CheckUserRegistered leave one behind whenever they find their file, CorrectPassword where the file is
  empty. With room in the table the methods do what those of Database_Api do; each login of a registered
  user takes one descriptor for good; and once the table is full every login, logout and unregistration is
  refused.
\<close>

section \<open>Streams\<close>

text \<open>The rest of the system is the world of the database here.\<close>

type_synonym host = "world process"

definition on_world :: "('a, world) prog \<Rightarrow> ('a, host) prog" where
  "on_world m p = (case m (pr_rest p) of (r, w) \<Rightarrow> (r, p\<lparr>pr_rest := w\<rparr>))"

definition table_full :: "host \<Rightarrow> bool" where
  "table_full p \<longleftrightarrow> pr_limit p \<le> table_count (pr_table p)"

definition open_stream :: "host \<Rightarrow> int \<times> host" where
  "open_stream p = (table_fresh (pr_table p), p\<lparr>pr_table := table_put File_stream (pr_table p)\<rparr>)"

text \<open>fopen for reading gives the descriptor and the text to be read; for writing, the descriptor and the path.\<close>

definition sys_fopen_r :: "string \<Rightarrow> ((int \<times> string) option, host) prog" where
  "sys_fopen_r name p =
     (if table_full p then (Ret None, p)
      else case fopen_r (wfs (pr_rest p)) name of
             None \<Rightarrow> (Ret None, p)
           | Some text \<Rightarrow> (case open_stream p of (fd, p) \<Rightarrow> (Ret (Some (fd, text)), p)))"

definition sys_fopen_w :: "string \<Rightarrow> ((int \<times> path) option, host) prog" where
  "sys_fopen_w name p =
     (if table_full p then (Ret None, p)
      else case fopen_w (wfs (pr_rest p)) name of
             None \<Rightarrow> (Ret None, p)
           | Some (fp, f) \<Rightarrow>
               (case open_stream p of (fd, p) \<Rightarrow> (Ret (Some (fd, fp)), p\<lparr>pr_rest := (pr_rest p)\<lparr>wfs := f\<rparr>\<rparr>)))"

definition sys_opendir :: "string \<Rightarrow> (int option, host) prog" where
  "sys_opendir name p =
     (if table_full p \<or> \<not> opendir (wfs (pr_rest p)) name then (Ret None, p)
      else (case open_stream p of (fd, p) \<Rightarrow> (Ret (Some fd), p)))"

definition sys_fclose :: "int \<Rightarrow> (unit, host) prog" where
  "sys_fclose fd p = (Ret (), p\<lparr>pr_table := table_release fd (pr_table p)\<rparr>)"

section \<open>The methods on single files\<close>

definition CheckUserExisted_fd :: "string \<Rightarrow> (int, host) prog" where
  "CheckUserExisted_fd user_id_dirname =
     bindP (sys_opendir user_id_dirname) (\<lambda>dir.
     case dir of None \<Rightarrow> ret (-1) | Some fd \<Rightarrow> bindP (sys_fclose fd) (\<lambda>_. ret 0))"

definition CheckUserRegistered_fd :: "string \<Rightarrow> (int, host) prog" where
  "CheckUserRegistered_fd user_id =
     (if verify_user_id user_id = -1 then ret (-1)
      else bindP (sys_fopen_r (pass_fname user_id)) (\<lambda>fp. case fp of None \<Rightarrow> ret (-1) | Some _ \<Rightarrow> ret 0))"

definition CheckUserLoggedIn_fd :: "string \<Rightarrow> (int, host) prog" where
  "CheckUserLoggedIn_fd user_id =
     (if verify_user_id user_id = -1 then ret (-1)
      else bindP (sys_fopen_r (login_fname user_id)) (\<lambda>fp. case fp of None \<Rightarrow> ret (-1) | Some _ \<Rightarrow> ret 0))"

definition CreateUserDir_fd :: "string \<Rightarrow> (int, host) prog" where
  "CreateUserDir_fd user_id =
     (if verify_user_id user_id = -1 then ret (-1)
      else
        bindP (CheckUserExisted_fd (user_dir user_id)) (\<lambda>existed.
        if existed = 0 then ret 2
        else
          bindP (on_world (runF (\<lambda>f. mkdir f (user_dir user_id)))) (\<lambda>r.
          if r = -1 then ret (-1)
          else
            bindP (on_world (runF (\<lambda>f. mkdir f (hosted_dir user_id)))) (\<lambda>r.
            if r = -1 then ret (-1)
            else
              bindP (on_world (runF (\<lambda>f. mkdir f (bidded_dir user_id)))) (\<lambda>r.
              if r = -1 then ret (-1) else ret 0)))))"

definition CreateLogin_fd :: "string \<Rightarrow> (int, host) prog" where
  "CreateLogin_fd user_id =
     (if verify_user_id user_id = -1 then ret (-1)
      else bindP (sys_fopen_w (login_fname user_id)) (\<lambda>fp.
        case fp of None \<Rightarrow> ret (-1) | Some (fd, _) \<Rightarrow> bindP (sys_fclose fd) (\<lambda>_. ret 0)))"

definition CreatePassword_fd :: "string \<Rightarrow> string \<Rightarrow> (int, host) prog" where
  "CreatePassword_fd user_id password =
     (if verify_password password = -1 then ret (-1)
      else bindP (sys_fopen_w (pass_fname user_id)) (\<lambda>fp.
        case fp of
          None \<Rightarrow> ret (-1)
        | Some (fd, path) \<Rightarrow>
            bindP (on_world (runF (\<lambda>f. ((), fputs path password f)))) (\<lambda>_.
            bindP (sys_fclose fd) (\<lambda>_. ret 0))))"

definition CorrectPassword_fd :: "string \<Rightarrow> string \<Rightarrow> (int, host) prog" where
  "CorrectPassword_fd user_id password =
     (if verify_user_id user_id = -1 then ret (-1)
      else if verify_password password = -1 then ret (-1)
      else bindP (sys_fopen_r (pass_fname user_id)) (\<lambda>fp.
        case fp of
          None \<Rightarrow> ret (-1)
        | Some (fd, text) \<Rightarrow>
            (case fgets 9 text of
               None \<Rightarrow> ret (-1)
             | Some content \<Rightarrow>
                 bindP (sys_fclose fd) (\<lambda>_. if c_str content = password then ret 1 else ret 0))))"

definition EraseLogin_fd :: "string \<Rightarrow> (int, host) prog" where
  "EraseLogin_fd user_id =
     (if verify_user_id user_id = -1 then ret (-1)
      else bindP (CheckUserExisted_fd (user_dir user_id)) (\<lambda>existed.
        if existed = -1 then ret (-1)
        else bindP (on_world (getF (\<lambda>f. CheckLoginExists f (login_fname user_id)))) (\<lambda>exists.
          if exists = -1 then ret 2
          else bindP (on_world (runF (\<lambda>f. ((), unlink f (login_fname user_id))))) (\<lambda>_. ret 0))))"

definition ErasePassword_fd :: "string \<Rightarrow> (int, host) prog" where
  "ErasePassword_fd user_id =
     (if verify_user_id user_id = -1 then ret (-1)
      else bindP (CheckUserExisted_fd (user_dir user_id)) (\<lambda>existed.
        if existed = -1 then ret 2
        else bindP (on_world (getF (\<lambda>f. CheckPasswordExists f (pass_fname user_id)))) (\<lambda>exists.
          if exists = -1 then ret (-1)
          else bindP (on_world (runF (\<lambda>f. ((), unlink f (pass_fname user_id))))) (\<lambda>_. ret 0))))"

section \<open>The methods of the interface\<close>

definition LoginUser_fd :: "string \<Rightarrow> string \<Rightarrow> (int, host) prog" where
  "LoginUser_fd user_id password =
     bindP (on_world semaphore_wait) (\<lambda>_.
     bindP (CheckUserLoggedIn_fd user_id) (\<lambda>logged.
     if logged = 0 then
       bindP (CorrectPassword_fd user_id password) (\<lambda>correct.
       if correct \<noteq> 1 then on_world (post_throw UserNotLoggedIn) else on_world (post_ret DB_LOGIN_OK))
     else
       bindP (CreateUserDir_fd user_id) (\<lambda>created_user.
       if created_user = -1 then on_world (post_ret DB_LOGIN_NOK)
       else if created_user = 2 then
         bindP (CheckUserRegistered_fd user_id) (\<lambda>registered.
         if registered = 0 then
           bindP (CorrectPassword_fd user_id password) (\<lambda>correct.
           if correct \<noteq> 1 then on_world (post_ret DB_LOGIN_NOK)
           else
             bindP (CreateLogin_fd user_id) (\<lambda>r.
             if r = -1 then on_world (post_ret DB_LOGIN_NOK) else on_world (post_ret DB_LOGIN_OK)))
         else
           bindP (CreatePassword_fd user_id password) (\<lambda>r.
           if r = -1 then on_world (post_ret DB_LOGIN_NOK)
           else
             bindP (CreateLogin_fd user_id) (\<lambda>r.
             if r = -1 then on_world (post_ret DB_LOGIN_NOK) else on_world (post_ret DB_LOGIN_REGISTER))))
       else
         bindP (CreatePassword_fd user_id password) (\<lambda>r.
         if r = -1 then on_world (post_ret DB_LOGIN_NOK)
         else
           bindP (CreateLogin_fd user_id) (\<lambda>r.
           if r = -1 then on_world (post_ret DB_LOGIN_NOK) else on_world (post_ret DB_LOGIN_REGISTER))))))"

definition Logout_fd :: "string \<Rightarrow> string \<Rightarrow> (int, host) prog" where
  "Logout_fd user_id password =
     bindP (on_world semaphore_wait) (\<lambda>_.
     bindP (CorrectPassword_fd user_id password) (\<lambda>correct.
     if correct \<noteq> 1 then on_world (post_ret DB_LOGOUT_NOK)
     else
       bindP (EraseLogin_fd user_id) (\<lambda>removed_login.
       if removed_login = -1 then on_world (post_ret DB_LOGOUT_UNREGISTERED)
       else if removed_login = 0 then on_world (post_ret DB_LOGOUT_OK)
       else if removed_login = 2 then on_world (post_throw UserNotLoggedIn)
       else on_world (post_ret DB_LOGOUT_NOK))))"

definition Unregister_fd :: "string \<Rightarrow> string \<Rightarrow> (int, host) prog" where
  "Unregister_fd user_id password =
     bindP (on_world semaphore_wait) (\<lambda>_.
     bindP (CorrectPassword_fd user_id password) (\<lambda>correct.
     if correct \<noteq> 1 then on_world (post_ret DB_UNREGISTER_NOK)
     else
       bindP (on_world semaphore_post) (\<lambda>_.
       bindP (Logout_fd user_id password) (\<lambda>r.
       if r = DB_LOGOUT_NOK then ret DB_UNREGISTER_NOK
       else
         bindP (on_world semaphore_wait) (\<lambda>_.
         bindP (ErasePassword_fd user_id) (\<lambda>erased_password.
         if erased_password = -1 then on_world (post_ret DB_UNREGISTER_NOK)
         else if erased_password = 0 then on_world (post_ret DB_UNREGISTER_OK)
         else if erased_password = 2 then on_world (post_ret DB_UNREGISTER_UNKNOWN)
         else on_world (post_ret DB_UNREGISTER_NOK)))))))"

section \<open>A run with descriptors against a run without\<close>

text \<open>
  The run has the outcome and leaves the world that the one without descriptors does, and leaves open
  \<open>n\<close> more descriptors than it found.
\<close>

definition runs_with :: "('a, host) prog \<Rightarrow> ('a, world) prog \<Rightarrow> host \<Rightarrow> nat \<Rightarrow> bool" where
  "runs_with m' m p n \<longleftrightarrow>
     fst (m' p) = fst (m (pr_rest p)) \<and> pr_rest (snd (m' p)) = snd (m (pr_rest p)) \<and>
     pr_limit (snd (m' p)) = pr_limit p \<and> table_count (pr_table (snd (m' p))) = table_count (pr_table p) + n"

lemma on_world_runs: "runs_with (on_world m) m p 0"
  by (simp add: runs_with_def on_world_def split: prod.splits)

lemma ret_runs: "runs_with (ret x) (ret x) p 0"
  by (simp add: runs_with_def)

lemma bind_runs:
  assumes "runs_with m' m p n" and "m (pr_rest p) = (Ret x, w)"
    and "\<And>q. pr_rest q = w \<Longrightarrow> pr_limit q = pr_limit p \<Longrightarrow>
      table_count (pr_table q) = table_count (pr_table p) + n \<Longrightarrow> runs_with (k' x) (k x) q n'"
  shows "runs_with (bindP m' k') (bindP m k) p (n + n')"
proof -
  obtain q where q: "m' p = (Ret x, q)" and r: "pr_rest q = w" "pr_limit q = pr_limit p"
      "table_count (pr_table q) = table_count (pr_table p) + n"
    using assms(1,2) by (cases "m' p") (simp add: runs_with_def)
  from assms(3) [OF r] show ?thesis
    using r q assms(2) by (simp add: runs_with_def bindP_def)
qed

text \<open>Taking a descriptor, and giving it back.\<close>

lemma table_count_put: "table_count (table_put d t) = Suc (table_count t)"
  by (simp add: table_count_opened fds.opened_put)

lemma table_count_put_release: "table_count (table_release (table_fresh t) (table_put d t)) = table_count t"
  by (simp add: table_count_opened fds.opened_def fds.put_release)

lemmas stream_defs = sys_fopen_r_def sys_fopen_w_def sys_opendir_def sys_fclose_def open_stream_def on_world_def
  table_count_put table_count_put_release runs_with_def bindP_def

section \<open>What the methods on single files leave open\<close>

lemma CheckUserExisted_runs:
  "\<not> table_full p \<Longrightarrow> runs_with (CheckUserExisted_fd d) (getF (\<lambda>f. CheckUserExisted f d)) p 0"
  by (simp add: CheckUserExisted_fd_def CheckUserExisted_def getF_def stream_defs)

lemma CheckUserLoggedIn_runs:
  "\<not> table_full p \<Longrightarrow> runs_with (CheckUserLoggedIn_fd u) (getF (\<lambda>f. CheckUserLoggedIn f u)) p
     (if CheckUserLoggedIn (wfs (pr_rest p)) u = 0 then 1 else 0)"
  by (simp add: CheckUserLoggedIn_fd_def CheckUserLoggedIn_def getF_def stream_defs split: option.splits)

lemma CheckUserRegistered_runs:
  "\<not> table_full p \<Longrightarrow> runs_with (CheckUserRegistered_fd u) (getF (\<lambda>f. CheckUserRegistered f u)) p
     (if CheckUserRegistered (wfs (pr_rest p)) u = 0 then 1 else 0)"
  by (simp add: CheckUserRegistered_fd_def CheckUserRegistered_def getF_def stream_defs split: option.splits)

text \<open>The stream of an empty password file stays open.\<close>

definition empty_password :: "fs \<Rightarrow> string \<Rightarrow> string \<Rightarrow> bool" where
  "empty_password f u pw \<longleftrightarrow> is_uid u \<and> is_password pw \<and> fopen_r f (pass_fname u) = Some []"

lemma CorrectPassword_runs:
  "\<not> table_full p \<Longrightarrow> runs_with (CorrectPassword_fd u pw) (getF (\<lambda>f. CorrectPassword f u pw)) p
     (if empty_password (wfs (pr_rest p)) u pw then 1 else 0)"
  by (auto simp: CorrectPassword_fd_def CorrectPassword_def getF_def stream_defs empty_password_def fgets_def
      split: option.splits)

lemma CreateUserDir_runs:
  "\<not> table_full p \<Longrightarrow> runs_with (CreateUserDir_fd u) (runF (CreateUserDir u)) p 0"
  by (auto simp: CreateUserDir_fd_def CreateUserDir_def runF_def CheckUserExisted_fd_def CheckUserExisted_def stream_defs
      split: prod.splits)

lemma CreateLogin_runs: "\<not> table_full p \<Longrightarrow> runs_with (CreateLogin_fd u) (runF (CreateLogin u)) p 0"
  by (auto simp: CreateLogin_fd_def CreateLogin_def runF_def stream_defs split: prod.splits option.splits)

lemma CreatePassword_runs: "\<not> table_full p \<Longrightarrow> runs_with (CreatePassword_fd u pw) (runF (CreatePassword u pw)) p 0"
  by (auto simp: CreatePassword_fd_def CreatePassword_def runF_def stream_defs split: prod.splits option.splits)

lemma EraseLogin_runs: "\<not> table_full p \<Longrightarrow> runs_with (EraseLogin_fd u) (runF (EraseLogin u)) p 0"
  by (auto simp: EraseLogin_fd_def EraseLogin_def runF_def getF_def CheckUserExisted_fd_def CheckUserExisted_def stream_defs
      CheckLoginExists_def split: prod.splits)

lemma ErasePassword_runs: "\<not> table_full p \<Longrightarrow> runs_with (ErasePassword_fd u) (runF (ErasePassword u)) p 0"
  by (auto simp: ErasePassword_fd_def ErasePassword_def runF_def getF_def CheckUserExisted_fd_def CheckUserExisted_def stream_defs
      CheckPasswordExists_def split: prod.splits)

section \<open>What the methods of the interface leave open\<close>

text \<open>The rules a step of both runs needs: \<open>room k q\<close> is room for \<open>k\<close> more descriptors.\<close>

definition room_for :: "nat \<Rightarrow> host \<Rightarrow> bool" where
  "room_for k p \<longleftrightarrow> table_count (pr_table p) + k \<le> pr_limit p"

lemma room_not_full: "room_for (Suc k) p \<Longrightarrow> \<not> table_full p"
  by (simp add: room_for_def table_full_def)

lemma bind_getF_runs:
  assumes "runs_with m' (getF g) p n" and "room_for (n + k) p"
    and "\<And>q. pr_rest q = pr_rest p \<Longrightarrow> room_for k q \<Longrightarrow> runs_with (k' (g (wfs (pr_rest p)))) (c (g (wfs (pr_rest p)))) q n'"
  shows "runs_with (bindP m' k') (bindP (getF g) c) p (n + n')"
proof (rule bind_runs [OF assms(1)])
  show "getF g (pr_rest p) = (Ret (g (wfs (pr_rest p))), pr_rest p)" by (simp add: getF_def)
qed (use assms(2,3) in \<open>simp add: room_for_def\<close>)

lemma bind_runF_runs:
  assumes "runs_with m' (runF g) p 0" and "room_for k p"
    and "\<And>q. pr_rest q = (pr_rest p)\<lparr>wfs := snd (g (wfs (pr_rest p)))\<rparr> \<Longrightarrow> room_for k q \<Longrightarrow>
      runs_with (k' (fst (g (wfs (pr_rest p))))) (c (fst (g (wfs (pr_rest p))))) q n'"
  shows "runs_with (bindP m' k') (bindP (runF g) c) p n'"
proof -
  have "runs_with (bindP m' k') (bindP (runF g) c) p (0 + n')"
    by (rule bind_runs [OF assms(1) runF_run]) (use assms(2,3) in \<open>simp add: room_for_def\<close>)
  then show ?thesis by simp
qed

lemma bind_wait_runs:
  assumes "wsem (pr_rest p) \<noteq> 0" and "room_for k p"
    and "\<And>q. wfs (pr_rest q) = wfs (pr_rest p) \<Longrightarrow> room_for k q \<Longrightarrow> runs_with (k' ()) (c ()) q n'"
  shows "runs_with (bindP (on_world semaphore_wait) k') (bindP semaphore_wait c) p n'"
proof -
  have "runs_with (bindP (on_world semaphore_wait) k') (bindP semaphore_wait c) p (0 + n')"
  proof (rule bind_runs [OF on_world_runs])
    show "semaphore_wait (pr_rest p) = (Ret (), (pr_rest p)\<lparr>wsem := wsem (pr_rest p) - 1\<rparr>)"
      using assms(1) by (simp add: semaphore_wait_def)
  qed (use assms(2,3) in \<open>simp add: room_for_def\<close>)
  then show ?thesis by simp
qed

lemma created_before: "fst (CreateUserDir u f) = 2 \<Longrightarrow> snd (CreateUserDir u f) = f"
  by (auto simp: CreateUserDir_def split: prod.splits if_splits)

text \<open>A login: the check that finds its file keeps the stream.\<close>

definition login_leaves :: "fs \<Rightarrow> string \<Rightarrow> nat" where
  "login_leaves f u =
     (if CheckUserLoggedIn f u = 0 \<or> fst (CreateUserDir u f) = 2 \<and> CheckUserRegistered f u = 0 then 1 else 0)"

lemma password_checked:
  assumes "room_for 1 q" and "wfs (pr_rest q) = f" and "\<not> empty_password f u pw"
    and "\<And>r. pr_rest r = pr_rest q \<Longrightarrow> room_for 1 r \<Longrightarrow>
      runs_with (k' (CorrectPassword f u pw)) (c (CorrectPassword f u pw)) r 0"
  shows "runs_with (bindP (CorrectPassword_fd u pw) k') (bindP (getF (\<lambda>f. CorrectPassword f u pw)) c) q 0"
proof -
  have run: "runs_with (CorrectPassword_fd u pw) (getF (\<lambda>f. CorrectPassword f u pw)) q 0"
    using CorrectPassword_runs [of q u pw] room_not_full [of 0 q] assms(1-3) by simp
  have "runs_with (bindP (CorrectPassword_fd u pw) k') (bindP (getF (\<lambda>f. CorrectPassword f u pw)) c) q (0 + 0)"
    by (rule bind_getF_runs [OF run, where k = 1]) (use assms in simp_all)
  then show ?thesis by simp
qed

lemma login_made:
  assumes "room_for 1 q"
  shows "runs_with (bindP (CreateLogin_fd u) (\<lambda>r. if r = -1 then on_world (post_ret x) else on_world (post_ret y)))
    (bindP (runF (CreateLogin u)) (\<lambda>r. if r = -1 then post_ret x else post_ret y)) q 0"
  by (rule bind_runF_runs [OF CreateLogin_runs, where k = 1])
    (use assms room_not_full [of 0 q] in \<open>simp_all add: on_world_runs\<close>)

lemma password_made:
  assumes "room_for 1 q"
  shows "runs_with
    (bindP (CreatePassword_fd u pw) (\<lambda>r. if r = -1 then on_world (post_ret x)
       else bindP (CreateLogin_fd u) (\<lambda>r. if r = -1 then on_world (post_ret x) else on_world (post_ret y))))
    (bindP (runF (CreatePassword u pw)) (\<lambda>r. if r = -1 then post_ret x
       else bindP (runF (CreateLogin u)) (\<lambda>r. if r = -1 then post_ret x else post_ret y))) q 0"
  by (rule bind_runF_runs [OF CreatePassword_runs, where k = 1])
    (use assms room_not_full [of 0 q] in \<open>simp_all add: on_world_runs login_made\<close>)

lemma checked_runs:
  assumes "runs_with m' (getF g) q n" and "room_for (n + k) q" and "wfs (pr_rest q) = f" and "N = n + n'"
    and "\<And>r. wfs (pr_rest r) = f \<Longrightarrow> room_for k r \<Longrightarrow> runs_with (k' (g f)) (c (g f)) r n'"
  shows "runs_with (bindP m' k') (bindP (getF g) c) q N"
  unfolding assms(4) by (rule bind_getF_runs [OF assms(1,2)]) (use assms(3,5) in simp)

lemma logged_in_check:
  assumes "room_for 2 q" and "wfs (pr_rest q) = f"
  shows "runs_with (CheckUserLoggedIn_fd u) (getF (\<lambda>f. CheckUserLoggedIn f u)) q (if CheckUserLoggedIn f u = 0 then 1 else 0)"
    and "runs_with (CheckUserRegistered_fd u) (getF (\<lambda>f. CheckUserRegistered f u)) q (if CheckUserRegistered f u = 0 then 1 else 0)"
    and "runs_with (CreateUserDir_fd u) (runF (CreateUserDir u)) q 0"
  using CheckUserLoggedIn_runs [of q u] CheckUserRegistered_runs [of q u] CreateUserDir_runs [of q u] assms
  by (simp_all add: table_full_def room_for_def)

lemma room_less: "room_for 2 q \<Longrightarrow> room_for 1 q"
  by (simp add: room_for_def)

lemma LoginUser_runs_with:
  assumes "wsem (pr_rest p) \<noteq> 0" and "room_for 2 p" and "wfs (pr_rest p) = f" and "\<not> empty_password f u pw"
  shows "runs_with (LoginUser_fd u pw) (LoginUser u pw) p (login_leaves f u)"
  unfolding LoginUser_fd_def LoginUser_def
proof (rule bind_wait_runs [OF assms(1,2)], goal_cases)
  case (1 q)
  have q: "wfs (pr_rest q) = f" using 1(1) assms(3) by simp
  show ?case
  proof (cases "CheckUserLoggedIn f u = 0")
    case True
    show ?thesis
      by (rule checked_runs [OF logged_in_check(1) [OF 1(2) q], where k = 1 and f = f and n' = 0])
        (use True 1(2) q assms(4) in \<open>simp_all add: login_leaves_def on_world_runs password_checked room_less one_add_one del: One_nat_def\<close>)
  next
    case False
    show ?thesis
    proof (rule checked_runs [OF logged_in_check(1) [OF 1(2) q], where k = 2 and f = f and n' = "login_leaves f u"], goal_cases)
      case (4 r)
      show ?case
        unfolding if_not_P [OF False]
      proof (rule bind_runF_runs [OF logged_in_check(3) [OF 4(2,1)] 4(2)], goal_cases)
        case (1 t)
        then show ?case
        proof (cases "fst (CreateUserDir u f) = 2")
          case two: True
          have t: "wfs (pr_rest t) = f" using 1(1) 4(1) created_before [OF two] by simp
          have one: "fst (CreateUserDir u f) \<noteq> -1" using two by simp
          show ?thesis
            unfolding 4(1) if_not_P [OF one] if_P [OF two]
            by (rule checked_runs [OF logged_in_check(2) [OF 1(2) t], where k = 1 and f = f and n' = 0])
              (use 1(2) t False two assms(4) in
                \<open>simp_all add: login_leaves_def on_world_runs password_checked login_made password_made room_less
                   one_add_one del: One_nat_def\<close>)
        next
          case other: False
          then show ?thesis
            using False 4(1) password_made [OF room_less [OF 1(2)], where 'a = int]
              by (simp add: login_leaves_def on_world_runs del: One_nat_def)
        qed
      qed
    qed (use False 1(2) q in \<open>simp_all flip: numeral_2_eq_2\<close>)
  qed
qed

text \<open>Logout and Unregister close what they open.\<close>

lemma bind_runs_always:
  assumes "runs_with m' m p 0" and "room_for k p"
    and "\<And>q x. m (pr_rest p) = (Ret x, pr_rest q) \<Longrightarrow> room_for k q \<Longrightarrow> runs_with (k' x) (c x) q 0"
  shows "runs_with (bindP m' k') (bindP m c) p 0"
proof (cases "fst (m (pr_rest p))")
  case (Ret x)
  then have "runs_with (bindP m' k') (bindP m c) p (0 + 0)"
    by (intro bind_runs [OF assms(1), of x "snd (m (pr_rest p))"])
      (use assms(2,3) in \<open>auto simp: room_for_def prod_eq_iff\<close>)
  then show ?thesis by simp
qed (use assms(1) in \<open>auto simp: runs_with_def bindP_def split: prod.splits\<close>)

lemma semaphore_keeps_files:
  "semaphore_wait w = (Ret x, w') \<Longrightarrow> wfs w' = wfs w" "semaphore_post w = (Ret x, w') \<Longrightarrow> wfs w' = wfs w"
  by (auto simp: semaphore_wait_def semaphore_post_def split: if_splits)

lemma Logout_runs_with:
  assumes "room_for 1 p" and "wfs (pr_rest p) = f" and "\<not> empty_password f u pw"
  shows "runs_with (Logout_fd u pw) (Logout u pw) p 0"
  unfolding Logout_fd_def Logout_def
proof (rule bind_runs_always [OF on_world_runs assms(1)], goal_cases)
  case (1 q x)
  then have q: "wfs (pr_rest q) = f" using assms(2) semaphore_keeps_files(1) by blast
  show ?case
  proof (rule password_checked [OF 1(2) q assms(3)], goal_cases)
    case (1 r)
    have erased: "runs_with (EraseLogin_fd u) (runF (EraseLogin u)) r 0"
      using EraseLogin_runs [of r u] 1(2) by (simp add: room_for_def table_full_def)
    show ?case
      by (cases "CorrectPassword f u pw = 1")
        (auto simp: on_world_runs intro!: bind_runF_runs [OF erased 1(2)])
  qed
qed

lemma Unregister_runs_with:
  assumes "room_for 1 p" and "wfs (pr_rest p) = f" and "\<not> empty_password f u pw"
  shows "runs_with (Unregister_fd u pw) (Unregister u pw) p 0"
  unfolding Unregister_fd_def Unregister_def
proof (rule bind_runs_always [OF on_world_runs assms(1)], goal_cases)
  case (1 q x)
  then have q: "wfs (pr_rest q) = f" using assms(2) semaphore_keeps_files(1) by blast
  have erased: "runs_with
      (bindP (on_world semaphore_wait) (\<lambda>_. bindP (ErasePassword_fd u) (\<lambda>e.
         if e = -1 then on_world (post_ret DB_UNREGISTER_NOK) else if e = 0 then on_world (post_ret DB_UNREGISTER_OK)
         else if e = 2 then on_world (post_ret DB_UNREGISTER_UNKNOWN) else on_world (post_ret DB_UNREGISTER_NOK))))
      (bindP semaphore_wait (\<lambda>_. bindP (runF (ErasePassword u)) (\<lambda>e.
         if e = -1 then post_ret DB_UNREGISTER_NOK else if e = 0 then post_ret DB_UNREGISTER_OK
         else if e = 2 then post_ret DB_UNREGISTER_UNKNOWN else post_ret DB_UNREGISTER_NOK))) t 0"
    if "room_for 1 t" for t
  proof (rule bind_runs_always [OF on_world_runs that], goal_cases)
    case (1 r x)
    have "runs_with (ErasePassword_fd u) (runF (ErasePassword u)) r 0"
      using ErasePassword_runs [of r u] 1(2) by (simp add: room_for_def table_full_def)
    then show ?case by (auto simp: on_world_runs intro!: bind_runF_runs [OF _ 1(2)])
  qed
  show ?case
  proof (rule password_checked [OF 1(2) q assms(3)], goal_cases)
    case (1 r)
    show ?case
    proof (cases "CorrectPassword f u pw = 1")
      case True
      have post: "runs_with (bindP (on_world semaphore_post) c') (bindP semaphore_post c) r 0"
        if "\<And>t x. wfs (pr_rest t) = f \<Longrightarrow> room_for 1 t \<Longrightarrow> runs_with (c' x) (c x) t 0" for c' c
        by (rule bind_runs_always [OF on_world_runs 1(2)])
          (metis that 1(1) q semaphore_keeps_files(2))
      show ?thesis
        unfolding True by (auto intro!: post bind_runs_always [OF Logout_runs_with [OF _ _ assms(3)]] erased ret_runs)
    qed (simp add: on_world_runs)
  qed
qed

section \<open>On a store in its invariant\<close>

lemma no_empty_password:
  assumes "users_inv f"
  shows "\<not> empty_password f u pw"
proof
  assume e: "empty_password f u pw"
  then have "is_uid u" and "fopen_r f (join (passP u)) = Some []" by (simp_all add: empty_password_def path_join)
  then have "acc_password (account f u) = Some []"
    using fopen_r_join [OF users_invD(1) [OF assms], of "passP u"] by (simp add: account_def)
  then show False
    using password_text [OF assms, of u "[]"] e by (simp add: empty_password_def is_password_def)
qed

lemma login_leaves_eq:
  assumes "users_inv f"
  shows "login_leaves f u =
    (if is_uid u \<and> (acc_logged_in (account f u) \<or> acc_password (account f u) \<noteq> None) then 1 else 0)"
proof (cases "is_uid u")
  case True
  have "look f (userP u) \<noteq> None" if "acc_password (account f u) \<noteq> None"
    using that account_password_file [of f u] user_dir_of_file [OF assms True] by blast
  then show ?thesis
    using CheckUserLoggedIn_eq [OF assms True] CheckUserRegistered_eq [OF assms True] CreateUserDir_eq [OF assms True]
    by (auto simp: login_leaves_def True)
next
  case False
  then show ?thesis
    by (simp add: login_leaves_def CheckUserLoggedIn_not_uid CreateUserDir_def)
qed

section \<open>A full table\<close>

lemma full_calls:
  assumes "table_full p"
  shows "CheckUserLoggedIn_fd u p = (Ret (-1), p)" and "CheckUserRegistered_fd u p = (Ret (-1), p)"
    and "CorrectPassword_fd u pw p = (Ret (-1), p)" and "CreateLogin_fd u p = (Ret (-1), p)"
    and "CreatePassword_fd u pw p = (Ret (-1), p)" and "CheckUserExisted_fd d p = (Ret (-1), p)"
  using assms
  by (simp_all add: CheckUserLoggedIn_fd_def CheckUserRegistered_fd_def CorrectPassword_fd_def CreateLogin_fd_def
      CreatePassword_fd_def CheckUserExisted_fd_def sys_fopen_r_def sys_fopen_w_def sys_opendir_def bindP_def)

lemma full_binds:
  assumes "table_full p"
  shows "bindP (CheckUserLoggedIn_fd u) k p = k (-1) p" and "bindP (CheckUserRegistered_fd u) k p = k (-1) p"
    and "bindP (CorrectPassword_fd u pw) k p = k (-1) p" and "bindP (CreateLogin_fd u) k p = k (-1) p"
    and "bindP (CreatePassword_fd u pw) k p = k (-1) p" and "bindP (CheckUserExisted_fd d) k p = k (-1) p"
  using full_calls [OF assms] by (simp_all add: bindP_def)

lemma on_world_mkdir:
  "bindP (on_world (runF (\<lambda>f. mkdir f d))) k p =
   k (fst (mkdir (wfs (pr_rest p)) d)) (p\<lparr>pr_rest := (pr_rest p)\<lparr>wfs := snd (mkdir (wfs (pr_rest p)) d)\<rparr>\<rparr>)"
  by (simp add: bindP_def on_world_def runF_def split: prod.splits)

text \<open>No account differs.\<close>

definition same_accounts :: "fs \<Rightarrow> fs \<Rightarrow> bool" where
  "same_accounts f f' \<longleftrightarrow> (\<forall>v. account f' v = account f v)"

lemma same_accounts_refl [simp]: "same_accounts f f"
  by (simp add: same_accounts_def)

lemma same_accounts_trans: "same_accounts f g \<Longrightarrow> same_accounts g h \<Longrightarrow> same_accounts f h"
  by (simp add: same_accounts_def)

lemma CreateUserDir_full:
  assumes "table_full p" and "users_inv (wfs (pr_rest p))"
  shows "\<exists>r f. CreateUserDir_fd u p = (Ret r, p\<lparr>pr_rest := (pr_rest p)\<lparr>wfs := f\<rparr>\<rparr>) \<and> r \<noteq> 2 \<and>
    users_inv f \<and> same_accounts (wfs (pr_rest p)) f"
proof (cases "is_uid u")
  case True
  let ?f = "wfs (pr_rest p)"
  show ?thesis
  proof (cases "look ?f (userP u) = None")
    case free: True
    have "CheckUserExisted ?f (user_dir u) = -1" using CheckUserExisted_eq [OF assms(2) True] free by simp
    then have "CreateUserDir_fd u p = (Ret (fst (CreateUserDir u ?f)), p\<lparr>pr_rest := (pr_rest p)\<lparr>wfs := snd (CreateUserDir u ?f)\<rparr>\<rparr>)"
      using assms(1) True by (simp add: CreateUserDir_fd_def CreateUserDir_def full_binds on_world_mkdir split_beta)
    moreover note CreateUserDir_eq [OF assms(2) True] user_step_dir [OF assms(2) True free]
    ultimately show ?thesis
      using free by (auto simp: user_step_def same_accounts_def)
  next
    case False
    then obtain n where "look ?f (userP u) = Some n" by blast
    then have "fst (mkdir ?f (user_dir u)) = -1" "snd (mkdir ?f (user_dir u)) = ?f"
      using assms(2) True by (simp_all add: path_join mkdir_join users_invD)
    then have "CreateUserDir_fd u p = (Ret (-1), p\<lparr>pr_rest := (pr_rest p)\<lparr>wfs := ?f\<rparr>\<rparr>)"
      using assms(1) True by (simp add: CreateUserDir_fd_def full_binds on_world_mkdir)
    then show ?thesis using assms(2) by (intro exI [of _ "-1"] exI [of _ ?f]) simp
  qed
next
  case False
  then show ?thesis using assms(2)
    by (auto simp: CreateUserDir_fd_def intro!: exI [of _ "wfs (pr_rest p)"])
qed

lemma on_world_sem:
  assumes "sem_ok (pr_rest p)"
  shows "bindP (on_world semaphore_wait) k p = k () (p\<lparr>pr_rest := (pr_rest p)\<lparr>wsem := wsem (pr_rest p) - Suc 0\<rparr>\<rparr>)"
  using assms by (simp add: bindP_def on_world_def semaphore_wait_def sem_ok_def)

lemma refused_when_full:
  assumes "table_full p" and "sem_ok (pr_rest p)"
  shows "Logout_fd u pw p = (Ret DB_LOGOUT_NOK, p)" and "Unregister_fd u pw p = (Ret DB_UNREGISTER_NOK, p)"
    and "users_inv (wfs (pr_rest p)) \<Longrightarrow>
      \<exists>f. LoginUser_fd u pw p = (Ret DB_LOGIN_NOK, p\<lparr>pr_rest := (pr_rest p)\<lparr>wfs := f\<rparr>\<rparr>) \<and>
        users_inv f \<and> same_accounts (wfs (pr_rest p)) f"
proof -
  let ?q = "p\<lparr>pr_rest := (pr_rest p)\<lparr>wsem := wsem (pr_rest p) - Suc 0\<rparr>\<rparr>"
  let ?r = "\<lambda>f. p\<lparr>pr_rest := (pr_rest p)\<lparr>wsem := wsem (pr_rest p) - Suc 0, wfs := f\<rparr>\<rparr>"
  note sem = sem_okD [OF assms(2)]
  have q: "table_full ?q" using assms(1) by (simp add: table_full_def)
  have post: "on_world (post_ret x) (?r f) = (Ret x, p\<lparr>pr_rest := (pr_rest p)\<lparr>wfs := f\<rparr>\<rparr>)"
    for x :: int and f
    using sem by (simp add: on_world_def post_ret_run)
  have post0: "on_world (post_ret x) ?q = (Ret x, p)" for x :: int
    using sem by (simp add: on_world_def post_ret_run)
  show "Logout_fd u pw p = (Ret DB_LOGOUT_NOK, p)"
    by (simp add: Logout_fd_def on_world_sem [OF assms(2)] full_binds [OF q] post0)
  show "Unregister_fd u pw p = (Ret DB_UNREGISTER_NOK, p)"
    by (simp add: Unregister_fd_def on_world_sem [OF assms(2)] full_binds [OF q] post0)
  assume inv: "users_inv (wfs (pr_rest p))"
  obtain r f where made: "CreateUserDir_fd u ?q = (Ret r, ?r f)" and r: "r \<noteq> 2"
      and f: "users_inv f" "same_accounts (wfs (pr_rest p)) f"
    using CreateUserDir_full [OF q, of u] inv by auto
  have made_bind: "bindP (CreateUserDir_fd u) k ?q = k r (?r f)" for k :: "int \<Rightarrow> (int, host) prog"
    by (simp add: bindP_def made del: process.update_convs world.update_convs)
  have full: "table_full (?r f)" using assms(1) by (simp add: table_full_def)
  have "LoginUser_fd u pw p = (Ret DB_LOGIN_NOK, p\<lparr>pr_rest := (pr_rest p)\<lparr>wfs := f\<rparr>\<rparr>)"
    using r by (simp add: LoginUser_fd_def on_world_sem [OF assms(2)] full_binds [OF q] made_bind
      full_binds [OF full] post)
  then show "\<exists>f. LoginUser_fd u pw p = (Ret DB_LOGIN_NOK, p\<lparr>pr_rest := (pr_rest p)\<lparr>wfs := f\<rparr>\<rparr>) \<and>
      users_inv f \<and> same_accounts (wfs (pr_rest p)) f" using f by blast
qed

text \<open>The requests about an account one after the other, each on what the one before left.\<close>

datatype account_request = Login_of string string | Logout_of string string | Unregister_of string string

fun account_method :: "account_request \<Rightarrow> (int, host) prog" where
  "account_method (Login_of u pw) = LoginUser_fd u pw"
| "account_method (Logout_of u pw) = Logout_fd u pw"
| "account_method (Unregister_of u pw) = Unregister_fd u pw"

fun account_methods :: "account_request list \<Rightarrow> host \<Rightarrow> int outcome list \<times> host" where
  "account_methods [] p = ([], p)"
| "account_methods (r # rs) p =
     (case account_method r p of (x, q) \<Rightarrow> (case account_methods rs q of (xs, q') \<Rightarrow> (x # xs, q')))"

fun refusal :: "account_request \<Rightarrow> int" where
  "refusal (Login_of u pw) = DB_LOGIN_NOK"
| "refusal (Logout_of u pw) = DB_LOGOUT_NOK"
| "refusal (Unregister_of u pw) = DB_UNREGISTER_NOK"

lemma account_method_full:
  assumes "table_full p" and "sem_ok (pr_rest p)" and "users_inv (wfs (pr_rest p))"
  shows "\<exists>f. account_method r p = (Ret (refusal r), p\<lparr>pr_rest := (pr_rest p)\<lparr>wfs := f\<rparr>\<rparr>) \<and>
    users_inv f \<and> same_accounts (wfs (pr_rest p)) f"
  using refused_when_full [OF assms(1,2)] assms(3)
  by (cases r) (auto intro!: exI [of _ "wfs (pr_rest p)"])

lemma account_methods_full:
  assumes "table_full p" and "sem_ok (pr_rest p)" and "users_inv (wfs (pr_rest p))"
  shows "\<exists>f. account_methods rs p = (map (\<lambda>r. Ret (refusal r)) rs, p\<lparr>pr_rest := (pr_rest p)\<lparr>wfs := f\<rparr>\<rparr>) \<and>
    users_inv f \<and> same_accounts (wfs (pr_rest p)) f"
  using assms
proof (induction rs arbitrary: p)
  case Nil
  then show ?case by (auto intro!: exI [of _ "wfs (pr_rest p)"])
next
  case (Cons r rs)
  obtain f where f: "account_method r p = (Ret (refusal r), p\<lparr>pr_rest := (pr_rest p)\<lparr>wfs := f\<rparr>\<rparr>)"
      "users_inv f" "same_accounts (wfs (pr_rest p)) f"
    using account_method_full [OF Cons.prems] by blast
  let ?q = "p\<lparr>pr_rest := (pr_rest p)\<lparr>wfs := f\<rparr>\<rparr>"
  have "table_full ?q" "sem_ok (pr_rest ?q)" "users_inv (wfs (pr_rest ?q))"
    using Cons.prems f by (simp_all add: table_full_def sem_ok_def)
  from Cons.IH [OF this] obtain g where
    "account_methods rs ?q = (map (\<lambda>r. Ret (refusal r)) rs, ?q\<lparr>pr_rest := (pr_rest ?q)\<lparr>wfs := g\<rparr>\<rparr>)"
    "users_inv g" "same_accounts f g" by auto
  then show ?case using f same_accounts_trans [of "wfs (pr_rest p)" f g] by (auto intro!: exI [of _ g])
qed

section \<open>Logins until the table is full\<close>

lemma login_again:
  assumes "server_inv (pr_rest p)" and "sem_ok (pr_rest p)" and "is_uid u" and "\<not> table_full p"
    and "account (wfs (pr_rest p)) u = \<lparr>acc_password = Some pw, acc_logged_in = True\<rparr>"
  shows "fst (LoginUser_fd u pw p) = (if room_for 2 p then Ret DB_LOGIN_OK else Throw UserNotLoggedIn)"
    and "pr_rest (snd (LoginUser_fd u pw p)) = pr_rest p" and "pr_limit (snd (LoginUser_fd u pw p)) = pr_limit p"
    and "table_count (pr_table (snd (LoginUser_fd u pw p))) = Suc (table_count (pr_table p))"
proof -
  let ?w = "pr_rest p" and ?q = "p\<lparr>pr_rest := (pr_rest p)\<lparr>wsem := wsem (pr_rest p) - Suc 0\<rparr>\<rparr>"
  note i = server_invD(4) [OF assms(1)] and sem = sem_okD [OF assms(2)]
  have pw: "is_password pw" using password_text [OF i assms(3)] assms(5) by simp
  have logged: "CheckUserLoggedIn (wfs ?w) u = 0" using CheckUserLoggedIn_eq [OF i assms(3)] assms(5) by simp
  have "CorrectPassword (wfs ?w) u pw = 1" using CorrectPassword_eq [OF i assms(3) pw] assms(5) by simp
  then have plain: "LoginUser u pw ?w = (Ret DB_LOGIN_OK, ?w)"
    using logged sem by (simp add: LoginUser_def prog_simps)
  have "fst (LoginUser_fd u pw p) = (if room_for 2 p then Ret DB_LOGIN_OK else Throw UserNotLoggedIn) \<and>
    pr_rest (snd (LoginUser_fd u pw p)) = pr_rest p \<and> pr_limit (snd (LoginUser_fd u pw p)) = pr_limit p \<and>
    table_count (pr_table (snd (LoginUser_fd u pw p))) = Suc (table_count (pr_table p))"
  proof (cases "room_for 2 p")
    case True
    then show ?thesis
      using LoginUser_runs_with [OF sem(1) True refl no_empty_password [OF i], of u pw] login_leaves_eq [OF i, of u] plain
        assms(3,5) by (simp add: runs_with_def)
  next
    case False
    obtain t where t: "CheckUserLoggedIn_fd u ?q = (Ret 0, t)" and r: "pr_rest t = pr_rest ?q" "pr_limit t = pr_limit p"
        "table_count (pr_table t) = Suc (table_count (pr_table p))"
      using CheckUserLoggedIn_runs [of ?q u] logged assms(4)
      by (cases "CheckUserLoggedIn_fd u ?q") (simp add: runs_with_def getF_def table_full_def)
    have full: "table_full t" using False r by (simp add: room_for_def table_full_def)
    have "bindP (CheckUserLoggedIn_fd u) c ?q = c 0 t" for c :: "int \<Rightarrow> (int, host) prog"
      using t by (simp add: bindP_def)
    then have "LoginUser_fd u pw p = on_world (post_throw UserNotLoggedIn) t"
      by (simp add: LoginUser_fd_def on_world_sem [OF assms(2)] full_binds [OF full])
    then show ?thesis
      using False r sem by (simp add: on_world_def post_throw_run)
  qed
  then show "fst (LoginUser_fd u pw p) = (if room_for 2 p then Ret DB_LOGIN_OK else Throw UserNotLoggedIn)"
    and "pr_rest (snd (LoginUser_fd u pw p)) = pr_rest p" and "pr_limit (snd (LoginUser_fd u pw p)) = pr_limit p"
    and "table_count (pr_table (snd (LoginUser_fd u pw p))) = Suc (table_count (pr_table p))" by simp_all
qed

fun logins :: "nat \<Rightarrow> string \<Rightarrow> string \<Rightarrow> host \<Rightarrow> host" where
  "logins 0 u pw p = p"
| "logins (Suc n) u pw p = logins n u pw (snd (LoginUser_fd u pw p))"

lemma logins_run:
  assumes "server_inv (pr_rest p)" and "sem_ok (pr_rest p)" and "is_uid u"
    and "account (wfs (pr_rest p)) u = \<lparr>acc_password = Some pw, acc_logged_in = True\<rparr>" and "room_for n p"
  shows "pr_rest (logins n u pw p) = pr_rest p \<and> pr_limit (logins n u pw p) = pr_limit p \<and>
    table_count (pr_table (logins n u pw p)) = table_count (pr_table p) + n"
  using assms
proof (induction n arbitrary: p)
  case (Suc n)
  have "\<not> table_full p" using Suc.prems(5) by (simp add: room_for_def table_full_def)
  note l = login_again [OF Suc.prems(1-3) this Suc.prems(4)]
  have "room_for n (snd (LoginUser_fd u pw p))" using Suc.prems(5) l by (simp add: room_for_def)
  with Suc.IH [of "snd (LoginUser_fd u pw p)"] show ?case using Suc.prems l by simp
qed simp

section \<open>The theorems\<close>

definition example_host :: "fs \<Rightarrow> host" where
  "example_host f =
     \<lparr>pr_table = [Some Std_stream, Some Std_stream, Some Std_stream, Some (Socket (new_socket SOCK_DGRAM))],
      pr_limit = 1024, pr_signals = (\<lambda>_. SIG_DFL), pr_addrinfos = 2, pr_rest = example_world f 1 1000\<rparr>"

lemma example_host_sel [simp]:
  "pr_rest (example_host f) = example_world f 1 1000" "pr_limit (example_host f) = 1024"
  "table_count (pr_table (example_host f)) = 4"
  by (simp_all add: example_host_def table_count_def)

text \<open>C17: With room for two more descriptors, the three requests about an account do with descriptors what they do
  without: the same value or exception and the same files and semaphore. A logout and an unregistration close all
  they open; a login of a user who is registered, whatever its outcome, leaves one descriptor open for good.\<close>

theorem account_requests_descriptors:
  assumes "server_inv (pr_rest p)" and "sem_ok (pr_rest p)" and "table_count (pr_table p) + 2 \<le> pr_limit p"
    and "acc = account (wfs (pr_rest p)) u" and "w = pr_rest p" and "n = table_count (pr_table p)"
  shows "(fst (LoginUser_fd u pw p), pr_rest (snd (LoginUser_fd u pw p))) = LoginUser u pw w \<and>
    table_count (pr_table (snd (LoginUser_fd u pw p))) =
      (if is_uid u \<and> (acc_logged_in acc \<or> acc_password acc \<noteq> None) then n + 1 else n) \<and>
    (fst (Logout_fd u pw p), pr_rest (snd (Logout_fd u pw p))) = Logout u pw w \<and>
    table_count (pr_table (snd (Logout_fd u pw p))) = n \<and>
    (fst (Unregister_fd u pw p), pr_rest (snd (Unregister_fd u pw p))) = Unregister u pw w \<and>
    table_count (pr_table (snd (Unregister_fd u pw p))) = n"
proof -
  note i = server_invD(4) [OF assms(1)]
  have room: "room_for 2 p" using assms(3) by (simp add: room_for_def)
  note e = no_empty_password [OF i, of u pw]
  show ?thesis
    using LoginUser_runs_with [OF sem_okD(1) [OF assms(2)] room refl e] login_leaves_eq [OF i, of u]
      Logout_runs_with [OF room_less [OF room] refl e] Unregister_runs_with [OF room_less [OF room] refl e]
    by (simp add: runs_with_def prod_eq_iff assms(4-6))
qed

lemma account_requests_descriptors_example:
  "(fst (LoginUser_fd alice bob_pw (example_host example_users)),
      pr_rest (snd (LoginUser_fd alice bob_pw (example_host example_users)))) =
     LoginUser alice bob_pw (example_world example_users 1 1000) \<and>
   table_count (pr_table (snd (LoginUser_fd alice bob_pw (example_host example_users)))) = 5"
proof -
  let ?p = "example_host example_users"
  have w: "server_inv (pr_rest ?p)" "sem_ok (pr_rest ?p)" "table_count (pr_table ?p) + 2 \<le> pr_limit ?p"
    "account example_users alice = account (wfs (pr_rest ?p)) alice" "example_world example_users 1 1000 = pr_rest ?p"
    "4 = table_count (pr_table ?p)"
    by (simp_all add: example_inv example_users_facts)
  have "is_uid alice \<and> acc_logged_in (account example_users alice)" by (simp add: example_users_facts)
  moreover have "(4::nat) + 1 = 5" by simp
  ultimately show ?thesis
    using account_requests_descriptors [OF w, of bob_pw] by (simp only: if_True simp_thms)
qed

text \<open>C16: As many logins of one user who is logged in as the process has descriptors left fill its table, without a
  change to the files. From then on every request about an account is refused: whatever logins, logouts and
  unregistrations follow, for whatever users and passwords and however many, each on what the one before left, the
  database methods return NOK for all of them; the table stays full, and no account has changed, so that a user who
  is logged in with the right password stays as shut out as a user who is new. (The files can change: a login of a
  user without a directory still makes one.)\<close>

theorem logins_use_up_descriptors:
  assumes "server_inv (pr_rest p)" and "sem_ok (pr_rest p)" and "is_uid u"
    and "account (wfs (pr_rest p)) u = \<lparr>acc_password = Some pw, acc_logged_in = True\<rparr>"
    and "table_count (pr_table p) + n = pr_limit p" and "q = logins n u pw p"
  shows "pr_rest q = pr_rest p \<and> table_count (pr_table q) = pr_limit q \<and>
    (\<exists>f. account_methods requests q =
        (map (\<lambda>r. Ret (refusal r)) requests, q\<lparr>pr_rest := (pr_rest q)\<lparr>wfs := f\<rparr>\<rparr>) \<and>
      (\<forall>v. account f v = account (wfs (pr_rest p)) v))"
proof -
  have "room_for n p" using assms(5) by (simp add: room_for_def)
  note l = logins_run [OF assms(1-4) this, folded assms(6)]
  have "table_full q" "sem_ok (pr_rest q)" "users_inv (wfs (pr_rest q))"
    using l assms(1,2,5) server_invD(4) by (simp_all add: table_full_def)
  from account_methods_full [OF this] show ?thesis
    using l assms(5) by (auto simp: same_accounts_def)
qed

lemma logins_use_up_descriptors_example:
  "fst (account_methods [Login_of bob bob_pw, Logout_of alice alice_pw, Login_of alice alice_pw, Unregister_of bob bob_pw]
      (logins 1020 alice alice_pw (example_host example_users))) =
     [Ret DB_LOGIN_NOK, Ret DB_LOGOUT_NOK, Ret DB_LOGIN_NOK, Ret DB_UNREGISTER_NOK]"
proof -
  let ?p = "example_host example_users"
  have w: "server_inv (pr_rest ?p)" "sem_ok (pr_rest ?p)" "is_uid alice"
    "account (wfs (pr_rest ?p)) alice = \<lparr>acc_password = Some alice_pw, acc_logged_in = True\<rparr>"
    "table_count (pr_table ?p) + 1020 = pr_limit ?p"
    by (simp_all add: example_inv example_users_facts)
  from logins_use_up_descriptors [OF w refl,
    of "[Login_of bob bob_pw, Logout_of alice alice_pw, Login_of alice alice_pw, Unregister_of bob bob_pw]"]
  show ?thesis by force
qed

end
