(* ===== verification/Accept_Loop.thy ===== *)
theory Accept_Loop
  imports Server_Sockets
begin

text \<open>
  server/server.cpp: processTCP with the system calls it makes, listen and the loop over the connections. The loop is
  that of Server_Loops, with the events that the calls make of it, and it keeps the descriptors of the process.
\<close>

section \<open>The loop\<close>

definition TCP_MAX_QUEUE_SIZE :: nat where
  "TCP_MAX_QUEUE_SIZE = 10"

text \<open>The number of rounds is how often the loop is observed.\<close>

fun accept_loop :: "'n calls \<Rightarrow> uint32 \<Rightarrow> nat \<Rightarrow> 'n endpoint \<Rightarrow> tcp_end \<times> 'n endpoint" where
  "accept_loop C ex_trial 0 p = (Tcp_waiting, p)"
| "accept_loop C ex_trial (Suc rounds) p =
     (case accept_connection C p of
        (Ret r, p') \<Rightarrow> if r = Interrupted then (Tcp_exit_success, p') else accept_loop C 0 rounds p'
      | (Throw e, p') \<Rightarrow>
          (let ex_trial = ex_trial + 1
           in if unat ex_trial \<ge> EXCEPTION_RETRY_MAX then (Tcp_exit_failure, p') else accept_loop C ex_trial rounds p')
      | (_, p') \<Rightarrow> (Tcp_waiting, p'))"

definition processTCP_calls :: "'n calls \<Rightarrow> nat \<Rightarrow> 'n endpoint \<Rightarrow> tcp_end \<times> 'n endpoint" where
  "processTCP_calls C rounds p =
     (case sys_listen C (ep_tcp_fd p) TCP_MAX_QUEUE_SIZE p of
        (Ret r, p') \<Rightarrow> if r < 0 then (Tcp_not_listening, p') else accept_loop C 0 rounds p'
      | (_, p') \<Rightarrow> (Tcp_waiting, p'))"

section \<open>The events of Server_Loops that the calls make\<close>

text \<open>\<open>chunks\<close> are the reads of each connection, which the process it is forked for makes.\<close>

fun accept_events :: "'n calls \<Rightarrow> (nat \<Rightarrow> string list) \<Rightarrow> nat \<Rightarrow> 'n endpoint \<Rightarrow> accept_event list" where
  "accept_events C chunks 0 p = []"
| "accept_events C chunks (Suc rounds) p =
     (case accept_connection C p of
        (Ret Interrupted, p') \<Rightarrow> [Accept_failed True False]
      | (Ret Again, p') \<Rightarrow> Accept_failed False True # accept_events C chunks rounds p'
      | (Ret (In_child fd), p') \<Rightarrow> Connection NUL (chunks rounds) # accept_events C chunks rounds p'
      | (_, p') \<Rightarrow> Fork_failed # accept_events C chunks rounds p')"

lemma accept_outcome:
  obtains (returned) r q where "accept_connection C p = (Ret r, q)"
  | (failure) q where "accept_connection C p = (Throw UnrecoverableException, q)"
proof -
  have ends: "\<exists>r q. sys_close C fd p = (Ret r, q)" for fd and p :: "'a endpoint"
    by (auto simp: sys_close_def bindP_def asks_run)
  show thesis
  proof (cases rule: sys_accept_cases [of C p])
    case (none sig_int again q)
    obtain q' where "endpoint_destroy C q = (Ret (), q')" using destroy_returns [of C q] by (metis prod.collapse)
    then show thesis using that none
      by (cases sig_int; cases again) (auto simp: accept_connection_def bindP_def terminate_def Server_destructor_def)
  next
    case (some fd q)
    have "sm_view (summary q) fd = Some (Socket (new_socket SOCK_STREAM))" using some(3) by simp
    then show thesis
    proof (cases rule: on_socket_cases [where C = C and c = Sys_setsockopt and upd = "set_option (SO_RCVTIMEO TCP_READ_TIMEOUT_SECONDS 0)"])
      case (fails q2)
      then show thesis using failure some by (simp add: accept_connection_def bindP_def sys_setsockopt_def)
    next
      case (changes q2)
      obtain x q3 where "sys_close C fd (q2\<lparr>pr_rest := snd (ca_ok C Sys_fork (pr_rest q2))\<rparr>) = (Ret x, q3)" using ends by blast
      then show thesis using that some changes
        by (cases "fst (ca_ok C Sys_fork (pr_rest q2))")
          (auto simp: accept_connection_def bindP_def sys_setsockopt_def try_catch_def asks_run)
    qed
  qed
qed

lemma accept_loop_refines:
  "fst (accept_loop C t rounds p) = snd (fst (tcp_loop manager t (accept_events C chunks rounds p) w))"
proof (induction rounds arbitrary: t p w)
  case (Suc rounds)
  show ?case
  proof (cases rule: accept_outcome [of C p])
    case (returned r q)
    then show ?thesis
      by (cases r) (simp_all add: wait_for_tcp_message_def Let_def EXCEPTION_RETRY_MAX_def split_beta Suc.IH [symmetric])
  next
    case (failure q)
    then show ?thesis by (simp add: wait_for_tcp_message_def Let_def split_beta Suc.IH [symmetric])
  qed
qed simp

section \<open>The descriptors of the loop\<close>

lemma listening_summary:
  "listening p \<longleftrightarrow> (case sm_view (summary p) (sm_tcp_fd (summary p)) of Some (Socket s) \<Rightarrow> sk_backlog s \<noteq> None | _ \<Rightarrow> False)"
  by (simp add: listening_def)

definition only_connections :: "'n calls \<Rightarrow> bool" where
  "only_connections C \<longleftrightarrow> (\<forall>n. fst (ca_accept C n) \<in> {Accepted, Not_accepted False True})"

lemma accept_round_goes_on:
  assumes "all_succeed C" and "only_connections C" and "room 1 (summary p)" and "listening p"
  shows "\<exists>r q. accept_connection C p = (Ret r, q) \<and> r \<noteq> Interrupted \<and> summary q = summary p"
proof -
  have "\<exists>r. fst (accept_connection C p) = Ret r \<and> r \<noteq> Interrupted"
  proof (cases rule: sys_accept_cases [of C p])
    case (none sig_int again q)
    have "fst (ca_accept C (pr_rest p)) = Not_accepted sig_int again" using none(3) assms(3,4) by simp
    moreover have "fst (ca_accept C (pr_rest p)) \<in> {Accepted, Not_accepted False True}"
      using assms(2) unfolding only_connections_def by blast
    ultimately show ?thesis using none(1) by (auto simp: accept_connection_def bindP_def)
  next
    case (some fd q)
    have "sm_view (summary q) fd = Some (Socket (new_socket SOCK_STREAM))" using some(3) by simp
    then show ?thesis
    proof (cases rule: on_socket_cases [where C = C and c = Sys_setsockopt and upd = "set_option (SO_RCVTIMEO TCP_READ_TIMEOUT_SECONDS 0)"])
      case (fails q2)
      then show ?thesis using assms(1) by simp
    next
      case (changes q2)
      then show ?thesis using some(1) assms(1)
        by (auto simp: accept_connection_def bindP_def sys_setsockopt_def try_catch_def asks_run sys_close_def all_succeed_def
            split: close_result.splits)
    qed
  qed
  then obtain r q where run: "accept_connection C p = (Ret r, q)" "r \<noteq> Interrupted" by (metis prod.collapse)
  then show ?thesis using accept_descriptors [OF run(1)] assms(1) by auto
qed

lemma accept_loop_goes_on:
  assumes "all_succeed C" and "only_connections C" and "room 1 (summary p)" and "listening p"
  shows "\<exists>q. accept_loop C t rounds p = (Tcp_waiting, q) \<and> summary q = summary p"
  using assms(3,4)
proof (induction rounds arbitrary: t p)
  case (Suc rounds)
  obtain r q where r: "accept_connection C p = (Ret r, q)" "r \<noteq> Interrupted" "summary q = summary p"
    using accept_round_goes_on [OF assms(1,2) Suc.prems] by blast
  then have "room 1 (summary q)" "listening q" using Suc.prems by (simp_all only: listening_summary)
  from Suc.IH [OF this, of 0] r show ?case by auto
qed simp

text \<open>C21: The process that accepts never runs out of descriptors: with room for one more, and while no call fails but for
  timeouts of accept, it goes on for any number of connections, and after each it holds what it held when it began
  to listen, so that no connection it has handed over stays open with it.\<close>

theorem accepts_for_ever:
  assumes "all_succeed C" and "only_connections C" and "table_count (pr_table p) < pr_limit p"
    and "table_view (pr_table p) (ep_tcp_fd p) = Some (Socket d)"
  shows "\<exists>q. processTCP_calls C rounds p = (Tcp_waiting, q) \<and>
    table_view (pr_table q) =
      (table_view (pr_table p))(ep_tcp_fd p := Some (Socket (d\<lparr>sk_backlog := Some TCP_MAX_QUEUE_SIZE\<rparr>))) \<and>
    table_count (pr_table q) = table_count (pr_table p)"
proof -
  have tcp: "sm_view (summary p) (ep_tcp_fd p) = Some (Socket d)" using assms(4) by simp
  then show ?thesis
  proof (cases rule: on_socket_cases [where C = C and c = Sys_listen and upd = "\<lambda>s. s\<lparr>sk_backlog := Some TCP_MAX_QUEUE_SIZE\<rparr>"])
    case (fails q)
    then show ?thesis using assms(1) by simp
  next
    case (changes q)
    have fd: "ep_tcp_fd q = ep_tcp_fd p" using arg_cong [where f = sm_tcp_fd, OF changes(2)] by simp
    have "listening q" by (simp add: listening_summary changes(2))
    moreover have "room 1 (summary q)"
      using tcp changes(2) assms(3) by (simp add: room_def table_count_opened fds.opened_def insert_absorb domIff)
    ultimately obtain q' where q': "accept_loop C 0 rounds q = (Tcp_waiting, q')" "summary q' = summary q"
      using accept_loop_goes_on [OF assms(1,2)] by blast
    have view: "table_view (pr_table q') =
        (table_view (pr_table p))(ep_tcp_fd p := Some (Socket (d\<lparr>sk_backlog := Some TCP_MAX_QUEUE_SIZE\<rparr>)))"
      using arg_cong [where f = sm_view, OF q'(2)] changes(2) by simp
    then have "table_count (pr_table q') = table_count (pr_table p)"
      using tcp by (simp add: table_count_opened fds.opened_def insert_absorb domIff)
    then show ?thesis using view q'(1) changes(1) by (simp add: processTCP_calls_def sys_listen_def)
  qed
qed

lemma accepts_for_ever_example:
  "\<exists>q. processTCP_calls (example_calls True) 100000
      (example_start\<lparr>pr_table := pr_table example_start @ [Some (served_socket SOCK_STREAM (Some ''58086''))], ep_tcp_fd := 3\<rparr>) =
      (Tcp_waiting, q) \<and> table_count (pr_table q) = 4"
proof -
  let ?p = "example_start\<lparr>pr_table := pr_table example_start @ [Some (served_socket SOCK_STREAM (Some ''58086''))], ep_tcp_fd := 3\<rparr>"
  have "only_connections (example_calls True)" by (simp add: only_connections_def example_calls_def)
  moreover have c: "table_count (pr_table ?p) = 4" by (simp add: example_start_def table_count_def)
  moreover have "table_view (pr_table ?p) (ep_tcp_fd ?p) =
      Some (Socket ((new_socket SOCK_STREAM)\<lparr>sk_reuseaddr := True, sk_bound := Some ''58086''\<rparr>))"
    by (simp add: example_start_def table_view_def served_socket_def)
  moreover have "(4::nat) < pr_limit ?p" by (simp add: example_start_def)
  ultimately show ?thesis
    using accepts_for_ever [of "example_calls True" ?p _ 100000] example_room(1) by (simp only:) blast
qed

end
