(* ===== verification/Server_Child.thy ===== *)
theory Server_Child
  imports Server_Sockets
begin

text \<open>
  server/server.cpp and server/handlers.cpp where an answer goes out: the process that serves one connection
  and the loop that serves datagrams, with the system calls they make. The runs of Server_Core, which hand the
  answer over as a value, are shown to be these calls, whatever becomes of the answer.
\<close>

section \<open>Sending the answer\<close>

text \<open>Which of the two functions the method handle of a class ends with.\<close>

fun sends_over_tcp :: "RequestHandler \<Rightarrow> bool" where
  "sends_over_tcp OpenAuctionRequest = True"
| "sends_over_tcp CloseAuctionRequest = True"
| "sends_over_tcp ShowAssetRequest = True"
| "sends_over_tcp BidRequest = True"
| "sends_over_tcp WrongRequestTCP = True"
| "sends_over_tcp _ = False"

text \<open>A write on a descriptor that is not open fails.\<close>

definition on_open :: "int \<Rightarrow> 'n endpoint \<Rightarrow> (string \<Rightarrow> 'n \<Rightarrow> int \<times> 'n) \<Rightarrow> string \<Rightarrow> 'n \<Rightarrow> int \<times> 'n" where
  "on_open fd p wr b n = (if table_view (pr_table p) fd = None then (-1, n) else wr b n)"

definition send_answer ::
    "'n calls \<Rightarrow> RequestHandler \<Rightarrow> int \<Rightarrow> bool \<Rightarrow> string \<Rightarrow> (string, 'n endpoint) prog" where
  "send_answer C h fd verbose bytes p =
     (if sends_over_tcp h then
        (case send_tcp_message (on_open fd p (ca_write C)) (Inr bytes) verbose (pr_rest p) of
           None \<Rightarrow> (Block, p)
         | Some (Inl e, n) \<Rightarrow> (Throw e, p\<lparr>pr_rest := n\<rparr>)
         | Some (Inr printed, n) \<Rightarrow> (Ret printed, p\<lparr>pr_rest := n\<rparr>))
      else
        (case send_udp_message (on_open fd p (ca_sendto C)) (Inr bytes) verbose (pr_rest p) of
           (Inl e, n) \<Rightarrow> (Throw e, p\<lparr>pr_rest := n\<rparr>)
         | (Inr printed, n) \<Rightarrow> (Ret printed, p\<lparr>pr_rest := n\<rparr>)))"

text \<open>
  RequestManager::callHandlerRequest with the sending at the end of the handler. The value is what was sent,
  None where the handler returned before.
\<close>

definition callHandlerRequest_sends ::
    "'n calls \<Rightarrow> RequestManager \<Rightarrow> 'b MessageAdapter \<Rightarrow> 'b \<Rightarrow> message_type \<Rightarrow> int \<Rightarrow> bool \<Rightarrow>
       (string option, 'n endpoint \<times> world) prog" where
  "callHandlerRequest_sends C manager A message type fd verbose s =
     (case ma_getn A PROTOCOL_SIZE message of
        Inl e \<Rightarrow> (Throw e, s)
      | Inr (rec_proto_code, message) \<Rightarrow>
          (let handlers = (if type = UDP_MESSAGE then udp_handlers manager else tcp_handlers manager)
           in case (case handlers rec_proto_code of None \<Rightarrow> handlers CODE_ERROR | Some h \<Rightarrow> Some h) of
                None \<Rightarrow> (Undef, s)
              | Some h \<Rightarrow>
                  bindP (on_files (handle h A message)) (\<lambda>reply.
                  case reply of
                    None \<Rightarrow> ret None
                  | Some bytes \<Rightarrow> bindP (on_sockets (send_answer C h fd verbose bytes)) (\<lambda>_. ret (Some bytes))) s))"

section \<open>The process of one connection\<close>



section \<open>The loop over the datagrams\<close>

definition wait_for_udp_message_calls ::
    "'n calls \<Rightarrow> RequestManager \<Rightarrow> bool \<Rightarrow> udp_event \<Rightarrow> 'n endpoint \<times> world \<Rightarrow> udp_round \<times> ('n endpoint \<times> world)" where
  "wait_for_udp_message_calls C manager verbose ev s =
     (case ev of
        Recv_failed sig_int \<Rightarrow>
          (if sig_int then (Terminated, snd (on_sockets (terminate C UDP_MESSAGE) s)) else (Failed, s))
      | Datagram d \<Rightarrow>
          (case callHandlerRequest_sends C manager StreamMessage (stream_of (take SOCKET_BUFFER_LEN d)) UDP_MESSAGE
              (ep_udp_fd (fst s)) verbose s of
             (Ret reply, s') \<Rightarrow> (Replied reply, s')
           | (Throw e, s') \<Rightarrow> (Caught e, s')
           | (Block, s') \<Rightarrow> (Stuck, s')
           | (Undef, s') \<Rightarrow> (Broken, s')))"

fun processUDP_calls ::
    "'n calls \<Rightarrow> RequestManager \<Rightarrow> bool \<Rightarrow> udp_event list \<Rightarrow> 'n endpoint \<times> world \<Rightarrow> udp_round list \<times> ('n endpoint \<times> world)" where
  "processUDP_calls C manager verbose [] s = ([], s)"
| "processUDP_calls C manager verbose (ev # evs) s =
     (case wait_for_udp_message_calls C manager verbose ev s of
        (r, s') \<Rightarrow>
          if r \<in> {Terminated, Stuck, Broken} then ([r], s')
          else (case processUDP_calls C manager verbose evs s' of (rs, s'') \<Rightarrow> (r # rs, s'')))"

section \<open>The sending at the end of a handler\<close>

lemma on_open_socket [simp]: "table_view (pr_table p) fd \<noteq> None \<Longrightarrow> on_open fd p wr = wr"
  by (intro ext) (auto simp: on_open_def)

lemma udp_handlers_send: "udp_handlers requestManager c = Some h \<Longrightarrow> \<not> sends_over_tcp h"
  by (auto simp: udp_table split: if_splits)

text \<open>The call without the sending is the model's; what the sending adds is its own outcome.\<close>

definition handler_of :: "RequestManager \<Rightarrow> message_type \<Rightarrow> string \<Rightarrow> RequestHandler option" where
  "handler_of manager type code =
     (let handlers = (if type = UDP_MESSAGE then udp_handlers manager else tcp_handlers manager)
      in case handlers code of None \<Rightarrow> handlers CODE_ERROR | Some h \<Rightarrow> Some h)"

definition after_sending :: "string \<Rightarrow> world \<Rightarrow> string outcome \<times> 'n endpoint \<Rightarrow> string option outcome \<times> ('n endpoint \<times> world)" where
  "after_sending bytes w x =
     (case x of
        (Ret _, p) \<Rightarrow> (Ret (Some bytes), (p, w))
      | (Throw e, p) \<Rightarrow> (Throw e, (p, w))
      | (Block, p) \<Rightarrow> (Block, (p, w))
      | (Undef, p) \<Rightarrow> (Undef, (p, w)))"

lemma bind_sending:
  "bindP (on_sockets m) (\<lambda>_. ret (Some bytes)) (p, w) = after_sending bytes w (m p)"
  by (auto simp: bindP_def on_sockets_def after_sending_def split: prod.splits outcome.splits)

lemma call_sends_run:
  assumes "callHandlerRequest manager A message type w = (out, w')"
  shows "(\<forall>bytes. out \<noteq> Ret (Some bytes)) \<and>
      callHandlerRequest_sends C manager A message type fd verbose (p, w) = (out, (p, w')) \<or>
    (\<exists>bytes c h m. out = Ret (Some bytes) \<and> handler_of manager type c = Some h \<and> handle h A m w = (out, w') \<and>
      callHandlerRequest_sends C manager A message type fd verbose (p, w) =
        after_sending bytes w' (send_answer C h fd verbose bytes p))"
proof (cases "ma_getn A PROTOCOL_SIZE message")
  case (Inl e)
  then show ?thesis using assms by (auto simp: callHandlerRequest_def callHandlerRequest_sends_def)
next
  case (Inr x)
  obtain c m where x: "x = (c, m)" by fastforce
  show ?thesis
  proof (cases "handler_of manager type c")
    case None
    then show ?thesis using assms
      by (auto simp: callHandlerRequest_def callHandlerRequest_sends_def Inr x handler_of_def Let_def)
  next
    case (Some h)
    then have h: "handle h A m w = (out, w')" using assms
      by (simp add: callHandlerRequest_def Inr x handler_of_def Let_def)
    have run: "callHandlerRequest_sends C manager A message type fd verbose (p, w) =
        bindP (on_files (handle h A m)) (\<lambda>reply.
          case reply of
            None \<Rightarrow> ret None
          | Some bytes \<Rightarrow> bindP (on_sockets (send_answer C h fd verbose bytes)) (\<lambda>_. ret (Some bytes))) (p, w)"
      using Some by (simp add: callHandlerRequest_sends_def Inr x handler_of_def Let_def)
    show ?thesis
    proof (cases "\<exists>bytes. out = Ret (Some bytes)")
      case True
      then obtain bytes where "out = Ret (Some bytes)" by blast
      then show ?thesis using h Some by (auto simp: run bindP_def [of "on_files _"] on_files_def bind_sending)
    next
      case False
      then show ?thesis
        using h by (cases out) (auto simp: run bindP_def [of "on_files _"] on_files_def split: option.splits)
    qed
  qed
qed

text \<open>
  What sendto takes: all of the bytes, or nothing where it fails; no other call puts bytes on the socket. \<open>got\<close> is
  what it has taken.
\<close>

definition takes_datagrams :: "'n calls \<Rightarrow> ('n \<Rightarrow> string) \<Rightarrow> bool" where
  "takes_datagrams C got \<longleftrightarrow>
     (\<forall>b n. fst (ca_sendto C b n) = -1 \<and> got (snd (ca_sendto C b n)) = got n \<or>
        fst (ca_sendto C b n) = int (length b) \<and> got (snd (ca_sendto C b n)) = got n @ b) \<and>
     (\<forall>c n. got (snd (ca_ok C c n)) = got n)"

fun answer_bytes :: "udp_round \<Rightarrow> string" where
  "answer_bytes (Replied (Some bytes)) = bytes"
| "answer_bytes _ = []"

lemma close_got:
  assumes "takes_datagrams C got"
  shows "\<exists>r q. sys_close C fd p = (Ret r, q) \<and> got (pr_rest q) = got (pr_rest p)"
  using assms by (auto simp: sys_close_def bindP_def asks_run takes_datagrams_def)

lemma terminate_got:
  assumes "takes_datagrams C got"
  shows "got (pr_rest (snd (terminate C process p))) = got (pr_rest p)"
proof -
  have c: "\<exists>q. close_if_set C field p = (Ret (), q) \<and> got (pr_rest q) = got (pr_rest p)" for field and p :: "'a endpoint"
    using close_got [OF assms, of "field p" p] by (auto simp: close_if_set_def bindP_def)
  obtain q1 where q1: "close_if_set C ep_udp_fd p = (Ret (), q1)" "got (pr_rest q1) = got (pr_rest p)" using c by blast
  obtain q2 where q2: "close_if_set C ep_tcp_fd q1 = (Ret (), q2)" "got (pr_rest q2) = got (pr_rest q1)" using c by blast
  show ?thesis
    by (simp add: terminate_def Server_destructor_def endpoint_destroy_def bindP_def q1 q2 free_if_set_def sys_freeaddrinfo_def)
qed

lemma taken_none:
  assumes "takes_datagrams C got" and "ca_sendto C b n = (-1, n')"
  shows "got n' = got n"
proof -
  have "fst (ca_sendto C b n) \<noteq> int (length b)" using assms(2) by simp
  then show ?thesis using assms unfolding takes_datagrams_def by (metis snd_conv)
qed

lemma udp_answer_ends:
  assumes "\<not> sends_over_tcp h"
  obtains (sent) t n where "send_answer C h fd verbose bytes p = (Ret t, p\<lparr>pr_rest := n\<rparr>)"
      "\<And>got. takes_datagrams C got \<Longrightarrow> got n = got (pr_rest p) @ bytes"
  | (lost) n where "send_answer C h fd verbose bytes p = (Throw MessageSendException, p\<lparr>pr_rest := n\<rparr>)"
      "table_view (pr_table p) fd = None \<or> (\<exists>n. fst (ca_sendto C bytes n) = -1)"
      "\<And>got. takes_datagrams C got \<Longrightarrow> got n = got (pr_rest p)"
proof (cases "on_open fd p (ca_sendto C) bytes (pr_rest p)")
  case (Pair k n)
  show ?thesis
  proof (cases "k = -1")
    case True
    have "table_view (pr_table p) fd = None \<or> (\<exists>n. fst (ca_sendto C bytes n) = -1)"
      using Pair True by (auto simp: on_open_def split: if_splits intro!: exI [of _ "pr_rest p"])
    moreover have "send_answer C h fd verbose bytes p = (Throw MessageSendException, p\<lparr>pr_rest := n\<rparr>)"
      using assms Pair True by (simp add: send_answer_def send_udp_message_def)
    moreover have "got n = got (pr_rest p)" if "takes_datagrams C got" for got :: "'a \<Rightarrow> string"
      using that Pair True taken_none [OF that, of bytes "pr_rest p" n] by (auto simp: on_open_def split: if_splits)
    ultimately show ?thesis by (intro lost)
  next
    case False
    then have "ca_sendto C bytes (pr_rest p) = (k, n)" using Pair by (auto simp: on_open_def split: if_splits)
    then have "got n = got (pr_rest p) @ bytes" if "takes_datagrams C got" for got :: "'a \<Rightarrow> string"
      using that False unfolding takes_datagrams_def by (metis fst_conv snd_conv)
    then show ?thesis using assms Pair False sent by (simp add: send_answer_def send_udp_message_def)
  qed
qed

section \<open>Datagrams whose answer is lost\<close>

definition same_or_lost :: "udp_round \<Rightarrow> udp_round \<Rightarrow> bool" where
  "same_or_lost r r' \<longleftrightarrow> r = r' \<or> r = Caught MessageSendException \<and> (\<exists>bytes. r' = Replied (Some bytes))"

lemma udp_handler_of: "handler_of requestManager UDP_MESSAGE c = Some h \<Longrightarrow> \<not> sends_over_tcp h"
  by (auto simp: handler_of_def Let_def udp_table code_defs split: if_splits option.splits)

text \<open>Sending goes on working: the socket is open and sendto does not fail.\<close>

definition answers_go_out :: "'n calls \<Rightarrow> 'n endpoint \<Rightarrow> bool" where
  "answers_go_out C p \<longleftrightarrow> table_view (pr_table p) (ep_udp_fd p) \<noteq> None \<and> (\<forall>b n. fst (ca_sendto C b n) \<noteq> -1)"

lemma udp_round_sends:
  assumes "wait_for_udp_message_calls C requestManager verbose ev (p, w) = (r, (p', w'))"
    and "wait_for_udp_message requestManager ev w = (r', w'')"
  shows "w' = w'' \<and> same_or_lost r r' \<and> (r' \<noteq> Terminated \<longrightarrow> (\<exists>n. p' = p\<lparr>pr_rest := n\<rparr>)) \<and> (answers_go_out C p \<longrightarrow> r = r') \<and>
    (\<forall>got. takes_datagrams C got \<longrightarrow> got (pr_rest p') = got (pr_rest p) @ answer_bytes r)"
proof (cases ev)
  case (Recv_failed sig_int)
  have "got (pr_rest q) = got (pr_rest p)" if "takes_datagrams C got" "terminate C UDP_MESSAGE p = (x, q)"
    for got :: "'a \<Rightarrow> string" and x q
    using terminate_got [OF that(1), of UDP_MESSAGE p] that(2) by simp
  then show ?thesis
    using assms Recv_failed by (auto simp: wait_for_udp_message_calls_def wait_for_udp_message_def on_sockets_def same_or_lost_def
        split: prod.splits if_splits intro: exI [of _ "pr_rest p"])
next
  case (Datagram d)
  let ?m = "stream_of (take SOCKET_BUFFER_LEN d)"
  have same: "\<exists>n. p = p\<lparr>pr_rest := n\<rparr>" by (rule exI [of _ "pr_rest p"]) simp
  obtain out w1 where call: "callHandlerRequest requestManager StreamMessage ?m UDP_MESSAGE w = (out, w1)" by fastforce
  from call_sends_run [OF this, of C "ep_udp_fd p" verbose p]
  consider (plain) "\<forall>bytes. out \<noteq> Ret (Some bytes)"
      "callHandlerRequest_sends C requestManager StreamMessage ?m UDP_MESSAGE (ep_udp_fd p) verbose (p, w) = (out, (p, w1))"
    | (sends) bytes c h where "out = Ret (Some bytes)" "handler_of requestManager UDP_MESSAGE c = Some h"
      "callHandlerRequest_sends C requestManager StreamMessage ?m UDP_MESSAGE (ep_udp_fd p) verbose (p, w) =
        after_sending bytes w1 (send_answer C h (ep_udp_fd p) verbose bytes p)" by blast
  then show ?thesis
  proof cases
    case plain
    then show ?thesis using assms same Datagram call
      by (cases out) (auto simp: wait_for_udp_message_calls_def wait_for_udp_message_def same_or_lost_def)
  next
    case sends
    from udp_handler_of [OF sends(2)] show ?thesis
    proof (cases rule: udp_answer_ends [of h C "ep_udp_fd p" verbose bytes p])
      case (sent t n)
      then show ?thesis using assms Datagram call sends
        by (auto simp: wait_for_udp_message_calls_def wait_for_udp_message_def same_or_lost_def after_sending_def)
    next
      case (lost n)
      then have "\<not> answers_go_out C p" by (auto simp: answers_go_out_def)
      then show ?thesis using assms Datagram call sends lost(1,3)
        by (auto simp: wait_for_udp_message_calls_def wait_for_udp_message_def same_or_lost_def after_sending_def)
    qed
  qed
qed

lemma udp_run_sends:
  assumes "processUDP_calls C requestManager verbose evs (p, w) = (rs, (p', w'))"
    and "processUDP requestManager evs w = (rs', w'')"
  shows "w' = w'' \<and> list_all2 same_or_lost rs rs' \<and> (answers_go_out C p \<longrightarrow> rs = rs') \<and>
    (\<forall>got. takes_datagrams C got \<longrightarrow> got (pr_rest p') = got (pr_rest p) @ concat (map answer_bytes rs))"
  using assms
proof (induction evs arbitrary: p w rs rs' p' w' w'')
  case (Cons ev evs)
  obtain r p1 w1 where c: "wait_for_udp_message_calls C requestManager verbose ev (p, w) = (r, (p1, w1))"
    by (metis prod.collapse)
  obtain r' w2 where m: "wait_for_udp_message requestManager ev w = (r', w2)" by fastforce
  note round = udp_round_sends [OF c m]
  have stops: "r \<in> {Terminated, Stuck, Broken} \<longleftrightarrow> r' \<in> {Terminated, Stuck, Broken}"
    using round by (auto simp: same_or_lost_def)
  show ?case
  proof (cases "r' \<in> {Terminated, Stuck, Broken}")
    case True
    then have "r \<in> {Terminated, Stuck, Broken}" using stops by blast
    then have "rs = [r]" "w' = w1" "p' = p1" "rs' = [r']" "w'' = w2" using Cons.prems True by (simp_all add: c m)
    then show ?thesis using round by simp
  next
    case False
    then have r: "r \<notin> {Terminated, Stuck, Broken}" using stops by blast
    obtain rs1 p3 w3 where c': "processUDP_calls C requestManager verbose evs (p1, w1) = (rs1, (p3, w3))"
      by (metis prod.collapse)
    have w1: "w1 = w2" using round by simp
    obtain rs1' w4 where m': "processUDP requestManager evs w1 = (rs1', w4)" by fastforce
    obtain n where "p1 = p\<lparr>pr_rest := n\<rparr>" using round False by auto
    then have "answers_go_out C p1 = answers_go_out C p" by (simp add: answers_go_out_def)
    moreover have "rs = r # rs1" "w' = w3" "p' = p3" "rs' = r' # rs1'" "w'' = w4"
      using Cons.prems r False by (simp_all add: c m c' m' m' [unfolded w1])
    ultimately show ?thesis using round Cons.IH [OF c' m'] by auto
  qed
qed simp

text \<open>C20: An answer that cannot be sent changes nothing else: for every sequence of datagrams, and whatever sendto returns for
  each answer, the loop that serves them with its system calls leaves the store that the loop of Server_Core leaves
  and ends where that one ends; a round differs at most in that MessageSendException takes the place of the
  answer, and none differs while the socket is open and sendto does not fail. What the socket has taken is the answers
  of the other rounds, in order.\<close>

theorem lost_answers_keep_store:
  "case processUDP_calls C requestManager verbose evs (p, w) of (rs, (p', w')) \<Rightarrow>
     case processUDP requestManager evs w of (rs', w'') \<Rightarrow>
       w' = w'' \<and> list_all2 same_or_lost rs rs' \<and> (answers_go_out C p \<longrightarrow> rs = rs') \<and>
       (\<forall>got. takes_datagrams C got \<longrightarrow> got (pr_rest p') = got (pr_rest p) @ concat (map answer_bytes rs))"
proof -
  obtain rs p' w' where c: "processUDP_calls C requestManager verbose evs (p, w) = (rs, (p', w'))" by (metis prod.collapse)
  obtain rs' w'' where m: "processUDP requestManager evs w = (rs', w'')" by fastforce
  show ?thesis using udp_run_sends [OF c m] by (simp add: c m)
qed

lemma lost_answers_keep_store_example:
  "case processUDP_calls (example_calls True) requestManager False
       [Datagram (''LOU 123456 password'' @ newline), Recv_failed True] (example_start\<lparr>ep_udp_fd := 2\<rparr>, example_files) of
     (rs, (p', _)) \<Rightarrow>
       rs = fst (processUDP requestManager [Datagram (''LOU 123456 password'' @ newline), Recv_failed True] example_files) \<and>
       pr_rest p' = concat (map answer_bytes rs)"
proof -
  have "answers_go_out (example_calls True) (example_start\<lparr>ep_udp_fd := 2\<rparr>)"
    by (simp add: answers_go_out_def example_calls_def example_start_def table_view_def)
  moreover have "takes_datagrams (example_calls True) (\<lambda>n. n)" by (simp add: takes_datagrams_def example_calls_def)
  moreover have "pr_rest (example_start\<lparr>ep_udp_fd := 2\<rparr>) = []" by (simp add: example_start_def)
  ultimately show ?thesis
    using lost_answers_keep_store [where C = "example_calls True" and verbose = False and w = example_files
        and evs = "[Datagram (''LOU 123456 password'' @ newline), Recv_failed True]" and p = "example_start\<lparr>ep_udp_fd := 2\<rparr>"]
    by (auto simp del: processUDP.simps processUDP_calls.simps split: prod.split_asm prod.split)
qed

section \<open>The process of one connection\<close>




















text \<open>The connection a process is forked for is one that accept has just opened, so that what child_refines asks holds.\<close>

lemma accepted_connection:
  fixes p :: "'n endpoint"
  assumes "sys_accept C p = (Ret (Accepted, fd), q)" and "table_view (pr_table p) (ep_tcp_fd p) \<noteq> None"
  shows "\<exists>d. table_view (pr_table q) fd = Some (Socket d)" and "ep_tcp_fd q \<noteq> fd"
proof -
  have "ep_tcp_fd q = ep_tcp_fd p \<and> (\<exists>d. table_view (pr_table q) fd = Some (Socket d)) \<and> table_view (pr_table p) fd = None"
    using assms(1) by (auto simp: sys_accept_def fds.view_put fds.fresh_free listening_def split: prod.splits accepted.splits if_splits)
  then show "\<exists>d. table_view (pr_table q) fd = Some (Socket d)" "ep_tcp_fd q \<noteq> fd" using assms(2) by metis+
qed

end
