(* ===== verification/Late_Answers.thy ===== *)
theory Late_Answers
  imports Client_Server Sockets Example_Store
begin

text \<open>
  An answer over UDP that comes after the client has given up waiting. Nothing in client/client.cpp or
  shared/protocol.cpp takes it out of the socket, so that it is there when the next request is sent, and
  await_udp_message reads it as the answer to that one.
\<close>

section \<open>A socket with answers not yet read\<close>

text \<open>
  The other end takes a request to its answer, if there is one, and the microseconds until it arrives. The
  socket keeps what has arrived in order; an answer that select does not wait for is there before the next request
  is sent.
\<close>

record 'w udp_socket =
  us_unread :: "string list"
  us_peer :: 'w

type_synonym 'w peer = "string \<Rightarrow> 'w \<Rightarrow> (string \<times> nat) option \<times> 'w"

definition next_arrival :: "string list \<Rightarrow> (string \<times> nat) option \<Rightarrow> arrival" where
  "next_arrival unread coming =
     (case unread of
        x # xs \<Rightarrow> Arrives 0 (Some x)
      | [] \<Rightarrow> (case coming of None \<Rightarrow> No_arrival | Some (x, t) \<Rightarrow> Arrives t (Some x)))"

definition socket_udp :: "'w peer \<Rightarrow> string \<Rightarrow> 'w udp_socket \<Rightarrow> udp_reply \<times> 'w udp_socket" where
  "socket_udp peer d s =
     (case peer d (us_peer s) of
        (coming, w) \<Rightarrow>
          let arrived = us_unread s @ (case coming of None \<Rightarrow> [] | Some (x, t) \<Rightarrow> [x])
          in case select_within UDP_TIMEOUT 0 (next_arrival (us_unread s) coming) of
               Select_ready (Some x) \<Rightarrow> (Udp_answer x, \<lparr>us_unread = tl arrived, us_peer = w\<rparr>)
             | _ \<Rightarrow> (Udp_no_answer, \<lparr>us_unread = arrived, us_peer = w\<rparr>))"

lemma socket_udp_run:
  assumes "peer d (us_peer s) = (coming, w)"
  shows "us_unread s = x # xs \<Longrightarrow> socket_udp peer d s =
      (Udp_answer x, \<lparr>us_unread = xs @ (case coming of None \<Rightarrow> [] | Some (y, t) \<Rightarrow> [y]), us_peer = w\<rparr>)"
    and "us_unread s = [] \<Longrightarrow> coming = Some (y, t) \<Longrightarrow> 5000000 < t \<Longrightarrow> socket_udp peer d s =
      (Udp_no_answer, \<lparr>us_unread = [y], us_peer = w\<rparr>)"
    and "us_unread s = [] \<Longrightarrow> coming = Some (y, t) \<Longrightarrow> t \<le> 5000000 \<Longrightarrow> socket_udp peer d s =
      (Udp_answer y, \<lparr>us_unread = [], us_peer = w\<rparr>)"
  using assms by (auto simp: socket_udp_def next_arrival_def select_within_def UDP_TIMEOUT_def split: option.split)

text \<open>
  While every request is answered, the number of answers not yet read never goes down: once one was late, the client
  reads for each request the answer to an earlier one.
\<close>

lemma late_stays_behind:
  assumes "\<And>d w. fst (peer d w) \<noteq> None"
  shows "length (us_unread s) \<le> length (us_unread (snd (socket_udp peer d s)))"
proof -
  obtain y t w where p: "peer d (us_peer s) = (Some (y, t), w)" using assms [of d "us_peer s"] by (metis not_None_eq prod.collapse)
  show ?thesis
  proof (cases "us_unread s")
    case Nil
    then show ?thesis by simp
  next
    case (Cons x xs)
    then show ?thesis using socket_udp_run(1) [where peer = peer and d = d and s = s, OF p] by simp
  qed
qed

section \<open>The client on this socket\<close>

lemma late_login_exchange:
  assumes "ce_udp E = socket_udp peer" and "peer d (us_peer (cl_net s)) = (coming, w)"
  shows "us_unread (cl_net s) = [] \<Longrightarrow> coming = Some (y, t) \<Longrightarrow> 5000000 < t \<Longrightarrow>
      sendUdpMessageAndAwaitReply E d read_in s =
        (Ret None, s\<lparr>cl_net := \<lparr>us_unread = [y], us_peer = w\<rparr>, cl_out := cl_out s @ no_udp_answer\<rparr>)"
    and "us_unread (cl_net s) = x # xs \<Longrightarrow> length x \<le> UDP_SOCKET_BUFFER_LEN \<Longrightarrow> map_option result (read_in (stream_of x)) = Some (Inr m) \<Longrightarrow>
      sendUdpMessageAndAwaitReply E d read_in s =
        (Ret (Some m), s\<lparr>cl_net := \<lparr>us_unread = xs @ (case coming of None \<Rightarrow> [] | Some (y, t) \<Rightarrow> [y]), us_peer = w\<rparr>\<rparr>)"
proof -
  assume "us_unread (cl_net s) = []" "coming = Some (y, t)" "5000000 < t"
  then have "udp_exchange E d read_in s = (Throw MessageReceiveException, s\<lparr>cl_net := \<lparr>us_unread = [y], us_peer = w\<rparr>\<rparr>)"
    using socket_udp_run(2) [where peer = peer and d = d and s = "cl_net s", OF assms(2)] by (simp add: udp_exchange_def assms(1))
  then show "sendUdpMessageAndAwaitReply E d read_in s =
      (Ret None, s\<lparr>cl_net := \<lparr>us_unread = [y], us_peer = w\<rparr>, cl_out := cl_out s @ no_udp_answer\<rparr>)"
    by (simp add: sendUdpMessageAndAwaitReply_def UDP_MAX_TRIES_def eval_nat_numeral try_catch_def bindP_def
        print_out_def no_udp_answer_def)
next
  assume a: "us_unread (cl_net s) = x # xs" "length x \<le> UDP_SOCKET_BUFFER_LEN" "map_option result (read_in (stream_of x)) = Some (Inr m)"
  then obtain r where r: "read_in (stream_of x) = Some r" "result r = Inr m" by auto
  have "udp_exchange E d read_in s =
      (Ret m, s\<lparr>cl_net := \<lparr>us_unread = xs @ (case coming of None \<Rightarrow> [] | Some (y, t) \<Rightarrow> [y]), us_peer = w\<rparr>\<rparr>)"
    using socket_udp_run(1) [where peer = peer and d = d and s = "cl_net s", OF assms(2) a(1)] a(2) r by (simp add: udp_exchange_def assms(1) read_answer_def)
  then show "sendUdpMessageAndAwaitReply E d read_in s =
      (Ret (Some m), s\<lparr>cl_net := \<lparr>us_unread = xs @ (case coming of None \<Rightarrow> [] | Some (y, t) \<Rightarrow> [y]), us_peer = w\<rparr>\<rparr>)"
    by (simp add: sendUdpMessageAndAwaitReply_def UDP_MAX_TRIES_def eval_nat_numeral try_catch_def bindP_def)
qed

section \<open>Two logins\<close>

lemma login_typed:
  assumes "is_uid u" and "10 ^ 5 \<le> digits_val u" and "is_password pw" and "\<not> isLoggedIn s"
    and "sendUdpMessageAndAwaitReply E (ClientLoginUser_buildMessage \<lparr>lin_user_id = uid_of u, lin_password = pw\<rparr>)
      (\<lambda>b. Some (ServerLoginUser_readMessage StreamMessage b)) (prompted s) = (Ret ans, s1)"
  obtains s' where "client_round E (Some (''login '' @ u @ '' '' @ pw)) s = (Ret Continue, s')" "cl_net s' = cl_net s1"
    "if ans \<in> {Some Login_OK, Some Login_REG} then cl_user_id s' = uid_of u \<and> cl_password s' = pw
     else cl_user_id s' = cl_user_id s1 \<and> cl_password s' = cl_password s1"
proof -
  obtain s' where s': "LoginCommand_handle E (u @ '' '' @ pw) (prompted s) = (Ret Continue, s')" "cl_net s' = cl_net s1"
    "if ans \<in> {Some Login_OK, Some Login_REG} then cl_user_id s' = uid_of u \<and> cl_password s' = pw
     else cl_user_id s' = cl_user_id s1 \<and> cl_password s' = cl_password s1"
    using LoginCommand_answered [OF assms(1-3) _ assms(5)] assms(4) by auto
  have "client_round E (Some (''login '' @ u @ '' '' @ pw)) s = (Ret Continue, s')"
    by (rule round_command [of "''login''" LoginCommand E "u @ '' '' @ pw"]) (simp_all add: command_names(1) s'(1) [simplified])
  then show thesis using that s'(2,3) by blast
qed

text \<open>C18: An answer that comes late is taken for the answer to the next request. When the OK to a login comes after
  the five seconds the client waits, the user is told that no message came; a second login, with another id and any
  password, reads that OK, and the client holds the second user as logged in whatever the server says to the second
  request, whose own answer is left for the request after it.\<close>

theorem late_answer_logs_in:
  assumes "ce_udp E = socket_udp peer" and "\<not> isLoggedIn s" and "us_unread (cl_net s) = []"
    and "is_uid u" and "10 ^ 5 \<le> digits_val u" and "is_password pw"
    and "is_uid u'" and "10 ^ 5 \<le> digits_val u'" and "is_password pw'"
    and "peer (ClientLoginUser_buildMessage \<lparr>lin_user_id = uid_of u, lin_password = pw\<rparr>) (us_peer (cl_net s)) =
      (Some (''RLI OK'' @ endl, t), w)" and "1000000 * UDP_TIMEOUT < t"
    and "peer (ClientLoginUser_buildMessage \<lparr>lin_user_id = uid_of u', lin_password = pw'\<rparr>) w = (Some (x, t'), w')"
  shows "\<exists>s1 s2. client_round E (Some (''login '' @ u @ '' '' @ pw)) s = (Ret Continue, s1) \<and> \<not> isLoggedIn s1 \<and>
    client_round E (Some (''login '' @ u' @ '' '' @ pw')) s1 = (Ret Continue, s2) \<and>
    cl_user_id s2 = uid_of u' \<and> cl_password s2 = pw' \<and> cl_net s2 = \<lparr>us_unread = [x], us_peer = w'\<rparr>"
proof -
  let ?read = "\<lambda>b. Some (ServerLoginUser_readMessage StreamMessage b)"
  have late: "5000000 < t" using assms(11) by (simp add: UDP_TIMEOUT_def)
  have "sendUdpMessageAndAwaitReply E (ClientLoginUser_buildMessage \<lparr>lin_user_id = uid_of u, lin_password = pw\<rparr>) ?read (prompted s) =
      (Ret None, (prompted s)\<lparr>cl_net := \<lparr>us_unread = [''RLI OK'' @ endl], us_peer = w\<rparr>,
         cl_out := cl_out (prompted s) @ no_udp_answer\<rparr>)"
    by (rule late_login_exchange(1) [OF assms(1)]) (use assms(3,10) late in simp_all)
  from login_typed [OF assms(4-6,2) this] obtain s1
    where s1: "client_round E (Some (''login '' @ u @ '' '' @ pw)) s = (Ret Continue, s1)"
      "cl_net s1 = \<lparr>us_unread = [''RLI OK'' @ endl], us_peer = w\<rparr>" "cl_user_id s1 = cl_user_id s" by auto
  then have out: "\<not> isLoggedIn s1" using assms(2) by (simp add: isLoggedIn_def)
  have "sendUdpMessageAndAwaitReply E (ClientLoginUser_buildMessage \<lparr>lin_user_id = uid_of u', lin_password = pw'\<rparr>) ?read (prompted s1) =
      (Ret (Some Login_OK), (prompted s1)\<lparr>cl_net := \<lparr>us_unread = [] @ (case Some (x, t') of None \<Rightarrow> [] | Some (y, t) \<Rightarrow> [y]), us_peer = w'\<rparr>\<rparr>)"
    by (rule late_login_exchange(2) [OF assms(1)])
      (use s1(2) assms(12) login_text_read(1) in \<open>simp_all add: UDP_SOCKET_BUFFER_LEN_def endl_def\<close>)
  from login_typed [OF assms(7-9) out this] obtain s2
    where "client_round E (Some (''login '' @ u' @ '' '' @ pw')) s1 = (Ret Continue, s2)"
      "cl_net s2 = \<lparr>us_unread = [x], us_peer = w'\<rparr>" "cl_user_id s2 = uid_of u'" "cl_password s2 = pw'" by auto
  then show ?thesis using s1(1) out by blast
qed

text \<open>A server that takes six seconds for the first login and refuses the second one at once.\<close>

definition slow_peer :: "nat peer" where
  "slow_peer d n = (if n = 0 then (Some (''RLI OK'' @ endl, 6000000), 1) else (Some (''RLI NOK'' @ endl, 10), Suc n))"

definition slow_env :: "nat udp_socket client_env" where
  "slow_env = \<lparr>ce_udp = socket_udp slow_peer, ce_tcp = (\<lambda>d s. (Tcp_no_connection, s)), ce_uninit = NUL, ce_writable = (\<lambda>_. True),
     ce_megabytes = (\<lambda>_. []), ce_what = (\<lambda>_. []), ce_help_order = []\<rparr>"

definition slow_client :: "nat udp_socket client" where
  "slow_client = \<lparr>cl_user_id = LOGGED_OUT, cl_password = [], cl_files = Map.empty, cl_out = [], cl_net = \<lparr>us_unread = [], us_peer = 0\<rparr>\<rparr>"

lemma late_answer_logs_in_example:
  "\<exists>s1 s2. client_round slow_env (Some (''login '' @ alice @ '' '' @ alice_pw)) slow_client = (Ret Continue, s1) \<and>
     client_round slow_env (Some (''login '' @ bob @ '' '' @ alice_pw)) s1 = (Ret Continue, s2) \<and>
     cl_user_id s2 = uid_of bob \<and> us_unread (cl_net s2) = [''RLI NOK'' @ endl]"
proof -
  have v: "10 ^ 5 \<le> digits_val alice" "10 ^ 5 \<le> digits_val bob" by (simp_all add: alice_def bob_def digits_val_def digit_val_def)
  have "ce_udp slow_env = socket_udp slow_peer" "\<not> isLoggedIn slow_client" "us_unread (cl_net slow_client) = []"
    by (simp_all add: slow_env_def slow_client_def isLoggedIn_def)
  from late_answer_logs_in [OF this example_names(1) v(1) example_names(3) example_names(2) v(2) example_names(3),
      of 6000000 1 "''RLI NOK'' @ endl" 10 2]
  show ?thesis by (auto simp: slow_peer_def slow_client_def UDP_TIMEOUT_def)
qed

end
